(* ===== verification/Zuzu_Prelude.thy ===== *)
theory Zuzu_Prelude
  imports Main "HOL-Library.Word" "HOL-Library.Monad_Syntax"
begin

text \<open>
  Shared vocabulary of the development: the integer types of the kernel (the target is 32-bit ARM,
  so \<open>size_t\<close>, \<open>uintptr_t\<close>, \<open>PhysAddr\<close> and \<open>VirtAddr\<close> are 32-bit words and \<open>Time\<close> is a 64-bit
  word), the error codes of \<open>include/zuzu/err.h\<close>, the alignment macros of \<open>include/string.h\<close>, and
  the generic facts on words, lists and counting that the component theories use.
\<close>

unbundle bit_operations_syntax

section \<open>Machine integers\<close>

type_synonym u8 = "8 word"
type_synonym u16 = "16 word"
type_synonym u32 = "32 word"
type_synonym u64 = "64 word"

type_synonym PhysAddr = u32
type_synonym VirtAddr = u32
type_synonym Pfn = u32
type_synonym Time = u64

section \<open>Error codes\<close>

datatype Err =
    ZUZU_OK | ERR_NOPERM | ERR_NOENT | ERR_BUSY | ERR_NOMEM | ERR_BADTYPE | ERR_BADARG
  | ERR_NOSYS | ERR_BADPTR | ERR_DEAD | ERR_TIMEOUT | ERR_OVERFLOW | ERR_BADHANDLE

fun err_code :: "Err \<Rightarrow> int" where
  "err_code ZUZU_OK = 0"
| "err_code ERR_NOPERM = - 1"
| "err_code ERR_NOENT = - 2"
| "err_code ERR_BUSY = - 3"
| "err_code ERR_NOMEM = - 4"
| "err_code ERR_BADTYPE = - 5"
| "err_code ERR_BADARG = - 6"
| "err_code ERR_NOSYS = - 7"
| "err_code ERR_BADPTR = - 8"
| "err_code ERR_DEAD = - 9"
| "err_code ERR_TIMEOUT = - 10"
| "err_code ERR_OVERFLOW = - 11"
| "err_code ERR_BADHANDLE = - 12"

section \<open>Alignment\<close>

definition PAGE_SIZE :: u32 where
  "PAGE_SIZE = push_bit 12 1"

definition align_down :: "u32 \<Rightarrow> u32 \<Rightarrow> u32" where
  "align_down addr align = addr AND NOT (align - 1)"

definition align_up :: "u32 \<Rightarrow> u32 \<Rightarrow> u32" where
  "align_up addr align = (addr + align - 1) AND NOT (align - 1)"

section \<open>Assertions\<close>

text \<open>
  \<open>assert\<close> and \<open>panic\<close> of the kernel build stop the machine: an operation that reaches one returns
  \<^const>\<open>None\<close>, an operation that returns is \<^const>\<open>Some\<close>.
\<close>

definition kassert :: "bool \<Rightarrow> unit option" where
  "kassert c = (if c then Some () else None)"

lemma kassert_bind [simp]: "kassert c \<bind> f = (if c then f () else None)"
  by (simp add: kassert_def)

section \<open>Collections of rewrite rules\<close>

named_theorems frame_simps \<open>fields an operation leaves alone\<close>
named_theorems const_defs \<open>numeric constants of the source\<close>

lemma PAGE_SIZE_val [simp, const_defs]: "PAGE_SIZE = 4096"
  by (simp add: PAGE_SIZE_def)

section \<open>Words as numbers\<close>

lemma unat_and_mask: "unat ((x :: 'a::len word) AND mask n) = unat x mod 2 ^ n"
proof -
  have "unat (x AND mask n) = take_bit n (unat x)"
    by (rule bit_eqI) (auto simp: bit_simps dest: bit_imp_le_length)
  then show ?thesis
    by (simp add: take_bit_eq_mod)
qed

lemma unat_and_not_mask: "unat ((x :: 'a::len word) AND NOT (mask n)) = unat x div 2 ^ n * 2 ^ n"
proof -
  have "unat (x AND NOT (mask n)) = push_bit n (drop_bit n (unat x))"
    by (rule bit_eqI) (auto simp: bit_simps dest: bit_imp_le_length)
  then show ?thesis
    by (simp add: push_bit_eq_mult drop_bit_eq_div)
qed

lemma mask_12: "(4095 :: 'a::len word) = mask 12"
  by (simp add: mask_numeral)

lemma unat_align_down_page: "unat (align_down x PAGE_SIZE) = unat x div 4096 * 4096"
  using unat_and_not_mask [of x 12] by (simp add: align_down_def mask_12)

lemma unat_align_up_page:
  assumes "unat x + 4095 < 2 ^ 32"
  shows "unat (align_up x PAGE_SIZE) = (unat x + 4095) div 4096 * 4096"
proof -
  have "unat (x + 4095) = unat x + 4095"
    using assms by (simp add: unat_word_ariths)
  then show ?thesis
    using unat_and_not_mask [of "x + 4095" 12]
    by (simp add: align_up_def mask_12 [symmetric] add.commute)
qed

lemma page_mod_iff: "pa mod (4096 :: u32) = 0 \<longleftrightarrow> unat pa mod 4096 = 0"
  by (simp add: word_unat_eq_iff unat_mod)

lemma align_up_page_mod: "unat (align_up x PAGE_SIZE) mod 4096 = 0"
  using unat_and_not_mask [of "x + 4095" 12] by (simp add: align_up_def mask_12 [symmetric] add.commute)

lemma unat_of_nat_less: "i < unat (n :: 'a::len word) \<Longrightarrow> unat (of_nat i :: 'a word) = i"
  using unsigned_less [of n] by (simp add: unat_of_nat order_less_trans [of i "unat n"])

lemma unat_plus1: "x < (y :: 'a::len word) \<Longrightarrow> unat (x + 1) = unat x + 1"
proof -
  assume "x < y"
  then have "unat x + 1 < 2 ^ LENGTH('a)"
    using unsigned_less [of y, where 'a = nat] unfolding word_less_nat_alt by linarith
  then show ?thesis
    by (simp add: unat_word_ariths)
qed

lemma unat_minus1: "0 < (x :: 'a::len word) \<Longrightarrow> unat (x - 1) = unat x - 1"
  by (simp add: unat_sub_if' word_less_nat_alt)

section \<open>Counting\<close>

lemma card_filter_upt: "card {i. i < n \<and> P i} = length (filter P [0..<n])"
proof -
  have "{i. i < n \<and> P i} = set (filter P [0..<n])"
    by auto
  then show ?thesis
    using distinct_card [of "filter P [0..<n]"] by simp
qed

lemma card_less_remove:
  assumes "i < n" "P i" "\<And>j. j < n \<Longrightarrow> Q j \<longleftrightarrow> P j \<and> j \<noteq> i"
  shows "card {j. j < (n :: nat) \<and> Q j} = card {j. j < n \<and> P j} - 1"
proof -
  have "{j. j < n \<and> Q j} = {j. j < n \<and> P j} - {i}"
    using assms(3) by auto
  then show ?thesis
    using assms(1,2) by simp
qed

lemma card_less_insert:
  assumes "i < n" "\<not> P i" "\<And>j. j < n \<Longrightarrow> Q j \<longleftrightarrow> P j \<or> j = i"
  shows "card {j. j < (n :: nat) \<and> Q j} = Suc (card {j. j < n \<and> P j})"
proof -
  have "{j. j < n \<and> Q j} = insert i {j. j < n \<and> P j}"
    using assms(1,3) by auto
  moreover have "finite {j. j < n \<and> P j}"
    by (rule finite_subset [of _ "{..<n}"]) auto
  ultimately show ?thesis
    using assms(2) by simp
qed

lemma card_less_le: "card {j. j < n \<and> P j} \<le> (n :: nat)"
proof -
  have "card {j. j < n \<and> P j} \<le> card {..<n}"
    by (rule card_mono) auto
  then show ?thesis by simp
qed

section \<open>Lists\<close>

lemma remove1_split: "distinct (xs @ x # ys) \<Longrightarrow> remove1 x (xs @ x # ys) = xs @ ys"
  by (induction xs) auto

lemma distinct_set_remove1 [simp]: "distinct xs \<Longrightarrow> set (remove1 x xs) = set xs - {x}"
  by simp

lemma takeWhile_upt_least:
  assumes "k < n" "Q k" "\<And>j. j < k \<Longrightarrow> \<not> Q j"
  shows "length (takeWhile (\<lambda>i. \<not> Q i) [0..<n]) = k"
proof -
  have "[0..<n] = [0..<k] @ k # [Suc k..<n]"
    using assms(1) upt_add_eq_append [of 0 k "n - k"] upt_conv_Cons [of k n] by simp
  moreover have "takeWhile (\<lambda>i. \<not> Q i) ([0..<k] @ k # [Suc k..<n]) = [0..<k]"
    using assms(2,3) by (subst takeWhile_append2) auto
  ultimately show ?thesis
    by simp
qed

end
