(* ===== verification/Bitmap.thy ===== *)
theory Bitmap
  imports Zuzu_Prelude
begin

text \<open>
  The fixed-size bitmaps of \<open>include/bitmap.h\<close> (arrays of 32-bit words) and the interface they share
  with the byte bitmaps of the frame allocator and of the ASID allocator. A bitmap is the list of its
  words; an index is a \<open>size_t\<close>, here a natural number. The C code does not check an index against
  the array, so every law carries the bound it relies on.
\<close>

section \<open>Operations of bitmap.h\<close>

text \<open>The conversion of a \<open>size_t\<close> to the \<open>int\<close> the searches return.\<close>

definition c_int :: "nat \<Rightarrow> int" where
  "c_int n = sint (of_nat n :: u32)"

definition BITMAP_WORDS :: "nat \<Rightarrow> nat" where
  "BITMAP_WORDS nbits = (nbits + 31) div 32"

definition BitmapZero :: "u32 list \<Rightarrow> nat \<Rightarrow> u32 list" where
  "BitmapZero ws nbits =
     fold (\<lambda>w ws. ws[w := 0]) [0..<BITMAP_WORDS nbits] ws"

definition BitmapSet :: "u32 list \<Rightarrow> nat \<Rightarrow> u32 list" where
  "BitmapSet ws i = ws[i div 32 := ws ! (i div 32) OR push_bit (i mod 32) 1]"

definition BitmapClr :: "u32 list \<Rightarrow> nat \<Rightarrow> u32 list" where
  "BitmapClr ws i = ws[i div 32 := ws ! (i div 32) AND NOT (push_bit (i mod 32) 1)]"

definition BitmapTest :: "u32 list \<Rightarrow> nat \<Rightarrow> bool" where
  "BitmapTest ws i \<longleftrightarrow> drop_bit (i mod 32) (ws ! (i div 32)) AND 1 \<noteq> 0"

definition builtin_ctz :: "u32 \<Rightarrow> nat" where
  "builtin_ctz w = length (takeWhile (\<lambda>i. \<not> bit w i) [0..<32])"

fun find_word :: "u32 list \<Rightarrow> nat list \<Rightarrow> nat option" where
  "find_word ws [] = None"
| "find_word ws (w # rest) = (if ws ! w \<noteq> 0xFFFFFFFF then Some w else find_word ws rest)"

definition BitmapFindFirstZero :: "u32 list \<Rightarrow> nat \<Rightarrow> int" where
  "BitmapFindFirstZero ws nbits =
     (let full = nbits div 32
      in case find_word ws [0..<full] of
           Some w \<Rightarrow> c_int (w * 32 + builtin_ctz (NOT (ws ! w)))
         | None \<Rightarrow>
             (let rem = nbits mod 32
              in if rem \<noteq> 0
                 then (let free = NOT (ws ! full) AND (push_bit rem 1 - 1)
                       in if free \<noteq> 0 then c_int (full * 32 + builtin_ctz free) else - 1)
                 else - 1))"

fun clear_run_scan :: "u32 list \<Rightarrow> nat \<Rightarrow> nat \<Rightarrow> nat list \<Rightarrow> int" where
  "clear_run_scan ws run count [] = - 1"
| "clear_run_scan ws run count (i # rest) =
     (if BitmapTest ws i then clear_run_scan ws run 0 rest
      else if Suc count = run then c_int (i + 1 - run)
      else clear_run_scan ws run (Suc count) rest)"

definition BitmapFindClearRun :: "u32 list \<Rightarrow> nat \<Rightarrow> nat \<Rightarrow> int" where
  "BitmapFindClearRun ws nbits run =
     (if run = 0 \<or> run > nbits then - 1 else clear_run_scan ws run 0 [0..<nbits])"

definition BitmapSetRange :: "u32 list \<Rightarrow> nat \<Rightarrow> nat \<Rightarrow> u32 list" where
  "BitmapSetRange ws start count = fold (\<lambda>i ws. BitmapSet ws (start + i)) [0..<count] ws"

definition BitmapClrRange :: "u32 list \<Rightarrow> nat \<Rightarrow> nat \<Rightarrow> u32 list" where
  "BitmapClrRange ws start count = fold (\<lambda>i ws. BitmapClr ws (start + i)) [0..<count] ws"

section \<open>The bit-array interface\<close>

text \<open>
  What the allocators rely on: setting and clearing one bit changes that bit only. The frame
  allocator and the ASID allocator store the bits in bytes, \<open>bitmap.h\<close> in words; all three are
  instances.
\<close>

locale bit_array =
  fixes test :: "'b \<Rightarrow> nat \<Rightarrow> bool"
    and set1 :: "'b \<Rightarrow> nat \<Rightarrow> 'b"
    and clr1 :: "'b \<Rightarrow> nat \<Rightarrow> 'b"
    and cap :: "'b \<Rightarrow> nat"
  assumes test_set1: "i < cap b \<Longrightarrow> j < cap b \<Longrightarrow> test (set1 b i) j \<longleftrightarrow> j = i \<or> test b j"
    and test_clr1: "i < cap b \<Longrightarrow> j < cap b \<Longrightarrow> test (clr1 b i) j \<longleftrightarrow> j \<noteq> i \<and> test b j"
    and cap_set1: "cap (set1 b i) = cap b"
    and cap_clr1: "cap (clr1 b i) = cap b"
begin

lemma set1_clear_count:
  assumes "n \<le> cap b" "i < n" "\<not> test b i"
  shows "card {j. j < n \<and> \<not> test (set1 b i) j} = card {j. j < n \<and> \<not> test b j} - 1"
  using assms by (intro card_less_remove [of i]) (auto simp: test_set1)

lemma clr1_clear_count:
  assumes "n \<le> cap b" "i < n" "test b i"
  shows "card {j. j < n \<and> \<not> test (clr1 b i) j} = Suc (card {j. j < n \<and> \<not> test b j})"
  using assms by (intro card_less_insert [of i]) (auto simp: test_clr1)

lemma clear_count_pos:
  assumes "i < n" "\<not> test b i"
  shows "0 < card {j. j < n \<and> \<not> test b j}"
proof -
  have "finite {j. j < n \<and> \<not> test b j}"
    by (rule finite_subset [of _ "{..<n}"]) auto
  then show ?thesis
    using assms by (auto simp: card_gt_0_iff)
qed

lemma cap_fold_set1 [simp]: "cap (fold (\<lambda>i b. set1 b (f i)) xs b) = cap b"
  by (induction xs arbitrary: b) (auto simp: cap_set1)

lemma test_fold_set1:
  assumes "\<And>i. i \<in> set xs \<Longrightarrow> f i < cap b" "j < cap b"
  shows "test (fold (\<lambda>i b. set1 b (f i)) xs b) j \<longleftrightarrow> j \<in> f ` set xs \<or> test b j"
  using assms by (induction xs arbitrary: b) (auto simp: test_set1 cap_set1)

lemma cap_fold_clr1 [simp]: "cap (fold (\<lambda>i b. clr1 b (f i)) xs b) = cap b"
  by (induction xs arbitrary: b) (auto simp: cap_clr1)

lemma test_fold_clr1:
  assumes "\<And>i. i \<in> set xs \<Longrightarrow> f i < cap b" "j < cap b"
  shows "test (fold (\<lambda>i b. clr1 b (f i)) xs b) j \<longleftrightarrow> j \<notin> f ` set xs \<and> test b j"
  using assms by (induction xs arbitrary: b) (auto simp: test_clr1 cap_clr1)

end

subsection \<open>Bits of a list of words\<close>

text \<open>One argument for words of every width: the bit at position \<open>i\<close> of a list of \<open>w\<close>-bit words.\<close>

lemma word_list_set_bit:
  fixes ws :: "'a::len word list"
  assumes "w = LENGTH('a)" "i < length ws * w" "j < length ws * w"
  shows "bit (ws[i div w := ws ! (i div w) OR push_bit (i mod w) 1] ! (j div w)) (j mod w)
     \<longleftrightarrow> j = i \<or> bit (ws ! (j div w)) (j mod w)"
proof -
  have w: "0 < w" using assms(1) by simp
  have i: "i div w < length ws"
    using assms(2) by (simp add: less_mult_imp_div_less)
  have eq: "j = i \<longleftrightarrow> j div w = i div w \<and> j mod w = i mod w"
    by (metis div_mult_mod_eq)
  show ?thesis
    using i eq w assms(1) by (auto simp: nth_list_update bit_simps)
qed

lemma word_list_clr_bit:
  fixes ws :: "'a::len word list"
  assumes "w = LENGTH('a)" "i < length ws * w" "j < length ws * w"
  shows "bit (ws[i div w := ws ! (i div w) AND NOT (push_bit (i mod w) 1)] ! (j div w)) (j mod w)
     \<longleftrightarrow> j \<noteq> i \<and> bit (ws ! (j div w)) (j mod w)"
proof -
  have w: "0 < w" using assms(1) by simp
  have i: "i div w < length ws"
    using assms(2) by (simp add: less_mult_imp_div_less)
  have eq: "j = i \<longleftrightarrow> j div w = i div w \<and> j mod w = i mod w"
    by (metis div_mult_mod_eq)
  have jw: "j mod w < w" using w by simp
  show ?thesis
    using i eq w jw assms(1) by (auto simp: nth_list_update bit_simps)
qed

lemma BitmapTest_bit: "BitmapTest ws i \<longleftrightarrow> bit (ws ! (i div 32)) (i mod 32)"
  by (simp add: BitmapTest_def and_one_eq bit_iff_odd_drop_bit odd_iff_mod_2_eq_one)

lemma length_BitmapSet [simp]: "length (BitmapSet ws i) = length ws"
  by (simp add: BitmapSet_def)

lemma length_BitmapClr [simp]: "length (BitmapClr ws i) = length ws"
  by (simp add: BitmapClr_def)

interpretation wbits: bit_array BitmapTest BitmapSet BitmapClr "\<lambda>ws. length ws * 32"
proof unfold_locales
  fix ws :: "u32 list" and i j
  assume "i < length ws * 32" "j < length ws * 32"
  then show "BitmapTest (BitmapSet ws i) j \<longleftrightarrow> j = i \<or> BitmapTest ws j"
    using word_list_set_bit [of 32 i ws j] by (simp add: BitmapTest_bit BitmapSet_def)
next
  fix ws :: "u32 list" and i j
  assume "i < length ws * 32" "j < length ws * 32"
  then show "BitmapTest (BitmapClr ws i) j \<longleftrightarrow> j \<noteq> i \<and> BitmapTest ws j"
    using word_list_clr_bit [of 32 i ws j] by (simp add: BitmapTest_bit BitmapClr_def)
qed simp_all

subsection \<open>Byte bitmaps\<close>

text \<open>The expressions \<open>bitmap[i / 8] & (1U << (i % 8))\<close>, \<open>|=\<close> and \<open>&= ~\<close> of the PMM and the ASID allocator.\<close>

definition byte_test :: "u8 list \<Rightarrow> nat \<Rightarrow> bool" where
  "byte_test bm i \<longleftrightarrow> bm ! (i div 8) AND push_bit (i mod 8) 1 \<noteq> 0"

definition byte_set :: "u8 list \<Rightarrow> nat \<Rightarrow> u8 list" where
  "byte_set bm i = bm[i div 8 := bm ! (i div 8) OR push_bit (i mod 8) 1]"

definition byte_clr :: "u8 list \<Rightarrow> nat \<Rightarrow> u8 list" where
  "byte_clr bm i = bm[i div 8 := bm ! (i div 8) AND NOT (push_bit (i mod 8) 1)]"

lemma byte_test_bit: "byte_test bm i \<longleftrightarrow> bit (bm ! (i div 8)) (i mod 8)"
  by (simp add: byte_test_def push_bit_of_1 and_exp_eq_0_iff_not_bit)

lemma length_byte_set [simp]: "length (byte_set bm i) = length bm"
  by (simp add: byte_set_def)

lemma length_byte_clr [simp]: "length (byte_clr bm i) = length bm"
  by (simp add: byte_clr_def)

interpretation bbits: bit_array byte_test byte_set byte_clr "\<lambda>bm. length bm * 8"
proof unfold_locales
  fix bm :: "u8 list" and i j
  assume "i < length bm * 8" "j < length bm * 8"
  then show "byte_test (byte_set bm i) j \<longleftrightarrow> j = i \<or> byte_test bm j"
    using word_list_set_bit [of 8 i bm j] by (simp add: byte_test_bit byte_set_def)
next
  fix bm :: "u8 list" and i j
  assume "i < length bm * 8" "j < length bm * 8"
  then show "byte_test (byte_clr bm i) j \<longleftrightarrow> j \<noteq> i \<and> byte_test bm j"
    using word_list_clr_bit [of 8 i bm j] by (simp add: byte_test_bit byte_clr_def)
qed simp_all

lemma byte_test_replicate [simp]: "i < n * 8 \<Longrightarrow> \<not> byte_test (replicate n 0) i"
  by (simp add: byte_test_bit less_mult_imp_div_less)

section \<open>First clear bit\<close>

lemma word32_neq_0_iff: "(w :: u32) \<noteq> 0 \<longleftrightarrow> (\<exists>i<32. bit w i)"
  by (auto simp: bit_eq_iff dest: bit_imp_le_length)

lemma word32_full_iff: "(w :: u32) \<noteq> 0xFFFFFFFF \<longleftrightarrow> (\<exists>i<32. \<not> bit w i)"
proof -
  have "(0xFFFFFFFF :: u32) = NOT 0"
    by simp
  then have "w \<noteq> 0xFFFFFFFF \<longleftrightarrow> NOT w \<noteq> 0"
    by (metis bit.double_compl)
  then show ?thesis
    by (auto simp: word32_neq_0_iff bit_simps)
qed

lemma builtin_ctz_props:
  assumes "w \<noteq> 0"
  shows "builtin_ctz w < 32 \<and> bit w (builtin_ctz w) \<and> (\<forall>j < builtin_ctz w. \<not> bit w j)"
proof -
  define k where "k = (LEAST i. bit w i)"
  have k: "bit w k"
    unfolding k_def using assms by (auto simp: word32_neq_0_iff intro: LeastI)
  moreover have "\<not> bit w j" if "j < k" for j
    using that unfolding k_def by (rule not_less_Least)
  moreover have "k < 32"
    using k by (auto dest: bit_imp_le_length)
  ultimately show ?thesis
    using takeWhile_upt_least [of k 32 "bit w"] by (simp add: builtin_ctz_def)
qed

lemma find_word_None: "find_word ws xs = None \<longleftrightarrow> (\<forall>w \<in> set xs. ws ! w = 0xFFFFFFFF)"
  by (induction xs) auto

lemma find_word_Some:
  "find_word ws xs = Some w \<Longrightarrow>
     \<exists>ys zs. xs = ys @ w # zs \<and> ws ! w \<noteq> 0xFFFFFFFF \<and> (\<forall>v \<in> set ys. ws ! v = 0xFFFFFFFF)"
proof (induction xs)
  case (Cons x xs)
  show ?case
  proof (cases "ws ! x \<noteq> 0xFFFFFFFF")
    case True
    with Cons.prems show ?thesis
      by (intro exI [of _ "[]"] exI [of _ xs]) simp
  next
    case False
    with Cons obtain ys zs where "xs = ys @ w # zs" "ws ! w \<noteq> 0xFFFFFFFF"
      "\<forall>v \<in> set ys. ws ! v = 0xFFFFFFFF"
      by auto
    with False show ?thesis
      by (intro exI [of _ "x # ys"] exI [of _ zs]) simp
  qed
qed simp

lemma find_word_upt:
  assumes "find_word ws [0..<n] = Some w"
  shows "w < n \<and> ws ! w \<noteq> 0xFFFFFFFF \<and> (\<forall>v < w. ws ! v = 0xFFFFFFFF)"
proof -
  obtain ys zs where e: "[0..<n] = ys @ w # zs" "ws ! w \<noteq> 0xFFFFFFFF"
    "\<forall>v \<in> set ys. ws ! v = 0xFFFFFFFF"
    using find_word_Some [OF assms] by blast
  have "length ys < n"
    using arg_cong [OF e(1), of length] by simp
  then have w: "w = length ys"
    using arg_cong [OF e(1), of "\<lambda>l. l ! length ys"] by simp
  have "ys = take (length ys) [0..<n]"
    using e(1) by simp
  then have "set ys = {0..<w}"
    using w \<open>length ys < n\<close> by (metis add_0 less_imp_le_nat set_upt take_upt)
  then show ?thesis
    using e w \<open>length ys < n\<close> by auto
qed

lemma c_int_small [simp]: "n < 2 ^ 31 \<Longrightarrow> c_int n = int n"
  by (simp add: c_int_def signed_of_nat signed_take_bit_int_eq_self)

text \<open>\<open>first_clear test n r\<close>: \<open>r\<close> is the least clear position below \<open>n\<close>, or -1 if there is none.\<close>

definition first_clear :: "(nat \<Rightarrow> bool) \<Rightarrow> nat \<Rightarrow> int \<Rightarrow> bool" where
  "first_clear t n r \<longleftrightarrow>
     (if r = - 1 then \<forall>i < n. t i
      else 0 \<le> r \<and> nat r < n \<and> \<not> t (nat r) \<and> (\<forall>j < nat r. t j))"

lemma first_clear_word:
  assumes w: "w \<noteq> 0" "n \<le> 2 ^ 31" and w_bits: "\<And>j. j < 32 \<Longrightarrow> bit w j \<longleftrightarrow> j < m \<and> \<not> t (base + j)"
    and "m \<le> 32" "base + m \<le> n" "\<And>j. j < base \<Longrightarrow> t j"
  shows "first_clear t n (c_int (base + builtin_ctz w))"
proof -
  have c: "builtin_ctz w < 32" "bit w (builtin_ctz w)" "\<And>j. j < builtin_ctz w \<Longrightarrow> \<not> bit w j"
    using builtin_ctz_props [OF w(1)] by auto
  have "t j" if "j < base + builtin_ctz w" for j
  proof (cases "j < base")
    case False
    then have "j = base + (j - base)" "j - base < builtin_ctz w"
      using that by auto
    then show ?thesis
      using c w_bits [of "j - base"] w_bits [of "builtin_ctz w"] by auto
  qed (use assms(6) in simp)
  moreover have "builtin_ctz w < m" "\<not> t (base + builtin_ctz w)"
    using c w_bits [of "builtin_ctz w"] by auto
  ultimately show ?thesis
    using assms(2,5) by (simp add: first_clear_def del: of_nat_add)
qed

lemma full_words_set:
  assumes "\<forall>v < w. ws ! v = 0xFFFFFFFF" "j < w * 32"
  shows "BitmapTest ws j"
proof -
  have "ws ! (j div 32) = 0xFFFFFFFF"
    using assms by (simp add: less_mult_imp_div_less)
  then have "bit (ws ! (j div 32)) (j mod 32)"
    using word32_full_iff [of "ws ! (j div 32)"] by (metis mod_less_divisor zero_less_numeral)
  then show ?thesis by (simp add: BitmapTest_bit)
qed

lemma BitmapTest_block: "j < 32 \<Longrightarrow> BitmapTest ws (w * 32 + j) \<longleftrightarrow> bit (ws ! w) j"
  by (simp add: BitmapTest_bit)

lemma low_mask_bit: "r < 32 \<Longrightarrow> bit (push_bit r 1 - 1 :: u32) j \<longleftrightarrow> j < r"
proof -
  assume "r < 32"
  have "(push_bit r 1 - 1 :: u32) = mask r"
    by (simp add: mask_eq_exp_minus_1 push_bit_of_1)
  then show ?thesis
    using \<open>r < 32\<close> by (auto simp: bit_mask_iff)
qed

lemma BitmapFindFirstZero_first_clear:
  assumes "nbits \<le> length ws * 32" "nbits \<le> 2 ^ 31"
  shows "first_clear (BitmapTest ws) nbits (BitmapFindFirstZero ws nbits)"
proof (cases "find_word ws [0..<nbits div 32]")
  case (Some w)
  note fw = find_word_upt [OF Some]
  have "first_clear (BitmapTest ws) nbits (c_int (w * 32 + builtin_ctz (NOT (ws ! w))))"
  proof (rule first_clear_word [where m = 32])
    show "NOT (ws ! w) \<noteq> 0"
      using fw word32_full_iff [of "ws ! w"] by (auto simp: word32_neq_0_iff bit_simps)
    show "w * 32 + 32 \<le> nbits"
      using fw by (auto simp: less_eq_div_iff_mult_less_eq [symmetric] Suc_le_eq)
    show "BitmapTest ws j" if "j < w * 32" for j
      using fw that by (intro full_words_set) auto
  qed (use assms(2) in \<open>auto simp: BitmapTest_block bit_simps\<close>)
  with Some show ?thesis
    by (simp add: BitmapFindFirstZero_def)
next
  case None
  define full where "full = nbits div 32"
  define rem where "rem = nbits mod 32"
  define free where "free = NOT (ws ! full) AND (push_bit rem 1 - 1)"
  have n: "nbits = full * 32 + rem" "rem < 32"
    by (simp_all add: full_def rem_def)
  have below: "BitmapTest ws j" if "j < full * 32" for j
    using None that unfolding full_def [symmetric]
    by (intro full_words_set [of full]) (auto simp: find_word_None)
  have free_bit: "bit free j \<longleftrightarrow> j < rem \<and> \<not> BitmapTest ws (full * 32 + j)" if "j < 32" for j
    using that low_mask_bit [OF n(2), of j] BitmapTest_block [OF that, of ws full]
    by (simp only: free_def bit_and_iff bit_not_iff) auto
  have all: "first_clear (BitmapTest ws) nbits (- 1)" if "rem = 0 \<or> free = 0"
  proof -
    have "BitmapTest ws j" if j: "j < nbits" for j
    proof (cases "j < full * 32")
      case False
      then have "j = full * 32 + (j - full * 32)" "j - full * 32 < rem"
        using j n by auto
      then show ?thesis
        using \<open>rem = 0 \<or> free = 0\<close> free_bit [of "j - full * 32"] n(2) by auto
    qed (use below in simp)
    then show ?thesis
      by (simp add: first_clear_def)
  qed
  have hit: "first_clear (BitmapTest ws) nbits (c_int (full * 32 + builtin_ctz free))" if "free \<noteq> 0"
    using that assms(2) free_bit below n by (intro first_clear_word [where m = rem]) auto
  show ?thesis
    using None all hit by (auto simp: BitmapFindFirstZero_def Let_def full_def rem_def free_def)
qed

lemma first_clear_find:
  assumes "first_clear t n r"
  shows "r = (case find (\<lambda>i. \<not> t i) [0..<n] of None \<Rightarrow> - 1 | Some i \<Rightarrow> int i)"
proof (cases "r = - 1")
  case True
  then have "find (\<lambda>i. \<not> t i) [0..<n] = None"
    using assms by (simp add: first_clear_def find_None_iff)
  then show ?thesis
    using True by simp
next
  case False
  then have "find (\<lambda>i. \<not> t i) [0..<n] = Some (nat r)"
    using assms unfolding find_Some_iff by (intro exI [of _ "nat r"]) (auto simp: first_clear_def)
  then show ?thesis
    using False assms by (simp add: first_clear_def)
qed

section \<open>First clear run\<close>

definition clear_run :: "(nat \<Rightarrow> bool) \<Rightarrow> nat \<Rightarrow> nat \<Rightarrow> bool" where
  "clear_run t run s \<longleftrightarrow> (\<forall>i. s \<le> i \<and> i < s + run \<longrightarrow> \<not> t i)"

text \<open>\<open>first_run t n run r\<close>: \<open>r\<close> starts the first run of \<open>run\<close> clear positions below \<open>n\<close>, or is -1.\<close>

definition first_run :: "(nat \<Rightarrow> bool) \<Rightarrow> nat \<Rightarrow> nat \<Rightarrow> int \<Rightarrow> bool" where
  "first_run t n run r \<longleftrightarrow>
     (if r = - 1 then \<forall>s. s + run \<le> n \<longrightarrow> \<not> clear_run t run s
      else 0 \<le> r \<and> nat r + run \<le> n \<and> clear_run t run (nat r)
         \<and> (\<forall>s < nat r. \<not> clear_run t run s))"

lemma clear_run_scan_first_run:
  assumes "0 < run" "i \<le> n" "count \<le> i" "count < run" "n \<le> 2 ^ 31"
    and "\<And>j. i - count \<le> j \<Longrightarrow> j < i \<Longrightarrow> \<not> BitmapTest ws j"
    and "\<And>s. s < i - count \<Longrightarrow> \<not> clear_run (BitmapTest ws) run s"
  shows "first_run (BitmapTest ws) n run (clear_run_scan ws run count [i..<n])"
  using assms
proof (induction "n - i" arbitrary: i count)
  case 0
  then have "i = n" by simp
  have "\<not> clear_run (BitmapTest ws) run s" if "s + run \<le> n" for s
    using 0 that \<open>i = n\<close> by auto
  then show ?case
    using \<open>i = n\<close> by (simp add: first_run_def)
next
  case (Suc d)
  then have "i < n" by simp
  then have upt: "[i..<n] = i # [Suc i..<n]"
    by (rule upt_conv_Cons)
  show ?case
  proof (cases "BitmapTest ws i")
    case True
    have "\<not> clear_run (BitmapTest ws) run s" if "s < Suc i" for s
    proof (cases "s < i - count")
      case False
      then have "s \<le> i" "i < s + run"
        using that Suc.prems by auto
      then show ?thesis
        using True by (auto simp: clear_run_def)
    qed (use Suc.prems in simp)
    then show ?thesis
      using Suc.hyps(1) [of "Suc i" 0] Suc.hyps(2) \<open>i < n\<close> Suc.prems(1,5) True
      by (simp add: upt del: upt_Suc)
  next
    case False
    have clear: "\<not> BitmapTest ws j" if "i - count \<le> j" "j < Suc i" for j
      using Suc.prems(6) [of j] that False by (auto simp: less_Suc_eq)
    show ?thesis
    proof (cases "Suc count = run")
      case True
      then have "i + 1 - run = i - count" "i - count + run = Suc i"
        using Suc.prems by auto
      then show ?thesis
        using True False \<open>i < n\<close> clear Suc.prems(5,7)
        by (auto simp: upt first_run_def clear_run_def nat_diff_distrib of_nat_diff)
    next
      case neq: False
      have "first_run (BitmapTest ws) n run (clear_run_scan ws run (Suc count) [Suc i..<n])"
        using Suc.hyps(2) \<open>i < n\<close> Suc.prems neq clear by (intro Suc.hyps(1)) auto
      then show ?thesis
        using False neq by (simp add: upt del: upt_Suc)
    qed
  qed
qed

lemma BitmapFindClearRun_first_run:
  assumes "0 < run" "nbits \<le> 2 ^ 31"
  shows "first_run (BitmapTest ws) nbits run (BitmapFindClearRun ws nbits run)"
proof (cases "run > nbits")
  case True
  then show ?thesis
    by (auto simp: BitmapFindClearRun_def first_run_def)
next
  case False
  then show ?thesis
    using assms clear_run_scan_first_run [of run 0 nbits 0 ws] by (simp add: BitmapFindClearRun_def)
qed

lemma first_run_find:
  assumes "first_run t n run r" "run \<le> n"
  shows "r = (case find (clear_run t run) [0..<n + 1 - run] of None \<Rightarrow> - 1 | Some s \<Rightarrow> int s)"
proof (cases "r = - 1")
  case True
  then have "find (clear_run t run) [0..<n + 1 - run] = None"
    using assms by (auto simp: first_run_def find_None_iff)
  then show ?thesis
    using True by simp
next
  case False
  then have "find (clear_run t run) [0..<n + 1 - run] = Some (nat r)"
    using assms unfolding find_Some_iff
    by (intro exI [of _ "nat r"]) (auto simp: first_run_def simp del: upt_Suc)
  then show ?thesis
    using False assms by (simp add: first_run_def)
qed

section \<open>Ranges\<close>

lemma length_BitmapZero [simp]: "length (BitmapZero ws nbits) = length ws"
proof -
  have "length (fold (\<lambda>w ws. ws[w := 0]) xs ws) = length ws" for xs and ws :: "u32 list"
    by (induction xs arbitrary: ws) auto
  then show ?thesis by (simp add: BitmapZero_def)
qed

lemma BitmapSetRange_test:
  assumes "start + count \<le> length ws * 32" "j < length ws * 32"
  shows "BitmapTest (BitmapSetRange ws start count) j
     \<longleftrightarrow> start \<le> j \<and> j < start + count \<or> BitmapTest ws j"
proof -
  have "BitmapTest (BitmapSetRange ws start count) j
     \<longleftrightarrow> j \<in> (+) start ` set [0..<count] \<or> BitmapTest ws j"
    unfolding BitmapSetRange_def using assms by (intro wbits.test_fold_set1) auto
  then show ?thesis
    by (auto simp: image_iff intro: bexI [of _ "j - start"])
qed

lemma BitmapClrRange_test:
  assumes "start + count \<le> length ws * 32" "j < length ws * 32"
  shows "BitmapTest (BitmapClrRange ws start count) j
     \<longleftrightarrow> \<not> (start \<le> j \<and> j < start + count) \<and> BitmapTest ws j"
proof -
  have "BitmapTest (BitmapClrRange ws start count) j
     \<longleftrightarrow> j \<notin> (+) start ` set [0..<count] \<and> BitmapTest ws j"
    unfolding BitmapClrRange_def using assms by (intro wbits.test_fold_clr1) auto
  then show ?thesis
    by (auto simp: image_iff intro: bexI [of _ "j - start"])
qed

end
