(* ===== verification/Pmm.thy ===== *)
theory Pmm
  imports Bitmap
begin

text \<open>
  The physical frame allocator: \<open>kernel/mm/pmm/pmm.c\<close>, \<open>pmm.h\<close>, \<open>pmm_internal.h\<close> and the pressure
  notification of \<open>pmm_pressure.c\<close>. The state is \<open>PmmState\<close> with the bitmap as the bytes it points
  to, the \<open>FreeNode\<close> words stored inside the frames as two functions of the physical address, the
  word of the system page that \<open>SyspageUpdateMem\<close> publishes, and the low-memory subscribers. A frame
  that is allocated belongs to its owner, who may overwrite its \<open>FreeNode\<close> words.
\<close>

section \<open>State\<close>

type_synonym SubEvent = u32

record PmmState =
  pfn_base :: Pfn
  pfn_end :: Pfn
  total_frames :: u32
  free_frames :: u32
  bitmap :: "u8 list"
  bitmap_bytes :: u32
  freelist_head :: PhysAddr
  freelist_ready :: bool
  in_pressure :: bool
  node_next :: "PhysAddr \<Rightarrow> PhysAddr"
  node_prev :: "PhysAddr \<Rightarrow> PhysAddr"
  mem_free_kb :: "u32 option"
  pmm_subscribers :: "SubEvent list"
  sub_alive :: "SubEvent \<Rightarrow> bool"
  sub_signals :: "SubEvent list"
  sub_unrefs :: "SubEvent list"

definition PA_NULL :: PhysAddr where
  "PA_NULL = 0"

definition PfnToPa :: "Pfn \<Rightarrow> PhysAddr" where
  "PfnToPa pfn = push_bit 12 pfn"

definition PaToPfn :: "PhysAddr \<Rightarrow> Pfn" where
  "PaToPfn pa = drop_bit 12 pa"

section \<open>Free list\<close>

definition PushNode :: "PhysAddr \<Rightarrow> PmmState \<Rightarrow> PmmState" where
  "PushNode pa s =
     (let s1 = s\<lparr>node_next := (node_next s)(pa := freelist_head s), node_prev := (node_prev s)(pa := 0)\<rparr>;
          s2 = (if freelist_head s1 \<noteq> 0
                then s1\<lparr>node_prev := (node_prev s1)(freelist_head s1 := pa)\<rparr> else s1)
      in s2\<lparr>freelist_head := pa\<rparr>)"

definition PopNode :: "PmmState \<Rightarrow> PhysAddr \<times> PmmState" where
  "PopNode s =
     (let pa = freelist_head s
      in if pa = 0 then (0, s)
         else let nxt = node_next s pa;
                  s1 = s\<lparr>freelist_head := nxt\<rparr>
              in (pa, if nxt \<noteq> 0 then s1\<lparr>node_prev := (node_prev s1)(nxt := 0)\<rparr> else s1))"

definition UnlinkNode :: "PhysAddr \<Rightarrow> PmmState \<Rightarrow> PmmState" where
  "UnlinkNode pa s =
     (let prv = node_prev s pa;
          nxt = node_next s pa;
          s1 = (if prv \<noteq> 0 then s\<lparr>node_next := (node_next s)(prv := nxt)\<rparr>
                else s\<lparr>freelist_head := nxt\<rparr>)
      in if nxt \<noteq> 0 then s1\<lparr>node_prev := (node_prev s1)(nxt := prv)\<rparr> else s1)"

definition PmmIsRecorded :: "PmmState \<Rightarrow> PhysAddr \<Rightarrow> bool" where
  "PmmIsRecorded s pa =
     (if pa = 0 then True
      else if pa mod PAGE_SIZE \<noteq> 0 then False
      else let pfn = PaToPfn pa in pfn \<ge> pfn_base s \<and> pfn < pfn_end s)"

definition PmmRebuildFreelist :: "PmmState \<Rightarrow> PmmState" where
  "PmmRebuildFreelist s =
     (let s1 = fold (\<lambda>i s. if \<not> byte_test (bitmap s) i
                           then PushNode (PfnToPa (pfn_base s + of_nat i)) s else s)
                    [0..<unat (total_frames s)] (s\<lparr>freelist_head := 0\<rparr>)
      in s1\<lparr>freelist_ready := True\<rparr>)"

section \<open>Statistics and memory pressure\<close>

definition PmmGetStats :: "PmmState \<Rightarrow> u32 \<times> u32" where
  "PmmGetStats s = (total_frames s, free_frames s)"

definition SyspageUpdateMem :: "PmmState \<Rightarrow> PmmState" where
  "SyspageUpdateMem s =
     (case mem_free_kb s of
        None \<Rightarrow> s
      | Some _ \<Rightarrow>
          s\<lparr>mem_free_kb := Some (ucast ((ucast (snd (PmmGetStats s)) * 4096 :: u64) div 1024))\<rparr>)"

definition LOW_WATER_PCT :: u32 where "LOW_WATER_PCT = 20"
definition HIGH_WATER_PCT :: u32 where "HIGH_WATER_PCT = 30"

fun signal_loop :: "SubEvent list \<Rightarrow> PmmState \<Rightarrow> PmmState" where
  "signal_loop [] s = s"
| "signal_loop (ev # rest) s =
     (if \<not> sub_alive s ev
      then signal_loop rest
             (s\<lparr>pmm_subscribers := remove1 ev (pmm_subscribers s), sub_unrefs := sub_unrefs s @ [ev]\<rparr>)
      else signal_loop rest (s\<lparr>sub_signals := sub_signals s @ [ev]\<rparr>))"

definition PmmSignalSubscribers :: "PmmState \<Rightarrow> PmmState" where
  "PmmSignalSubscribers s =
     (let free_pct = (free_frames s * 100) div total_frames s
      in if \<not> in_pressure s \<and> free_pct < LOW_WATER_PCT
         then signal_loop (pmm_subscribers s) (s\<lparr>in_pressure := True\<rparr>)
         else if in_pressure s \<and> free_pct > HIGH_WATER_PCT
         then s\<lparr>in_pressure := False\<rparr>
         else s)"

section \<open>Single frames\<close>

text \<open>The common tail of \<open>PmmTakeFreeFrame\<close>: pop the head and mark it allocated.\<close>

definition take_head :: "PmmState \<Rightarrow> (PhysAddr \<times> PmmState) option" where
  "take_head s = do {
     let (pa, s) = PopNode s;
     let index = unat (PaToPfn pa - pfn_base s);
     kassert (index div 8 < unat (bitmap_bytes s));
     kassert (\<not> byte_test (bitmap s) index);
     let s = s\<lparr>bitmap := byte_set (bitmap s) index, free_frames := free_frames s - 1\<rparr>;
     kassert (free_frames s \<le> total_frames s);
     Some (pa, PmmSignalSubscribers s) }"

definition PmmTakeFreeFrame :: "PmmState \<Rightarrow> (PhysAddr \<times> PmmState) option" where
  "PmmTakeFreeFrame s =
     (if freelist_head s = 0 then Some (0, s)
      else
        let s = (if \<not> PmmIsRecorded s (freelist_head s) then PmmRebuildFreelist s else s)
        in if freelist_head s = 0 then Some (0, s)
           else if \<not> PmmIsRecorded s (node_next s (freelist_head s))
           then let s = PmmRebuildFreelist s
                in if freelist_head s = 0 then Some (0, s)
                   else if \<not> PmmIsRecorded s (node_next s (freelist_head s))
                   then Some (0, s\<lparr>freelist_head := 0\<rparr>)
                   else take_head s
           else take_head s)"

definition PmmAllocFrame :: "PmmState \<Rightarrow> (PhysAddr \<times> PmmState) option" where
  "PmmAllocFrame s = do {
     (pa, s) \<leftarrow> PmmTakeFreeFrame s;
     Some (pa, if pa \<noteq> 0 then SyspageUpdateMem s else s) }"

definition PmmFreeFrame :: "PhysAddr \<Rightarrow> PmmState \<Rightarrow> PmmState option" where
  "PmmFreeFrame addr s = do {
     kassert (addr mod PAGE_SIZE = 0);
     let pfn = PaToPfn addr;
     kassert (pfn \<ge> pfn_base s \<and> pfn < pfn_end s);
     let index = unat (pfn - pfn_base s);
     kassert (index div 8 < unat (bitmap_bytes s));
     kassert (free_frames s \<le> total_frames s);
     if byte_test (bitmap s) index
     then do {
       let s = s\<lparr>bitmap := byte_clr (bitmap s) index, free_frames := free_frames s + 1\<rparr>;
       kassert (free_frames s \<le> total_frames s);
       Some (SyspageUpdateMem (PushNode addr s)) }
     else None }"

fun scatter_loop :: "nat \<Rightarrow> PhysAddr list \<Rightarrow> PmmState \<Rightarrow> (PhysAddr list \<times> PmmState) option" where
  "scatter_loop 0 out s = Some (out, SyspageUpdateMem s)"
| "scatter_loop (Suc k) out s = do {
     (new_page, s) \<leftarrow> PmmTakeFreeFrame s;
     if new_page = 0 then Some (out, SyspageUpdateMem s)
     else scatter_loop k (out @ [new_page]) s }"

text \<open>The sanity assertions the range operations share.\<close>

definition pmm_geometry :: "PmmState \<Rightarrow> bool" where
  "pmm_geometry s \<longleftrightarrow> total_frames s = pfn_end s - pfn_base s
     \<and> unat (bitmap_bytes s) * 8 \<ge> unat (total_frames s)"

definition PmmAllocFramesScattered ::
    "u32 \<Rightarrow> PmmState \<Rightarrow> (PhysAddr list \<times> PmmState) option" where
  "PmmAllocFramesScattered n_frames s =
     (if n_frames = 0 \<or> free_frames s < n_frames then Some ([], s)
      else do {
        kassert (pmm_geometry s);
        kassert (free_frames s \<le> total_frames s);
        kassert (n_frames \<le> total_frames s);
        scatter_loop (unat n_frames) [] s })"

section \<open>Ranges\<close>

text \<open>The body of the marking loop; the flag is \<open>needs_rebuild\<close>.\<close>

definition mark_one :: "Pfn \<Rightarrow> bool \<times> PmmState \<Rightarrow> (bool \<times> PmmState) option" where
  "mark_one pfn = (\<lambda>(needs_rebuild, s). do {
     let index = unat (pfn - pfn_base s);
     kassert (index div 8 < unat (bitmap_bytes s));
     if byte_test (bitmap s) index then Some (needs_rebuild, s)
     else do {
       let s = s\<lparr>bitmap := byte_set (bitmap s) index,
                 free_frames := (if free_frames s > 0 then free_frames s - 1 else free_frames s)\<rparr>;
       kassert (free_frames s \<le> total_frames s);
       Some (if freelist_ready s
             then if PmmIsRecorded s (node_prev s (PfnToPa pfn))
                     \<and> PmmIsRecorded s (node_next s (PfnToPa pfn))
                  then (needs_rebuild, UnlinkNode (PfnToPa pfn) s)
                  else (True, s)
             else (needs_rebuild, s)) } })"

fun mark_loop :: "nat list \<Rightarrow> bool \<times> PmmState \<Rightarrow> (bool \<times> PmmState) option" where
  "mark_loop [] r = Some r"
| "mark_loop (pfn # rest) r = do { r \<leftarrow> mark_one (of_nat pfn) r; mark_loop rest r }"

definition PmmMarkRange :: "PhysAddr \<Rightarrow> PhysAddr \<Rightarrow> PmmState \<Rightarrow> (Err \<times> PmmState) option" where
  "PmmMarkRange start stop s =
     (if start \<ge> stop then Some (ERR_BADARG, s)
      else
        let start_pfn = PaToPfn (align_down start PAGE_SIZE);
            end_pfn = PaToPfn (align_up stop PAGE_SIZE)
        in if start_pfn < pfn_base s \<or> end_pfn > pfn_end s then Some (ERR_BADARG, s)
           else do {
             kassert (pfn_end s > pfn_base s);
             kassert (pmm_geometry s);
             (needs_rebuild, s) \<leftarrow> mark_loop [unat start_pfn..<unat end_pfn] (False, s);
             Some (ZUZU_OK, if needs_rebuild then PmmRebuildFreelist s else s) })"

definition unmark_one :: "Pfn \<Rightarrow> PmmState \<Rightarrow> PmmState option" where
  "unmark_one pfn s = do {
     let index = unat (pfn - pfn_base s);
     kassert (index div 8 < unat (bitmap_bytes s));
     if byte_test (bitmap s) index
     then do {
       let s = s\<lparr>bitmap := byte_clr (bitmap s) index,
                 free_frames := (if free_frames s < total_frames s then free_frames s + 1
                                 else free_frames s)\<rparr>;
       kassert (free_frames s \<le> total_frames s);
       Some (if freelist_ready s then PushNode (PfnToPa pfn) s else s) }
     else Some s }"

fun unmark_loop :: "nat list \<Rightarrow> PmmState \<Rightarrow> PmmState option" where
  "unmark_loop [] s = Some s"
| "unmark_loop (pfn # rest) s = do { s \<leftarrow> unmark_one (of_nat pfn) s; unmark_loop rest s }"

definition PmmUnmarkRange :: "PhysAddr \<Rightarrow> PhysAddr \<Rightarrow> PmmState \<Rightarrow> (Err \<times> PmmState) option" where
  "PmmUnmarkRange start stop s =
     (if start \<ge> stop then Some (ERR_BADARG, s)
      else
        let start_pfn = PaToPfn (align_down start PAGE_SIZE);
            end_pfn = PaToPfn (align_up stop PAGE_SIZE)
        in if start_pfn < pfn_base s \<or> end_pfn > pfn_end s then Some (ERR_BADARG, s)
           else do {
             kassert (pfn_end s > pfn_base s);
             kassert (pmm_geometry s);
             s \<leftarrow> unmark_loop [unat start_pfn..<unat end_pfn] s;
             Some (ZUZU_OK, s) })"

section \<open>Initialisation\<close>

record RamLayout =
  ram_start :: PhysAddr
  ram_end :: PhysAddr
  dtb_start_pa :: PhysAddr
  kernel_start_pa :: PhysAddr
  kernel_end_pa :: PhysAddr
  stack_base_pa :: PhysAddr
  bitmap_start_pa :: PhysAddr
  bitmap_end_pa :: PhysAddr

text \<open>
  The inputs of \<open>PmmReserveBootRegions\<close> that come from the linker script and the device tree:
  \<open>_boot_start\<close>, \<open>_boot_end\<close>, \<open>__stack_region_base__\<close>, \<open>__stack_region_end__\<close>, \<open>FdtTotalSize\<close>,
  \<open>FdtGetReservedMem\<close> and \<open>FdtGetInitrd\<close>.
\<close>

record BootRegions =
  boot_start :: PhysAddr
  boot_end :: PhysAddr
  stack_region_base :: PhysAddr
  stack_region_end :: PhysAddr
  fdt_total_size :: u32
  fdt_reserved :: "(u64 \<times> u64) list"
  fdt_initrd :: "(u64 \<times> u64) option"

text \<open>A call of \<open>PmmMarkRange\<close> whose result is ignored.\<close>

definition mark_ignore :: "PhysAddr \<times> PhysAddr \<Rightarrow> PmmState \<Rightarrow> PmmState option" where
  "mark_ignore r s = do { (e, s) \<leftarrow> PmmMarkRange (fst r) (snd r) s; Some s }"

fun reserve_loop :: "(u64 \<times> u64) list \<Rightarrow> PmmState \<Rightarrow> PmmState option" where
  "reserve_loop [] s = Some s"
| "reserve_loop ((addr, sz) # rest) s =
     do { s \<leftarrow> mark_ignore (ucast addr, ucast (addr + sz)) s; reserve_loop rest s }"

definition PmmReserveBootRegions :: "RamLayout \<Rightarrow> BootRegions \<Rightarrow> PmmState \<Rightarrow> PmmState option" where
  "PmmReserveBootRegions l b s = do {
     s \<leftarrow> mark_ignore (boot_start b, boot_end b) s;
     s \<leftarrow> mark_ignore (dtb_start_pa l, dtb_start_pa l + fdt_total_size b) s;
     s \<leftarrow> mark_ignore (kernel_start_pa l, kernel_end_pa l) s;
     s \<leftarrow> mark_ignore (bitmap_start_pa l, bitmap_end_pa l) s;
     s \<leftarrow> mark_ignore (stack_region_base b, stack_region_end b) s;
     s \<leftarrow> reserve_loop (fdt_reserved b) s;
     case fdt_initrd b of
       None \<Rightarrow> Some s
     | Some (initrd_start, initrd_end) \<Rightarrow> mark_ignore (ucast initrd_start, ucast initrd_end) s }"

definition PmmInit :: "RamLayout \<Rightarrow> BootRegions \<Rightarrow> PmmState \<Rightarrow> (RamLayout \<times> PmmState) option" where
  "PmmInit l b s = do {
     let base = PaToPfn (ram_start l);
     let pend = PaToPfn (ram_end l);
     let s = s\<lparr>pfn_base := base, pfn_end := pend, total_frames := pend - base,
               free_frames := pend - base\<rparr>;
     let bitmap_start = align_up (kernel_end_pa l) PAGE_SIZE;
     let nbytes = (total_frames s + 7) div 8;
     let bitmap_size = align_up nbytes PAGE_SIZE;
     let bitmap_stop = bitmap_start + bitmap_size;
     kassert (bitmap_stop \<le> stack_base_pa l);
     kassert (bitmap_stop \<le> ram_end l);
     let l = l\<lparr>bitmap_start_pa := bitmap_start, bitmap_end_pa := bitmap_stop\<rparr>;
     let s = s\<lparr>bitmap_bytes := nbytes, bitmap := replicate (unat bitmap_size) 0\<rparr>;
     s \<leftarrow> PmmReserveBootRegions l b s;
     let s = PmmRebuildFreelist s;
     Some (l, s\<lparr>pmm_subscribers := []\<rparr>) }"

section \<open>Contiguous allocation\<close>

text \<open>The scan of \<open>PmmAllocFramesContig\<close>: the start index of the first run of \<open>n\<close> clear bits.\<close>

fun contig_scan :: "u8 list \<Rightarrow> nat \<Rightarrow> nat \<Rightarrow> nat \<Rightarrow> nat \<Rightarrow> nat list \<Rightarrow> nat option" where
  "contig_scan bm nbytes n consecutive start_index [] = None"
| "contig_scan bm nbytes n consecutive start_index (index # rest) =
     (if index div 8 \<ge> nbytes then None
      else if \<not> byte_test bm index
      then let start_index = (if consecutive = 0 then index else start_index)
           in if Suc consecutive = n then Some start_index
              else contig_scan bm nbytes n (Suc consecutive) start_index rest
      else contig_scan bm nbytes n 0 start_index rest)"

definition PmmAllocFramesContig :: "u32 \<Rightarrow> PmmState \<Rightarrow> (PhysAddr \<times> PmmState) option" where
  "PmmAllocFramesContig n_frames s =
     (if n_frames = 0 \<or> free_frames s < n_frames then Some (PA_NULL, s)
      else do {
        kassert (pmm_geometry s);
        kassert (free_frames s \<le> total_frames s);
        kassert (n_frames \<le> total_frames s);
        case contig_scan (bitmap s) (unat (bitmap_bytes s)) (unat n_frames) 0 0
               [0..<unat (total_frames s)] of
          None \<Rightarrow> Some (PA_NULL, s)
        | Some start_index \<Rightarrow> do {
            let start_pa = PfnToPa (pfn_base s + of_nat start_index);
            let end_pa = PfnToPa (pfn_base s + of_nat start_index + n_frames);
            (e, s) \<leftarrow> PmmMarkRange start_pa end_pa s;
            if e \<noteq> ZUZU_OK then Some (PA_NULL, s)
            else do {
              let pfn = pfn_base s + of_nat start_index;
              let addr = PfnToPa pfn;
              kassert (addr mod PAGE_SIZE = 0);
              kassert (pfn \<ge> pfn_base s \<and> pfn + n_frames \<le> pfn_end s);
              Some (addr, PmmSignalSubscribers (SyspageUpdateMem s)) } } })"

fun aligned_scan ::
    "u8 list \<Rightarrow> nat \<Rightarrow> Pfn \<Rightarrow> u32 \<Rightarrow> nat \<Rightarrow> nat \<Rightarrow> nat \<Rightarrow> nat list \<Rightarrow> nat option" where
  "aligned_scan bm nbytes base align n consecutive start_index [] = None"
| "aligned_scan bm nbytes base align n consecutive start_index (index # rest) =
     (if consecutive = 0 \<and> (base + of_nat index) AND (align - 1) \<noteq> 0
      then aligned_scan bm nbytes base align n consecutive start_index rest
      else if index div 8 \<ge> nbytes then None
      else if \<not> byte_test bm index
      then let start_index = (if consecutive = 0 then index else start_index)
           in if Suc consecutive = n then Some start_index
              else aligned_scan bm nbytes base align n (Suc consecutive) start_index rest
      else aligned_scan bm nbytes base align n 0 start_index rest)"

definition PmmAllocFramesContigAligned ::
    "u32 \<Rightarrow> u32 \<Rightarrow> PmmState \<Rightarrow> (PhysAddr \<times> PmmState) option" where
  "PmmAllocFramesContigAligned n_frames align_frames s =
     (if n_frames = 0 then Some (PA_NULL, s)
      else
        let align_frames = (if align_frames = 0 then 1 else align_frames)
        in if align_frames AND (align_frames - 1) \<noteq> 0 then Some (PA_NULL, s)
           else if free_frames s < n_frames then Some (PA_NULL, s)
           else do {
             kassert (pmm_geometry s);
             case aligned_scan (bitmap s) (unat (bitmap_bytes s)) (pfn_base s) align_frames
                    (unat n_frames) 0 0 [0..<unat (total_frames s)] of
               None \<Rightarrow> Some (PA_NULL, s)
             | Some start_index \<Rightarrow> do {
                 let start_pa = PfnToPa (pfn_base s + of_nat start_index);
                 let end_pa = PfnToPa (pfn_base s + of_nat start_index + n_frames);
                 (e, s) \<leftarrow> PmmMarkRange start_pa end_pa s;
                 if e \<noteq> ZUZU_OK then Some (PA_NULL, s)
                 else Some (start_pa, PmmSignalSubscribers (SyspageUpdateMem s)) } })"

section \<open>Chains of free nodes\<close>

fun free_chain ::
    "(PhysAddr \<Rightarrow> PhysAddr) \<Rightarrow> (PhysAddr \<Rightarrow> PhysAddr) \<Rightarrow> PhysAddr \<Rightarrow> PhysAddr \<Rightarrow> PhysAddr list \<Rightarrow> bool" where
  "free_chain nx pv q p [] \<longleftrightarrow> p = 0"
| "free_chain nx pv q p (x # xs) \<longleftrightarrow> p = x \<and> x \<noteq> 0 \<and> pv x = q \<and> free_chain nx pv x (nx x) xs"

lemma free_chain_cong:
  assumes "\<And>x. x \<in> set xs \<Longrightarrow> nx x = nx' x \<and> pv x = pv' x"
  shows "free_chain nx pv q p xs \<longleftrightarrow> free_chain nx' pv' q p xs"
  using assms by (induction xs arbitrary: q p) auto

lemma free_chain_head: "free_chain nx pv q p xs \<Longrightarrow> p = (case xs of [] \<Rightarrow> 0 | x # _ \<Rightarrow> x)"
  by (cases xs) auto

lemma free_chain_nz: "free_chain nx pv q p xs \<Longrightarrow> 0 \<notin> set xs"
  by (induction xs arbitrary: q p) auto

lemma free_chain_push:
  assumes "free_chain nx pv 0 h xs" "pa \<notin> set xs" "pa \<noteq> 0" "distinct xs"
  shows "free_chain (nx(pa := h)) (if h \<noteq> 0 then pv(pa := 0, h := pa) else pv(pa := 0)) 0 pa (pa # xs)"
proof (cases "xs = []")
  case True
  with assms(1,3) show ?thesis
    by simp
next
  case False
  then obtain y ys where Cons: "xs = y # ys"
    by (cases xs) auto
  with assms have "h = y" "y \<noteq> 0" "y \<noteq> pa" "y \<notin> set ys"
    by auto
  moreover have "free_chain (nx(pa := h)) (pv(pa := 0, h := pa)) y (nx y) ys"
    using assms Cons \<open>h = y\<close> \<open>y \<notin> set ys\<close>
    by (subst free_chain_cong [where nx' = nx and pv' = pv]) auto
  ultimately show ?thesis
    using Cons assms(3) by simp
qed

lemma free_chain_succ_mem:
  assumes "free_chain nx pv q p (as @ x # bs)"
  shows "nx x = (case bs of [] \<Rightarrow> 0 | b # _ \<Rightarrow> b)"
  using assms
  by (induction as arbitrary: q p) (auto dest: free_chain_head)

lemma free_chain_pred:
  assumes "free_chain nx pv q p (as @ x # bs)"
  shows "pv x = (if as = [] then q else last as)"
  using assms by (induction as arbitrary: q p) auto

lemma free_chain_unlink:
  assumes "free_chain nx pv q p (as @ x # bs)" "distinct (as @ x # bs)"
  shows "free_chain (if as = [] then nx else nx(pv x := nx x))
           (if nx x \<noteq> 0 then pv(nx x := pv x) else pv) q (if as = [] then nx x else p) (as @ bs)"
  using assms
proof (induction as arbitrary: q p)
  case Nil
  note succ = free_chain_succ_mem [OF Nil.prems(1)]
  show ?case
  proof (cases bs)
    case (Cons b cs)
    then have "nx x = b" "b \<noteq> 0" "b \<notin> set cs"
      using Nil.prems by auto
    moreover have "free_chain nx (pv(b := q)) b (nx b) cs"
      using Cons Nil.prems \<open>b \<notin> set cs\<close>
      by (subst free_chain_cong [where nx' = nx and pv' = pv]) auto
    ultimately show ?thesis
      using Cons Nil.prems by (simp add: fun_upd_def)
  qed (use Nil.prems succ in simp)
next
  case (Cons a as)
  let ?nx = "nx(pv x := nx x)" and ?pv = "if nx x \<noteq> 0 then pv(nx x := pv x) else pv"
  note chain = Cons.prems(1) and succ = free_chain_succ_mem [OF Cons.prems(1)]
    and pred = free_chain_pred [OF Cons.prems(1)]
  have a: "p = a" "a \<noteq> 0" "pv a = q" "free_chain nx pv a (nx a) (as @ x # bs)"
    using chain by auto
  have "a \<noteq> nx x"
    using succ Cons.prems(2) a(2) by (auto split: list.splits)
  then have pva: "?pv a = q"
    using a by simp
  note IH = Cons.IH [OF a(4)]
  show ?case
  proof (cases "as = []")
    case True
    then have "pv x = a" "nx a = x"
      using pred a by auto
    have "free_chain nx ?pv a (nx x) bs"
      using IH True Cons.prems(2) by simp
    then have "free_chain ?nx ?pv a (nx x) bs"
      using Cons.prems(2) \<open>pv x = a\<close>
      by (subst free_chain_cong [where nx' = nx and pv' = "?pv"]) auto
    then have "free_chain ?nx ?pv q a (a # bs)"
      using a \<open>pv x = a\<close> pva by (simp only: free_chain.simps fun_upd_same) simp
    then show ?thesis
      unfolding True a(1) by (simp only: append.simps list.distinct if_False)
  next
    case False
    then have "a \<noteq> pv x"
      using pred Cons.prems(2) by auto
    moreover have "distinct (as @ x # bs)"
      using Cons.prems(2) by simp
    then have "free_chain ?nx ?pv a (nx a) (as @ bs)"
      using IH unfolding if_not_P [OF False] by blast
    ultimately have "free_chain ?nx ?pv q a (a # as @ bs)"
      using a(2) pva by (simp only: free_chain.simps fun_upd_other) simp
    then show ?thesis
      unfolding a(1) by (simp only: append.simps list.distinct if_False)
  qed
qed

section \<open>Frames and their indices\<close>

text \<open>Frame number \<open>i\<close> of the managed range, its address, and the index the code computes from it.\<close>

definition frame_pa :: "PmmState \<Rightarrow> nat \<Rightarrow> PhysAddr" where
  "frame_pa s i = PfnToPa (pfn_base s + of_nat i)"

definition frame_ix :: "PmmState \<Rightarrow> PhysAddr \<Rightarrow> nat" where
  "frame_ix s pa = unat (PaToPfn pa - pfn_base s)"

text \<open>
  The managed range is not empty and ends below the top of the 32-bit space, and the bitmap has a bit
  for each of its frames. Address 0 ends the free list, so on a board whose RAM starts at 0 (\<open>rpi4\<close>)
  frame 0 cannot be on the list: the list is the list of the free frames only while frame 0 is
  allocated.
\<close>

definition pmm_geom :: "PmmState \<Rightarrow> bool" where
  "pmm_geom s \<longleftrightarrow> unat (pfn_base s) < unat (pfn_end s)
     \<and> unat (pfn_end s) < 2 ^ 20 \<and> pmm_geometry s \<and> unat (bitmap_bytes s) \<le> length (bitmap s)"

lemma unat_PfnToPa: "unat pfn < 2 ^ 20 \<Longrightarrow> unat (PfnToPa pfn) = unat pfn * 4096"
  by (simp add: PfnToPa_def push_bit_eq_mult unat_word_ariths)

lemma unat_PaToPfn: "unat (PaToPfn pa) = unat pa div 4096"
  by (simp add: PaToPfn_def drop_bit_eq_div unat_div)

lemma PaToPfn_PfnToPa: "unat pfn < 2 ^ 20 \<Longrightarrow> PaToPfn (PfnToPa pfn) = pfn"
  by (simp add: word_unat_eq_iff unat_PaToPfn unat_PfnToPa)

lemma PaToPfn_less: "unat (PaToPfn pa) < 2 ^ 20"
  using unsigned_less [of pa, where 'a = nat] by (simp add: unat_PaToPfn less_mult_imp_div_less)

lemma PfnToPa_PaToPfn: "unat pa mod 4096 = 0 \<Longrightarrow> PfnToPa (PaToPfn pa) = pa"
  using PaToPfn_less [of pa]
  by (auto simp: word_unat_eq_iff unat_PfnToPa unat_PaToPfn)

lemma pmm_geom_total: "pmm_geom s \<Longrightarrow> unat (total_frames s) = unat (pfn_end s) - unat (pfn_base s)"
  by (auto simp: pmm_geom_def pmm_geometry_def unat_sub_if')

lemma unat_frame_pfn:
  assumes "pmm_geom s" "i \<le> unat (total_frames s)"
  shows "unat (pfn_base s + of_nat i) = unat (pfn_base s) + i"
proof -
  have "unat (pfn_base s) + i \<le> unat (pfn_end s)" "unat (pfn_end s) < 2 ^ 20"
    using assms pmm_geom_total [OF assms(1)] by (auto simp: pmm_geom_def)
  then show ?thesis
    by (simp add: unat_word_ariths unat_of_nat)
qed

lemma frame_pfn_bounds:
  assumes "pmm_geom s" "i < unat (total_frames s)"
  shows "unat (pfn_base s + of_nat i) < 2 ^ 20" "pfn_base s \<le> pfn_base s + of_nat i"
    "pfn_base s + of_nat i < pfn_end s"
  using assms unat_frame_pfn [of s i] pmm_geom_total [OF assms(1)]
  by (auto simp: pmm_geom_def word_le_nat_alt word_less_nat_alt)

lemma unat_frame_pa:
  assumes "pmm_geom s" "i < unat (total_frames s)"
  shows "unat (frame_pa s i) = (unat (pfn_base s) + i) * 4096"
  using assms frame_pfn_bounds [OF assms] unat_frame_pfn [of s i]
  by (simp add: frame_pa_def unat_PfnToPa)

lemma frame_ix_pa:
  assumes "pmm_geom s" "i < unat (total_frames s)"
  shows "frame_ix s (frame_pa s i) = i"
proof -
  have "PaToPfn (frame_pa s i) - pfn_base s = of_nat i"
    using frame_pfn_bounds [OF assms] by (simp add: frame_pa_def PaToPfn_PfnToPa)
  then show ?thesis
    using assms(2) by (simp add: frame_ix_def unat_of_nat_less)
qed

lemma frame_pa_zero:
  assumes "pmm_geom s" "i < unat (total_frames s)"
  shows "frame_pa s i = 0 \<longleftrightarrow> pfn_base s = 0 \<and> i = 0"
  using unat_frame_pa [OF assms] by (auto simp: word_unat_eq_iff [of _ 0])

lemma frame_pa_inj: "pmm_geom s \<Longrightarrow> inj_on (frame_pa s) {..<unat (total_frames s)}"
  by (rule inj_on_inverseI [of _ "frame_ix s"]) (simp add: frame_ix_pa)

lemma frame_pa_recorded:
  "pmm_geom s \<Longrightarrow> i < unat (total_frames s) \<Longrightarrow> PmmIsRecorded s (frame_pa s i)"
  using frame_pfn_bounds [of s i] unat_frame_pa [of s i]
  by (simp add: PmmIsRecorded_def page_mod_iff frame_pa_def PaToPfn_PfnToPa Let_def)

lemma frame_of_managed:
  assumes "pmm_geom s" "unat pa mod 4096 = 0" "pfn_base s \<le> PaToPfn pa" "PaToPfn pa < pfn_end s"
  shows "frame_ix s pa < unat (total_frames s)" "frame_pa s (frame_ix s pa) = pa"
proof -
  have "unat (PaToPfn pa - pfn_base s) = unat (PaToPfn pa) - unat (pfn_base s)"
    using assms(3) by (simp add: unat_sub_if' word_le_nat_alt)
  then show "frame_ix s pa < unat (total_frames s)"
    using assms pmm_geom_total [OF assms(1)]
    by (auto simp: frame_ix_def word_le_nat_alt word_less_nat_alt)
  show "frame_pa s (frame_ix s pa) = pa"
    using assms(2) by (simp add: frame_pa_def frame_ix_def PfnToPa_PaToPfn)
qed

lemma geom_byte_bound:
  assumes "pmm_geom s" "i < unat (total_frames s)"
  shows "i div 8 < unat (bitmap_bytes s)" "i < length (bitmap s) * 8"
  using assms by (auto simp: pmm_geom_def pmm_geometry_def)

section \<open>Invariant\<close>

definition free_set :: "PmmState \<Rightarrow> nat set" where
  "free_set s = {i. i < unat (total_frames s) \<and> \<not> byte_test (bitmap s) i}"

definition pmm_count :: "PmmState \<Rightarrow> bool" where
  "pmm_count s \<longleftrightarrow> unat (free_frames s) = card (free_set s)"

definition free_list :: "PmmState \<Rightarrow> PhysAddr list \<Rightarrow> bool" where
  "free_list s xs \<longleftrightarrow> distinct xs \<and> set xs = frame_pa s ` free_set s
     \<and> free_chain (node_next s) (node_prev s) 0 (freelist_head s) xs"

text \<open>
  \<open>pmm_ok\<close> holds from the moment the bitmap is cleared; the free list is meaningful once it has been
  built. \<open>pmm_inv\<close> is the invariant of the running allocator: the counter is the number of clear
  bits, and the free list visits exactly the frames whose bit is clear, each once.
\<close>

definition pmm_ok :: "PmmState \<Rightarrow> bool" where
  "pmm_ok s \<longleftrightarrow> pmm_geom s \<and> pmm_count s \<and> (freelist_ready s \<longrightarrow> (\<exists>xs. free_list s xs))"

definition pmm_inv :: "PmmState \<Rightarrow> bool" where
  "pmm_inv s \<longleftrightarrow> pmm_ok s \<and> freelist_ready s"

lemma finite_free_set [simp]: "finite (free_set s)"
  by (rule finite_subset [of _ "{..<unat (total_frames s)}"]) (auto simp: free_set_def)

lemma card_free_set_le: "card (free_set s) \<le> unat (total_frames s)"
  unfolding free_set_def by (rule card_less_le)

lemma pmm_count_le: "pmm_count s \<Longrightarrow> free_frames s \<le> total_frames s"
  using card_free_set_le [of s] by (simp add: pmm_count_def word_le_nat_alt)

text \<open>Two states that agree on everything the invariant reads.\<close>

definition pmm_same :: "PmmState \<Rightarrow> PmmState \<Rightarrow> bool" where
  "pmm_same s t \<longleftrightarrow> pfn_base s = pfn_base t \<and> pfn_end s = pfn_end t \<and> total_frames s = total_frames t
     \<and> free_frames s = free_frames t \<and> bitmap s = bitmap t \<and> bitmap_bytes s = bitmap_bytes t
     \<and> freelist_head s = freelist_head t \<and> freelist_ready s = freelist_ready t
     \<and> node_next s = node_next t \<and> node_prev s = node_prev t"

lemma pmm_same_inv:
  assumes "pmm_same s t"
  shows "pmm_ok s \<longleftrightarrow> pmm_ok t" "pmm_inv s \<longleftrightarrow> pmm_inv t" "free_set s = free_set t"
    "frame_pa s = frame_pa t" "free_list s = free_list t" "pmm_geom s \<longleftrightarrow> pmm_geom t"
proof -
  show f: "free_set s = free_set t" and p: "frame_pa s = frame_pa t"
    using assms by (auto simp: pmm_same_def free_set_def frame_pa_def fun_eq_iff)
  show g: "pmm_geom s \<longleftrightarrow> pmm_geom t"
    using assms by (auto simp: pmm_same_def pmm_geom_def pmm_geometry_def)
  show l: "free_list s = free_list t"
    using assms f p by (simp add: pmm_same_def free_list_def [abs_def])
  show "pmm_ok s \<longleftrightarrow> pmm_ok t" "pmm_inv s \<longleftrightarrow> pmm_inv t"
    using assms f g l by (auto simp: pmm_inv_def pmm_ok_def pmm_count_def pmm_same_def)
qed

lemma pmm_same_refl [simp]: "pmm_same s s"
  by (simp add: pmm_same_def)

lemma pmm_same_trans: "pmm_same s t \<Longrightarrow> pmm_same t u \<Longrightarrow> pmm_same s u"
  by (simp add: pmm_same_def)

lemma signal_loop_same [simp]: "pmm_same (signal_loop evs s) t \<longleftrightarrow> pmm_same s t"
  by (induction evs s rule: signal_loop.induct) (auto simp: pmm_same_def)

lemma PmmSignalSubscribers_same [simp]: "pmm_same (PmmSignalSubscribers s) t \<longleftrightarrow> pmm_same s t"
proof -
  have "pmm_same (s\<lparr>in_pressure := b\<rparr>) t \<longleftrightarrow> pmm_same s t" for b
    by (simp add: pmm_same_def)
  then show ?thesis
    by (simp add: PmmSignalSubscribers_def Let_def)
qed

lemma SyspageUpdateMem_same [simp]: "pmm_same (SyspageUpdateMem s) t \<longleftrightarrow> pmm_same s t"
  by (auto simp: SyspageUpdateMem_def pmm_same_def split: option.split)

text \<open>The list operations change the links and the head only.\<close>

definition same_frames :: "PmmState \<Rightarrow> PmmState \<Rightarrow> bool" where
  "same_frames s t \<longleftrightarrow> pfn_base s = pfn_base t \<and> pfn_end s = pfn_end t \<and> total_frames s = total_frames t
     \<and> free_frames s = free_frames t \<and> bitmap s = bitmap t \<and> bitmap_bytes s = bitmap_bytes t"

lemma same_frames_simps:
  assumes "same_frames s t"
  shows "free_set s = free_set t" "frame_pa s = frame_pa t" "pmm_geom s \<longleftrightarrow> pmm_geom t"
    "pmm_count s \<longleftrightarrow> pmm_count t" "PmmIsRecorded s = PmmIsRecorded t"
  using assms
  by (auto simp: same_frames_def free_set_def frame_pa_def pmm_geom_def pmm_geometry_def
      pmm_count_def PmmIsRecorded_def fun_eq_iff)

lemma PushNode_frames: "same_frames (PushNode pa s) s"
  and UnlinkNode_frames: "same_frames (UnlinkNode pa s) s"
  and PopNode_frames: "same_frames (snd (PopNode s)) s"
  by (auto simp: same_frames_def PushNode_def UnlinkNode_def PopNode_def Let_def)

lemma PushNode_ready [simp]: "freelist_ready (PushNode pa s) = freelist_ready s"
  and UnlinkNode_ready [simp]: "freelist_ready (UnlinkNode pa s) = freelist_ready s"
  and PopNode_ready [simp]: "freelist_ready (snd (PopNode s)) = freelist_ready s"
  by (auto simp: PushNode_def UnlinkNode_def PopNode_def Let_def)

lemma PushNode_chain:
  assumes "free_chain (node_next s) (node_prev s) 0 (freelist_head s) xs" "distinct xs"
    "pa \<notin> set xs" "pa \<noteq> 0"
  shows "free_chain (node_next (PushNode pa s)) (node_prev (PushNode pa s)) 0
           (freelist_head (PushNode pa s)) (pa # xs)"
  using free_chain_push [OF assms(1,3,4,2)]
  by (auto simp: PushNode_def Let_def simp del: free_chain.simps)

lemma UnlinkNode_chain:
  assumes "free_chain (node_next s) (node_prev s) 0 (freelist_head s) xs" "distinct xs" "pa \<in> set xs"
  shows "free_chain (node_next (UnlinkNode pa s)) (node_prev (UnlinkNode pa s)) 0
           (freelist_head (UnlinkNode pa s)) (remove1 pa xs)"
proof -
  obtain as bs where xs: "xs = as @ pa # bs"
    using assms(3) by (meson split_list)
  have pred: "node_prev s pa = 0 \<longleftrightarrow> as = []"
    using free_chain_pred [OF assms(1) [unfolded xs]] free_chain_nz [OF assms(1)]
    by (auto simp: xs) (metis last_in_set)
  have "remove1 pa xs = as @ bs"
    using assms(2) unfolding xs by (rule remove1_split)
  then show ?thesis
    using free_chain_unlink [OF assms(1,2) [unfolded xs]] pred
    by (auto simp: UnlinkNode_def Let_def split: if_splits)
qed

lemma PopNode_chain:
  assumes "free_chain (node_next s) (node_prev s) 0 (freelist_head s) (pa # xs)" "distinct (pa # xs)"
  shows "fst (PopNode s) = pa"
    "free_chain (node_next (snd (PopNode s))) (node_prev (snd (PopNode s))) 0
       (freelist_head (snd (PopNode s))) xs"
proof -
  show "fst (PopNode s) = pa"
    using assms by (auto simp: PopNode_def Let_def)
  show "free_chain (node_next (snd (PopNode s))) (node_prev (snd (PopNode s))) 0
       (freelist_head (snd (PopNode s))) xs"
    using free_chain_unlink [of "node_next s" "node_prev s" 0 "freelist_head s" "[]" pa xs] assms
    by (auto simp: PopNode_def Let_def split: if_splits)
qed

section \<open>Taking and returning one frame\<close>

definition same_geometry :: "PmmState \<Rightarrow> PmmState \<Rightarrow> bool" where
  "same_geometry s t \<longleftrightarrow> pfn_base s = pfn_base t \<and> pfn_end s = pfn_end t
     \<and> total_frames s = total_frames t \<and> bitmap_bytes s = bitmap_bytes t
     \<and> length (bitmap s) = length (bitmap t) \<and> freelist_ready s = freelist_ready t"

lemma same_geometry_simps:
  assumes "same_geometry s t"
  shows "frame_pa s = frame_pa t" "frame_ix s = frame_ix t" "pmm_geom s \<longleftrightarrow> pmm_geom t"
    "total_frames s = total_frames t" "pfn_base s = pfn_base t" "pfn_end s = pfn_end t"
    "freelist_ready s = freelist_ready t" "PmmIsRecorded s = PmmIsRecorded t"
  using assms
  by (auto simp: same_geometry_def frame_pa_def frame_ix_def pmm_geom_def pmm_geometry_def
      PmmIsRecorded_def fun_eq_iff)

lemma same_geometry_refl [simp]: "same_geometry s s"
  by (simp add: same_geometry_def)

lemma same_geometry_trans: "same_geometry s t \<Longrightarrow> same_geometry t u \<Longrightarrow> same_geometry s u"
  by (simp add: same_geometry_def)

lemma same_frames_geometry:
  "same_frames s t \<Longrightarrow> freelist_ready s = freelist_ready t \<Longrightarrow> same_geometry s t"
  by (simp add: same_frames_def same_geometry_def)

lemma pmm_same_geometry: "pmm_same s t \<Longrightarrow> same_geometry s t"
  by (simp add: pmm_same_def same_geometry_def)

abbreviation (input) mark_bit :: "nat \<Rightarrow> PmmState \<Rightarrow> PmmState" where
  "mark_bit i s \<equiv> s\<lparr>bitmap := byte_set (bitmap s) i, free_frames := free_frames s - 1\<rparr>"

abbreviation (input) clear_bit :: "nat \<Rightarrow> PmmState \<Rightarrow> PmmState" where
  "clear_bit i s \<equiv> s\<lparr>bitmap := byte_clr (bitmap s) i, free_frames := free_frames s + 1\<rparr>"

lemma mark_bit_frames:
  assumes "pmm_geom s" "pmm_count s" "i \<in> free_set s"
  shows "same_geometry (mark_bit i s) s" "free_set (mark_bit i s) = free_set s - {i}"
    "pmm_count (mark_bit i s)" "0 < free_frames s"
proof -
  show "same_geometry (mark_bit i s) s"
    by (simp add: same_geometry_def)
  show f: "free_set (mark_bit i s) = free_set s - {i}"
    using assms(3) geom_byte_bound(2) [OF assms(1)]
    by (auto simp: free_set_def bbits.test_set1)
  have "0 < card (free_set s)"
    using assms(3) by (auto simp: card_gt_0_iff)
  then show pos: "0 < free_frames s"
    using assms(2) by (simp add: pmm_count_def word_less_nat_alt)
  then have "unat (free_frames s - 1) = unat (free_frames s) - 1"
    by (rule unat_minus1)
  then show "pmm_count (mark_bit i s)"
    using assms(2,3) f by (simp add: pmm_count_def)
qed

lemma clear_bit_frames:
  assumes "pmm_geom s" "pmm_count s" "i < unat (total_frames s)" "i \<notin> free_set s"
  shows "same_geometry (clear_bit i s) s" "free_set (clear_bit i s) = insert i (free_set s)"
    "pmm_count (clear_bit i s)" "free_frames s < total_frames s"
proof -
  show "same_geometry (clear_bit i s) s"
    by (simp add: same_geometry_def)
  show f: "free_set (clear_bit i s) = insert i (free_set s)"
    using assms(3) geom_byte_bound(2) [OF assms(1)]
    by (auto simp: free_set_def bbits.test_clr1)
  have "card (insert i (free_set s)) \<le> unat (total_frames s)"
    using card_free_set_le [of "clear_bit i s"] f by simp
  then show lt: "free_frames s < total_frames s"
    using assms(2,4) by (simp add: pmm_count_def word_less_nat_alt)
  then have "unat (free_frames s + 1) = unat (free_frames s) + 1"
    by (rule unat_plus1)
  then show "pmm_count (clear_bit i s)"
    using assms(2,4) f by (simp add: pmm_count_def)
qed

lemma free_list_nz: "free_list s xs \<Longrightarrow> i \<in> free_set s \<Longrightarrow> frame_pa s i \<noteq> 0"
  using free_chain_nz by (fastforce simp: free_list_def)

lemma pmm_inv_nz: "pmm_inv s \<Longrightarrow> i \<in> free_set s \<Longrightarrow> frame_pa s i \<noteq> 0"
  using free_list_nz by (auto simp: pmm_inv_def pmm_ok_def)

lemma free_list_neighbours:
  assumes "pmm_geom s" "free_list s xs" "pa \<in> set xs"
  shows "PmmIsRecorded s (node_prev s pa) \<and> PmmIsRecorded s (node_next s pa)"
proof -
  obtain as bs where xs: "xs = as @ pa # bs"
    using assms(3) by (meson split_list)
  have rec: "PmmIsRecorded s p" if "p = 0 \<or> p \<in> set xs" for p
    using that assms(1,2) frame_pa_recorded
    by (auto simp: free_list_def free_set_def PmmIsRecorded_def [of s 0])
  have chain: "free_chain (node_next s) (node_prev s) 0 (freelist_head s) (as @ pa # bs)"
    using assms(2) xs by (simp add: free_list_def)
  have "node_next s pa = 0 \<or> node_next s pa \<in> set xs"
    using free_chain_succ_mem [OF chain] by (auto simp: xs split: list.splits)
  moreover have "node_prev s pa = 0 \<or> node_prev s pa \<in> set xs"
    using free_chain_pred [OF chain] by (auto simp: xs)
  ultimately show ?thesis
    using rec by blast
qed

lemma free_list_remove:
  assumes "pmm_geom s" "free_list s xs" "i \<in> free_set s"
    and "same_geometry t s" "free_set t = free_set s - {i}"
    and "free_chain (node_next t) (node_prev t) 0 (freelist_head t) (remove1 (frame_pa s i) xs)"
  shows "free_list t (remove1 (frame_pa s i) xs)"
proof -
  have sub: "free_set s \<subseteq> {..<unat (total_frames s)}"
    by (auto simp: free_set_def)
  have "frame_pa s ` (free_set s - {i}) = frame_pa s ` free_set s - {frame_pa s i}"
    using inj_on_image_set_diff [OF frame_pa_inj [OF assms(1)], of "free_set s" "{i}"] sub assms(3)
    by auto
  then show ?thesis
    using assms same_geometry_simps(1) [OF assms(4)] by (simp add: free_list_def)
qed

lemma free_list_insert:
  assumes "pmm_geom s" "free_list s xs" "i < unat (total_frames s)" "i \<notin> free_set s"
    and "same_geometry t s" "free_set t = insert i (free_set s)"
    and "free_chain (node_next t) (node_prev t) 0 (freelist_head t) (frame_pa s i # xs)"
  shows "free_list t (frame_pa s i # xs)"
proof -
  have sub: "insert i (free_set s) \<subseteq> {..<unat (total_frames s)}"
    using assms(3) by (auto simp: free_set_def)
  have "frame_pa s i \<notin> frame_pa s ` free_set s"
    using inj_onD [OF inj_on_subset [OF frame_pa_inj [OF assms(1)] sub]] assms(4) by blast
  then show ?thesis
    using assms same_geometry_simps(1) [OF assms(5)] by (simp add: free_list_def)
qed

lemma mark_one_set [simp]:
  "pmm_geom s \<Longrightarrow> i < unat (total_frames s) \<Longrightarrow> i \<notin> free_set s \<Longrightarrow>
     mark_one (pfn_base s + of_nat i) (b, s) = Some (b, s)"
  using geom_byte_bound(1) [of s i]
  by (simp add: mark_one_def free_set_def unat_of_nat_less Let_def)

lemma mark_one_clear:
  assumes "pmm_ok s" "i \<in> free_set s"
  shows "\<exists>t. mark_one (pfn_base s + of_nat i) (b, s) = Some (b, t) \<and> pmm_ok t \<and> same_geometry t s
     \<and> free_set t = free_set s - {i}"
proof -
  have g: "pmm_geom s" "pmm_count s" and i: "i < unat (total_frames s)" "\<not> byte_test (bitmap s) i"
    using assms by (auto simp: pmm_ok_def free_set_def)
  note mb = mark_bit_frames [OF g assms(2)]
  let ?u = "mark_bit i s" and ?pa = "frame_pa s i"
  have le: "free_frames s - 1 \<le> total_frames s"
    using pmm_count_le [OF mb(3)] by simp
  have ix: "unat (of_nat i :: u32) = i"
    using i(1) by (simp add: unat_of_nat_less)
  note unfold = mark_one_def ix geom_byte_bound(1) [OF g(1) i(1)] i(2) mb(4) le
  show ?thesis
  proof (cases "freelist_ready s")
    case False
    then have "mark_one (pfn_base s + of_nat i) (b, s) = Some (b, ?u)"
      by (simp add: unfold Let_def)
    moreover have "pmm_ok ?u"
      using False mb g same_geometry_simps [OF mb(1)] by (simp add: pmm_ok_def)
    ultimately show ?thesis
      using mb by blast
  next
    case True
    then obtain xs where xs: "free_list s xs"
      using assms(1) by (auto simp: pmm_ok_def)
    have pa: "?pa \<in> set xs"
      using xs assms(2) by (auto simp: free_list_def)
    have "PmmIsRecorded ?u (node_prev s ?pa) \<and> PmmIsRecorded ?u (node_next s ?pa)"
      using free_list_neighbours [OF g(1) xs pa] same_geometry_simps(8) [OF mb(1)] by simp
    then have eq: "mark_one (pfn_base s + of_nat i) (b, s) = Some (b, UnlinkNode ?pa ?u)"
      using True by (simp add: unfold Let_def frame_pa_def)
    note uf = UnlinkNode_frames [of ?pa ?u]
    have sg: "same_geometry (UnlinkNode ?pa ?u) s"
      using same_geometry_trans [OF same_frames_geometry [OF uf] mb(1)] by simp
    have fs: "free_set (UnlinkNode ?pa ?u) = free_set s - {i}"
      using same_frames_simps(1) [OF uf] mb(2) by simp
    have "free_list (UnlinkNode ?pa ?u) (remove1 ?pa xs)"
      using xs pa UnlinkNode_chain [of ?u xs ?pa]
      by (intro free_list_remove [OF g(1) xs assms(2) sg fs]) (simp add: free_list_def)
    then have "pmm_ok (UnlinkNode ?pa ?u)"
      using g mb(3) same_geometry_simps(3) [OF sg] same_frames_simps(4) [OF uf]
      by (auto simp: pmm_ok_def)
    then show ?thesis
      using eq sg fs by blast
  qed
qed

lemma mark_one_ok:
  assumes "pmm_ok s" "i < unat (total_frames s)"
  shows "\<exists>t. mark_one (pfn_base s + of_nat i) (b, s) = Some (b, t) \<and> pmm_ok t \<and> same_geometry t s
     \<and> free_set t = free_set s - {i}"
proof (cases "i \<in> free_set s")
  case False
  have "pmm_geom s"
    using assms(1) by (simp add: pmm_ok_def)
  then show ?thesis
    using False assms by (intro exI [of _ s]) simp
qed (use mark_one_clear assms in blast)

lemma push_frame_ok:
  assumes "pmm_ok s" "i < unat (total_frames s)" "i \<notin> free_set s" "freelist_ready s"
  shows "frame_pa s i \<noteq> 0 \<Longrightarrow> pmm_ok (PushNode (frame_pa s i) (clear_bit i s))"
    "same_geometry (PushNode (frame_pa s i) (clear_bit i s)) s"
    "free_set (PushNode (frame_pa s i) (clear_bit i s)) = insert i (free_set s)"
proof -
  let ?pa = "frame_pa s i" and ?u = "clear_bit i s"
  have g: "pmm_geom s" "pmm_count s"
    using assms(1) by (auto simp: pmm_ok_def)
  note cb = clear_bit_frames [OF g assms(2,3)] and pf = PushNode_frames [of ?pa ?u]
  show sg: "same_geometry (PushNode ?pa ?u) s"
    using same_geometry_trans [OF same_frames_geometry [OF pf] cb(1)] by simp
  show fs: "free_set (PushNode ?pa ?u) = insert i (free_set s)"
    using same_frames_simps(1) [OF pf] cb(2) by simp
  obtain xs where xs: "free_list s xs"
    using assms(1,4) by (auto simp: pmm_ok_def)
  have "insert i (free_set s) \<subseteq> {..<unat (total_frames s)}"
    using assms(2) by (auto simp: free_set_def)
  then have "?pa \<notin> frame_pa s ` free_set s"
    using inj_onD [OF inj_on_subset [OF frame_pa_inj [OF g(1)]]] assms(3) by blast
  then have new: "?pa \<notin> set xs"
    using xs by (simp add: free_list_def)
  assume "?pa \<noteq> 0"
  with new have "free_list (PushNode ?pa ?u) (?pa # xs)"
    using xs PushNode_chain [of ?u xs ?pa]
    by (intro free_list_insert [OF g(1) xs assms(2,3) sg fs]) (simp add: free_list_def)
  then show "pmm_ok (PushNode ?pa ?u)"
    using g cb(3) same_geometry_simps(3) [OF sg] same_frames_simps(4) [OF pf] by (auto simp: pmm_ok_def)
qed

lemma unmark_one_ok:
  assumes "pmm_ok s" "i < unat (total_frames s)" "frame_pa s i \<noteq> 0"
  shows "\<exists>t. unmark_one (pfn_base s + of_nat i) s = Some t \<and> pmm_ok t \<and> same_geometry t s
     \<and> free_set t = insert i (free_set s)"
proof -
  have g: "pmm_geom s" "pmm_count s"
    using assms(1) by (auto simp: pmm_ok_def)
  have ix: "unat (of_nat i :: u32) = i"
    using assms(2) by (simp add: unat_of_nat_less)
  note bound = geom_byte_bound(1) [OF g(1) assms(2)]
  show ?thesis
  proof (cases "i \<in> free_set s")
    case True
    then have "unmark_one (pfn_base s + of_nat i) s = Some s"
      by (simp add: unmark_one_def ix bound free_set_def Let_def)
    then show ?thesis
      using True assms(1) by (auto simp: insert_absorb)
  next
    case False
    note cb = clear_bit_frames [OF g assms(2) False]
    have le: "free_frames s + 1 \<le> total_frames s"
      using pmm_count_le [OF cb(3)] by simp
    have bit: "byte_test (bitmap s) i"
      using False assms(2) by (simp add: free_set_def)
    have eq: "unmark_one (pfn_base s + of_nat i) s
       = Some (if freelist_ready s then PushNode (frame_pa s i) (clear_bit i s) else clear_bit i s)"
      by (simp add: unmark_one_def ix bound bit cb(4) le frame_pa_def Let_def)
    show ?thesis
    proof (cases "freelist_ready s")
      case True
      then show ?thesis
        using eq push_frame_ok [OF assms(1,2) False True] assms(3) by auto
    next
      case nr: False
      then have "pmm_ok (clear_bit i s)"
        using cb g same_geometry_simps [OF cb(1)] by (simp add: pmm_ok_def)
      then show ?thesis
        using eq nr cb by auto
    qed
  qed
qed

lemma take_head_ok:
  assumes "pmm_inv s" "free_list s (pa # xs)"
  shows "\<exists>i t. take_head s = Some (pa, t) \<and> i \<in> free_set s \<and> pa = frame_pa s i \<and> pmm_inv t
     \<and> same_geometry t s \<and> free_set t = free_set s - {i}"
proof -
  have g: "pmm_geom s" "pmm_count s" "freelist_ready s"
    using assms(1) by (auto simp: pmm_inv_def pmm_ok_def)
  obtain i where i: "i \<in> free_set s" "pa = frame_pa s i"
    using assms(2) by (auto simp: free_list_def)
  then have it: "i < unat (total_frames s)" "\<not> byte_test (bitmap s) i"
    by (auto simp: free_set_def)
  define u where "u = snd (PopNode s)"
  have pop: "PopNode s = (pa, u)"
    and chain: "free_chain (node_next u) (node_prev u) 0 (freelist_head u) xs"
    using PopNode_chain [of s pa xs] assms(2) by (auto simp: free_list_def u_def prod_eq_iff)
  have uf: "same_frames u s" "freelist_ready u"
    using PopNode_frames [of s] g(3) by (auto simp: u_def)
  note us = same_frames_simps [OF uf(1)]
  have gu: "pmm_geom u" "pmm_count u" "i \<in> free_set u"
    using g i us by auto
  note mb = mark_bit_frames [OF gu]
  have ix: "unat (PaToPfn pa - pfn_base u) = i"
    using frame_ix_pa [OF g(1) it(1)] uf(1) i(2) by (simp add: frame_ix_def same_frames_def)
  have bm: "\<not> byte_test (bitmap u) i" "i div 8 < unat (bitmap_bytes u)"
    using it geom_byte_bound(1) [OF g(1) it(1)] uf(1) by (auto simp: same_frames_def)
  have "free_frames u - 1 \<le> total_frames u"
    using pmm_count_le [OF mb(3)] by simp
  then have eq: "take_head s = Some (pa, PmmSignalSubscribers (mark_bit i u))"
    by (simp add: take_head_def pop ix bm Let_def)
  have sg: "same_geometry (mark_bit i u) s"
    using same_geometry_trans [OF mb(1) same_frames_geometry [OF uf(1)]] uf(2) g(3) by simp
  have fs: "free_set (mark_bit i u) = free_set s - {i}"
    using mb(2) us(1) by simp
  have "free_list (mark_bit i u) (remove1 (frame_pa s i) (pa # xs))"
    using chain i(2) by (intro free_list_remove [OF g(1) assms(2) i(1) sg fs]) simp
  then have inv: "pmm_inv (mark_bit i u)"
    using mb(3) same_geometry_simps(3,7) [OF sg] g by (auto simp: pmm_inv_def pmm_ok_def)
  have same: "pmm_same (PmmSignalSubscribers (mark_bit i u)) (mark_bit i u)"
    by simp
  show ?thesis
    using eq i inv sg fs pmm_same_inv(2,3) [OF same]
      same_geometry_trans [OF pmm_same_geometry [OF same] sg]
    by blast
qed

lemma PmmTakeFreeFrame_some:
  assumes "pmm_inv s" "free_set s \<noteq> {}"
  shows "\<exists>i t. PmmTakeFreeFrame s = Some (frame_pa s i, t) \<and> i \<in> free_set s \<and> pmm_inv t
     \<and> same_geometry t s \<and> free_set t = free_set s - {i}"
proof -
  have g: "pmm_geom s"
    using assms(1) by (simp add: pmm_inv_def pmm_ok_def)
  obtain xs where xs: "free_list s xs"
    using assms(1) by (auto simp: pmm_inv_def pmm_ok_def)
  then obtain pa ys where ys: "xs = pa # ys"
    using assms(2) by (cases xs) (auto simp: free_list_def)
  then have h: "freelist_head s = pa" "pa \<noteq> 0"
    using xs by (auto simp: free_list_def)
  obtain i where "i < unat (total_frames s)" "pa = frame_pa s i"
    using xs ys by (fastforce simp: free_list_def free_set_def)
  then have "PmmIsRecorded s pa"
    using frame_pa_recorded [OF g] by simp
  moreover have "PmmIsRecorded s (node_next s pa)"
    using free_list_neighbours [OF g xs] ys by simp
  ultimately have "PmmTakeFreeFrame s = take_head s"
    using h by (simp add: PmmTakeFreeFrame_def Let_def)
  then show ?thesis
    using take_head_ok [OF assms(1) xs [unfolded ys]] by auto
qed

lemma PmmTakeFreeFrame_none:
  assumes "pmm_inv s" "free_set s = {}"
  shows "PmmTakeFreeFrame s = Some (0, s)"
proof -
  obtain xs where "free_list s xs"
    using assms(1) by (auto simp: pmm_inv_def pmm_ok_def)
  then have "freelist_head s = 0"
    using assms(2) by (auto simp: free_list_def)
  then show ?thesis
    by (simp add: PmmTakeFreeFrame_def)
qed

lemma free_frames_empty: "pmm_inv s \<Longrightarrow> free_frames s = 0 \<longleftrightarrow> free_set s = {}"
  by (auto simp: pmm_inv_def pmm_ok_def pmm_count_def word_unat_eq_iff [of _ 0])

lemma PmmFreeFrame_allocated:
  assumes "pmm_inv s" "i < unat (total_frames s)" "i \<notin> free_set s"
  shows "\<exists>t. PmmFreeFrame (frame_pa s i) s = Some t \<and> (frame_pa s i \<noteq> 0 \<longrightarrow> pmm_inv t) \<and> same_geometry t s
     \<and> free_set t = insert i (free_set s)"
proof -
  have g: "pmm_ok s" "pmm_geom s" "pmm_count s" "freelist_ready s"
    using assms(1) by (auto simp: pmm_inv_def pmm_ok_def)
  have pa: "frame_pa s i mod 4096 = 0" "PaToPfn (frame_pa s i) = pfn_base s + of_nat i"
    "unat (of_nat i :: u32) = i"
    using unat_frame_pa [OF g(2) assms(2)] frame_pfn_bounds(1) [OF g(2) assms(2)] assms(2)
    by (auto simp: page_mod_iff frame_pa_def PaToPfn_PfnToPa unat_of_nat_less)
  note cb = clear_bit_frames [OF g(2,3) assms(2,3)]
  let ?t = "PushNode (frame_pa s i) (clear_bit i s)"
  have "byte_test (bitmap s) i"
    using assms by (simp add: free_set_def)
  then have eq: "PmmFreeFrame (frame_pa s i) s = Some (SyspageUpdateMem ?t)"
    using frame_pfn_bounds(2,3) [OF g(2) assms(2)] geom_byte_bound(1) [OF g(2) assms(2)]
      pmm_count_le [OF g(3)] pmm_count_le [OF cb(3)] pa
    by (simp add: PmmFreeFrame_def Let_def)
  note push = push_frame_ok [OF g(1) assms(2,3) g(4)]
  have same: "pmm_same (SyspageUpdateMem ?t) ?t"
    by simp
  have "frame_pa s i \<noteq> 0 \<longrightarrow> pmm_inv ?t"
    using push g(4) by (simp add: pmm_inv_def)
  then show ?thesis
    using eq push pmm_same_inv(2,3) [OF same] same_geometry_trans [OF pmm_same_geometry [OF same] push(2)]
    by auto
qed

lemma PmmFreeFrame_panics:
  assumes "pmm_inv s" "\<not> (\<exists>i < unat (total_frames s). pa = frame_pa s i \<and> i \<notin> free_set s)"
  shows "PmmFreeFrame pa s = None"
proof (cases "unat pa mod 4096 = 0 \<and> pfn_base s \<le> PaToPfn pa \<and> PaToPfn pa < pfn_end s")
  case True
  have g: "pmm_geom s"
    using assms(1) by (simp add: pmm_inv_def pmm_ok_def)
  note f = frame_of_managed [OF g]
  have "frame_ix s pa \<in> free_set s"
    using assms(2) f True by metis
  then have "\<not> byte_test (bitmap s) (unat (PaToPfn pa - pfn_base s))"
    by (simp add: free_set_def frame_ix_def)
  then show ?thesis
    by (simp add: PmmFreeFrame_def Let_def)
next
  case False
  then show ?thesis
    by (auto simp: PmmFreeFrame_def page_mod_iff Let_def)
qed

section \<open>Ranges of frames\<close>

lemma range_pfn:
  assumes "pmm_geom s" "unat (pfn_base s) \<le> p" "p < unat (pfn_end s)"
  shows "(of_nat p :: u32) = pfn_base s + of_nat (p - unat (pfn_base s))"
    "p - unat (pfn_base s) < unat (total_frames s)"
  using assms pmm_geom_total [OF assms(1)] by (auto simp: of_nat_diff)

lemma mark_loop_ok:
  assumes "pmm_ok s" "\<And>p. p \<in> set ps \<Longrightarrow> unat (pfn_base s) \<le> p \<and> p < unat (pfn_end s)"
  shows "\<exists>t. mark_loop ps (b, s) = Some (b, t) \<and> pmm_ok t \<and> same_geometry t s
     \<and> free_set t = free_set s - (\<lambda>p. p - unat (pfn_base s)) ` set ps"
  using assms
proof (induction ps arbitrary: s)
  case (Cons p ps)
  have g: "pmm_geom s"
    using Cons.prems(1) by (simp add: pmm_ok_def)
  have p: "unat (pfn_base s) \<le> p" "p < unat (pfn_end s)"
    using Cons.prems(2) [of p] by auto
  note rp = range_pfn [OF g p]
  obtain t where t: "mark_one (of_nat p) (b, s) = Some (b, t)" "pmm_ok t" "same_geometry t s"
    "free_set t = free_set s - {p - unat (pfn_base s)}"
    using mark_one_ok [OF Cons.prems(1) rp(2), of b, folded rp(1)] by blast
  note ts = same_geometry_simps [OF t(3)]
  obtain u where u: "mark_loop ps (b, t) = Some (b, u)" "pmm_ok u" "same_geometry u t"
    "free_set u = free_set t - (\<lambda>p. p - unat (pfn_base t)) ` set ps"
    using Cons.IH [OF t(2)] Cons.prems(2) ts by auto
  show ?case
    using t u ts same_geometry_trans [OF u(3) t(3)] by auto
qed simp

lemma unmark_loop_ok:
  assumes "pmm_ok s" "\<And>p. p \<in> set ps \<Longrightarrow> unat (pfn_base s) \<le> p \<and> p < unat (pfn_end s) \<and> 0 < p"
  shows "\<exists>t. unmark_loop ps s = Some t \<and> pmm_ok t \<and> same_geometry t s
     \<and> free_set t = free_set s \<union> (\<lambda>p. p - unat (pfn_base s)) ` set ps"
  using assms
proof (induction ps arbitrary: s)
  case (Cons p ps)
  have g: "pmm_geom s"
    using Cons.prems(1) by (simp add: pmm_ok_def)
  have p: "unat (pfn_base s) \<le> p" "p < unat (pfn_end s)" "0 < p"
    using Cons.prems(2) [of p] by auto
  note rp = range_pfn [OF g p(1,2)]
  have nz: "frame_pa s (p - unat (pfn_base s)) \<noteq> 0"
    using frame_pa_zero [OF g rp(2)] p by auto
  obtain t where t: "unmark_one (of_nat p) s = Some t" "pmm_ok t" "same_geometry t s"
    "free_set t = insert (p - unat (pfn_base s)) (free_set s)"
    using unmark_one_ok [OF Cons.prems(1) rp(2) nz, folded rp(1)] by blast
  note ts = same_geometry_simps [OF t(3)]
  obtain u where u: "unmark_loop ps t = Some u" "pmm_ok u" "same_geometry u t"
    "free_set u = free_set t \<union> (\<lambda>p. p - unat (pfn_base t)) ` set ps"
    using Cons.IH [OF t(2)] Cons.prems(2) ts by auto
  show ?case
    using t u ts same_geometry_trans [OF u(3) t(3)] by auto
qed simp

text \<open>Frame \<open>i\<close> has a byte in the half-open address range.\<close>

definition touches :: "PmmState \<Rightarrow> PhysAddr \<Rightarrow> PhysAddr \<Rightarrow> nat \<Rightarrow> bool" where
  "touches s start stop i \<longleftrightarrow>
     (unat (pfn_base s) + i) * 4096 < unat stop \<and> unat start < (unat (pfn_base s) + i + 1) * 4096"

definition in_ram :: "PmmState \<Rightarrow> PhysAddr \<Rightarrow> PhysAddr \<Rightarrow> bool" where
  "in_ram s start stop \<longleftrightarrow>
     unat (pfn_base s) * 4096 \<le> unat start \<and> unat stop \<le> unat (pfn_end s) * 4096"

lemma range_pfns:
  assumes "unat stop + 4095 < 2 ^ 32"
  shows "unat (PaToPfn (align_down start PAGE_SIZE)) = unat start div 4096"
    "unat (PaToPfn (align_up stop PAGE_SIZE)) = (unat stop + 4095) div 4096"
  using assms unat_align_down_page [of start] unat_align_up_page [of stop]
  by (simp_all add: unat_PaToPfn)

lemma page_div:
  "unat x div 4096 < n \<longleftrightarrow> unat x < n * 4096"
  "unat x div 4096 \<le> n \<longleftrightarrow> unat x < (n + 1) * 4096"
  "n < (unat x + 4095) div 4096 \<longleftrightarrow> n * 4096 < unat x"
proof -
  show lt: "unat x div 4096 < n \<longleftrightarrow> unat x < n * 4096" for n
    by (simp add: div_less_iff_less_mult)
  show "unat x div 4096 \<le> n \<longleftrightarrow> unat x < (n + 1) * 4096"
    using lt [of "n + 1"] by linarith
  have "n < (unat x + 4095) div 4096 \<longleftrightarrow> (n + 1) * 4096 \<le> unat x + 4095"
    using less_eq_div_iff_mult_less_eq [of 4096 "n + 1" "unat x + 4095"] by linarith
  then show "n < (unat x + 4095) div 4096 \<longleftrightarrow> n * 4096 < unat x"
    by linarith
qed

lemma range_guard:
  assumes "unat stop + 4095 < 2 ^ 32"
  shows "PaToPfn (align_down start PAGE_SIZE) < pfn_base s
       \<or> PaToPfn (align_up stop PAGE_SIZE) > pfn_end s \<longleftrightarrow> \<not> in_ram s start stop"
  unfolding word_less_nat_alt range_pfns [OF assms] in_ram_def page_div by linarith

lemma range_bounds:
  assumes "in_ram s start stop" "p \<in> set [unat start div 4096..<(unat stop + 4095) div 4096]"
  shows "unat (pfn_base s) \<le> p" "p < unat (pfn_end s)"
proof -
  have *: "unat start < (p + 1) * 4096" "p * 4096 < unat stop"
    using assms(2) unfolding set_upt atLeastLessThan_iff page_div by simp_all
  show "unat (pfn_base s) \<le> p"
    using assms(1) * by (simp add: in_ram_def)
  show "p < unat (pfn_end s)"
    using assms(1) * by (simp add: in_ram_def)
qed

lemma range_indices:
  assumes "in_ram s start stop"
  shows "(\<lambda>p. p - unat (pfn_base s)) ` set [unat start div 4096..<(unat stop + 4095) div 4096]
     = {i. touches s start stop i}" (is "?f ` set ?ps = _")
proof (intro equalityI subsetI)
  fix i assume "i \<in> ?f ` set ?ps"
  then obtain p where p: "p \<in> set ?ps" "i = p - unat (pfn_base s)"
    by blast
  then have "unat (pfn_base s) + i = p"
    using range_bounds(1) [OF assms p(1)] by simp
  then show "i \<in> {i. touches s start stop i}"
    using p(1) unfolding touches_def set_upt atLeastLessThan_iff page_div by simp
next
  fix i assume "i \<in> {i. touches s start stop i}"
  then have "unat (pfn_base s) + i \<in> set ?ps"
    unfolding touches_def set_upt atLeastLessThan_iff page_div mem_Collect_eq by simp
  then show "i \<in> ?f ` set ?ps"
    by (intro image_eqI [of _ _ "unat (pfn_base s) + i"]) simp_all
qed

lemma PmmMarkRange_ok:
  assumes "pmm_ok s" "start < stop" "unat stop + 4095 < 2 ^ 32" "in_ram s start stop"
  shows "\<exists>t. PmmMarkRange start stop s = Some (ZUZU_OK, t) \<and> pmm_ok t \<and> same_geometry t s
     \<and> free_set t = free_set s - {i. touches s start stop i}"
proof -
  have g: "pmm_geometry s" "pfn_base s < pfn_end s"
    using assms(1) by (auto simp: pmm_ok_def pmm_geom_def word_less_nat_alt)
  let ?ps = "[unat start div 4096..<(unat stop + 4095) div 4096]"
  obtain t where t: "mark_loop ?ps (False, s) = Some (False, t)" "pmm_ok t" "same_geometry t s"
    "free_set t = free_set s - {i. touches s start stop i}"
    using mark_loop_ok [OF assms(1), of ?ps False] range_bounds [OF assms(4)] range_indices [OF assms(4)]
    by metis
  have "PmmMarkRange start stop s = Some (ZUZU_OK, t)"
    using range_guard [OF assms(3), of start s] assms(2,4) g t(1)
    by (simp add: PmmMarkRange_def range_pfns [OF assms(3)] Let_def del: PAGE_SIZE_val)
  then show ?thesis
    using t by blast
qed

lemma range_positive:
  assumes "in_ram s start stop" "0 < unat (pfn_base s) \<or> 4096 \<le> unat start"
    "p \<in> set [unat start div 4096..<(unat stop + 4095) div 4096]"
  shows "0 < p"
proof -
  have "unat start < (p + 1) * 4096"
    using assms(3) unfolding set_upt atLeastLessThan_iff page_div by simp
  then show ?thesis
    using assms(2) range_bounds(1) [OF assms(1,3)] by auto
qed

lemma PmmUnmarkRange_ok:
  assumes "pmm_ok s" "start < stop" "unat stop + 4095 < 2 ^ 32" "in_ram s start stop" "0 < unat (pfn_base s) \<or> 4096 \<le> unat start"
  shows "\<exists>t. PmmUnmarkRange start stop s = Some (ZUZU_OK, t) \<and> pmm_ok t \<and> same_geometry t s
     \<and> free_set t = free_set s \<union> {i. touches s start stop i}"
proof -
  have g: "pmm_geometry s" "pfn_base s < pfn_end s"
    using assms(1) by (auto simp: pmm_ok_def pmm_geom_def word_less_nat_alt)
  let ?ps = "[unat start div 4096..<(unat stop + 4095) div 4096]"
  obtain t where t: "unmark_loop ?ps s = Some t" "pmm_ok t" "same_geometry t s"
    "free_set t = free_set s \<union> {i. touches s start stop i}"
    using unmark_loop_ok [OF assms(1), of ?ps] range_bounds [OF assms(4)] range_positive [OF assms(4,5)]
      range_indices [OF assms(4)]
    by metis
  have "PmmUnmarkRange start stop s = Some (ZUZU_OK, t)"
    using range_guard [OF assms(3), of start s] assms(2,4) g t(1)
    by (simp add: PmmUnmarkRange_def range_pfns [OF assms(3)] Let_def del: PAGE_SIZE_val)
  then show ?thesis
    using t by blast
qed

lemma range_outside:
  assumes "unat stop + 4095 < 2 ^ 32" "\<not> in_ram s start stop"
  shows "PmmMarkRange start stop s = Some (ERR_BADARG, s)"
    "PmmUnmarkRange start stop s = Some (ERR_BADARG, s)"
  using assms(2) range_guard [OF assms(1), of start s]
  by (auto simp: PmmMarkRange_def PmmUnmarkRange_def Let_def simp del: PAGE_SIZE_val)

section \<open>Scans for contiguous frames\<close>

text \<open>\<open>aligned_run bm base align n k\<close>: a run of \<open>n\<close> clear bits at \<open>k\<close> whose frame number is aligned.\<close>

definition aligned_run :: "u8 list \<Rightarrow> Pfn \<Rightarrow> u32 \<Rightarrow> nat \<Rightarrow> nat \<Rightarrow> bool" where
  "aligned_run bm base align n k \<longleftrightarrow>
     (base + of_nat k) AND (align - 1) = 0 \<and> clear_run (byte_test bm) n k"

definition first_fit :: "(nat \<Rightarrow> bool) \<Rightarrow> nat \<Rightarrow> nat \<Rightarrow> nat option \<Rightarrow> bool" where
  "first_fit P n tot r =
     (case r of
        None \<Rightarrow> \<forall>k. k + n \<le> tot \<longrightarrow> \<not> P k
      | Some k \<Rightarrow> k + n \<le> tot \<and> P k \<and> (\<forall>j < k. \<not> P j))"

lemma contig_scan_aligned:
  "contig_scan bm nbytes n c st xs = aligned_scan bm nbytes base 1 n c st xs"
  by (induction xs arbitrary: c st) auto

lemma aligned_scan_first_fit:
  assumes "0 < n" "i \<le> tot" "c \<le> i" "c < n" "tot \<le> nbytes * 8"
    and "0 < c \<Longrightarrow> st = i - c \<and> (base + of_nat st) AND (align - 1) = 0"
    and "\<And>j. i - c \<le> j \<Longrightarrow> j < i \<Longrightarrow> \<not> byte_test bm j"
    and "\<And>k. k < i - c \<Longrightarrow> \<not> aligned_run bm base align n k"
  shows "first_fit (aligned_run bm base align n) n tot
           (aligned_scan bm nbytes base align n c st [i..<tot])"
  using assms
proof (induction "tot - i" arbitrary: i c st)
  case 0
  then have "\<not> aligned_run bm base align n k" if "k + n \<le> tot" for k
    using that by auto
  then show ?case
    using 0 by (simp add: first_fit_def)
next
  case (Suc d)
  then have "i < tot" by simp
  then have upt: "[i..<tot] = i # [Suc i..<tot]" and ib: "i div 8 < nbytes"
    using Suc.prems(5) by (auto simp: upt_conv_Cons)
  note IH = Suc.hyps(1) [of "Suc i"]
  have step: "d = tot - Suc i" "Suc i \<le> tot"
    using Suc.hyps(2) \<open>i < tot\<close> by auto
  note [simp del] = upt_Suc
  show ?case
  proof (cases "c = 0 \<and> (base + of_nat i) AND (align - 1) \<noteq> 0")
    case True
    then have "\<not> aligned_run bm base align n k" if "k < Suc i" for k
      using Suc.prems(8) [of k] that by (cases "k = i") (auto simp: aligned_run_def)
    then show ?thesis
      using IH [of 0 st] step Suc.prems(1,5) True by (simp add: upt)
  next
    case False
    show ?thesis
    proof (cases "byte_test bm i")
      case True
      have "\<not> aligned_run bm base align n k" if "k < Suc i" for k
      proof (cases "k < i - c")
        case False
        then have "k \<le> i" "i < k + n"
          using that Suc.prems(3,4) by auto
        then show ?thesis
          using True by (auto simp: aligned_run_def clear_run_def)
      qed (use Suc.prems(8) in simp)
      then show ?thesis
        using IH [of 0 st] step Suc.prems(1,5) True False ib by (simp add: upt)
    next
      case clear: False
      define st' where "st' = (if c = 0 then i else st)"
      have st': "st' = i - c" "(base + of_nat st') AND (align - 1) = 0"
        using False Suc.prems(6) by (auto simp: st'_def)
      have run: "\<not> byte_test bm j" if "i - c \<le> j" "j < Suc i" for j
        using Suc.prems(7) [of j] that clear by (auto simp: less_Suc_eq)
      show ?thesis
      proof (cases "Suc c = n")
        case True
        then have "st' + n = Suc i"
          using st'(1) Suc.prems(3) by simp
        then have "first_fit (aligned_run bm base align n) n tot (Some st')"
          using st' run Suc.prems(8) \<open>i < tot\<close> by (auto simp: first_fit_def aligned_run_def clear_run_def)
        then show ?thesis
          using True False clear ib by (auto simp: upt st'_def Let_def)
      next
        case neq: False
        have "first_fit (aligned_run bm base align n) n tot
                (aligned_scan bm nbytes base align n (Suc c) st' [Suc i..<tot])"
        proof (rule IH)
          show "Suc c < n"
            using neq Suc.prems(4) by simp
        qed (use st' run Suc.prems(1,3,5,8) step in simp_all)
        then show ?thesis
          using False clear neq ib by (auto simp: upt st'_def Let_def)
      qed
    qed
  qed
qed

end
