(* ===== verification/Pmm_Correct.thy ===== *)
theory Pmm_Correct
  imports Pmm
begin

text \<open>
  Correctness of the frame allocator: boot-time initialisation establishes the invariant of
  \<open>Pmm\<close>, every operation keeps it and changes the set of free frames as its documentation in
  \<open>pmm.h\<close> says, and no sequence of operations hands out a frame that is in use.
\<close>

section \<open>Rebuilding the free list\<close>

abbreviation (input) rebuild_step :: "nat \<Rightarrow> PmmState \<Rightarrow> PmmState" where
  "rebuild_step \<equiv> \<lambda>i s. if \<not> byte_test (bitmap s) i
                    then PushNode (PfnToPa (pfn_base s + of_nat i)) s else s"

lemma rebuild_prefix:
  assumes "pmm_geom s" "freelist_head s = 0" "k \<le> unat (total_frames s)"
    and nz: "\<forall>i \<in> free_set s. frame_pa s i \<noteq> 0"
  shows "\<exists>xs. same_frames (fold rebuild_step [0..<k] s) s
     \<and> freelist_ready (fold rebuild_step [0..<k] s) = freelist_ready s
     \<and> distinct xs \<and> set xs = frame_pa s ` {i. i < k \<and> \<not> byte_test (bitmap s) i}
     \<and> free_chain (node_next (fold rebuild_step [0..<k] s)) (node_prev (fold rebuild_step [0..<k] s)) 0
         (freelist_head (fold rebuild_step [0..<k] s)) xs"
  using assms(3)
proof (induction k)
  case 0
  then show ?case
    using assms(2) by (intro exI [of _ "[]"]) (simp add: same_frames_def)
next
  case (Suc k)
  let ?t = "fold rebuild_step [0..<k] s"
  obtain xs where xs: "same_frames ?t s" "freelist_ready ?t = freelist_ready s" "distinct xs"
    "set xs = frame_pa s ` {i. i < k \<and> \<not> byte_test (bitmap s) i}"
    "free_chain (node_next ?t) (node_prev ?t) 0 (freelist_head ?t) xs"
    using Suc by auto
  have bm: "bitmap ?t = bitmap s" "pfn_base ?t = pfn_base s"
    using xs(1) by (auto simp: same_frames_def)
  show ?case
  proof (cases "byte_test (bitmap s) k")
    case True
    then have "{i. i < Suc k \<and> \<not> byte_test (bitmap s) i} = {i. i < k \<and> \<not> byte_test (bitmap s) i}"
      by (auto simp: less_Suc_eq)
    then show ?thesis
      using xs bm True by auto
  next
    case False
    let ?pa = "frame_pa s k"
    have step: "fold rebuild_step [0..<Suc k] s = PushNode ?pa ?t"
      using False bm by (simp add: frame_pa_def)
    have sub: "{i. i < Suc k} \<subseteq> {..<unat (total_frames s)}"
      using Suc.prems by auto
    have pa: "?pa \<notin> set xs" "?pa \<noteq> 0"
      using inj_onD [OF inj_on_subset [OF frame_pa_inj [OF assms(1)] sub]] xs(4) False nz Suc.prems
      by (fastforce simp: free_set_def)+
    have img: "frame_pa s ` {i. i < Suc k \<and> \<not> byte_test (bitmap s) i} = insert ?pa (set xs)"
      using False unfolding xs(4) by (auto simp: less_Suc_eq)
    have "same_frames (PushNode ?pa ?t) s"
      using PushNode_frames [of ?pa ?t] xs(1) by (auto simp: same_frames_def)
    then show ?thesis
      unfolding step using xs pa img PushNode_chain [OF xs(5,3) pa]
      by (intro exI [of _ "?pa # xs"]) simp
  qed
qed

lemma PmmRebuildFreelist_inv:
  assumes "pmm_geom s" "pmm_count s" "\<forall>i \<in> free_set s. frame_pa s i \<noteq> 0"
  shows "pmm_inv (PmmRebuildFreelist s)" "free_set (PmmRebuildFreelist s) = free_set s"
    "same_frames (PmmRebuildFreelist s) s"
proof -
  let ?s0 = "s\<lparr>freelist_head := 0\<rparr>" and ?n = "unat (total_frames s)"
  let ?t = "fold rebuild_step [0..<?n] ?s0"
  have s0: "pmm_geom ?s0" "frame_pa ?s0 = frame_pa s" "free_set ?s0 = free_set s"
    using assms(1)
    by (auto simp: pmm_geom_def pmm_geometry_def frame_pa_def free_set_def fun_eq_iff)
  obtain xs where xs: "same_frames ?t ?s0" "distinct xs"
    "set xs = frame_pa s ` {i. i < ?n \<and> \<not> byte_test (bitmap s) i}"
    "free_chain (node_next ?t) (node_prev ?t) 0 (freelist_head ?t) xs"
    using rebuild_prefix [OF s0(1), of ?n] s0(2,3) assms(3) by auto
  have r: "PmmRebuildFreelist s = ?t\<lparr>freelist_ready := True\<rparr>"
    by (simp add: PmmRebuildFreelist_def Let_def)
  show sf: "same_frames (PmmRebuildFreelist s) s"
    using xs(1) unfolding r by (simp add: same_frames_def)
  note ss = same_frames_simps [OF sf]
  show "free_set (PmmRebuildFreelist s) = free_set s"
    by (rule ss(1))
  have "free_list (PmmRebuildFreelist s) xs"
    using xs ss(1,2) unfolding free_list_def r by (simp add: free_set_def)
  then show "pmm_inv (PmmRebuildFreelist s)"
    using assms ss(3,4) by (auto simp: pmm_inv_def pmm_ok_def r)
qed

section \<open>Contiguous runs\<close>

lemma run_range:
  assumes "pmm_geom s" "k + unat n \<le> unat (total_frames s)" "0 < n"
  shows "unat (PfnToPa (pfn_base s + of_nat k)) = (unat (pfn_base s) + k) * 4096"
    "unat (PfnToPa (pfn_base s + of_nat k + n)) = (unat (pfn_base s) + k + unat n) * 4096"
    "unat (pfn_base s + of_nat k + n) = unat (pfn_base s) + k + unat n"
proof -
  have b: "unat (pfn_base s) + (k + unat n) \<le> unat (pfn_end s)" "unat (pfn_end s) < 2 ^ 20"
    using assms(1,2) pmm_geom_total [OF assms(1)] by (auto simp: pmm_geom_def)
  have k: "unat (pfn_base s + of_nat k) = unat (pfn_base s) + k"
    using assms(2) by (intro unat_frame_pfn [OF assms(1)]) simp
  show kn: "unat (pfn_base s + of_nat k + n) = unat (pfn_base s) + k + unat n"
    using k b by (simp add: unat_word_ariths)
  show "unat (PfnToPa (pfn_base s + of_nat k)) = (unat (pfn_base s) + k) * 4096"
    using k b by (subst unat_PfnToPa) simp_all
  show "unat (PfnToPa (pfn_base s + of_nat k + n)) = (unat (pfn_base s) + k + unat n) * 4096"
    using kn b by (subst unat_PfnToPa) simp_all
qed

lemma mark_run:
  assumes "pmm_inv s" "k + unat n \<le> unat (total_frames s)" "0 < n"
  obtains t where "PmmMarkRange (PfnToPa (pfn_base s + of_nat k)) (PfnToPa (pfn_base s + of_nat k + n)) s
       = Some (ZUZU_OK, t)" "same_geometry t s" "pmm_inv (PmmSignalSubscribers (SyspageUpdateMem t))"
    "same_geometry (PmmSignalSubscribers (SyspageUpdateMem t)) s"
    "free_set (PmmSignalSubscribers (SyspageUpdateMem t)) = free_set s - {k..<k + unat n}"
proof -
  have ok: "pmm_ok s" "freelist_ready s" "pmm_geom s"
    using assms(1) by (auto simp: pmm_inv_def pmm_ok_def)
  let ?a = "PfnToPa (pfn_base s + of_nat k)" and ?b = "PfnToPa (pfn_base s + of_nat k + n)"
  note r = run_range [OF ok(3) assms(2,3)]
  have b: "unat (pfn_base s) + (k + unat n) \<le> unat (pfn_end s)" "unat (pfn_end s) < 2 ^ 20"
    using ok(3) assms(2) pmm_geom_total [OF ok(3)] by (auto simp: pmm_geom_def)
  have "0 < unat n"
    using assms(3) by (simp add: word_less_nat_alt)
  then have h: "?a < ?b" "unat ?b + 4095 < 2 ^ 32" "in_ram s ?a ?b"
    using r b by (simp_all add: word_less_nat_alt in_ram_def)
  have "touches s ?a ?b i \<longleftrightarrow> k \<le> i \<and> i < k + unat n" for i
    unfolding touches_def r by auto
  then have set: "{i. touches s ?a ?b i} = {k..<k + unat n}"
    by (intro set_eqI) simp
  obtain t where t: "PmmMarkRange ?a ?b s = Some (ZUZU_OK, t)" "pmm_ok t" "same_geometry t s"
    "free_set t = free_set s - {k..<k + unat n}"
    using PmmMarkRange_ok [OF ok(1) h] unfolding set by blast
  have "pmm_inv t"
    using t(2) same_geometry_simps(7) [OF t(3)] ok(2) by (simp add: pmm_inv_def)
  moreover have "pmm_same (PmmSignalSubscribers (SyspageUpdateMem t)) t"
    by simp
  note same = pmm_same_inv [OF this] same_geometry_trans [OF pmm_same_geometry [OF this] t(3)]
  ultimately show ?thesis
    using that [OF t(1,3)] same t(4) by simp
qed

text \<open>What a contiguous allocation of \<open>n\<close> frames at the predicate's first fit does.\<close>

definition contig_outcome ::
    "(nat \<Rightarrow> bool) \<Rightarrow> u32 \<Rightarrow> PmmState \<Rightarrow> (PhysAddr \<times> PmmState) option \<Rightarrow> bool" where
  "contig_outcome P n s r \<longleftrightarrow>
     (case r of
        None \<Rightarrow> False
      | Some (pa, t) \<Rightarrow>
          (if \<exists>k. k + unat n \<le> unat (total_frames s) \<and> P k
           then \<exists>k. P k \<and> (\<forall>j < k. \<not> P j) \<and> k + unat n \<le> unat (total_frames s) \<and> pa = frame_pa s k
                 \<and> pmm_inv t \<and> same_geometry t s \<and> free_set t = free_set s - {k..<k + unat n}
                 \<and> {k..<k + unat n} \<subseteq> free_set s
           else pa = PA_NULL \<and> t = s))"

lemma run_fits_free:
  assumes "pmm_inv s" "clear_run (byte_test (bitmap s)) (unat n) k" "k + unat n \<le> unat (total_frames s)"
  shows "{k..<k + unat n} \<subseteq> free_set s" "n \<le> free_frames s"
proof -
  show sub: "{k..<k + unat n} \<subseteq> free_set s"
    using assms(2,3) by (auto simp: clear_run_def free_set_def)
  have "card {k..<k + unat n} \<le> card (free_set s)"
    using sub by (intro card_mono) simp_all
  then show "n \<le> free_frames s"
    using assms(1) by (simp add: pmm_inv_def pmm_ok_def pmm_count_def word_le_nat_alt)
qed

lemma PmmAllocFramesContig_outcome:
  assumes "pmm_inv s" "0 < n"
  shows "contig_outcome (clear_run (byte_test (bitmap s)) (unat n)) n s (PmmAllocFramesContig n s)"
proof (cases "free_frames s < n")
  case True
  then have "\<not> (\<exists>k. k + unat n \<le> unat (total_frames s) \<and> clear_run (byte_test (bitmap s)) (unat n) k)"
    using run_fits_free [OF assms(1), of n] by (auto simp: not_le [symmetric])
  then show ?thesis
    using True unfolding contig_outcome_def by (simp only: if_False PmmAllocFramesContig_def) simp
next
  case False
  have g: "pmm_geometry s" "pmm_geom s" "free_frames s \<le> total_frames s"
    using assms(1) pmm_count_le by (auto simp: pmm_inv_def pmm_ok_def pmm_geom_def)
  have run1: "aligned_run (bitmap s) (pfn_base s) 1 (unat n) = clear_run (byte_test (bitmap s)) (unat n)"
    by (simp add: aligned_run_def fun_eq_iff)
  define r where "r = contig_scan (bitmap s) (unat (bitmap_bytes s)) (unat n) 0 0 [0..<unat (total_frames s)]"
  have ff: "first_fit (clear_run (byte_test (bitmap s)) (unat n)) (unat n) (unat (total_frames s)) r"
    unfolding r_def contig_scan_aligned [where base = "pfn_base s"] run1 [symmetric]
    using g assms(2)
    by (intro aligned_scan_first_fit) (auto simp: pmm_geometry_def word_less_nat_alt)
  have pre: "n \<noteq> 0" "n \<le> total_frames s"
    using assms(2) False g(3) by auto
  show ?thesis
  proof (cases r)
    case None
    then show ?thesis
      using ff False pre g unfolding r_def
      by (auto simp: contig_outcome_def PmmAllocFramesContig_def first_fit_def)
  next
    case (Some k)
    then have k: "k + unat n \<le> unat (total_frames s)" "clear_run (byte_test (bitmap s)) (unat n) k"
      "\<forall>j < k. \<not> clear_run (byte_test (bitmap s)) (unat n) j"
      using ff by (auto simp: first_fit_def)
    obtain t where t: "PmmMarkRange (PfnToPa (pfn_base s + of_nat k)) (PfnToPa (pfn_base s + of_nat k + n)) s
       = Some (ZUZU_OK, t)" "same_geometry t s" "pmm_inv (PmmSignalSubscribers (SyspageUpdateMem t))"
      "same_geometry (PmmSignalSubscribers (SyspageUpdateMem t)) s"
      "free_set (PmmSignalSubscribers (SyspageUpdateMem t)) = free_set s - {k..<k + unat n}"
      by (rule mark_run [OF assms(1) k(1) assms(2)])
    have kt: "k < unat (total_frames s)"
      using k(1) assms(2) by (simp add: word_less_nat_alt)
    have fin: "frame_pa s k mod 4096 = 0" "pfn_base s \<le> pfn_base s + of_nat k"
      "pfn_base s + of_nat k + n \<le> pfn_end s"
      using unat_frame_pa [OF g(2) kt] frame_pfn_bounds(2) [OF g(2) kt]
        run_range(3) [OF g(2) k(1) assms(2)] k(1) pmm_geom_total [OF g(2)] g(2)
      by (auto simp: page_mod_iff word_le_nat_alt pmm_geom_def)
    have "PmmAllocFramesContig n s = Some (frame_pa s k, PmmSignalSubscribers (SyspageUpdateMem t))"
      using Some False pre g t(1) fin same_geometry_simps(5,6) [OF t(2)] unfolding r_def
      by (simp add: PmmAllocFramesContig_def Let_def frame_pa_def)
    then show ?thesis
      using k t(3-5) run_fits_free(1) [OF assms(1) k(2,1)] unfolding contig_outcome_def by auto
  qed
qed

definition pow2 :: "u32 \<Rightarrow> bool" where
  "pow2 a \<longleftrightarrow> a AND (a - 1) = 0"

lemma PmmAllocFramesContigAligned_outcome:
  assumes "pmm_inv s" "0 < n" "align \<noteq> 0" "pow2 align"
  shows "contig_outcome (aligned_run (bitmap s) (pfn_base s) align (unat n)) n s
           (PmmAllocFramesContigAligned n align s)" (is "contig_outcome ?P n s _")
proof (cases "free_frames s < n")
  case True
  then have "\<not> (\<exists>k. k + unat n \<le> unat (total_frames s) \<and> ?P k)"
    using run_fits_free [OF assms(1), of n] by (auto simp: not_le [symmetric] aligned_run_def)
  then show ?thesis
    using True assms(3,4) unfolding contig_outcome_def
    by (simp only: if_False PmmAllocFramesContigAligned_def pow2_def) (simp add: Let_def)
next
  case False
  have g: "pmm_geometry s" "pmm_geom s"
    using assms(1) by (auto simp: pmm_inv_def pmm_ok_def pmm_geom_def)
  define r where "r = aligned_scan (bitmap s) (unat (bitmap_bytes s)) (pfn_base s) align
                        (unat n) 0 0 [0..<unat (total_frames s)]"
  have ff: "first_fit ?P (unat n) (unat (total_frames s)) r"
    unfolding r_def using g assms(2)
    by (intro aligned_scan_first_fit) (auto simp: pmm_geometry_def word_less_nat_alt)
  note unfold = PmmAllocFramesContigAligned_def Let_def r_def [symmetric]
  have pre: "n \<noteq> 0" "align AND (align - 1) = 0"
    using assms(2,4) by (auto simp: pow2_def)
  show ?thesis
  proof (cases r)
    case None
    then show ?thesis
      using ff False pre g assms(3) by (auto simp: contig_outcome_def first_fit_def unfold)
  next
    case (Some k)
    then have k: "k + unat n \<le> unat (total_frames s)" "?P k" "\<forall>j < k. \<not> ?P j"
      using ff by (auto simp: first_fit_def)
    obtain t where t: "PmmMarkRange (PfnToPa (pfn_base s + of_nat k)) (PfnToPa (pfn_base s + of_nat k + n)) s
       = Some (ZUZU_OK, t)" "same_geometry t s" "pmm_inv (PmmSignalSubscribers (SyspageUpdateMem t))"
      "same_geometry (PmmSignalSubscribers (SyspageUpdateMem t)) s"
      "free_set (PmmSignalSubscribers (SyspageUpdateMem t)) = free_set s - {k..<k + unat n}"
      by (rule mark_run [OF assms(1) k(1) assms(2)])
    have "PmmAllocFramesContigAligned n align s
       = Some (frame_pa s k, PmmSignalSubscribers (SyspageUpdateMem t))"
      using Some False pre g t(1) assms(3) by (simp add: unfold frame_pa_def)
    moreover have "{k..<k + unat n} \<subseteq> free_set s"
      using k(1,2) by (intro run_fits_free(1) [OF assms(1)]) (auto simp: aligned_run_def)
    ultimately show ?thesis
      using k t(3-5) unfolding contig_outcome_def by auto
  qed
qed

text \<open>An alignment of 0 means no alignment.\<close>

definition run_align :: "u32 \<Rightarrow> u32" where
  "run_align align = (if align = 0 then 1 else align)"

lemma PmmAllocFramesContigAligned_run_align:
  assumes "pmm_inv s" "0 < n" "pow2 align"
  shows "contig_outcome (aligned_run (bitmap s) (pfn_base s) (run_align align) (unat n)) n s
           (PmmAllocFramesContigAligned n align s)"
proof -
  have "PmmAllocFramesContigAligned n align s = PmmAllocFramesContigAligned n (run_align align) s"
    by (simp add: PmmAllocFramesContigAligned_def run_align_def)
  moreover have "pow2 (run_align align)" "run_align align \<noteq> 0"
    using assms(3) by (auto simp: pow2_def run_align_def)
  ultimately show ?thesis
    using PmmAllocFramesContigAligned_outcome [OF assms(1,2)] by simp
qed

section \<open>Scattered frames\<close>

lemma scatter_loop_ok:
  assumes "pmm_inv s" "n \<le> card (free_set s)"
  shows "\<exists>ks t. scatter_loop n out s = Some (out @ map (frame_pa s) ks, t) \<and> length ks = n
     \<and> distinct ks \<and> set ks \<subseteq> free_set s \<and> pmm_inv t \<and> same_geometry t s
     \<and> free_set t = free_set s - set ks"
  using assms
proof (induction n arbitrary: s out)
  case 0
  have same: "pmm_same (SyspageUpdateMem s) s"
    by simp
  show ?case
    using 0 pmm_same_inv [OF same] pmm_same_geometry [OF same] by (intro exI [of _ "[]"]) simp
next
  case (Suc n)
  then have "free_set s \<noteq> {}"
    by auto
  then obtain i t where t: "PmmTakeFreeFrame s = Some (frame_pa s i, t)" "i \<in> free_set s" "pmm_inv t"
    "same_geometry t s" "free_set t = free_set s - {i}"
    using PmmTakeFreeFrame_some [OF Suc.prems(1)] by blast
  have "frame_pa s i \<noteq> 0"
    using t(2) Suc.prems(1) pmm_inv_nz by blast
  moreover have "n \<le> card (free_set t)"
    using Suc.prems(2) t(2,5) by simp
  then obtain ks u where u: "scatter_loop n (out @ [frame_pa s i]) t
      = Some ((out @ [frame_pa s i]) @ map (frame_pa t) ks, u)" "length ks = n" "distinct ks"
    "set ks \<subseteq> free_set t" "pmm_inv u" "same_geometry u t" "free_set u = free_set t - set ks"
    using Suc.IH [OF t(3)] by blast
  ultimately show ?case
    using t same_geometry_simps(1) [OF t(4)] same_geometry_trans [OF u(6) t(4)]
    by (intro exI [of _ "i # ks"] exI [of _ u]) auto
qed

section \<open>Initialisation\<close>

lemma align_up_wraps: "2 ^ 32 \<le> unat b + 4095 \<Longrightarrow> align_up b PAGE_SIZE = 0"
proof -
  assume "2 ^ 32 \<le> unat b + 4095"
  then have "unat (b + 4095) = unat b + 4095 - 2 ^ 32"
    using unsigned_less [of b, where 'a = nat] by (simp add: unat_word_ariths mod_if)
  moreover have "unat b < 2 ^ 32"
    using unsigned_less [of b, where 'a = nat] by simp
  ultimately have "unat (b + 4095) div 4096 = 0"
    by (simp add: div_eq_0_iff)
  then show ?thesis
    using unat_and_not_mask [of "b + 4095" 12]
    by (simp add: word_unat_eq_iff [of _ 0] align_up_def mask_12 [symmetric] add.commute)
qed

text \<open>A range that ends in the last page of the address space is accepted and nothing is marked.\<close>

lemma PmmMarkRange_wraps:
  assumes "pmm_ok s" "2 ^ 32 \<le> unat b + 4095"
  shows "\<exists>e. PmmMarkRange a b s = Some (e, s)"
proof -
  have "pmm_geometry s" "pfn_base s < pfn_end s"
    using assms(1) by (auto simp: pmm_ok_def pmm_geom_def word_less_nat_alt)
  then show ?thesis
    by (simp add: PmmMarkRange_def align_up_wraps [OF assms(2)] PaToPfn_def Let_def del: PAGE_SIZE_val)
qed

text \<open>
  \<open>PmmMarkRange\<close> accepts a range when it is not empty, lies wholly inside RAM and does not end in the last
  page of the address space; every other range is refused, or taken for an empty one, as a whole.
\<close>

definition accepted :: "PmmState \<Rightarrow> PhysAddr \<times> PhysAddr \<Rightarrow> bool" where
  "accepted s r \<longleftrightarrow> fst r < snd r \<and> unat (snd r) + 4095 < 2 ^ 32 \<and> in_ram s (fst r) (snd r)"

definition covers :: "PmmState \<Rightarrow> nat \<Rightarrow> PhysAddr \<times> PhysAddr \<Rightarrow> bool" where
  "covers s i r \<longleftrightarrow> accepted s r \<and> touches s (fst r) (snd r) i"

lemma same_geometry_covers: "same_geometry t s \<Longrightarrow> covers t = covers s"
  by (auto simp: same_geometry_def covers_def accepted_def in_ram_def touches_def fun_eq_iff)

lemma mark_ignore_ok:
  assumes "pmm_ok s"
  shows "\<exists>t. mark_ignore r s = Some t \<and> pmm_ok t \<and> same_geometry t s \<and> free_set t = free_set s - {i. covers s i r}"
proof (cases "accepted s r")
  case True
  then show ?thesis
    using PmmMarkRange_ok [OF assms, of "fst r" "snd r"] by (auto simp: mark_ignore_def covers_def accepted_def)
next
  case False
  then consider "snd r \<le> fst r" | "2 ^ 32 \<le> unat (snd r) + 4095" | "unat (snd r) + 4095 < 2 ^ 32" "\<not> in_ram s (fst r) (snd r)"
    unfolding accepted_def by (meson not_le)
  then have "mark_ignore r s = Some s"
  proof cases
    case 1
    then show ?thesis
      by (simp add: mark_ignore_def PmmMarkRange_def)
  next
    case 2
    then show ?thesis
      using PmmMarkRange_wraps [OF assms 2, of "fst r"] by (auto simp: mark_ignore_def)
  next
    case 3
    then show ?thesis
      using range_outside(1) by (simp add: mark_ignore_def)
  qed
  then show ?thesis
    using assms False by (simp add: covers_def)
qed

text \<open>The ranges a sequence of ignored calls marks, in order.\<close>

fun mark_all :: "(PhysAddr \<times> PhysAddr) list \<Rightarrow> PmmState \<Rightarrow> PmmState option" where
  "mark_all [] s = Some s"
| "mark_all (r # rs) s = do { s \<leftarrow> mark_ignore r s; mark_all rs s }"

lemma mark_all_ok:
  assumes "pmm_ok s"
  shows "\<exists>t. mark_all rs s = Some t \<and> pmm_ok t \<and> same_geometry t s
     \<and> free_set t = free_set s - {i. \<exists>r \<in> set rs. covers s i r}"
  using assms
proof (induction rs arbitrary: s)
  case (Cons r rs)
  obtain t where t: "mark_ignore r s = Some t" "pmm_ok t" "same_geometry t s"
    "free_set t = free_set s - {i. covers s i r}"
    using mark_ignore_ok [OF Cons.prems] by blast
  obtain u where u: "mark_all rs t = Some u" "pmm_ok u" "same_geometry u t"
    "free_set u = free_set t - {i. \<exists>r \<in> set rs. covers t i r}"
    using Cons.IH [OF t(2)] by blast
  then show ?case
    using t same_geometry_trans [OF u(3) t(3)] same_geometry_covers [OF t(3)] by auto
qed simp

definition boot_ranges :: "RamLayout \<Rightarrow> BootRegions \<Rightarrow> (PhysAddr \<times> PhysAddr) list" where
  "boot_ranges l b =
     [(boot_start b, boot_end b), (dtb_start_pa l, dtb_start_pa l + fdt_total_size b),
      (kernel_start_pa l, kernel_end_pa l), (bitmap_start_pa l, bitmap_end_pa l),
      (stack_region_base b, stack_region_end b)]
     @ map (\<lambda>(addr, sz). (ucast addr, ucast (addr + sz))) (fdt_reserved b)
     @ (case fdt_initrd b of None \<Rightarrow> [] | Some (a, e) \<Rightarrow> [(ucast a, ucast e)])"

lemma mark_all_eqs:
  "mark_all [] = Some" "mark_all (r # rs) = (\<lambda>s. mark_ignore r s \<bind> mark_all rs)"
  by (auto simp: fun_eq_iff)

lemma mark_all_append: "mark_all (rs @ qs) = (\<lambda>s. mark_all rs s \<bind> mark_all qs)"
  by (induction rs) (simp_all add: mark_all_eqs del: mark_all.simps)

lemma reserve_loop_mark_all:
  "reserve_loop xs = mark_all (map (\<lambda>(addr, sz). (ucast addr, ucast (addr + sz))) xs)"
proof (induction xs)
  case (Cons x xs)
  then show ?case
    by (cases x) (simp add: fun_eq_iff [of "reserve_loop ((_, _) # _)"])
qed (simp add: fun_eq_iff)

lemma PmmReserveBootRegions_mark_all: "PmmReserveBootRegions l b s = mark_all (boot_ranges l b) s"
  by (simp add: PmmReserveBootRegions_def boot_ranges_def reserve_loop_mark_all mark_all_append
      mark_all_eqs del: mark_all.simps split: option.split)

definition bitmap_limit :: "RamLayout \<Rightarrow> PhysAddr" where
  "bitmap_limit l = align_up (kernel_end_pa l) PAGE_SIZE
     + align_up ((PaToPfn (ram_end l) - PaToPfn (ram_start l) + 7) div 8) PAGE_SIZE"

lemma bitmap_size_covers:
  assumes "unat n < 2 ^ 20"
  shows "unat n \<le> unat ((n + 7) div 8 :: u32) * 8"
    "unat ((n + 7) div 8 :: u32) \<le> unat (align_up ((n + 7) div 8) PAGE_SIZE)"
proof -
  have u: "unat ((n + 7) div 8 :: u32) = (unat n + 7) div 8"
    using assms by (simp add: unat_div unat_word_ariths)
  show "unat n \<le> unat ((n + 7) div 8 :: u32) * 8"
    unfolding u by linarith
  have "unat ((n + 7) div 8 :: u32) + 4095 < 2 ^ 32"
    unfolding u using assms by simp
  then show "unat ((n + 7) div 8 :: u32) \<le> unat (align_up ((n + 7) div 8) PAGE_SIZE)"
    by (subst unat_align_up_page) linarith+
qed

lemma cleared_bitmap_ok:
  assumes "unat b < unat e" "unat e < 2 ^ 20"
    and "pfn_base s = b" "pfn_end s = e" "total_frames s = e - b" "free_frames s = e - b"
    and "bitmap_bytes s = (e - b + 7) div 8"
    and "bitmap s = replicate (unat (align_up ((e - b + 7) div 8) PAGE_SIZE)) 0"
    and "\<not> freelist_ready s"
  shows "pmm_ok s" "free_set s = {..<unat e - unat b}"
proof -
  have n: "unat (e - b) = unat e - unat b" "unat (e - b) < 2 ^ 20"
    using assms(1,2) by (auto simp: unat_sub_if')
  note c = bitmap_size_covers [OF n(2)]
  show fs: "free_set s = {..<unat e - unat b}"
    using c assms(5,8) n(1) by (auto simp: free_set_def simp del: PAGE_SIZE_val)
  show "pmm_ok s"
    using assms c fs n by (simp add: pmm_ok_def pmm_geom_def pmm_geometry_def pmm_count_def del: PAGE_SIZE_val)
qed

text \<open>The layout after the bitmap has been placed, and the boot regions \<open>PmmInit\<close> reserves in it.\<close>

definition with_bitmap :: "RamLayout \<Rightarrow> RamLayout" where
  "with_bitmap l = l\<lparr>bitmap_start_pa := align_up (kernel_end_pa l) PAGE_SIZE, bitmap_end_pa := bitmap_limit l\<rparr>"

definition base_frame :: "RamLayout \<Rightarrow> nat" where "base_frame l = unat (ram_start l) div 4096"
definition end_frame :: "RamLayout \<Rightarrow> nat" where "end_frame l = unat (ram_end l) div 4096"

text \<open>Frame number \<open>p\<close> has a byte in a boot region that lies wholly inside RAM.\<close>

definition boot_covers :: "RamLayout \<Rightarrow> BootRegions \<Rightarrow> nat \<Rightarrow> bool" where
  "boot_covers l b p \<longleftrightarrow>
     list_ex (\<lambda>(start, stop). start < stop \<and> unat stop + 4095 < 2 ^ 32
                \<and> base_frame l * 4096 \<le> unat start \<and> unat stop \<le> end_frame l * 4096
                \<and> p * 4096 < unat stop \<and> unat start < (p + 1) * 4096)
       (boot_ranges (with_bitmap l) b)"

lemma boot_covers_iff:
  assumes "unat (pfn_base s) = base_frame l" "unat (pfn_end s) = end_frame l"
  shows "boot_covers l b (base_frame l + i) \<longleftrightarrow> (\<exists>r \<in> set (boot_ranges (with_bitmap l) b). covers s i r)"
  using assms by (auto simp: boot_covers_def list_ex_iff covers_def accepted_def in_ram_def touches_def split_beta)

definition bitmap_fits :: "RamLayout \<Rightarrow> bool" where
  "bitmap_fits l \<longleftrightarrow> bitmap_limit l \<le> stack_base_pa l \<and> bitmap_limit l \<le> ram_end l"

lemma PmmInit_ok:
  assumes "base_frame l < end_frame l" "bitmap_fits l" "\<not> freelist_ready s" "0 < base_frame l \<or> boot_covers l b 0"
  shows "\<exists>t. PmmInit l b s = Some (with_bitmap l, t) \<and> pmm_inv t
     \<and> unat (pfn_base t) = base_frame l \<and> unat (pfn_end t) = end_frame l
     \<and> unat (total_frames t) = end_frame l - base_frame l
     \<and> free_set t = {i. i < end_frame l - base_frame l \<and> \<not> boot_covers l b (base_frame l + i)}
     \<and> pmm_subscribers t = []"
proof -
  let ?b = "PaToPfn (ram_start l)" and ?e = "PaToPfn (ram_end l)" and ?rs = "boot_ranges (with_bitmap l) b"
  define nb where "nb = (?e - ?b + 7) div 8"
  define s1 where "s1 = s\<lparr>pfn_base := ?b, pfn_end := ?e, total_frames := ?e - ?b, free_frames := ?e - ?b,
    bitmap_bytes := nb, bitmap := replicate (unat (align_up nb PAGE_SIZE)) 0\<rparr>"
  have be: "unat ?b < unat ?e" "unat ?e < 2 ^ 20" "unat ?b = base_frame l" "unat ?e = end_frame l"
    using assms(1) PaToPfn_less by (auto simp: unat_PaToPfn base_frame_def end_frame_def)
  have s1: "pmm_ok s1" "free_set s1 = {..<unat ?e - unat ?b}"
    by (rule cleared_bitmap_ok [OF be(1,2)]; simp add: s1_def nb_def assms(3) del: PAGE_SIZE_val)+
  obtain t where t: "mark_all ?rs s1 = Some t" "pmm_ok t" "same_geometry t s1"
    "free_set t = free_set s1 - {i. \<exists>r \<in> set ?rs. covers s1 i r}"
    using mark_all_ok [OF s1(1)] by blast
  have fs: "free_set t = {i. i < end_frame l - base_frame l \<and> \<not> boot_covers l b (base_frame l + i)}"
    using boot_covers_iff [of s1 l b] be(3,4) unfolding t(4) s1(2) by (auto simp: s1_def)
  let ?u = "PmmRebuildFreelist t" and ?v = "PmmRebuildFreelist t\<lparr>pmm_subscribers := []\<rparr>"
  have eq: "PmmInit l b s = Some (with_bitmap l, ?v)"
    using assms(2) t(1)
    by (simp add: PmmInit_def Let_def PmmReserveBootRegions_mark_all bitmap_limit_def bitmap_fits_def with_bitmap_def
        s1_def nb_def del: PAGE_SIZE_val)
  have tot: "unat (total_frames s1) = end_frame l - base_frame l"
    using be by (simp add: s1_def unat_sub_if')
  have geo: "pfn_base t = ?b" "pfn_end t = ?e" "total_frames t = total_frames s1"
    using t(3) by (auto simp: same_geometry_def s1_def)
  have "\<forall>i \<in> free_set t. frame_pa t i \<noteq> 0"
  proof
    fix i assume i: "i \<in> free_set t"
    then have "frame_pa t i = 0 \<longleftrightarrow> pfn_base t = 0 \<and> i = 0"
      using t(2) by (intro frame_pa_zero) (auto simp: pmm_ok_def free_set_def)
    then show "frame_pa t i \<noteq> 0"
      using i assms(4) be(3) geo(1) unfolding fs by (cases "i = 0") auto
  qed
  then have u: "pmm_inv ?u" "same_frames ?u t"
    using PmmRebuildFreelist_inv t(2) by (auto simp: pmm_ok_def)
  have "pmm_same ?v ?u"
    by (simp add: pmm_same_def)
  note v = pmm_same_inv [OF this]
  have sg: "same_frames ?v t"
    using u(2) by (simp add: same_frames_def)
  then have "pfn_base ?v = ?b" "pfn_end ?v = ?e" "total_frames ?v = total_frames s1" "free_set ?v = free_set t"
    using geo same_frames_simps(1) [OF sg] by (auto simp: same_frames_def)
  then show ?thesis
    using eq u(1) v(2) fs tot be(3,4) by (intro exI [of _ ?v]) simp
qed

lemma PmmInit_no_room: "\<not> bitmap_fits l \<Longrightarrow> PmmInit l b s = None"
  by (auto simp: PmmInit_def Let_def bitmap_limit_def bitmap_fits_def kassert_def simp del: PAGE_SIZE_val)

text \<open>Pushing address 0 leaves an empty list, whatever the list was.\<close>

lemma PushNode_null: "freelist_head (PushNode 0 s) = 0"
  by (simp add: PushNode_def Let_def)

section \<open>The allocator and its clients\<close>

text \<open>
  A step of the running system as the allocator sees it: a client allocates, frees a frame it owns,
  or writes to frames it owns, which overwrites their \<open>FreeNode\<close> words. The second component is the
  set of frames handed out and not yet returned.
\<close>

definition run_frames :: "PhysAddr \<Rightarrow> u32 \<Rightarrow> PhysAddr set" where
  "run_frames pa n = (\<lambda>j. pa + of_nat j * 4096) ` {..<unat n}"

inductive pmm_step :: "PmmState \<times> PhysAddr set \<Rightarrow> PmmState \<times> PhysAddr set \<Rightarrow> bool" where
  alloc: "PmmAllocFrame s = Some (pa, t) \<Longrightarrow> pa \<noteq> 0 \<Longrightarrow> pmm_step (s, A) (t, insert pa A)"
| alloc_fails: "PmmAllocFrame s = Some (0, t) \<Longrightarrow> pmm_step (s, A) (t, A)"
| contig: "PmmAllocFramesContig n s = Some (pa, t) \<Longrightarrow> pa \<noteq> PA_NULL \<Longrightarrow> 0 < n \<Longrightarrow>
    pmm_step (s, A) (t, A \<union> run_frames pa n)"
| aligned: "PmmAllocFramesContigAligned n a s = Some (pa, t) \<Longrightarrow> pa \<noteq> PA_NULL \<Longrightarrow>
    pmm_step (s, A) (t, A \<union> run_frames pa n)"
| scattered: "PmmAllocFramesScattered n s = Some (out, t) \<Longrightarrow> pmm_step (s, A) (t, A \<union> set out)"
| free: "pa \<in> A \<Longrightarrow> PmmFreeFrame pa s = Some t \<Longrightarrow> pmm_step (s, A) (t, A - {pa})"
| owner_write: "\<forall>p. p \<notin> A \<longrightarrow> nx p = node_next s p \<and> pv p = node_prev s p \<Longrightarrow>
    pmm_step (s, A) (s\<lparr>node_next := nx, node_prev := pv\<rparr>, A)"

text \<open>
  The frames handed out are allocated, and none is lost: the free frames and the frames handed out
  add up to a constant.
\<close>

definition client_inv :: "nat \<Rightarrow> PmmState \<times> PhysAddr set \<Rightarrow> bool" where
  "client_inv total0 = (\<lambda>(s, A). pmm_inv s
     \<and> A \<subseteq> frame_pa s ` ({..<unat (total_frames s)} - free_set s)
     \<and> 0 \<notin> A \<and> card A + unat (free_frames s) = total0)"

lemma run_frames_frame_pa: "run_frames (frame_pa s k) n = frame_pa s ` {k..<k + unat n}"
proof -
  have "frame_pa s (k + j) = frame_pa s k + of_nat j * 4096" for j
    by (simp add: frame_pa_def PfnToPa_def push_bit_eq_mult algebra_simps)
  moreover have "{k..<k + unat n} = (+) k ` {..<unat n}"
    by (simp add: lessThan_atLeast0 image_add_atLeastLessThan add.commute)
  ultimately show ?thesis
    by (simp add: run_frames_def image_image)
qed

lemma client_take:
  assumes "client_inv T (s, A)" "I \<subseteq> free_set s" "pmm_inv t" "same_geometry t s"
    "free_set t = free_set s - I"
  shows "client_inv T (t, A \<union> frame_pa s ` I)" "A \<inter> frame_pa s ` I = {}"
proof -
  have s: "pmm_inv s" "A \<subseteq> frame_pa s ` ({..<unat (total_frames s)} - free_set s)"
    "card A + unat (free_frames s) = T"
    using assms(1) by (auto simp: client_inv_def)
  have g: "pmm_geom s"
    using s(1) by (simp add: pmm_inv_def pmm_ok_def)
  have fs: "free_set s \<subseteq> {..<unat (total_frames s)}"
    by (auto simp: free_set_def)
  note inj = frame_pa_inj [OF g]
  have injI: "inj_on (frame_pa s) I"
    using inj_on_subset [OF inj] assms(2) fs by blast
  show disj: "A \<inter> frame_pa s ` I = {}"
  proof -
    have "frame_pa s ` ({..<unat (total_frames s)} - free_set s) \<inter> frame_pa s ` I = {}"
      using inj_on_image_Int [OF inj, of "{..<unat (total_frames s)} - free_set s" I] assms(2) fs by auto
    then show ?thesis
      using s(2) by blast
  qed
  have fin: "finite A" "finite I"
    using s(2) finite_subset assms(2) by (auto intro: finite_subset)
  have "card (A \<union> frame_pa s ` I) = card A + card I"
    using card_Un_disjoint [OF fin(1) finite_imageI [OF fin(2)] disj] card_image [OF injI] by simp
  moreover have "unat (free_frames t) = unat (free_frames s) - card I" "card I \<le> unat (free_frames s)"
    using assms(2,3,5) s(1) fin(2) card_mono [OF finite_free_set assms(2)]
    by (auto simp: pmm_inv_def pmm_ok_def pmm_count_def card_Diff_subset)
  moreover have "A \<union> frame_pa s ` I \<subseteq> frame_pa s ` ({..<unat (total_frames s)} - free_set t)"
    using s(2) assms(2,5) fs by auto
  moreover have nz: "0 \<notin> A \<union> frame_pa s ` I"
    using assms(1,2) pmm_inv_nz [OF s(1)] by (auto simp: client_inv_def)
  ultimately show "client_inv T (t, A \<union> frame_pa s ` I)"
    using assms(3) s(3) nz same_geometry_simps(1,4) [OF assms(4)] by (simp add: client_inv_def)
qed

lemma client_give:
  assumes "client_inv T (s, A)" "frame_pa s i \<in> A" "i < unat (total_frames s)" "pmm_inv t"
    "same_geometry t s" "free_set t = insert i (free_set s)"
  shows "client_inv T (t, A - {frame_pa s i})"
proof -
  have s: "pmm_inv s" "A \<subseteq> frame_pa s ` ({..<unat (total_frames s)} - free_set s)"
    "card A + unat (free_frames s) = T"
    using assms(1) by (auto simp: client_inv_def)
  have g: "pmm_geom s"
    using s(1) by (simp add: pmm_inv_def pmm_ok_def)
  note inj = frame_pa_inj [OF g]
  have fin: "finite A"
    using s(2) by (rule finite_subset) simp
  have "i \<notin> free_set s"
    using s(2) assms(2,3) inj_onD [OF inj] by fastforce
  then have "unat (free_frames t) = Suc (unat (free_frames s))"
    using assms(4,6) s(1) by (auto simp: pmm_inv_def pmm_ok_def pmm_count_def)
  moreover have "0 < card A"
    using assms(2) fin by (auto simp: card_gt_0_iff)
  moreover have "A - {frame_pa s i} \<subseteq> frame_pa s ` ({..<unat (total_frames s)} - free_set t)"
    using s(2) assms(6) by auto
  ultimately show ?thesis
    using assms(1,2,4) s(3) fin same_geometry_simps(1,4) [OF assms(5)]
    by (simp add: client_inv_def)
qed

lemma PmmAllocFrame_cases:
  assumes "pmm_inv s"
  obtains "free_set s = {}" "PmmAllocFrame s = Some (0, s)"
  | i t where "PmmAllocFrame s = Some (frame_pa s i, t)" "i \<in> free_set s" "frame_pa s i \<noteq> 0" "pmm_inv t"
      "same_geometry t s" "free_set t = free_set s - {i}"
proof (cases "free_set s = {}")
  case True
  then show ?thesis
    using that(1) PmmTakeFreeFrame_none [OF assms] by (simp add: PmmAllocFrame_def)
next
  case False
  then obtain i t where t: "PmmTakeFreeFrame s = Some (frame_pa s i, t)" "i \<in> free_set s" "pmm_inv t"
    "same_geometry t s" "free_set t = free_set s - {i}"
    using PmmTakeFreeFrame_some [OF assms] by blast
  have nz: "frame_pa s i \<noteq> 0"
    using t(2) assms pmm_inv_nz by blast
  have same: "pmm_same (SyspageUpdateMem t) t"
    by simp
  show ?thesis
    using that(2) [of i "SyspageUpdateMem t"] t nz pmm_same_inv [OF same]
      same_geometry_trans [OF pmm_same_geometry [OF same] t(4)]
    by (simp add: PmmAllocFrame_def)
qed

lemma PmmAllocFrame_nonempty:
  assumes "pmm_inv s" "free_set s \<noteq> {}"
  shows "\<exists>i t. PmmAllocFrame s = Some (frame_pa s i, t) \<and> frame_pa s i \<noteq> 0"
  by (rule PmmAllocFrame_cases [OF assms(1)]) (use assms(2) in auto)

lemma PmmAllocFramesScattered_ok:
  assumes "pmm_inv s" "0 < n" "n \<le> free_frames s"
  shows "\<exists>ks t. PmmAllocFramesScattered n s = Some (map (frame_pa s) ks, t) \<and> length ks = unat n
     \<and> distinct ks \<and> set ks \<subseteq> free_set s \<and> pmm_inv t \<and> same_geometry t s
     \<and> free_set t = free_set s - set ks"
proof -
  have g: "pmm_geometry s" "free_frames s \<le> total_frames s" "unat n \<le> card (free_set s)"
    using assms pmm_count_le by (auto simp: pmm_inv_def pmm_ok_def pmm_geom_def pmm_count_def word_le_nat_alt)
  then show ?thesis
    using scatter_loop_ok [OF assms(1) g(3), of "[]"] assms(2,3)
    by (auto simp: PmmAllocFramesScattered_def not_less)
qed

lemma pmm_inv_owner_write:
  assumes "pmm_inv s" "A \<subseteq> frame_pa s ` ({..<unat (total_frames s)} - free_set s)"
    "\<forall>p. p \<notin> A \<longrightarrow> nx p = node_next s p \<and> pv p = node_prev s p"
  shows "pmm_inv (s\<lparr>node_next := nx, node_prev := pv\<rparr>)" (is "pmm_inv ?t")
proof -
  have sf: "same_frames ?t s"
    by (simp add: same_frames_def)
  note ss = same_frames_simps [OF sf]
  obtain xs where xs: "free_list s xs"
    using assms(1) by (auto simp: pmm_inv_def pmm_ok_def)
  have g: "pmm_geom s"
    using assms(1) by (simp add: pmm_inv_def pmm_ok_def)
  have "free_set s \<subseteq> {..<unat (total_frames s)}"
    by (auto simp: free_set_def)
  then have "frame_pa s ` ({..<unat (total_frames s)} - free_set s) \<inter> set xs = {}"
    using inj_on_image_Int [OF frame_pa_inj [OF g], of "{..<unat (total_frames s)} - free_set s" "free_set s"] xs
    by (auto simp: free_list_def)
  then have "x \<notin> A" if "x \<in> set xs" for x
    using assms(2) that by blast
  then have "free_chain nx pv 0 (freelist_head s) xs"
    using xs assms(3)
    by (subst free_chain_cong [where nx' = "node_next s" and pv' = "node_prev s"]) (auto simp: free_list_def)
  then have "free_list ?t xs"
    using xs ss(1,2) by (simp add: free_list_def)
  then show ?thesis
    using assms(1) ss(3,4) by (auto simp: pmm_inv_def pmm_ok_def)
qed

lemma contig_outcomeD:
  assumes "contig_outcome P n s (Some (pa, t))" "pa \<noteq> PA_NULL"
  obtains k where "pa = frame_pa s k" "pmm_inv t" "same_geometry t s"
    "free_set t = free_set s - {k..<k + unat n}" "{k..<k + unat n} \<subseteq> free_set s"
  using assms by (auto simp: contig_outcome_def split: if_splits)

lemma pmm_step_client_inv: "pmm_step x y \<Longrightarrow> client_inv T x \<Longrightarrow> client_inv T y"
proof (induction rule: pmm_step.induct)
  case (alloc s pa t A)
  then have inv: "pmm_inv s"
    by (simp add: client_inv_def)
  show ?case
  proof (rule PmmAllocFrame_cases [OF inv])
    fix i u
    assume "PmmAllocFrame s = Some (frame_pa s i, u)" "i \<in> free_set s" "pmm_inv u" "same_geometry u s"
      "free_set u = free_set s - {i}"
    then show ?thesis
      using client_take(1) [OF alloc.prems, of "{i}" u] alloc.hyps by simp
  qed (use alloc in simp)
next
  case (alloc_fails s t A)
  then have inv: "pmm_inv s"
    by (simp add: client_inv_def)
  show ?case
    by (rule PmmAllocFrame_cases [OF inv]) (use alloc_fails in auto)
next
  case (contig n s pa t A)
  then have inv: "pmm_inv s"
    by (simp add: client_inv_def)
  obtain k where "pa = frame_pa s k" "pmm_inv t" "same_geometry t s"
    "free_set t = free_set s - {k..<k + unat n}" "{k..<k + unat n} \<subseteq> free_set s"
    using contig_outcomeD PmmAllocFramesContig_outcome [OF inv contig.hyps(3)] contig.hyps(1,2) by metis
  then show ?case
    using client_take(1) [OF contig.prems, of "{k..<k + unat n}" t] run_frames_frame_pa by simp
next
  case (aligned n a s pa t A)
  then have inv: "pmm_inv s"
    by (simp add: client_inv_def)
  have n: "0 < n" "pow2 a"
    using aligned.hyps word_neq_0_conv [of n]
    by (auto simp: PmmAllocFramesContigAligned_def pow2_def Let_def split: if_splits)
  obtain k where "pa = frame_pa s k" "pmm_inv t" "same_geometry t s"
    "free_set t = free_set s - {k..<k + unat n}" "{k..<k + unat n} \<subseteq> free_set s"
    using contig_outcomeD PmmAllocFramesContigAligned_run_align [OF inv n]
      aligned.hyps(1,2) by metis
  then show ?case
    using client_take(1) [OF aligned.prems, of "{k..<k + unat n}" t] run_frames_frame_pa by simp
next
  case (scattered n s out t A)
  then have inv: "pmm_inv s"
    by (simp add: client_inv_def)
  show ?case
  proof (cases "n = 0 \<or> free_frames s < n")
    case True
    then show ?thesis
      using scattered by (auto simp: PmmAllocFramesScattered_def)
  next
    case False
    then obtain ks where "out = map (frame_pa s) ks" "set ks \<subseteq> free_set s" "pmm_inv t" "same_geometry t s"
      "free_set t = free_set s - set ks"
      using PmmAllocFramesScattered_ok [OF inv, of n] scattered.hyps
      by (auto simp: not_less word_neq_0_conv [symmetric])
    then show ?thesis
      using client_take(1) [OF scattered.prems, of "set ks" t] by simp
  qed
next
  case (free pa A s t)
  then have inv: "pmm_inv s" and A: "A \<subseteq> frame_pa s ` ({..<unat (total_frames s)} - free_set s)"
    by (auto simp: client_inv_def)
  obtain i where i: "pa = frame_pa s i" "i < unat (total_frames s)" "i \<notin> free_set s" "frame_pa s i \<noteq> 0"
    using A free.hyps(1) free.prems by (fastforce simp: client_inv_def)
  then show ?case
    using PmmFreeFrame_allocated [OF inv i(2,3)] client_give [OF free.prems, of i t] free.hyps i by auto
next
  case (owner_write A nx s pv)
  let ?t = "s\<lparr>node_next := nx, node_prev := pv\<rparr>"
  have "same_frames ?t s"
    by (simp add: same_frames_def)
  then show ?case
    using owner_write pmm_inv_owner_write [of s A nx pv] same_frames_simps [of ?t s]
    by (auto simp: client_inv_def)
qed

section \<open>A concrete machine\<close>

text \<open>Eight frames of RAM at 1 MiB: the kernel image, the bitmap and the stack take one each.\<close>

definition example_layout :: RamLayout where
  "example_layout = \<lparr>ram_start = 0x100000, ram_end = 0x108000, dtb_start_pa = 0,
     kernel_start_pa = 0x100000, kernel_end_pa = 0x101000, stack_base_pa = 0x103000,
     bitmap_start_pa = 0, bitmap_end_pa = 0\<rparr>"

definition example_boot :: BootRegions where
  "example_boot = \<lparr>boot_start = 0, boot_end = 0, stack_region_base = 0x103000,
     stack_region_end = 0x104000, fdt_total_size = 0, fdt_reserved = [], fdt_initrd = None\<rparr>"

definition example_bss :: PmmState where
  "example_bss = \<lparr>pfn_base = 0, pfn_end = 0, total_frames = 0, free_frames = 0, bitmap = [],
     bitmap_bytes = 0, freelist_head = 0, freelist_ready = False, in_pressure = False,
     node_next = (\<lambda>_. 0), node_prev = (\<lambda>_. 0), mem_free_kb = None, pmm_subscribers = [],
     sub_alive = (\<lambda>_. True), sub_signals = [], sub_unrefs = []\<rparr>"

lemma example_hyps:
  "base_frame example_layout < end_frame example_layout" "\<not> freelist_ready example_bss" "bitmap_fits example_layout"
  "0 < base_frame example_layout \<or> boot_covers example_layout b 0"
  by (simp_all add: example_layout_def example_bss_def PaToPfn_def bitmap_limit_def bitmap_fits_def align_up_def
      base_frame_def end_frame_def)

text \<open>The same machine after initialisation, with the one byte of the bitmap that is in use.\<close>

definition example_pmm :: PmmState where
  "example_pmm = \<lparr>pfn_base = 0x100, pfn_end = 0x108, total_frames = 8, free_frames = 5,
     bitmap = [0x0B], bitmap_bytes = 1, freelist_head = 0x107000, freelist_ready = True,
     in_pressure = False,
     node_next = (\<lambda>_. 0)(0x107000 := 0x106000, 0x106000 := 0x105000, 0x105000 := 0x104000,
                          0x104000 := 0x102000),
     node_prev = (\<lambda>_. 0)(0x106000 := 0x107000, 0x105000 := 0x106000, 0x104000 := 0x105000,
                          0x102000 := 0x104000),
     mem_free_kb = None, pmm_subscribers = [], sub_alive = (\<lambda>_. True), sub_signals = [], sub_unrefs = []\<rparr>"

lemma upt_8: "[0..<8] = [0, 1, 2, 3, 4, 5, 6, 7]"
  by code_simp

lemma example_pmm_free: "free_frames example_pmm = 5" "total_frames example_pmm = 8"
  "free_set example_pmm = {2, 4, 5, 6, 7}"
proof -
  have "free_set example_pmm = set (filter (\<lambda>i. \<not> byte_test [0x0B] i) [0..<8])"
    by (auto simp: free_set_def example_pmm_def)
  then show "free_set example_pmm = {2, 4, 5, 6, 7}"
    by (simp add: upt_8 byte_test_def)
qed (simp_all add: example_pmm_def)

lemma example_pmm_inv: "pmm_inv example_pmm"
proof -
  have "free_list example_pmm [0x107000, 0x106000, 0x105000, 0x104000, 0x102000]"
    unfolding free_list_def example_pmm_free(3)
    by (auto simp: example_pmm_def frame_pa_def PfnToPa_def)
  moreover have "pmm_count example_pmm"
    by (simp add: pmm_count_def example_pmm_free)
  ultimately show ?thesis
    by (auto simp: pmm_inv_def pmm_ok_def pmm_geom_def pmm_geometry_def example_pmm_def)
qed

lemma example_alloc: "\<exists>pa t. PmmAllocFrame example_pmm = Some (pa, t) \<and> pa \<noteq> 0"
proof -
  have "free_set example_pmm \<noteq> {}"
    using example_pmm_free(1) free_frames_empty [OF example_pmm_inv] by simp
  then show ?thesis
    using PmmAllocFrame_nonempty [OF example_pmm_inv] by blast
qed

section \<open>Properties\<close>

text \<open>
  C2: Starting the frame allocator manages exactly the frames of the RAM range of the layout. When the
  bitmap fits below the stack and the end of RAM, \<open>PmmInit\<close> returns, the invariant holds, and the free
  frames are exactly those with no byte in a boot region (boot code, device tree, kernel image, bitmap,
  stack, reserved memory, initrd) that lies wholly inside RAM; a region that sticks out of RAM is not
  reserved at all. When the bitmap does not fit, the kernel stops. RAM may start at address 0 when the
  boot regions reserve frame 0.
\<close>

theorem PmmInit_correct:
  assumes "base_frame l < end_frame l" "\<not> freelist_ready s" "0 < base_frame l \<or> boot_covers l b 0"
  shows "if bitmap_fits l
         then \<exists>t. PmmInit l b s = Some (with_bitmap l, t) \<and> pmm_inv t
                \<and> unat (pfn_base t) = base_frame l \<and> unat (pfn_end t) = end_frame l
                \<and> unat (total_frames t) = end_frame l - base_frame l
                \<and> free_set t = {i. i < end_frame l - base_frame l \<and> \<not> boot_covers l b (base_frame l + i)}
                \<and> pmm_subscribers t = []
         else PmmInit l b s = None"
  using PmmInit_ok [OF assms(1) _ assms(2,3)] PmmInit_no_room by simp

theorem PmmInit_correct_witness:
  "\<exists>t. PmmInit example_layout example_boot example_bss = Some (with_bitmap example_layout, t) \<and> pmm_inv t
     \<and> unat (total_frames t) = 8 \<and> 3 \<notin> free_set t \<and> 5 \<in> free_set t"
proof -
  have "base_frame example_layout = 256" "end_frame example_layout = 264"
    by (simp_all add: example_layout_def base_frame_def end_frame_def)
  moreover have "boot_covers example_layout example_boot 259" "\<not> boot_covers example_layout example_boot 261"
    by (simp_all add: boot_covers_def example_layout_def example_boot_def boot_ranges_def with_bitmap_def bitmap_limit_def
        align_up_def base_frame_def end_frame_def PaToPfn_def)
  ultimately show ?thesis
    using PmmInit_correct [OF example_hyps(1,2,4), of example_boot] example_hyps(3) by auto
qed

text \<open>
  C1: Over any run of the system (allocations of every kind, frees by owners, owners overwriting
  their frames) the allocator's invariant holds, every frame handed out is marked allocated, the
  free frames and the frames handed out add up to the initial free frames, and a new allocation
  never returns a frame that somebody still owns.
\<close>

theorem pmm_clients_never_share:
  assumes "pmm_inv s0" "pmm_step\<^sup>*\<^sup>* (s0, {}) (s, A)"
  shows "pmm_inv s \<and> A \<subseteq> frame_pa s ` ({..<unat (total_frames s)} - free_set s)
     \<and> card A + unat (free_frames s) = unat (free_frames s0)
     \<and> (\<forall>pa t. PmmAllocFrame s = Some (pa, t) \<and> pa \<noteq> 0 \<longrightarrow> pa \<notin> A)"
proof -
  have "client_inv (unat (free_frames s0)) (s0, {})"
    using assms(1) by (simp add: client_inv_def)
  from assms(2) this have c: "client_inv (unat (free_frames s0)) (s, A)"
    by (induction rule: rtranclp_induct) (auto dest: pmm_step_client_inv)
  then have inv: "pmm_inv s"
    by (simp add: client_inv_def)
  have "pa \<notin> A" if "PmmAllocFrame s = Some (pa, t)" "pa \<noteq> 0" for pa t
  proof (rule PmmAllocFrame_cases [OF inv])
    fix i u
    assume "PmmAllocFrame s = Some (frame_pa s i, u)" "i \<in> free_set s" "pmm_inv u" "same_geometry u s"
      "free_set u = free_set s - {i}"
    then show ?thesis
      using client_take(2) [OF c, of "{i}" u] that by auto
  qed (use that in auto)
  then show ?thesis
    using c by (auto simp: client_inv_def)
qed

theorem pmm_clients_never_share_witness:
  "\<exists>pa t. pmm_step\<^sup>*\<^sup>* (example_pmm, {}) (t, {pa}) \<and> pmm_inv t \<and> pa \<noteq> 0
     \<and> card {pa} + unat (free_frames t) = 5"
proof -
  obtain pa t where t: "PmmAllocFrame example_pmm = Some (pa, t)" "pa \<noteq> 0"
    using example_alloc by blast
  then have step: "pmm_step\<^sup>*\<^sup>* (example_pmm, {}) (t, {pa})"
    using pmm_step.alloc [OF t, of "{}"] by simp
  show ?thesis
    using pmm_clients_never_share [OF example_pmm_inv step] step t(2) example_pmm_free(1)
    by (intro exI [of _ pa] exI [of _ t]) simp
qed

text \<open>
  C3: Allocating one frame returns the null address and changes nothing exactly when no frame is
  free; otherwise it returns the address of a frame that was free, and the only change to the set of
  free frames is that this frame leaves it.
\<close>

theorem PmmAllocFrame_correct:
  assumes "pmm_inv s"
  shows "if free_frames s = 0 then PmmAllocFrame s = Some (PA_NULL, s)
         else \<exists>i t. PmmAllocFrame s = Some (frame_pa s i, t) \<and> i \<in> free_set s
                \<and> frame_pa s i \<noteq> PA_NULL \<and> pmm_inv t \<and> same_geometry t s
                \<and> free_set t = free_set s - {i}"
  by (rule PmmAllocFrame_cases [OF assms])
    (use free_frames_empty [OF assms] in \<open>auto simp: PA_NULL_def\<close>)

theorem PmmAllocFrame_correct_witness:
  "\<exists>i t. PmmAllocFrame example_pmm = Some (frame_pa example_pmm i, t) \<and> i \<in> free_set example_pmm
     \<and> pmm_inv t \<and> free_set t = free_set example_pmm - {i}"
  using PmmAllocFrame_correct [OF example_pmm_inv] example_pmm_free(1) by auto

text \<open>
  C4: Freeing an address returns exactly when it is the address of a managed frame that is
  allocated, and then makes this one frame free and keeps the invariant (frame 0 of a board whose RAM
  starts at 0 excepted: its address ends the free list); every other argument (an unaligned address, an
  address outside the managed range, a frame that is already free) stops the kernel.
\<close>

theorem PmmFreeFrame_correct:
  assumes "pmm_inv s"
  shows "if \<exists>i < unat (total_frames s). pa = frame_pa s i \<and> i \<notin> free_set s
         then \<exists>t. PmmFreeFrame pa s = Some t \<and> (pa \<noteq> 0 \<longrightarrow> pmm_inv t) \<and> same_geometry t s
                \<and> free_set t = insert (frame_ix s pa) (free_set s)
         else PmmFreeFrame pa s = None"
proof (cases "\<exists>i < unat (total_frames s). pa = frame_pa s i \<and> i \<notin> free_set s")
  case True
  then obtain i where i: "i < unat (total_frames s)" "pa = frame_pa s i" "i \<notin> free_set s"
    by blast
  moreover have "frame_ix s pa = i"
    using assms i frame_ix_pa by (auto simp: pmm_inv_def pmm_ok_def)
  ultimately show ?thesis
    using True PmmFreeFrame_allocated [OF assms] by simp
qed (use PmmFreeFrame_panics [OF assms] in simp)

theorem PmmFreeFrame_correct_witness: "PmmFreeFrame (frame_pa example_pmm 2) example_pmm = None
   \<and> (\<exists>t. PmmFreeFrame (frame_pa example_pmm 0) example_pmm = Some t \<and> pmm_inv t)"
proof -
  have f: "2 \<in> free_set example_pmm" "0 \<notin> free_set example_pmm"
    by (simp_all add: example_pmm_free(3))
  have g: "pmm_geom example_pmm"
    using example_pmm_inv by (simp add: pmm_inv_def pmm_ok_def)
  have "frame_pa example_pmm i = frame_pa example_pmm 2 \<Longrightarrow> i < 8 \<Longrightarrow> i = 2" for i
    using inj_onD [OF frame_pa_inj [OF g], of i 2] example_pmm_free(2) by simp
  moreover have "frame_pa example_pmm 0 \<noteq> 0"
    using frame_pa_zero [OF g, of 0] by (simp add: example_pmm_def)
  ultimately show ?thesis
    using PmmFreeFrame_correct [OF example_pmm_inv, of "frame_pa example_pmm 2"]
      PmmFreeFrame_correct [OF example_pmm_inv, of "frame_pa example_pmm 0"] f example_pmm_free(2)
    by (auto split: if_splits)
qed

text \<open>
  C5: The aligned contiguous allocator, for a power-of-two alignment (0 meaning none), returns the first aligned run
  of the requested length and marks exactly that run, and reports failure, leaving the state alone,
  only if there is no such run; the unaligned allocator does the same for runs at any position.
\<close>

theorem PmmAllocFramesContig_first_fit:
  assumes "pmm_inv s" "0 < n" "pow2 align"
  shows "contig_outcome (aligned_run (bitmap s) (pfn_base s) (run_align align) (unat n)) n s
           (PmmAllocFramesContigAligned n align s)
     \<and> contig_outcome (clear_run (byte_test (bitmap s)) (unat n)) n s (PmmAllocFramesContig n s)"
  using PmmAllocFramesContigAligned_run_align [OF assms] PmmAllocFramesContig_outcome [OF assms(1,2)]
  by blast

theorem PmmAllocFramesContig_first_fit_witness:
  "contig_outcome (aligned_run (bitmap example_pmm) (pfn_base example_pmm) 4 4) 4 example_pmm
     (PmmAllocFramesContigAligned 4 4 example_pmm)
   \<and> aligned_run (bitmap example_pmm) (pfn_base example_pmm) 4 4 4"
proof -
  have "pow2 4"
    by (simp add: pow2_def)
  moreover have "i \<in> free_set example_pmm" if "4 \<le> i" "i < 8" for i
    using that unfolding example_pmm_free(3) by auto
  then have "aligned_run (bitmap example_pmm) (pfn_base example_pmm) 4 4 4"
    by (auto simp: aligned_run_def clear_run_def free_set_def) (simp add: example_pmm_def)
  ultimately show ?thesis
    using PmmAllocFramesContig_first_fit [OF example_pmm_inv, of 4 4] by (simp add: run_align_def)
qed

text \<open>
  C6: Marking an address range takes exactly the frames it touches out of the free set, and unmarking it
  adds exactly these frames, whatever part of them was free before: frames that are marked already, or
  free already, are left as they are and not counted twice, so the invariant is kept. An empty range
  and a range that sticks out of RAM are refused with \<open>ERR_BADARG\<close> and change nothing. Unmarking keeps
  the invariant for ranges that do not contain address 0, which ends the free list.
\<close>

theorem PmmMarkRange_correct:
  assumes "pmm_inv s" "unat stop + 4095 < 2 ^ 32"
  shows "if start < stop \<and> in_ram s start stop
         then (\<exists>t. PmmMarkRange start stop s = Some (ZUZU_OK, t) \<and> pmm_inv t \<and> same_geometry t s
                \<and> free_set t = free_set s - {i. touches s start stop i})
           \<and> (0 < pfn_base s \<or> 4096 \<le> start \<longrightarrow>
                (\<exists>u. PmmUnmarkRange start stop s = Some (ZUZU_OK, u) \<and> pmm_inv u \<and> same_geometry u s
                   \<and> free_set u = free_set s \<union> {i. touches s start stop i}))
         else PmmMarkRange start stop s = Some (ERR_BADARG, s)
              \<and> PmmUnmarkRange start stop s = Some (ERR_BADARG, s)"
proof (cases "start < stop \<and> in_ram s start stop")
  case True
  have ok: "pmm_ok s" "freelist_ready s"
    using assms(1) by (auto simp: pmm_inv_def)
  have pos: "0 < unat (pfn_base s) \<or> 4096 \<le> unat start" if "0 < pfn_base s \<or> 4096 \<le> start"
    using that by (auto simp: word_less_nat_alt word_le_nat_alt)
  show ?thesis
    using True PmmMarkRange_ok [OF ok(1) _ assms(2)] PmmUnmarkRange_ok [OF ok(1) _ assms(2) _ pos] ok(2)
    by (fastforce simp: pmm_inv_def dest: same_geometry_simps(7))
next
  case False
  then show ?thesis
    using range_outside [OF assms(2)] by (cases "start < stop") (auto simp: PmmMarkRange_def PmmUnmarkRange_def)
qed

theorem PmmMarkRange_correct_witness:
  "(\<exists>t. PmmMarkRange 0x102000 0x103000 example_pmm = Some (ZUZU_OK, t) \<and> pmm_inv t)
   \<and> (\<exists>u. PmmUnmarkRange 0x102000 0x104000 example_pmm = Some (ZUZU_OK, u) \<and> pmm_inv u \<and> 3 \<in> free_set u)
   \<and> PmmUnmarkRange 0x107000 0x109000 example_pmm = Some (ERR_BADARG, example_pmm)"
proof -
  have "in_ram example_pmm 0x102000 0x103000" "in_ram example_pmm 0x102000 0x104000"
    "\<not> in_ram example_pmm 0x107000 0x109000" "touches example_pmm 0x102000 0x104000 3"
    by (simp_all add: in_ram_def example_pmm_def touches_def)
  then show ?thesis
    using PmmMarkRange_correct [OF example_pmm_inv, where start = "0x102000" and stop = "0x103000"]
      PmmMarkRange_correct [OF example_pmm_inv, where start = "0x102000" and stop = "0x104000"]
      PmmMarkRange_correct [OF example_pmm_inv, where start = "0x107000" and stop = "0x109000"]
    by auto
qed

text \<open>
  C7: Asking for \<open>n\<close> scattered frames while at least \<open>n\<close> are free returns exactly \<open>n\<close> distinct
  frames that were free and takes exactly these out of the free set.
\<close>

theorem PmmAllocFramesScattered_correct:
  assumes "pmm_inv s" "0 < n" "n \<le> free_frames s"
  shows "\<exists>ks t. PmmAllocFramesScattered n s = Some (map (frame_pa s) ks, t) \<and> length ks = unat n
     \<and> distinct (map (frame_pa s) ks) \<and> set ks \<subseteq> free_set s \<and> pmm_inv t
     \<and> free_set t = free_set s - set ks"
proof -
  obtain ks t where ks: "PmmAllocFramesScattered n s = Some (map (frame_pa s) ks, t)" "length ks = unat n"
    "distinct ks" "set ks \<subseteq> free_set s" "pmm_inv t" "free_set t = free_set s - set ks"
    using PmmAllocFramesScattered_ok [OF assms] by blast
  have "pmm_geom s" "free_set s \<subseteq> {..<unat (total_frames s)}"
    using assms(1) by (auto simp: pmm_inv_def pmm_ok_def free_set_def)
  then have "inj_on (frame_pa s) (set ks)"
    using inj_on_subset [OF frame_pa_inj] ks(4) by blast
  then show ?thesis
    using ks by (auto simp: distinct_map)
qed

theorem PmmAllocFramesScattered_correct_witness:
  "\<exists>ks t. PmmAllocFramesScattered 3 example_pmm = Some (map (frame_pa example_pmm) ks, t)
     \<and> length ks = 3 \<and> pmm_inv t"
  using PmmAllocFramesScattered_correct [OF example_pmm_inv, of 3] by (auto simp: example_pmm_free)

end
