(* ===== verification/Kstate.thy ===== *)
theory Kstate
  imports Bitmap
begin

text \<open>
  The state of the kernel core that the scheduler, IPC, task and system call theories share:
  the objects of \<open>task.h\<close>, \<open>port.h\<close>, \<open>event.h\<close>, \<open>observer_types.h\<close>, \<open>space.h\<close> and \<open>handle.h\<close>, the
  static variables of \<open>sched.c\<close>, \<open>task.c\<close> and \<open>space.c\<close>, and the timer of \<open>generic_timer.c\<close>.

  Object pointers are 32-bit words with 0 for \<open>NULL\<close>; a \<open>ReplyObject\<close> pointer always points to the
  \<open>reply_cap_storage\<close> of a task and is that task's pointer. Every intrusive list (\<open>ListHead\<close>) is the
  list of the tasks linked in it, head first, and a \<open>ListNode\<close> embedded in a task is the queue it is
  linked in, if any; the theory of \<open>list.h\<close> shows that the pointer structure represents exactly this.
  The trap frame of a task is its argument registers.
\<close>

section \<open>Types and constants\<close>

type_synonym TaskPtr = u32
type_synonym PortPtr = u32
type_synonym EventPtr = u32
type_synonym SpacePtr = u32
type_synonym MemPtr = u32
type_synonym Handle = u32
type_synonym Tid = int
type_synonym Spid = int
type_synonym EventWord = u32
type_synonym Duration = u32
type_synonym Marker = u32
type_synonym Ticket = u32
type_synonym Prio = nat

abbreviation (input) NULL :: u32 where "NULL \<equiv> 0"

definition TIMEOUT_POLL :: Duration where "TIMEOUT_POLL = 0"
definition TIMEOUT_INFINITE :: Duration where "TIMEOUT_INFINITE = 0xFFFFFFFF"
definition EVENT_WAIT_ALL :: EventWord where "EVENT_WAIT_ALL = 0x80000000"
definition SIGNAL_BROADCAST :: EventWord where "SIGNAL_BROADCAST = 1"
definition MSG_BUF_SIZE :: u32 where "MSG_BUF_SIZE = 512"
definition NO_HANDLE :: Handle where "NO_HANDLE = - 1"
definition UINT64_MAX :: u64 where "UINT64_MAX = - 1"
definition SCHED_PRIORITY_LEVELS :: nat where "SCHED_PRIORITY_LEVELS = 8"
definition SCHED_PRIO_DEFAULT :: nat where "SCHED_PRIO_DEFAULT = 1"
definition SLEEP_QUEUE_SIZE :: nat where "SLEEP_QUEUE_SIZE = 512"
definition MAX_OBSERVERS :: nat where "MAX_OBSERVERS = 4"
definition PORT_HELD_SLOTS :: nat where "PORT_HELD_SLOTS = 64"

lemmas const_vals [const_defs] =
  TIMEOUT_POLL_def TIMEOUT_INFINITE_def EVENT_WAIT_ALL_def SIGNAL_BROADCAST_def MSG_BUF_SIZE_def
  NO_HANDLE_def UINT64_MAX_def SCHED_PRIORITY_LEVELS_def SCHED_PRIO_DEFAULT_def SLEEP_QUEUE_SIZE_def
  MAX_OBSERVERS_def PORT_HELD_SLOTS_def

section \<open>Objects\<close>

datatype TaskState =
    TASK_STATE_READY | TASK_STATE_RUNNING | TASK_STATE_BLOCKED | TASK_STATE_ZOMBIE
  | TASK_STATE_FROZEN | TASK_STATE_FAULTED

datatype IpcState = IPC_NONE | IPC_WAITING

text \<open>The queues a task's \<open>node\<close> and its \<open>wait_slot\<close> can be linked in, and the owners of observer sets.\<close>

datatype NodeQ = RunQ nat | SendQ PortPtr
datatype WaitQ = RecvQ PortPtr | EventQ EventPtr | JoinQ TaskPtr | SpaceQ SpacePtr
datatype ObsSrc = ObsPort PortPtr | ObsEvent EventPtr | ObsTask TaskPtr | ObsSpace SpacePtr

record TaskObject =
  tid :: Tid
  trap_frame :: "nat \<Rightarrow> u32"
  exit_status :: int
  node :: "NodeQ option"
  timeout_linked :: bool
  wake_deadline :: Time
  slice_remaining :: Time
  slice_deadline :: Time
  time_slice_us :: u32
  sleep_slot :: int
  state :: TaskState
  ipc_state :: IpcState
  blocked_port :: PortPtr
  rc_caller_task :: TaskPtr
  rc_caller_tid :: Tid
  pending_grant_handle :: Handle
  pending_reply_cap :: TaskPtr
  reply_cap :: TaskPtr
  reply_holder :: TaskPtr
  msg_buf_phys_addr :: PhysAddr
  msg_xfer_len :: u32
  port_marker :: Marker
  ws_queue :: "WaitQ option"
  ws_linked :: bool
  priority :: Prio
  base_prio :: Prio
  max_prio :: Prio
  queued_prio :: nat
  serving_port :: PortPtr
  serving_handle :: Handle
  owner :: SpacePtr
  fault_reason :: int
  tcb_slot :: nat
  ref_count :: nat
  released :: bool
  suspended :: bool
  held_port :: PortPtr
  held_slot :: nat
  wait_mask :: EventWord
  wait_all :: bool
  kernel_stack_top :: VirtAddr
  task_info_va :: VirtAddr

record EventObject =
  word :: EventWord
  ev_owner_spid :: Spid
  ev_ref_count :: nat
  ev_alive :: bool
  bound_mask :: EventWord
  bound_refs :: "nat \<Rightarrow> u16"
  child_count :: u8

record Observer =
  obs_ev :: EventPtr
  obs_bit :: nat
  from_event :: bool

definition NO_OBSERVER :: Observer where
  "NO_OBSERVER = \<lparr>obs_ev = NULL, obs_bit = 0, from_event = False\<rparr>"

record HeldCall =
  hc_caller :: TaskPtr
  hc_caller_tid :: Tid
  hc_gen :: u16

definition NO_HELD :: HeldCall where
  "NO_HELD = \<lparr>hc_caller = NULL, hc_caller_tid = 0, hc_gen = 0\<rparr>"

record PortObject =
  port_owner_spid :: Spid
  port_ref_count :: nat
  port_alive :: bool
  held :: "HeldCall list option"

datatype HandleType =
  HANDLE_FREE | HANDLE_PORT | HANDLE_MEM | HANDLE_EVENT | HANDLE_TASK | HANDLE_SPACE

record HandleTableEntry =
  he_type :: HandleType
  perms :: u32
  mapped_va :: VirtAddr
  he_obj :: u32
  marker :: Marker
  generation :: u32

record HandleTable =
  blocks :: "HandleTableEntry list option list"
  slot_bitmap :: "u32 list"

record SpaceObject =
  spid :: Spid
  parent_spid :: Spid
  sp_as :: u32
  handle_table :: HandleTable
  main_task :: TaskPtr
  sp_max_prio :: Prio
  frozen :: bool
  live_tasks :: nat
  last_exit_status :: int
  tcb_page_pa :: "PhysAddr list"
  tcb_page_va :: VirtAddr
  tcb_slot_bitmap :: "u32 list"
  torn_down :: bool
  sp_ref_count :: nat

datatype MemKind = MEMKIND_NONE | MEMKIND_DEVICE | MEMKIND_SHARED

record DmaMapping =
  dma_id :: u32
  dma_mem :: MemPtr
  dma_offset :: u32
  dma_len :: u32
  dma_dir :: u32
  dma_bus_addr :: u32

record MemObject =
  mem_kind :: MemKind
  mem_ref_count :: nat
  exec_synced :: bool
  dev_phys_base :: PhysAddr
  dev_size :: u32
  dev_irq :: u32
  dev_dma_limit :: u32
  dev_bus_offset :: u32
  dev_dma_maps :: "DmaMapping list"
  dev_dma_next_id :: u32
  dev_dma_map_count :: nat
  shm_page_addrs :: "PhysAddr list"
  shm_page_count :: u32
  shm_flags :: u32
  mem_owner_spid :: Spid

text \<open>The header of a \<open>ThreadLocalData\<close> slot; the message buffer behind it is in \<open>msg_mem\<close>.\<close>

record ThreadLocalData =
  tl_msg_buf :: VirtAddr
  tl_tid :: Tid
  tl_spid :: Spid
  tl_prio :: u8
  tl_max_prio :: u8

definition ZERO_TLS :: ThreadLocalData where
  "ZERO_TLS = \<lparr>tl_msg_buf = 0, tl_tid = 0, tl_spid = 0, tl_prio = 0, tl_max_prio = 0\<rparr>"

record IrqOwner =
  irq_owner :: SpacePtr
  irq_pending :: bool
  bound_ev :: EventPtr
  irq_bit :: nat

datatype FreedObj = FreedTask TaskPtr | FreedPort PortPtr | FreedEvent EventPtr | FreedSpace SpacePtr
  | FreedStack VirtAddr | FreedMem MemPtr | FreedFrame PhysAddr

section \<open>The kernel\<close>

text \<open>
  \<open>cnt_hw\<close> is the sequence of values the hardware counter returns, read in order; \<open>cntv_ctl\<close> and
  \<open>cntv_cval\<close> are the control and compare registers of the virtual timer. \<open>freed\<close> lists the objects
  returned to their slab caches, latest first. \<open>tcb_mem\<close> is the thread-local headers by physical
  address, \<open>irq_registered\<close> the lines whose handler is the relay's, \<open>irq_unmasked\<close> the enabled lines.
\<close>

record Kernel =
  tasks :: "TaskPtr \<Rightarrow> TaskObject"
  ports :: "PortPtr \<Rightarrow> PortObject"
  events :: "EventPtr \<Rightarrow> EventObject"
  spaces :: "SpacePtr \<Rightarrow> SpaceObject"
  mems :: "MemPtr \<Rightarrow> MemObject"
  observers :: "ObsSrc \<Rightarrow> Observer list"
  node_q :: "NodeQ \<Rightarrow> TaskPtr list"
  wait_q :: "WaitQ \<Rightarrow> TaskPtr list"
  active_servers :: "PortPtr \<Rightarrow> TaskPtr list"
  space_tasks :: "SpacePtr \<Rightarrow> TaskPtr list"
  sleep_wheel :: "nat \<Rightarrow> TaskPtr list"
  task_destroy_queue :: "TaskPtr list"
  current_task :: TaskPtr
  fpu_owner :: TaskPtr
  fpu_access_enabled :: bool
  do_resched :: bool
  on_idle_stack :: bool
  slice_armed :: bool
  in_tick :: bool
  ready_mask :: u32
  wheel_occ :: "u32 list"
  wheel_min :: "nat \<Rightarrow> u64"
  wheel_now_slot :: u64
  slot_shift :: nat
  active_as :: u32
  tls_task :: TaskPtr
  cnt_hw :: "nat \<Rightarrow> u64"
  cnt_ix :: nat
  cnt_last :: u64
  freq :: u32
  cntv_ctl :: u32
  cntv_cval :: u64
  cntv_ctl_shadow :: u32
  cntv_cval_shadow :: u64
  next_tid :: Tid
  task_table :: "nat \<Rightarrow> TaskPtr"
  next_spid :: u32
  space_table :: "nat \<Rightarrow> SpacePtr"
  msg_mem :: "PhysAddr \<Rightarrow> u8"
  tcb_mem :: "PhysAddr \<Rightarrow> ThreadLocalData"
  irq_owners :: "nat \<Rightarrow> IrqOwner"
  irq_registered :: "nat \<Rightarrow> bool"
  irq_unmasked :: "nat \<Rightarrow> bool"
  mem_subscribers :: "EventPtr list"
  freed :: "FreedObj list"

text \<open>The statically allocated idle task: an address no slab object has.\<close>

definition idle_task :: TaskPtr where "idle_task = 1"

definition upd_task :: "TaskPtr \<Rightarrow> (TaskObject \<Rightarrow> TaskObject) \<Rightarrow> Kernel \<Rightarrow> Kernel" where
  "upd_task t f k = k\<lparr>tasks := (tasks k)(t := f (tasks k t))\<rparr>"

definition upd_port :: "PortPtr \<Rightarrow> (PortObject \<Rightarrow> PortObject) \<Rightarrow> Kernel \<Rightarrow> Kernel" where
  "upd_port p f k = k\<lparr>ports := (ports k)(p := f (ports k p))\<rparr>"

definition upd_event :: "EventPtr \<Rightarrow> (EventObject \<Rightarrow> EventObject) \<Rightarrow> Kernel \<Rightarrow> Kernel" where
  "upd_event e f k = k\<lparr>events := (events k)(e := f (events k e))\<rparr>"

definition upd_space :: "SpacePtr \<Rightarrow> (SpaceObject \<Rightarrow> SpaceObject) \<Rightarrow> Kernel \<Rightarrow> Kernel" where
  "upd_space s f k = k\<lparr>spaces := (spaces k)(s := f (spaces k s))\<rparr>"

definition upd_mem :: "MemPtr \<Rightarrow> (MemObject \<Rightarrow> MemObject) \<Rightarrow> Kernel \<Rightarrow> Kernel" where
  "upd_mem m f k = k\<lparr>mems := (mems k)(m := f (mems k m))\<rparr>"

text \<open>\<open>ArchSetInFrame\<close> on the frame of task \<open>t\<close>, and reading an argument register.\<close>

definition ArchSetInFrame :: "TaskPtr \<Rightarrow> nat \<Rightarrow> u32 \<Rightarrow> Kernel \<Rightarrow> Kernel" where
  "ArchSetInFrame t r v = upd_task t (\<lambda>x. x\<lparr>trap_frame := (trap_frame x)(r := v)\<rparr>)"

definition ArchGetFromFrame :: "TaskPtr \<Rightarrow> nat \<Rightarrow> Kernel \<Rightarrow> u32" where
  "ArchGetFromFrame t r k = trap_frame (tasks k t) r"

definition err_reg :: "Err \<Rightarrow> u32" where
  "err_reg e = word_of_int (err_code e)"

section \<open>Timer\<close>

definition WriteCntvCtl :: "u32 \<Rightarrow> Kernel \<Rightarrow> Kernel" where
  "WriteCntvCtl v k =
     (if v = cntv_ctl_shadow k then k else k\<lparr>cntv_ctl_shadow := v, cntv_ctl := v\<rparr>)"

definition ReadCntvct :: "Kernel \<Rightarrow> u64 \<times> Kernel" where
  "ReadCntvct k =
     (let v = cnt_hw k (cnt_ix k);
          v = (if v < cnt_last k then cnt_last k else v)
      in (v, k\<lparr>cnt_ix := Suc (cnt_ix k), cnt_last := v\<rparr>))"

definition ArchTimerNow :: "Kernel \<Rightarrow> u64 \<times> Kernel" where
  "ArchTimerNow = ReadCntvct"

definition ArchTimerSetDeadline :: "u64 \<Rightarrow> Kernel \<Rightarrow> Kernel" where
  "ArchTimerSetDeadline abs_count k =
     WriteCntvCtl 1
       (if abs_count \<noteq> cntv_cval_shadow k
        then k\<lparr>cntv_cval_shadow := abs_count, cntv_cval := abs_count\<rparr> else k)"

definition ArchTimerDisable :: "Kernel \<Rightarrow> Kernel" where
  "ArchTimerDisable = WriteCntvCtl 2"

definition ArchDeadlineFromMs :: "u32 \<Rightarrow> Kernel \<Rightarrow> u64 \<times> Kernel" where
  "ArchDeadlineFromMs ms k =
     (let delta = (ucast ms * ucast (freq k)) div 1000;
          (now, k) = ArchTimerNow k
      in (now + delta, k))"

definition ClockUsToCounts :: "u64 \<Rightarrow> Kernel \<Rightarrow> u64" where
  "ClockUsToCounts us k = (us * ucast (freq k)) div 1000000"

section \<open>Queues\<close>

definition node_append :: "NodeQ \<Rightarrow> TaskPtr \<Rightarrow> Kernel \<Rightarrow> Kernel" where
  "node_append q t k = upd_task t (\<lambda>x. x\<lparr>node := Some q\<rparr>) (k\<lparr>node_q := (node_q k)(q := node_q k q @ [t])\<rparr>)"

definition node_push :: "NodeQ \<Rightarrow> TaskPtr \<Rightarrow> Kernel \<Rightarrow> Kernel" where
  "node_push q t k = upd_task t (\<lambda>x. x\<lparr>node := Some q\<rparr>) (k\<lparr>node_q := (node_q k)(q := t # node_q k q)\<rparr>)"

definition node_remove :: "TaskPtr \<Rightarrow> Kernel \<Rightarrow> Kernel" where
  "node_remove t k =
     (case node (tasks k t) of
        None \<Rightarrow> k
      | Some q \<Rightarrow> upd_task t (\<lambda>x. x\<lparr>node := None\<rparr>)
                    (k\<lparr>node_q := (node_q k)(q := remove1 t (node_q k q))\<rparr>))"

definition wait_remove :: "TaskPtr \<Rightarrow> Kernel \<Rightarrow> Kernel" where
  "wait_remove t k =
     (case ws_queue (tasks k t) of
        None \<Rightarrow> k
      | Some q \<Rightarrow> upd_task t (\<lambda>x. x\<lparr>ws_linked := False\<rparr>)
                    (k\<lparr>wait_q := (wait_q k)(q := remove1 t (wait_q k q))\<rparr>))"

text \<open>
  Insertion before the trailing tasks of lower priority: the backward walk of
  \<open>SchedWaitQueueAdd\<close> and \<open>SchedWaitQueueAddTask\<close>.
\<close>

definition prio_insert :: "(TaskPtr \<Rightarrow> Prio) \<Rightarrow> TaskPtr \<Rightarrow> TaskPtr list \<Rightarrow> TaskPtr list" where
  "prio_insert pr t xs =
     rev (dropWhile (\<lambda>x. pr x < pr t) (rev xs)) @ t # rev (takeWhile (\<lambda>x. pr x < pr t) (rev xs))"

end
