(* ===== verification/Sched_Core.thy ===== *)
theory Sched_Core
  imports Kstate
begin

text \<open>
  The queue operations of \<open>kernel/sched/sched.c\<close>: the run queues with their \<open>ready_mask\<close>, the
  priority-ordered wait queues, the sleep wheel and the arming of the timer. The parts of \<open>sched.c\<close>
  that wake, reap and switch tasks call into the task and IPC code and are in a later theory.
\<close>

section \<open>Arming the timer\<close>

definition SchedAnyCpuTakers :: "TaskPtr \<Rightarrow> Kernel \<Rightarrow> bool" where
  "SchedAnyCpuTakers t k =
     (if t = NULL then False
      else let p = priority (tasks k t);
               p = (if p \<ge> SCHED_PRIORITY_LEVELS then SCHED_PRIORITY_LEVELS - 1 else p)
           in ready_mask k AND NOT (push_bit p 1 - 1) \<noteq> 0)"

fun wheel_scan :: "u32 list \<Rightarrow> nat \<Rightarrow> nat list \<Rightarrow> nat" where
  "wheel_scan occ start [] = SLEEP_QUEUE_SIZE"
| "wheel_scan occ start (i # rest) =
     (let slot = start + i;
          slot = (if slot \<ge> SLEEP_QUEUE_SIZE then slot - SLEEP_QUEUE_SIZE else slot)
      in if BitmapTest occ slot then i else wheel_scan occ start rest)"

definition WheelScanFromNow :: "Kernel \<Rightarrow> nat" where
  "WheelScanFromNow k =
     wheel_scan (wheel_occ k) (unat (wheel_now_slot k mod 512)) [0..<SLEEP_QUEUE_SIZE]"

definition MIN_TIMER_SLACK :: "Kernel \<Rightarrow> u64" where
  "MIN_TIMER_SLACK k = ucast (freq k div 500000)"

definition SchedArmTimer :: "Kernel \<Rightarrow> Kernel" where
  "SchedArmTimer k =
     (let (now, k) = ArchTimerNow k;
          k = k\<lparr>slice_armed := current_task k \<noteq> NULL \<and> SchedAnyCpuTakers (current_task k) k\<rparr>;
          i = WheelScanFromNow k;
          deadline =
            (if i < SLEEP_QUEUE_SIZE
             then let slot = unat ((wheel_now_slot k + of_nat i) mod 512);
                      slot_end = push_bit (slot_shift k) (wheel_now_slot k + of_nat i + 1)
                  in if wheel_min k slot < slot_end then wheel_min k slot else slot_end
             else UINT64_MAX);
          deadline =
            (if slice_armed k \<and> slice_deadline (tasks k (current_task k)) < deadline
             then slice_deadline (tasks k (current_task k)) else deadline)
      in if deadline = UINT64_MAX then ArchTimerDisable k
         else ArchTimerSetDeadline
                (if deadline \<le> now + MIN_TIMER_SLACK k then now + MIN_TIMER_SLACK k else deadline) k)"

section \<open>Run queues\<close>

definition SchedEnqueue :: "TaskPtr \<Rightarrow> bool \<Rightarrow> Kernel \<Rightarrow> Kernel" where
  "SchedEnqueue t front k =
     (if t = NULL then k
      else if owner (tasks k t) \<noteq> NULL \<and> frozen (spaces k (owner (tasks k t))) then k
      else if suspended (tasks k t) then k
      else if node (tasks k t) \<noteq> None then k
      else
        let p = priority (tasks k t);
            p = (if p \<ge> SCHED_PRIORITY_LEVELS then SCHED_PRIO_DEFAULT else p);
            k = upd_task t (\<lambda>x. x\<lparr>queued_prio := p\<rparr>) k;
            k = (if front then node_push (RunQ p) t k else node_append (RunQ p) t k);
            k = k\<lparr>ready_mask := ready_mask k OR push_bit p 1\<rparr>;
            cur = current_task k;
            k = (if cur \<noteq> NULL \<and> priority (tasks k t) > priority (tasks k cur)
                 then k\<lparr>do_resched := True\<rparr> else k)
        in if cur \<noteq> NULL \<and> \<not> in_tick k \<and> t \<noteq> cur \<and> \<not> slice_armed k
              \<and> priority (tasks k t) \<ge> priority (tasks k cur)
           then SchedArmTimer k else k)"

definition SchedAdd :: "TaskPtr \<Rightarrow> Kernel \<Rightarrow> Kernel" where
  "SchedAdd t = SchedEnqueue t False"

definition SchedAddFront :: "TaskPtr \<Rightarrow> Kernel \<Rightarrow> Kernel" where
  "SchedAddFront t = SchedEnqueue t True"

definition SchedRemoveRunQueue :: "TaskPtr \<Rightarrow> Kernel \<Rightarrow> Kernel" where
  "SchedRemoveRunQueue t k =
     (if node (tasks k t) = None then k
      else
        let p = queued_prio (tasks k t);
            k = node_remove t k
        in if node_q k (RunQ p) = [] then k\<lparr>ready_mask := ready_mask k AND NOT (push_bit p 1)\<rparr> else k)"

definition SchedSetReschedFlag :: "Kernel \<Rightarrow> Kernel" where
  "SchedSetReschedFlag k = k\<lparr>do_resched := True\<rparr>"

text \<open>The search of \<open>SchedPickNext\<close> through the levels, highest first.\<close>

fun pick_level :: "nat list \<Rightarrow> Kernel \<Rightarrow> TaskPtr \<times> Kernel" where
  "pick_level [] k = (idle_task, k)"
| "pick_level (l # rest) k =
     (if ready_mask k AND push_bit l 1 \<noteq> 0
      then case node_q k (RunQ l) of
             [] \<Rightarrow> pick_level rest (k\<lparr>ready_mask := ready_mask k AND NOT (push_bit l 1)\<rparr>)
           | t # _ \<Rightarrow>
               let k = node_remove t k
               in (t, if node_q k (RunQ l) = []
                      then k\<lparr>ready_mask := ready_mask k AND NOT (push_bit l 1)\<rparr> else k)
      else pick_level rest k)"

definition SchedPickNext :: "Kernel \<Rightarrow> TaskPtr \<times> Kernel" where
  "SchedPickNext = pick_level (rev [0..<SCHED_PRIORITY_LEVELS])"

text \<open>The tasks copied to the caller's buffer of \<open>max_out\<close> entries, and how many there are.\<close>

definition SchedGetReadyQueue :: "nat \<Rightarrow> Kernel \<Rightarrow> TaskPtr list \<times> nat" where
  "SchedGetReadyQueue max_out k =
     (let ts = concat (map (\<lambda>l. node_q k (RunQ l)) (rev [0..<SCHED_PRIORITY_LEVELS]))
      in (take max_out ts, length ts))"

section \<open>Sleep wheel\<close>

definition WheelBucketMin :: "nat \<Rightarrow> Kernel \<Rightarrow> u64" where
  "WheelBucketMin slot k =
     fold (\<lambda>t mn. if wake_deadline (tasks k t) < mn then wake_deadline (tasks k t) else mn)
          (sleep_wheel k slot) UINT64_MAX"

definition wheel_remove :: "TaskPtr \<Rightarrow> nat \<Rightarrow> Kernel \<Rightarrow> Kernel" where
  "wheel_remove t slot k =
     upd_task t (\<lambda>x. x\<lparr>timeout_linked := False\<rparr>)
       (k\<lparr>sleep_wheel := (sleep_wheel k)(slot := remove1 t (sleep_wheel k slot))\<rparr>)"

definition SchedRemoveSleepQueue :: "TaskPtr \<Rightarrow> Kernel \<Rightarrow> Kernel" where
  "SchedRemoveSleepQueue t k =
     (if sleep_slot (tasks k t) < 0 then k
      else
        let slot = nat (sleep_slot (tasks k t));
            k = (if timeout_linked (tasks k t) then wheel_remove t slot k else k);
            k = (if sleep_wheel k slot = [] then k\<lparr>wheel_occ := BitmapClr (wheel_occ k) slot\<rparr>
                 else if wake_deadline (tasks k t) = wheel_min k slot
                 then k\<lparr>wheel_min := (wheel_min k)(slot := WheelBucketMin slot k)\<rparr>
                 else k)
        in upd_task t (\<lambda>x. x\<lparr>sleep_slot := - 1\<rparr>) k)"

text \<open>The bucket \<open>SchedInsertSleepQueue\<close> files a deadline under.\<close>

definition wheel_slot :: "u64 \<Rightarrow> Kernel \<Rightarrow> nat" where
  "wheel_slot dl k =
     (let abs_slot = drop_bit (slot_shift k) dl;
          abs_slot = (if abs_slot < wheel_now_slot k then wheel_now_slot k else abs_slot);
          abs_slot = (if abs_slot - wheel_now_slot k \<ge> 512 then wheel_now_slot k + 512 - 1 else abs_slot)
      in unat (abs_slot mod 512))"

definition SchedInsertSleepQueue :: "TaskPtr \<Rightarrow> Kernel \<Rightarrow> Kernel" where
  "SchedInsertSleepQueue t k =
     (let dl = wake_deadline (tasks k t);
          slot = wheel_slot dl k;
          k = (if sleep_wheel k slot = [] \<or> dl < wheel_min k slot
               then k\<lparr>wheel_min := (wheel_min k)(slot := dl)\<rparr> else k);
          k = upd_task t (\<lambda>x. x\<lparr>timeout_linked := True\<rparr>)
                (k\<lparr>sleep_wheel := (sleep_wheel k)(slot := sleep_wheel k slot @ [t])\<rparr>);
          k = k\<lparr>wheel_occ := BitmapSet (wheel_occ k) slot\<rparr>;
          k = upd_task t (\<lambda>x. x\<lparr>sleep_slot := int slot\<rparr>) k
      in SchedArmTimer k)"

definition SchedGetSleepers :: "nat \<Rightarrow> Kernel \<Rightarrow> TaskPtr list \<times> nat" where
  "SchedGetSleepers max_out k =
     (let ts = concat (map (sleep_wheel k) [0..<SLEEP_QUEUE_SIZE]) in (take max_out ts, length ts))"

section \<open>Wait queues\<close>

definition SchedWaitQueueAdd :: "WaitQ \<Rightarrow> TaskPtr \<Rightarrow> Kernel \<Rightarrow> Kernel" where
  "SchedWaitQueueAdd q t k =
     upd_task t (\<lambda>x. x\<lparr>ws_queue := Some q, ws_linked := True\<rparr>)
       (k\<lparr>wait_q := (wait_q k)(q := prio_insert (\<lambda>x. priority (tasks k x)) t (wait_q k q))\<rparr>)"

definition SchedWaitQueueAddTask :: "PortPtr \<Rightarrow> TaskPtr \<Rightarrow> Kernel \<Rightarrow> Kernel" where
  "SchedWaitQueueAddTask p t k =
     upd_task t (\<lambda>x. x\<lparr>node := Some (SendQ p)\<rparr>)
       (k\<lparr>node_q := (node_q k)(SendQ p := prio_insert (\<lambda>x. priority (tasks k x)) t (node_q k (SendQ p)))\<rparr>)"

definition SchedUnblock :: "TaskPtr \<Rightarrow> Kernel \<Rightarrow> Kernel" where
  "SchedUnblock t k =
     (let k = (if ws_linked (tasks k t) then wait_remove t k else k);
          k = SchedRemoveSleepQueue t k
      in upd_task t (\<lambda>x. x\<lparr>wake_deadline := 0, ipc_state := IPC_NONE, blocked_port := NULL,
                           state := TASK_STATE_READY\<rparr>) k)"

definition SchedSetEffective :: "TaskPtr \<Rightarrow> Prio \<Rightarrow> Kernel \<Rightarrow> Kernel" where
  "SchedSetEffective t prio k =
     (let on_run = (state (tasks k t) = TASK_STATE_READY \<and> node (tasks k t) \<noteq> None);
          on_wait = ws_linked (tasks k t);
          on_senders = (state (tasks k t) = TASK_STATE_BLOCKED \<and> node (tasks k t) \<noteq> None
                        \<and> blocked_port (tasks k t) \<noteq> NULL);
          k = (if on_run then SchedRemoveRunQueue t k else k);
          k = (if on_wait then wait_remove t k else k);
          k = (if on_senders then node_remove t k else k);
          k = upd_task t (\<lambda>x. x\<lparr>priority := prio\<rparr>) k;
          k = (if on_run then SchedAdd t k else k);
          k = (if on_wait
               then case ws_queue (tasks k t) of Some q \<Rightarrow> SchedWaitQueueAdd q t k | None \<Rightarrow> k
               else k);
          k = (if on_senders then SchedWaitQueueAddTask (blocked_port (tasks k t)) t k else k)
      in if t = current_task k \<and> SchedAnyCpuTakers (current_task k) k
         then SchedSetReschedFlag k else k)"

definition SchedQueueDestroyTask :: "TaskPtr \<Rightarrow> Kernel \<Rightarrow> Kernel" where
  "SchedQueueDestroyTask t k =
     (if t = NULL then k
      else if t \<in> set (task_destroy_queue k) then k
      else k\<lparr>task_destroy_queue := task_destroy_queue k @ [t]\<rparr>)"

definition SchedIsWorkPending :: "Kernel \<Rightarrow> bool" where
  "SchedIsWorkPending k \<longleftrightarrow>
     (if do_resched k then True else list_ex (\<lambda>l. node_q k (RunQ l) \<noteq> []) [0..<SCHED_PRIORITY_LEVELS])"

end
