(* ===== verification/Task_Core.thy ===== *)
theory Task_Core
  imports Sched_Core
begin

text \<open>
  The parts of \<open>kernel/task/task.c\<close> below the event code: priority inheritance along chains of
  calls, and taking a task out of whatever it waits for.
\<close>

section \<open>Priority inheritance\<close>

definition PRIORITY_PROPAGATION_DEPTH :: nat where "PRIORITY_PROPAGATION_DEPTH = 8"

text \<open>The caller a task is serving, if its reply capability is still good.\<close>

definition waiting_caller :: "TaskPtr \<Rightarrow> Kernel \<Rightarrow> bool" where
  "waiting_caller rc k =
     (let c = rc_caller_task (tasks k rc)
      in c \<noteq> NULL \<and> tid (tasks k c) = rc_caller_tid (tasks k rc)
         \<and> state (tasks k c) \<noteq> TASK_STATE_ZOMBIE \<and> ipc_state (tasks k c) = IPC_WAITING)"

definition effective_prio :: "TaskPtr \<Rightarrow> Kernel \<Rightarrow> Prio" where
  "effective_prio t k =
     (let eff = base_prio (tasks k t);
          rc = reply_cap (tasks k t);
          eff = (if rc \<noteq> NULL \<and> waiting_caller rc k
                    \<and> priority (tasks k (rc_caller_task (tasks k rc))) > eff
                 then priority (tasks k (rc_caller_task (tasks k rc))) else eff);
          sp = serving_port (tasks k t)
      in if sp \<noteq> NULL
         then case node_q k (SendQ sp) of
                [] \<Rightarrow> eff
              | h # _ \<Rightarrow> if priority (tasks k h) > eff then priority (tasks k h) else eff
         else eff)"

text \<open>
  \<open>RecomputePriorityAt\<close> and \<open>PortBoostServersAt\<close>; the first argument is
  \<open>PRIORITY_PROPAGATION_DEPTH - depth\<close>, the links the change may still be passed along.
\<close>

fun RecomputePriorityAt :: "nat \<Rightarrow> TaskPtr \<Rightarrow> Kernel \<Rightarrow> Kernel"
  and PortBoostServersAt :: "nat \<Rightarrow> TaskPtr list \<Rightarrow> Kernel \<Rightarrow> Kernel" where
  "RecomputePriorityAt n t k =
     (if effective_prio t k = priority (tasks k t) then k
      else
        let k = SchedSetEffective t (effective_prio t k) k
        in case n of
             0 \<Rightarrow> k
           | Suc m \<Rightarrow>
               let k = (if reply_holder (tasks k t) \<noteq> NULL
                        then RecomputePriorityAt m (reply_holder (tasks k t)) k else k)
               in if state (tasks k t) = TASK_STATE_BLOCKED \<and> node (tasks k t) \<noteq> None
                     \<and> blocked_port (tasks k t) \<noteq> NULL
                  then PortBoostServersAt m (active_servers k (blocked_port (tasks k t))) k else k)"
| "PortBoostServersAt n [] k = k"
| "PortBoostServersAt n (s # rest) k = PortBoostServersAt n rest (RecomputePriorityAt n s k)"

definition TaskRecomputePriority :: "TaskPtr \<Rightarrow> Kernel \<Rightarrow> Kernel" where
  "TaskRecomputePriority = RecomputePriorityAt PRIORITY_PROPAGATION_DEPTH"

definition PortBoostServers :: "PortPtr \<Rightarrow> Kernel \<Rightarrow> Kernel" where
  "PortBoostServers p k = fold TaskRecomputePriority (active_servers k p) k"

definition TaskDetachServing :: "TaskPtr \<Rightarrow> Kernel \<Rightarrow> Kernel" where
  "TaskDetachServing t k =
     (let sp = serving_port (tasks k t)
      in if sp = NULL then k
         else upd_task t (\<lambda>x. x\<lparr>serving_port := NULL\<rparr>)
                (k\<lparr>active_servers := (active_servers k)(sp := remove1 t (active_servers k sp))\<rparr>))"

definition TaskClearReplyCap :: "TaskPtr \<Rightarrow> Kernel \<Rightarrow> Kernel" where
  "TaskClearReplyCap t k =
     (let k = upd_task t (\<lambda>x. x\<lparr>reply_cap := NULL\<rparr>) k;
          k = TaskDetachServing t k
      in TaskRecomputePriority t k)"

section \<open>Leaving a wait\<close>

definition TaskUnlinkWaits :: "TaskPtr \<Rightarrow> Kernel \<Rightarrow> Kernel" where
  "TaskUnlinkWaits t k =
     (if t = NULL then k
      else
        let k = (if node (tasks k t) \<noteq> None then SchedRemoveRunQueue t k else k);
            k = SchedRemoveSleepQueue t k
        in if ws_linked (tasks k t) then wait_remove t k else k)"

definition TaskAbortWait :: "TaskPtr \<Rightarrow> Err \<Rightarrow> Kernel \<Rightarrow> Kernel" where
  "TaskAbortWait t err k =
     (let k = ArchSetInFrame t 0 (err_reg err) k;
          k = upd_task t (\<lambda>x. x\<lparr>pending_reply_cap := NULL\<rparr>) k;
          k = SchedUnblock t k
      in SchedAdd t k)"

definition clear_held :: "PortPtr \<Rightarrow> nat \<Rightarrow> Kernel \<Rightarrow> Kernel" where
  "clear_held p slot =
     upd_port p (\<lambda>x. x\<lparr>held := map_option (\<lambda>hs. hs[slot := (hs ! slot)\<lparr>hc_caller := NULL\<rparr>]) (held x)\<rparr>)"

definition release_holder :: "TaskPtr \<Rightarrow> Kernel \<Rightarrow> Kernel" where
  "release_holder t k =
     (if pending_reply_cap (tasks k t) \<noteq> NULL \<and> reply_holder (tasks k t) \<noteq> NULL
      then let k = TaskClearReplyCap (reply_holder (tasks k t)) k
           in upd_task t (\<lambda>x. x\<lparr>reply_holder := NULL\<rparr>) k
      else if pending_reply_cap (tasks k t) \<noteq> NULL \<and> blocked_port (tasks k t) \<noteq> NULL
      then PortBoostServers (blocked_port (tasks k t)) k
      else k)"

definition TaskCancelCall :: "TaskPtr \<Rightarrow> Kernel \<Rightarrow> Kernel" where
  "TaskCancelCall t k =
     (let k = (if held_port (tasks k t) \<noteq> NULL
               then upd_task t (\<lambda>x. x\<lparr>held_port := NULL\<rparr>)
                      (clear_held (held_port (tasks k t)) (held_slot (tasks k t)) k)
               else if node (tasks k t) \<noteq> None then node_remove t k else k);
          k = release_holder t k
      in upd_task t (\<lambda>x. x\<lparr>pending_reply_cap := NULL\<rparr>) k)"

definition TaskIsDead :: "TaskPtr \<Rightarrow> Kernel \<Rightarrow> bool" where
  "TaskIsDead t k \<longleftrightarrow> state (tasks k t) = TASK_STATE_ZOMBIE \<or> state (tasks k t) = TASK_STATE_FAULTED"

section \<open>Waking waiters\<close>

datatype TaskWaitOutcome = TASK_EXITED | TASK_FAULTED

fun outcome_code :: "TaskWaitOutcome \<Rightarrow> u32" where
  "outcome_code TASK_EXITED = 0"
| "outcome_code TASK_FAULTED = 1"

definition SetExitResult :: "TaskPtr \<Rightarrow> int \<Rightarrow> TaskWaitOutcome \<Rightarrow> Kernel \<Rightarrow> Kernel" where
  "SetExitResult t value outcome k =
     ArchSetInFrame t 3 (outcome_code outcome)
       (ArchSetInFrame t 1 (word_of_int value) (ArchSetInFrame t 0 (err_reg ZUZU_OK) k))"

text \<open>Popping the tasks of a wait queue one after the other.\<close>

fun drain_wait :: "(TaskPtr \<Rightarrow> Kernel \<Rightarrow> Kernel) \<Rightarrow> TaskPtr list \<Rightarrow> Kernel \<Rightarrow> Kernel" where
  "drain_wait f [] k = k"
| "drain_wait f (t # rest) k = drain_wait f rest (f t (wait_remove t k))"

definition WakeWaiters :: "WaitQ \<Rightarrow> int \<Rightarrow> TaskWaitOutcome \<Rightarrow> Kernel \<Rightarrow> Kernel" where
  "WakeWaiters q value outcome k =
     drain_wait (\<lambda>t k. SchedAdd t (SchedUnblock t (SetExitResult t value outcome k))) (wait_q k q) k"

definition WakeWaitList :: "WaitQ \<Rightarrow> int \<Rightarrow> Kernel \<Rightarrow> Kernel" where
  "WakeWaitList q status = WakeWaiters q status TASK_EXITED"

definition TaskRef :: "TaskPtr \<Rightarrow> Kernel \<Rightarrow> Kernel" where
  "TaskRef t k = (if t = NULL then k else upd_task t (\<lambda>x. x\<lparr>ref_count := ref_count x + 1\<rparr>) k)"

end
