(* ===== verification/Event.thy ===== *)
theory Event
  imports Task_Core
begin

text \<open>
  Events and observer sets: \<open>kernel/ipc/event.c\<close> and \<open>kernel/ipc/observer.c\<close>. Signalling an event
  notifies the events bound to it, releasing a dead observer drops a reference, and the last reference
  kills an event and notifies again, so the C functions call each other recursively. The recursion is
  unfolded here to a given depth; running out of it is \<^const>\<open>None\<close>, like a failed assertion, and the
  depth needed is the depth of the observer graph.
\<close>

section \<open>Bits\<close>

definition EventTake :: "EventWord \<Rightarrow> EventWord \<Rightarrow> bool \<Rightarrow> EventWord" where
  "EventTake w msk all =
     (let hit = w AND msk
      in if all then if hit = msk then msk else 0 else hit)"

definition EventBindBit :: "EventPtr \<Rightarrow> nat \<Rightarrow> Kernel \<Rightarrow> Kernel" where
  "EventBindBit ev b k =
     (if b \<ge> 31 then k
      else upd_event ev (\<lambda>x. x\<lparr>bound_refs := (if bound_refs x b < 0xFFFF
                                            then (bound_refs x)(b := bound_refs x b + 1) else bound_refs x),
                              bound_mask := bound_mask x OR push_bit b 1\<rparr>) k)"

definition EventUnbindBit :: "EventPtr \<Rightarrow> nat \<Rightarrow> Kernel \<Rightarrow> Kernel" where
  "EventUnbindBit ev b k =
     (if b \<ge> 31 \<or> bound_refs (events k ev) b = 0 then k
      else upd_event ev
             (\<lambda>x. let r = bound_refs x b - 1
                  in x\<lparr>bound_refs := (bound_refs x)(b := r),
                       bound_mask := (if r = 0 then bound_mask x AND NOT (push_bit b 1) else bound_mask x)\<rparr>) k)"

section \<open>Delivery to waiters\<close>

text \<open>The walk over the wait queue in \<open>EventSignal\<close>; the result is the set of bits handed out.\<close>

fun deliver_loop :: "EventPtr \<Rightarrow> bool \<Rightarrow> TaskPtr list \<Rightarrow> EventWord \<Rightarrow> Kernel \<Rightarrow> EventWord \<times> Kernel" where
  "deliver_loop ev bcast [] delivered k = (delivered, k)"
| "deliver_loop ev bcast (w # rest) delivered k =
     (let got = EventTake (word (events k ev)) (wait_mask (tasks k w)) (wait_all (tasks k w))
      in if got \<noteq> 0
         then let k = wait_remove w k;
                  k = ArchSetInFrame w 0 (err_reg ZUZU_OK) k;
                  k = ArchSetInFrame w 1 got k;
                  k = SchedAdd w (SchedUnblock w k)
              in if \<not> bcast then (delivered OR got, k)
                 else deliver_loop ev bcast rest (delivered OR got) k
         else deliver_loop ev bcast rest delivered k)"

definition signal_local :: "EventPtr \<Rightarrow> EventWord \<Rightarrow> bool \<Rightarrow> Kernel \<Rightarrow> Kernel" where
  "signal_local ev bits bcast k =
     (let k = upd_event ev (\<lambda>x. x\<lparr>word := word x OR bits\<rparr>) k;
          (delivered, k) = deliver_loop ev bcast (wait_q k (EventQ ev)) 0 k
      in upd_event ev (\<lambda>x. x\<lparr>word := word x AND NOT delivered\<rparr>) k)"

section \<open>Observers\<close>

definition set_observer :: "ObsSrc \<Rightarrow> nat \<Rightarrow> Observer \<Rightarrow> Kernel \<Rightarrow> Kernel" where
  "set_observer src i ob k = k\<lparr>observers := (observers k)(src := (observers k src)[i := ob])\<rparr>"

definition ObserverInit :: "ObsSrc \<Rightarrow> Kernel \<Rightarrow> Kernel" where
  "ObserverInit src k = k\<lparr>observers := (observers k)(src := replicate MAX_OBSERVERS NO_OBSERVER)\<rparr>"

definition ObserverEmpty :: "ObsSrc \<Rightarrow> Kernel \<Rightarrow> bool" where
  "ObserverEmpty src k \<longleftrightarrow>
     list_all (\<lambda>ob. \<not> (obs_ev ob \<noteq> NULL \<and> ev_alive (events k (obs_ev ob)))) (observers k src)"

text \<open>
  \<open>ObserverRelease\<close>, \<open>ObserverNotify\<close>, \<open>ObserverClear\<close> and \<open>EventKill\<close> over the functions they call
  back, \<open>EventSignal\<close> and \<open>EventUnref\<close>.
\<close>

type_synonym signal_fn = "EventPtr \<Rightarrow> EventWord \<Rightarrow> bool \<Rightarrow> Kernel \<Rightarrow> Kernel option"
type_synonym unref_fn = "EventPtr \<Rightarrow> Kernel \<Rightarrow> Kernel option"

definition release_with :: "unref_fn \<Rightarrow> ObsSrc \<Rightarrow> nat \<Rightarrow> Kernel \<Rightarrow> Kernel option" where
  "release_with unref src i k = do {
     let ob = observers k src ! i;
     let k = EventUnbindBit (obs_ev ob) (obs_bit ob) k;
     let k = (if from_event ob \<and> child_count (events k (obs_ev ob)) \<noteq> 0
              then upd_event (obs_ev ob) (\<lambda>x. x\<lparr>child_count := child_count x - 1\<rparr>) k else k);
     k \<leftarrow> unref (obs_ev ob) k;
     Some (set_observer src i NO_OBSERVER k) }"

fun notify_loop :: "signal_fn \<Rightarrow> unref_fn \<Rightarrow> ObsSrc \<Rightarrow> nat list \<Rightarrow> Kernel \<Rightarrow> Kernel option" where
  "notify_loop signal unref src [] k = Some k"
| "notify_loop signal unref src (i # rest) k =
     (let ob = observers k src ! i
      in if obs_ev ob = NULL then notify_loop signal unref src rest k
         else do {
           k \<leftarrow> (if \<not> ev_alive (events k (obs_ev ob)) then release_with unref src i k
                else signal (obs_ev ob) (push_bit (obs_bit ob) 1) False k);
           notify_loop signal unref src rest k })"

fun clear_loop :: "unref_fn \<Rightarrow> ObsSrc \<Rightarrow> nat list \<Rightarrow> Kernel \<Rightarrow> Kernel option" where
  "clear_loop unref src [] k = Some k"
| "clear_loop unref src (i # rest) k =
     (if obs_ev (observers k src ! i) \<noteq> NULL
      then do { k \<leftarrow> release_with unref src i k; clear_loop unref src rest k }
      else clear_loop unref src rest k)"

definition notify_with :: "signal_fn \<Rightarrow> unref_fn \<Rightarrow> ObsSrc \<Rightarrow> Kernel \<Rightarrow> Kernel option" where
  "notify_with signal unref src = notify_loop signal unref src [0..<MAX_OBSERVERS]"

definition clear_with :: "unref_fn \<Rightarrow> ObsSrc \<Rightarrow> Kernel \<Rightarrow> Kernel option" where
  "clear_with unref src = clear_loop unref src [0..<MAX_OBSERVERS]"

definition kill_with :: "signal_fn \<Rightarrow> unref_fn \<Rightarrow> EventPtr \<Rightarrow> Kernel \<Rightarrow> Kernel option" where
  "kill_with signal unref ev k =
     (if ev = NULL \<or> \<not> ev_alive (events k ev) then Some k
      else do {
        let k = upd_event ev (\<lambda>x. x\<lparr>ev_alive := False\<rparr>) k;
        let k = drain_wait (\<lambda>t. TaskAbortWait t ERR_DEAD) (wait_q k (EventQ ev)) k;
        k \<leftarrow> notify_with signal unref (ObsEvent ev) k;
        clear_with unref (ObsEvent ev) k })"

text \<open>One level of the recursion: the bodies of \<open>EventSignal\<close> and \<open>EventUnref\<close>.\<close>

definition signal_body :: "signal_fn \<Rightarrow> unref_fn \<Rightarrow> signal_fn" where
  "signal_body signal unref ev bits bcast k = do {
     kassert (ev \<noteq> NULL \<and> ev_alive (events k ev) \<and> bits AND EVENT_WAIT_ALL = 0);
     let k = signal_local ev bits bcast k;
     if word (events k ev) \<noteq> 0 then notify_with signal unref (ObsEvent ev) k else Some k }"

definition unref_body :: "signal_fn \<Rightarrow> unref_fn \<Rightarrow> unref_fn" where
  "unref_body signal unref ev k =
     (if ev = NULL then Some k
      else
        let k = (if ev_ref_count (events k ev) > 0
                 then upd_event ev (\<lambda>x. x\<lparr>ev_ref_count := ev_ref_count x - 1\<rparr>) k else k)
        in if ev_ref_count (events k ev) > 0 then Some k
           else do {
             k \<leftarrow> kill_with signal unref ev k;
             Some (k\<lparr>freed := FreedEvent ev # freed k\<rparr>) })"

primrec event_ops :: "nat \<Rightarrow> signal_fn \<times> unref_fn" where
  "event_ops 0 = (\<lambda>_ _ _ _. None, \<lambda>_ _. None)"
| "event_ops (Suc n) = (signal_body (fst (event_ops n)) (snd (event_ops n)),
                        unref_body (fst (event_ops n)) (snd (event_ops n)))"

text \<open>The depth to which the recursion is unfolded for the rest of the kernel.\<close>

definition EVENT_DEPTH :: nat where "EVENT_DEPTH = 16"

definition EventSignal :: "EventPtr \<Rightarrow> EventWord \<Rightarrow> bool \<Rightarrow> Kernel \<Rightarrow> Kernel option" where
  "EventSignal = fst (event_ops EVENT_DEPTH)"

definition EventUnref :: "EventPtr \<Rightarrow> Kernel \<Rightarrow> Kernel option" where
  "EventUnref = snd (event_ops EVENT_DEPTH)"

definition EventKill :: "EventPtr \<Rightarrow> Kernel \<Rightarrow> Kernel option" where
  "EventKill = kill_with EventSignal EventUnref"

definition ObserverRelease :: "ObsSrc \<Rightarrow> nat \<Rightarrow> Kernel \<Rightarrow> Kernel option" where
  "ObserverRelease = release_with EventUnref"

definition ObserverNotify :: "ObsSrc \<Rightarrow> Kernel \<Rightarrow> Kernel option" where
  "ObserverNotify = notify_with EventSignal EventUnref"

definition ObserverClear :: "ObsSrc \<Rightarrow> Kernel \<Rightarrow> Kernel option" where
  "ObserverClear = clear_with EventUnref"

definition EventNotifyParents :: "EventPtr \<Rightarrow> Kernel \<Rightarrow> Kernel option" where
  "EventNotifyParents ev k =
     (if word (events k ev) \<noteq> 0 then ObserverNotify (ObsEvent ev) k else Some k)"

definition EventDestroy :: "EventPtr \<Rightarrow> Kernel \<Rightarrow> Kernel option" where
  "EventDestroy ev k =
     (if ev = NULL \<or> \<not> ev_alive (events k ev) then Some k
      else do { k \<leftarrow> EventKill ev k; EventUnref ev k })"

text \<open>\<open>EventCreate\<close>; \<open>ev\<close> is what the slab cache returns, 0 when it is out of memory.\<close>

definition EventCreate :: "EventPtr \<Rightarrow> SpacePtr \<Rightarrow> Kernel \<Rightarrow> EventPtr \<times> Kernel" where
  "EventCreate ev sp k =
     (if ev = NULL then (NULL, k)
      else
        let k = upd_event ev (\<lambda>_. \<lparr>word = 0, ev_owner_spid = spid (spaces k sp), ev_ref_count = 1,
                  ev_alive = True, bound_mask = 0, bound_refs = (\<lambda>_. 0), child_count = 0\<rparr>)
                  (k\<lparr>wait_q := (wait_q k)(EventQ ev := [])\<rparr>)
        in (ev, ObserverInit (ObsEvent ev) k))"

text \<open>The three passes of \<open>ObserverAdd\<close>.\<close>

fun release_dead :: "ObsSrc \<Rightarrow> nat list \<Rightarrow> Kernel \<Rightarrow> Kernel option" where
  "release_dead src [] k = Some k"
| "release_dead src (i # rest) k =
     (let ob = observers k src ! i
      in if obs_ev ob \<noteq> NULL \<and> \<not> ev_alive (events k (obs_ev ob))
         then do { k \<leftarrow> ObserverRelease src i k; release_dead src rest k }
         else release_dead src rest k)"

definition ObserverAdd ::
    "ObsSrc \<Rightarrow> EventPtr \<Rightarrow> nat \<Rightarrow> bool \<Rightarrow> Kernel \<Rightarrow> (Err \<times> Kernel) option" where
  "ObserverAdd src ev b is_event k =
     (case find (\<lambda>i. obs_ev (observers k src ! i) = ev) [0..<MAX_OBSERVERS] of
        Some i \<Rightarrow>
          let ob = observers k src ! i
          in Some (ZUZU_OK,
               if obs_bit ob \<noteq> b
               then set_observer src i (ob\<lparr>obs_bit := b\<rparr>) (EventBindBit ev b (EventUnbindBit ev (obs_bit ob) k))
               else k)
      | None \<Rightarrow> do {
          k \<leftarrow> release_dead src [0..<MAX_OBSERVERS] k;
          Some (case find (\<lambda>i. obs_ev (observers k src ! i) = NULL) [0..<MAX_OBSERVERS] of
                  None \<Rightarrow> (ERR_NOMEM, k)
                | Some i \<Rightarrow>
                    let k = set_observer src i \<lparr>obs_ev = ev, obs_bit = b, from_event = is_event\<rparr> k;
                        k = upd_event ev (\<lambda>x. x\<lparr>ev_ref_count := ev_ref_count x + 1,
                              child_count := (if is_event then child_count x + 1 else child_count x)\<rparr>) k
                    in (ZUZU_OK, EventBindBit ev b k)) })"

end
