(* ===== verification/Task_Life.thy ===== *)
theory Task_Life
  imports Event
begin

text \<open>
  Ports (\<open>kernel/ipc/port.c\<close>), the end of a task's life (\<open>kernel/task/task.c\<close>) and the parts of
  \<open>kernel/space/space.c\<close> that tasks drive: waking, freezing and finalising a space.
\<close>

section \<open>Ports\<close>

text \<open>\<open>PortCreate\<close>; \<open>p\<close> is what the slab cache returns, 0 when it is out of memory.\<close>

definition PortCreate :: "PortPtr \<Rightarrow> SpacePtr \<Rightarrow> Kernel \<Rightarrow> PortPtr \<times> Kernel" where
  "PortCreate p sp k =
     (if p = NULL then (NULL, k)
      else
        let k = k\<lparr>node_q := (node_q k)(SendQ p := []), wait_q := (wait_q k)(RecvQ p := []),
                 active_servers := (active_servers k)(p := [])\<rparr>;
            k = upd_port p (\<lambda>_. \<lparr>port_owner_spid = spid (spaces k sp), port_ref_count = 1,
                                port_alive = True, held = None\<rparr>) k
        in (p, ObserverInit (ObsPort p) k))"

definition PortHasPending :: "PortPtr \<Rightarrow> Kernel \<Rightarrow> bool" where
  "PortHasPending p k \<longleftrightarrow> node_q k (SendQ p) \<noteq> []"

fun drain_senders :: "TaskPtr list \<Rightarrow> Kernel \<Rightarrow> Kernel" where
  "drain_senders [] k = k"
| "drain_senders (t # rest) k = drain_senders rest (TaskAbortWait t ERR_DEAD (node_remove t k))"

fun drain_servers :: "PortPtr \<Rightarrow> TaskPtr list \<Rightarrow> Kernel \<Rightarrow> Kernel" where
  "drain_servers p [] k = k"
| "drain_servers p (s # rest) k =
     (let k = k\<lparr>active_servers := (active_servers k)(p := remove1 s (active_servers k p))\<rparr>;
          k = upd_task s (\<lambda>x. x\<lparr>serving_port := NULL\<rparr>) k
      in drain_servers p rest (TaskRecomputePriority s k))"

fun drain_held :: "PortPtr \<Rightarrow> nat list \<Rightarrow> Kernel \<Rightarrow> Kernel" where
  "drain_held p [] k = k"
| "drain_held p (i # rest) k =
     (case held (ports k p) of
        None \<Rightarrow> k
      | Some hs \<Rightarrow>
          let c = hc_caller (hs ! i)
          in if c = NULL then drain_held p rest k
             else let k = clear_held p i k;
                      k = upd_task c (\<lambda>x. x\<lparr>held_port := NULL\<rparr>) k
                  in drain_held p rest (TaskAbortWait c ERR_DEAD k))"

definition PortKill :: "PortPtr \<Rightarrow> Kernel \<Rightarrow> Kernel option" where
  "PortKill p k =
     (if p = NULL \<or> \<not> port_alive (ports k p) then Some k
      else
        let k = upd_port p (\<lambda>x. x\<lparr>port_alive := False\<rparr>) k;
            k = drain_senders (node_q k (SendQ p)) k;
            k = drain_wait (\<lambda>t. TaskAbortWait t ERR_DEAD) (wait_q k (RecvQ p)) k;
            k = drain_servers p (active_servers k p) k;
            k = (if held (ports k p) \<noteq> None then drain_held p [0..<PORT_HELD_SLOTS] k else k)
        in ObserverNotify (ObsPort p) k)"

definition PortUnref :: "PortPtr \<Rightarrow> Kernel \<Rightarrow> Kernel option" where
  "PortUnref p k =
     (if p = NULL then Some k
      else
        let k = (if port_ref_count (ports k p) > 0
                 then upd_port p (\<lambda>x. x\<lparr>port_ref_count := port_ref_count x - 1\<rparr>) k else k)
        in if port_ref_count (ports k p) > 0 then Some k
           else do {
             k \<leftarrow> PortKill p k;
             k \<leftarrow> ObserverClear (ObsPort p) k;
             Some (k\<lparr>freed := FreedPort p # freed k\<rparr>) })"

section \<open>Spaces\<close>

definition SpaceFinalize :: "SpacePtr \<Rightarrow> Kernel \<Rightarrow> Kernel option" where
  "SpaceFinalize sp k =
     (if sp = NULL then Some k
      else if \<not> torn_down (spaces k sp) \<or> space_tasks k sp \<noteq> [] \<or> sp_ref_count (spaces k sp) \<noteq> 0
      then Some k
      else do {
        k \<leftarrow> ObserverClear (ObsSpace sp) k;
        Some (k\<lparr>freed := FreedSpace sp # freed k\<rparr>) })"

definition SpaceRef :: "SpacePtr \<Rightarrow> Kernel \<Rightarrow> Kernel" where
  "SpaceRef sp k =
     (if sp = NULL then k else upd_space sp (\<lambda>x. x\<lparr>sp_ref_count := sp_ref_count x + 1\<rparr>) k)"

definition SpaceUnref :: "SpacePtr \<Rightarrow> Kernel \<Rightarrow> Kernel option" where
  "SpaceUnref sp k =
     (if sp = NULL then Some k
      else SpaceFinalize sp
             (if sp_ref_count (spaces k sp) > 0
              then upd_space sp (\<lambda>x. x\<lparr>sp_ref_count := sp_ref_count x - 1\<rparr>) k else k))"

fun unfreeze_loop :: "TaskPtr list \<Rightarrow> Kernel \<Rightarrow> Kernel" where
  "unfreeze_loop [] k = k"
| "unfreeze_loop (t # rest) k =
     unfreeze_loop rest
       (if state (tasks k t) = TASK_STATE_READY \<and> node (tasks k t) = None then SchedAdd t k else k)"

definition SpaceUnfreeze :: "SpacePtr \<Rightarrow> Kernel \<Rightarrow> Kernel" where
  "SpaceUnfreeze sp k =
     (if sp = NULL then k
      else let k = upd_space sp (\<lambda>x. x\<lparr>frozen := False\<rparr>) k
           in unfreeze_loop (space_tasks k sp) k)"

definition SpaceIsHollow :: "SpacePtr \<Rightarrow> Kernel \<Rightarrow> bool" where
  "SpaceIsHollow sp k \<longleftrightarrow> live_tasks (spaces k sp) = 0"

definition MAX_SPACES :: nat where "MAX_SPACES = 512"
definition MAX_TASKS :: nat where "MAX_TASKS = 1024"
definition TCB_MAX_SLOTS :: nat where "TCB_MAX_SLOTS = 255"
definition SLOTS_PER_PAGE :: nat where "SLOTS_PER_PAGE = 7"

definition SpaceFindBySpid :: "Spid \<Rightarrow> Kernel \<Rightarrow> SpacePtr" where
  "SpaceFindBySpid i k =
     (let sp = space_table k (unat (word_of_int i :: u32) mod MAX_SPACES)
      in if sp \<noteq> NULL \<and> spid (spaces k sp) = i then sp else NULL)"

fun ancestor_loop :: "nat \<Rightarrow> SpacePtr \<Rightarrow> SpacePtr \<Rightarrow> Kernel \<Rightarrow> bool" where
  "ancestor_loop 0 sp target k = False"
| "ancestor_loop (Suc n) sp target k =
     (if sp = NULL then False
      else if sp = target then True
      else ancestor_loop n
             (if parent_spid (spaces k sp) = - 1 then NULL
              else SpaceFindBySpid (parent_spid (spaces k sp)) k) target k)"

definition SpaceIsSelfOrAncestor :: "SpacePtr \<Rightarrow> SpacePtr \<Rightarrow> Kernel \<Rightarrow> bool" where
  "SpaceIsSelfOrAncestor sp target k = ancestor_loop MAX_SPACES sp target k"

definition SpidAdvance :: "u32 \<Rightarrow> u32" where
  "SpidAdvance n = (let n = n + 1 in if n = 0 \<or> n > 0x7FFFFFFF then 1 else n)"

text \<open>
  The \<open>do\<close> loop of \<open>SpidAlloc\<close>: advance until a free table slot or the first slot again. The loop ends
  within 1024 rounds, two turns of the table, since the identifiers may wrap once on the way.
\<close>

fun spid_search :: "nat \<Rightarrow> nat \<Rightarrow> (nat \<Rightarrow> SpacePtr) \<Rightarrow> u32 \<Rightarrow> u32 option" where
  "spid_search 0 start tbl n = None"
| "spid_search (Suc fuel) start tbl n =
     (if tbl (unat n mod MAX_SPACES) = NULL then Some n
      else let n = SpidAdvance n
           in if unat n mod MAX_SPACES = start then Some n else spid_search fuel start tbl n)"

definition SpidAlloc :: "SpacePtr \<Rightarrow> Kernel \<Rightarrow> (Spid \<times> Kernel) option" where
  "SpidAlloc sp k = do {
     n \<leftarrow> spid_search 1024 (unat (next_spid k) mod MAX_SPACES) (space_table k) (next_spid k);
     let slot = unat n mod MAX_SPACES;
     if space_table k slot \<noteq> NULL then Some (0, k\<lparr>next_spid := n\<rparr>)
     else Some (uint n, k\<lparr>next_spid := SpidAdvance n, space_table := (space_table k)(slot := sp)\<rparr>) }"

section \<open>Task identifiers\<close>

text \<open>
  \<open>RegisterTask\<close>: the search for a free table slot from \<open>next_tid\<close> on. The identifier is a signed
  32-bit counter that only grows; counting past its range is undefined in C and is \<^const>\<open>None\<close>.
\<close>

fun tid_search :: "nat \<Rightarrow> nat \<Rightarrow> (nat \<Rightarrow> TaskPtr) \<Rightarrow> Tid \<Rightarrow> (Tid \<times> bool) option" where
  "tid_search 0 start tbl i = None"
| "tid_search (Suc n) start tbl i =
     (if tbl (nat (i mod 1024)) = NULL then Some (i, True)
      else if i \<ge> 2 ^ 31 - 1 then None
      else let i = i + 1
           in if nat (i mod 1024) = start then Some (i, False) else tid_search n start tbl i)"

definition RegisterTask :: "TaskPtr \<Rightarrow> Kernel \<Rightarrow> (Tid \<times> Kernel) option" where
  "RegisterTask t k =
     (if t = NULL then Some (0, k)
      else do {
        (i, found) \<leftarrow> tid_search (Suc MAX_TASKS) (nat (next_tid k mod 1024)) (task_table k) (next_tid k);
        if \<not> found then Some (0, k\<lparr>next_tid := i\<rparr>)
        else if i \<ge> 2 ^ 31 - 1 then None
        else let k = upd_task t (\<lambda>x. x\<lparr>tid := i\<rparr>) (k\<lparr>next_tid := i + 1\<rparr>)
             in Some (i, k\<lparr>task_table := (task_table k)(nat (i mod 1024) := t)\<rparr>) })"

definition TaskObjectUnregister :: "TaskPtr \<Rightarrow> Kernel \<Rightarrow> Kernel" where
  "TaskObjectUnregister t k =
     (if t = NULL \<or> tid (tasks k t) = 0 then k
      else let slot = unat (word_of_int (tid (tasks k t)) :: u32) mod MAX_TASKS
           in if task_table k slot = t then k\<lparr>task_table := (task_table k)(slot := NULL)\<rparr> else k)"

section \<open>Thread-local slots\<close>

definition TCB_HDR_SIZE :: u32 where "TCB_HDR_SIZE = 64"
definition TCB_SLOT_SIZE :: u32 where "TCB_SLOT_SIZE = TCB_HDR_SIZE + MSG_BUF_SIZE"
definition TCB_SLOT_NONE :: nat where "TCB_SLOT_NONE = 255"

definition TcbSlotAlloc :: "SpacePtr \<Rightarrow> Kernel \<Rightarrow> int \<times> Kernel" where
  "TcbSlotAlloc sp k =
     (let slot = BitmapFindFirstZero (tcb_slot_bitmap (spaces k sp)) TCB_MAX_SLOTS
      in if slot < 0 then (- 1, k)
         else (slot, upd_space sp (\<lambda>x. x\<lparr>tcb_slot_bitmap := BitmapSet (tcb_slot_bitmap x) (nat slot)\<rparr>) k))"

definition TcbSlotFree :: "SpacePtr \<Rightarrow> nat \<Rightarrow> Kernel \<Rightarrow> Kernel" where
  "TcbSlotFree sp slot = upd_space sp (\<lambda>x. x\<lparr>tcb_slot_bitmap := BitmapClr (tcb_slot_bitmap x) slot\<rparr>)"

definition TcbSlotPa :: "SpacePtr \<Rightarrow> nat \<Rightarrow> Kernel \<Rightarrow> PhysAddr" where
  "TcbSlotPa sp slot k =
     tcb_page_pa (spaces k sp) ! (slot div SLOTS_PER_PAGE) + of_nat (slot mod SLOTS_PER_PAGE) * TCB_SLOT_SIZE"

definition TcbSlotUserVa :: "SpacePtr \<Rightarrow> nat \<Rightarrow> Kernel \<Rightarrow> VirtAddr" where
  "TcbSlotUserVa sp slot k =
     tcb_page_va (spaces k sp) + of_nat (slot div SLOTS_PER_PAGE) * PAGE_SIZE
       + of_nat (slot mod SLOTS_PER_PAGE) * TCB_SLOT_SIZE"

text \<open>\<open>memset\<close> of a slot, reached through its physical address: the header and the message buffer.\<close>

definition zero_bytes :: "PhysAddr \<Rightarrow> nat \<Rightarrow> (PhysAddr \<Rightarrow> u8) \<Rightarrow> PhysAddr \<Rightarrow> u8" where
  "zero_bytes a n m = fold (\<lambda>i m. m(a + of_nat i := 0)) [0..<n] m"

definition zero_tcb :: "PhysAddr \<Rightarrow> Kernel \<Rightarrow> Kernel" where
  "zero_tcb pa k = k\<lparr>tcb_mem := (tcb_mem k)(pa := ZERO_TLS),
                     msg_mem := zero_bytes (pa + TCB_HDR_SIZE) (unat MSG_BUF_SIZE) (msg_mem k)\<rparr>"

definition TaskSyncTcbPrio :: "TaskPtr \<Rightarrow> Kernel \<Rightarrow> Kernel" where
  "TaskSyncTcbPrio t k =
     (let sp = owner (tasks k t); slot = tcb_slot (tasks k t)
      in if sp = NULL \<or> slot \<ge> TCB_MAX_SLOTS \<or> tcb_page_pa (spaces k sp) ! (slot div SLOTS_PER_PAGE) = 0
         then k
         else let pa = TcbSlotPa sp slot k
              in k\<lparr>tcb_mem := (tcb_mem k)(pa := (tcb_mem k pa)
                   \<lparr>tl_prio := of_nat (base_prio (tasks k t)), tl_max_prio := of_nat (max_prio (tasks k t))\<rparr>)\<rparr>)"

section \<open>Creating a task\<close>

text \<open>A task object as \<open>memset\<close> leaves it.\<close>

definition zero_task :: TaskObject where
  "zero_task = \<lparr>tid = 0, trap_frame = (\<lambda>_. 0), exit_status = 0, node = None, timeout_linked = False,
     wake_deadline = 0, slice_remaining = 0, slice_deadline = 0, time_slice_us = 0, sleep_slot = 0,
     state = TASK_STATE_READY, ipc_state = IPC_NONE, blocked_port = NULL, rc_caller_task = NULL,
     rc_caller_tid = 0, pending_grant_handle = 0, pending_reply_cap = NULL, reply_cap = NULL,
     reply_holder = NULL, msg_buf_phys_addr = 0, msg_xfer_len = 0, port_marker = 0, ws_queue = None,
     ws_linked = False, priority = 0, base_prio = 0, max_prio = 0, queued_prio = 0, serving_port = NULL,
     serving_handle = 0, owner = NULL, fault_reason = 0, tcb_slot = 0, ref_count = 0, released = False,
     suspended = False, held_port = NULL, held_slot = 0, wait_mask = 0, wait_all = False,
     kernel_stack_top = 0, task_info_va = 0\<rparr>"

definition TIMESLICE_DEFAULT_US :: u32 where "TIMESLICE_DEFAULT_US = 50000"

text \<open>
  \<open>TaskCreate\<close>; \<open>t\<close>, \<open>kst\<close> and \<open>pg\<close> are what \<open>KSlabAlloc\<close>, \<open>KStackAlloc\<close> and the allocation and mapping
  of a new thread-local page return, 0 when they fail.
\<close>

definition free_new_task :: "TaskPtr \<Rightarrow> VirtAddr \<Rightarrow> Kernel \<Rightarrow> Kernel" where
  "free_new_task t kst k = k\<lparr>freed := FreedTask t # FreedStack kst # freed k\<rparr>"

definition init_task :: "TaskPtr \<Rightarrow> SpacePtr \<Rightarrow> nat \<Rightarrow> Kernel \<Rightarrow> Kernel" where
  "init_task t sp slot k =
     (let pa = TcbSlotPa sp slot k;
          va = TcbSlotUserVa sp slot k;
          k = zero_tcb pa k;
          k = k\<lparr>tcb_mem := (tcb_mem k)(pa := (tcb_mem k pa)\<lparr>tl_msg_buf := va + TCB_HDR_SIZE,
                  tl_tid := tid (tasks k t), tl_spid := spid (spaces k sp)\<rparr>)\<rparr>;
          k = upd_task t (\<lambda>x. x\<lparr>task_info_va := va, tcb_slot := slot\<rparr>) k;
          k = TaskSyncTcbPrio t k;
          k = upd_task t (\<lambda>x. x\<lparr>msg_buf_phys_addr := pa + TCB_HDR_SIZE\<rparr>) k;
          k = k\<lparr>space_tasks := (space_tasks k)(sp := space_tasks k sp @ [t])\<rparr>;
          k = upd_space sp (\<lambda>x. x\<lparr>live_tasks := live_tasks x + 1\<rparr>) k
      in if main_task (spaces k sp) = NULL then upd_space sp (\<lambda>x. x\<lparr>main_task := t\<rparr>) k else k)"

definition TaskCreate ::
    "TaskPtr \<Rightarrow> VirtAddr \<Rightarrow> PhysAddr \<Rightarrow> SpacePtr \<Rightarrow> Kernel \<Rightarrow> (TaskPtr \<times> Kernel) option" where
  "TaskCreate t kst pg sp k =
     (if sp = NULL \<or> t = NULL then Some (NULL, k)
      else
        let k = ObserverInit (ObsTask t) (upd_task t (\<lambda>_. zero_task\<lparr>kernel_stack_top := kst\<rparr>) k)
        in if kst = 0 then Some (NULL, k\<lparr>freed := FreedTask t # freed k\<rparr>)
           else do {
             (i, k) \<leftarrow> RegisterTask t k;
             let k = upd_task t (\<lambda>x. x\<lparr>tid := i\<rparr>) k;
             if i = 0 then Some (NULL, free_new_task t kst k)
             else
               let k = upd_task t (\<lambda>x. x\<lparr>owner := sp, sleep_slot := - 1, state := TASK_STATE_FROZEN,
                         ipc_state := IPC_NONE, priority := SCHED_PRIO_DEFAULT,
                         base_prio := SCHED_PRIO_DEFAULT, time_slice_us := TIMESLICE_DEFAULT_US,
                         max_prio := SCHED_PRIORITY_LEVELS - 1, tcb_slot := TCB_SLOT_NONE\<rparr>)
                         (k\<lparr>wait_q := (wait_q k)(JoinQ t := [])\<rparr>);
                   (idx, k) = TcbSlotAlloc sp k
               in if idx < 0 then Some (NULL, free_new_task t kst (TaskObjectUnregister t k))
                  else
                    let slot = nat idx; page = slot div SLOTS_PER_PAGE
                    in if tcb_page_pa (spaces k sp) ! page = 0 \<and> pg = 0
                       then Some (NULL, free_new_task t kst
                                          (TaskObjectUnregister t (TcbSlotFree sp slot k)))
                       else
                         let k = (if tcb_page_pa (spaces k sp) ! page = 0
                                  then upd_space sp (\<lambda>x. x\<lparr>tcb_page_pa := (tcb_page_pa x)[page := pg]\<rparr>) k
                                  else k)
                         in Some (t, init_task t sp slot k) })"

section \<open>End of a task\<close>

definition TaskDestroy :: "TaskPtr \<Rightarrow> Kernel \<Rightarrow> Kernel option" where
  "TaskDestroy t k =
     (if t = NULL \<or> released (tasks k t) then Some k
      else do {
        let k = TaskUnlinkWaits t k;
        let k = TaskObjectUnregister t k;
        let k = (if fpu_owner k = t then k\<lparr>fpu_owner := NULL\<rparr> else k);
        let sp = owner (tasks k t);
        let k = k\<lparr>space_tasks := (space_tasks k)(sp := remove1 t (space_tasks k sp))\<rparr>;
        let k = (if sp \<noteq> NULL \<and> state (tasks k t) \<noteq> TASK_STATE_ZOMBIE
                 then upd_space sp (\<lambda>x. x\<lparr>live_tasks := live_tasks x - 1\<rparr>) k else k);
        let slot = tcb_slot (tasks k t);
        let k = (if sp \<noteq> NULL \<and> slot < TCB_MAX_SLOTS
                    \<and> tcb_page_pa (spaces k sp) ! (slot div SLOTS_PER_PAGE) \<noteq> 0
                 then TcbSlotFree sp slot (zero_tcb (TcbSlotPa sp slot k) k)
                 else k);
        let k = (if sp \<noteq> NULL \<and> main_task (spaces k sp) = t
                 then upd_space sp (\<lambda>x. x\<lparr>main_task := NULL\<rparr>) k else k);
        let k = (if kernel_stack_top (tasks k t) \<noteq> 0
                 then k\<lparr>freed := FreedStack (kernel_stack_top (tasks k t)) # freed k\<rparr> else k);
        k \<leftarrow> (if sp \<noteq> NULL \<and> torn_down (spaces k sp) \<and> space_tasks k sp = []
             then SpaceFinalize sp k else Some k);
        k \<leftarrow> ObserverClear (ObsTask t) k;
        let k = upd_task t (\<lambda>x. x\<lparr>released := True, owner := NULL\<rparr>) k;
        Some (if ref_count (tasks k t) = 0 then k\<lparr>freed := FreedTask t # freed k\<rparr> else k) })"

definition TaskUnref :: "TaskPtr \<Rightarrow> Kernel \<Rightarrow> Kernel option" where
  "TaskUnref t k =
     (if t = NULL then Some k
      else
        let k = (if ref_count (tasks k t) > 0
                 then upd_task t (\<lambda>x. x\<lparr>ref_count := ref_count x - 1\<rparr>) k else k)
        in if ref_count (tasks k t) = 0 \<and> released (tasks k t)
           then Some (k\<lparr>freed := FreedTask t # freed k\<rparr>)
           else if ref_count (tasks k t) = 0 \<and> state (tasks k t) = TASK_STATE_FROZEN
           then TaskDestroy t k
           else Some k)"

definition abort_served :: "TaskPtr \<Rightarrow> Kernel \<Rightarrow> Kernel" where
  "abort_served t k =
     (let rc = reply_cap (tasks k t)
      in if rc = NULL then k
         else
           let c = rc_caller_task (tasks k rc);
               k = (if waiting_caller rc k
                    then upd_task c (\<lambda>x. x\<lparr>reply_holder := NULL\<rparr>) (TaskAbortWait c ERR_DEAD k)
                    else k);
               k = upd_task t (\<lambda>x. x\<lparr>reply_cap := NULL\<rparr>) k
           in TaskDetachServing t k)"

definition TaskTerminate :: "TaskPtr \<Rightarrow> int \<Rightarrow> Kernel \<Rightarrow> Kernel option" where
  "TaskTerminate t status k =
     (if t = NULL then Some k
      else do {
        let sp = owner (tasks k t);
        let entry_state = state (tasks k t);
        let k = upd_task t (\<lambda>x. x\<lparr>exit_status := status, suspended := False\<rparr>) k;
        let k = TaskUnlinkWaits t k;
        let k = (if held_port (tasks k t) \<noteq> NULL
                 then upd_task t (\<lambda>x. x\<lparr>held_port := NULL\<rparr>)
                        (clear_held (held_port (tasks k t)) (held_slot (tasks k t)) k)
                 else k);
        let k = release_holder t k;
        let k = abort_served t k;
        let k = upd_task t (\<lambda>x. x\<lparr>state := TASK_STATE_ZOMBIE\<rparr>) k;
        k \<leftarrow> ObserverNotify (ObsTask t) k;
        let k = (if sp \<noteq> NULL \<and> entry_state \<noteq> TASK_STATE_ZOMBIE
                 then upd_space sp (\<lambda>x. x\<lparr>live_tasks := live_tasks x - 1\<rparr>) k else k);
        let space_hollow = (sp \<noteq> NULL \<and> live_tasks (spaces k sp) = 0);
        k \<leftarrow> (if space_hollow \<and> \<not> torn_down (spaces k sp)
             then ObserverNotify (ObsSpace sp)
                    (WakeWaitList (SpaceQ sp) status
                       (upd_space sp (\<lambda>x. x\<lparr>last_exit_status := status\<rparr>) k))
             else Some k);
        let k = WakeWaitList (JoinQ t) status k;
        if space_hollow then Some k
        else if t = current_task k then Some (SchedQueueDestroyTask t k)
        else TaskDestroy t k })"

fun freeze_loop :: "TaskPtr \<Rightarrow> TaskPtr list \<Rightarrow> Kernel \<Rightarrow> Kernel" where
  "freeze_loop task [] k = k"
| "freeze_loop task (t # rest) k =
     freeze_loop task rest
       (if t \<noteq> task \<and> state (tasks k t) = TASK_STATE_READY \<and> node (tasks k t) \<noteq> None
        then SchedRemoveRunQueue t k else k)"

definition TaskFault :: "TaskPtr \<Rightarrow> int \<Rightarrow> Kernel \<Rightarrow> Kernel option" where
  "TaskFault t reason k = do {
     let k = upd_task t (\<lambda>x. x\<lparr>state := TASK_STATE_FAULTED, fault_reason := reason\<rparr>) k;
     let sp = owner (tasks k t);
     let k = upd_space sp (\<lambda>x. x\<lparr>frozen := True\<rparr>) k;
     k \<leftarrow> ObserverNotify (ObsTask t) k;
     let k = WakeWaiters (JoinQ t) reason TASK_FAULTED k;
     Some (freeze_loop t (space_tasks k sp) k) }"

end
