(* ===== verification/Sched.thy ===== *)
theory Sched
  imports Task_Life
begin

text \<open>
  The rest of \<open>kernel/sched/sched.c\<close>: timeouts, reaping, picking and switching. \<open>ContextSwitch\<close> saves
  the registers of one task and restores those of another; what the kernel state sees of it is the
  new \<open>current_task\<close>, the address space, the thread pointer and the FPU access flag.
\<close>

section \<open>Timeouts\<close>

definition SchedWakeTimedOut :: "TaskPtr \<Rightarrow> Kernel \<Rightarrow> Kernel" where
  "SchedWakeTimedOut t k =
     (let k = upd_task t (\<lambda>x. x\<lparr>sleep_slot := - 1\<rparr>) k;
          k = (if ipc_state (tasks k t) = IPC_WAITING
               then ArchSetInFrame t 3 (- 1) (ArchSetInFrame t 1 0 (TaskCancelCall t k))
               else k);
          k = ArchSetInFrame t 0 (err_reg ERR_TIMEOUT) k
      in SchedAdd t (SchedUnblock t k))"

text \<open>
  Emptying a bucket the wheel has passed. A task filed there only because its deadline was beyond the
  wheel's reach is filed again, in a different bucket.
\<close>

fun expire_bucket :: "nat \<Rightarrow> TaskPtr list \<Rightarrow> Kernel \<Rightarrow> Kernel" where
  "expire_bucket slot [] k = k"
| "expire_bucket slot (t # rest) k =
     (let k = upd_task t (\<lambda>x. x\<lparr>sleep_slot := - 1\<rparr>) (wheel_remove t slot k)
      in if drop_bit (slot_shift k) (wake_deadline (tasks k t)) > wheel_now_slot k
         then expire_bucket slot rest (SchedInsertSleepQueue t k)
         else expire_bucket slot rest (SchedWakeTimedOut t k))"

fun advance_wheel :: "nat \<Rightarrow> Kernel \<Rightarrow> Kernel" where
  "advance_wheel 0 k = k"
| "advance_wheel (Suc n) k =
     (let slot = unat (wheel_now_slot k mod 512);
          k = expire_bucket slot (sleep_wheel k slot) k;
          k = k\<lparr>wheel_occ := BitmapClr (wheel_occ k) slot\<rparr>
      in advance_wheel n (k\<lparr>wheel_now_slot := wheel_now_slot k + 1\<rparr>))"

fun expire_current :: "u64 \<Rightarrow> nat \<Rightarrow> TaskPtr list \<Rightarrow> Kernel \<Rightarrow> Kernel" where
  "expire_current now cur [] k = k"
| "expire_current now cur (t # rest) k =
     expire_current now cur rest
       (if wake_deadline (tasks k t) \<le> now then SchedWakeTimedOut t (wheel_remove t cur k) else k)"

definition SchedWakeSleepers :: "Kernel \<Rightarrow> Kernel" where
  "SchedWakeSleepers k =
     (let (now, k) = ArchTimerNow k;
          now_slot = drop_bit (slot_shift k) now;
          k = (if now_slot - wheel_now_slot k > 512 then k\<lparr>wheel_now_slot := now_slot - 512\<rparr> else k);
          k = advance_wheel (unat now_slot - unat (wheel_now_slot k)) k;
          (now, k) = ArchTimerNow k;
          cur = unat (wheel_now_slot k mod 512);
          k = expire_current now cur (sleep_wheel k cur) k
      in if sleep_wheel k cur = [] then k\<lparr>wheel_occ := BitmapClr (wheel_occ k) cur\<rparr>
         else k\<lparr>wheel_min := (wheel_min k)(cur := WheelBucketMin cur k)\<rparr>)"

section \<open>Reaping\<close>

fun reap_loop :: "TaskPtr list \<Rightarrow> TaskPtr list \<Rightarrow> Kernel \<Rightarrow> Kernel option" where
  "reap_loop [] deferred k = Some (k\<lparr>task_destroy_queue := task_destroy_queue k @ deferred\<rparr>)"
| "reap_loop (t # rest) deferred k =
     (let k = k\<lparr>task_destroy_queue := remove1 t (task_destroy_queue k)\<rparr>
      in if t = current_task k then reap_loop rest (deferred @ [t]) k
         else do { k \<leftarrow> TaskDestroy t k; reap_loop rest deferred k })"

definition SchedConsumeDestroyQueue :: "Kernel \<Rightarrow> Kernel option" where
  "SchedConsumeDestroyQueue k = reap_loop (task_destroy_queue k) [] k"

definition SchedDoHousekeeping :: "Kernel \<Rightarrow> Kernel option" where
  "SchedDoHousekeeping k = do { k \<leftarrow> SchedConsumeDestroyQueue k; Some (SchedWakeSleepers k) }"

section \<open>Switching\<close>

definition SchedSwitchNext :: "TaskPtr \<Rightarrow> Kernel \<Rightarrow> Kernel" where
  "SchedSwitchNext nxt k =
     (let prev = current_task k
      in if nxt = idle_task
         then SchedArmTimer (k\<lparr>current_task := NULL\<rparr>)
         else
           let k = k\<lparr>current_task := nxt, on_idle_stack := False\<rparr>;
               k = upd_task nxt (\<lambda>x. x\<lparr>state := TASK_STATE_RUNNING\<rparr>) k;
               slice = (if slice_remaining (tasks k nxt) \<noteq> 0 then slice_remaining (tasks k nxt)
                        else ClockUsToCounts (ucast (time_slice_us (tasks k nxt))) k);
               (now, k) = ArchTimerNow k;
               k = upd_task nxt (\<lambda>x. x\<lparr>slice_deadline := now + slice, slice_remaining := 0\<rparr>) k;
               k = SchedArmTimer k
           in if nxt = prev then k
              else
                let k = k\<lparr>fpu_access_enabled := (nxt = fpu_owner k)\<rparr>;
                    prev_proc = (if prev \<noteq> NULL then owner (tasks k prev) else NULL);
                    sp_as_new = sp_as (spaces k (owner (tasks k nxt)));
                    k = (if sp_as_new \<noteq> 0 \<and> (prev_proc = NULL \<or> sp_as (spaces k prev_proc) \<noteq> sp_as_new)
                         then k\<lparr>active_as := sp_as_new\<rparr> else k)
                in k\<lparr>tls_task := nxt\<rparr>)"

definition Schedule :: "Kernel \<Rightarrow> Kernel option" where
  "Schedule k = do {
     let cur = current_task k;
     let k = (if cur \<noteq> NULL \<and> state (tasks k cur) = TASK_STATE_RUNNING
              then
                let k = upd_task cur (\<lambda>x. x\<lparr>state := TASK_STATE_READY\<rparr>) k;
                    (now, k) = ArchTimerNow k;
                    preempted = (now < slice_deadline (tasks k cur)
                                 \<and> drop_bit (priority (tasks k cur) + 1) (ready_mask k) \<noteq> 0)
                in if preempted
                   then SchedAddFront cur
                          (upd_task cur (\<lambda>x. x\<lparr>slice_remaining := slice_deadline x - now\<rparr>) k)
                   else SchedAdd cur k
              else k);
     k \<leftarrow> SchedDoHousekeeping k;
     let (nxt, k) = SchedPickNext k;
     Some (SchedSwitchNext nxt k) }"

definition SchedTimerExpired :: "Kernel \<Rightarrow> Kernel" where
  "SchedTimerExpired k =
     (let k = SchedWakeSleepers (k\<lparr>in_tick := True\<rparr>);
          k = k\<lparr>in_tick := False\<rparr>;
          cur = current_task k;
          k = (if cur \<noteq> NULL \<and> SchedAnyCpuTakers cur k
               then let (now, k) = ArchTimerNow k
                    in if now \<ge> slice_deadline (tasks k cur) then k\<lparr>do_resched := True\<rparr> else k
               else k)
      in SchedArmTimer k)"

section \<open>Blocking\<close>

definition SchedBlockOn :: "WaitQ \<Rightarrow> Duration \<Rightarrow> Kernel \<Rightarrow> Kernel option" where
  "SchedBlockOn q timeout k =
     (let cur = current_task k
      in if timeout = TIMEOUT_POLL then Some (ArchSetInFrame cur 0 (err_reg ERR_TIMEOUT) k)
         else
           let k = SchedWaitQueueAdd q cur k;
               k = upd_task cur (\<lambda>x. x\<lparr>state := TASK_STATE_BLOCKED\<rparr>) k;
               k = (if timeout \<noteq> TIMEOUT_INFINITE
                    then let (dl, k) = ArchDeadlineFromMs timeout k
                         in SchedInsertSleepQueue cur (upd_task cur (\<lambda>x. x\<lparr>wake_deadline := dl\<rparr>) k)
                    else upd_task cur (\<lambda>x. x\<lparr>wake_deadline := 0\<rparr>) k)
           in Schedule k)"

definition EventWait ::
    "EventPtr \<Rightarrow> Duration \<Rightarrow> EventWord \<Rightarrow> bool \<Rightarrow> Kernel \<Rightarrow> Kernel option" where
  "EventWait ev timeout msk waitall k =
     (let cur = current_task k
      in if \<not> ev_alive (events k ev) then Some (ArchSetInFrame cur 0 (err_reg ERR_DEAD) k)
         else if waitall \<and> msk = 0 then Some (ArchSetInFrame cur 0 (err_reg ERR_BADARG) k)
         else
           let msk = (if msk = 0 then NOT EVENT_WAIT_ALL else msk);
               got = EventTake (word (events k ev)) msk waitall
           in if got \<noteq> 0
              then do {
                let k = upd_event ev (\<lambda>x. x\<lparr>word := word x AND NOT got\<rparr>) k;
                k \<leftarrow> EventNotifyParents ev k;
                Some (ArchSetInFrame cur 1 got (ArchSetInFrame cur 0 (err_reg ZUZU_OK) k)) }
              else SchedBlockOn (EventQ ev) timeout
                     (upd_task cur (\<lambda>x. x\<lparr>wait_mask := msk, wait_all := waitall\<rparr>) k))"

definition TaskWaitExit :: "TaskPtr \<Rightarrow> Duration \<Rightarrow> Kernel \<Rightarrow> Kernel option" where
  "TaskWaitExit t timeout k =
     (let cur = current_task k
      in if t = cur then Some (ArchSetInFrame cur 0 (err_reg ERR_BADARG) k)
         else if state (tasks k t) = TASK_STATE_ZOMBIE
         then Some (SetExitResult cur (exit_status (tasks k t)) TASK_EXITED k)
         else if state (tasks k t) = TASK_STATE_FAULTED
         then Some (SetExitResult cur (fault_reason (tasks k t)) TASK_FAULTED k)
         else SchedBlockOn (JoinQ t) timeout k)"

definition SpaceWaitHollow :: "SpacePtr \<Rightarrow> Duration \<Rightarrow> Kernel \<Rightarrow> Kernel option" where
  "SpaceWaitHollow sp timeout k =
     (let cur = current_task k
      in if sp = owner (tasks k cur) then Some (ArchSetInFrame cur 0 (err_reg ERR_BADARG) k)
         else if torn_down (spaces k sp) then Some (ArchSetInFrame cur 0 (err_reg ERR_DEAD) k)
         else if live_tasks (spaces k sp) = 0
         then Some (ArchSetInFrame cur 1 (word_of_int (last_exit_status (spaces k sp)))
                      (ArchSetInFrame cur 0 (err_reg ZUZU_OK) k))
         else SchedBlockOn (SpaceQ sp) timeout k)"

end
