(* ===== verification/Handle.thy ===== *)
theory Handle
  imports Task_Life
begin

text \<open>
  Handle tables: \<open>kernel/space/handle.h\<close> and \<open>HandleCopyInto\<close> of \<open>kernel/space/handle.c\<close>. A pointer to
  an entry is the entry's slot number; an entry exists once the block of its slot has been allocated.
  Whether \<open>KZAlloc\<close> finds memory for a new block is an argument of the operations that may grow the
  table.
\<close>

section \<open>Handle values\<close>

definition HANDLE_INDEX_MASK :: u32 where "HANDLE_INDEX_MASK = push_bit 10 1 - 1"
definition HANDLE_GEN_MASK :: u32 where "HANDLE_GEN_MASK = push_bit 21 1 - 1"

definition HANDLE_PACK :: "u32 \<Rightarrow> u32 \<Rightarrow> Handle" where
  "HANDLE_PACK index gen = push_bit 10 gen OR (index AND HANDLE_INDEX_MASK)"

definition HANDLE_INDEX :: "Handle \<Rightarrow> u32" where
  "HANDLE_INDEX h = h AND HANDLE_INDEX_MASK"

definition HANDLE_GEN :: "Handle \<Rightarrow> u32" where
  "HANDLE_GEN h = drop_bit 10 h"

definition HANDLE_BLOCK_SLOTS :: nat where "HANDLE_BLOCK_SLOTS = 64"
definition HANDLE_MAX_BLOCKS :: nat where "HANDLE_MAX_BLOCKS = 16"
definition HANDLE_MAX_SLOTS :: nat where "HANDLE_MAX_SLOTS = HANDLE_BLOCK_SLOTS * HANDLE_MAX_BLOCKS"

definition PERM_WAIT :: u32 where "PERM_WAIT = 1"
definition PERM_SEND :: u32 where "PERM_SEND = 2"
definition PERM_TXFR :: u32 where "PERM_TXFR = 4"
definition PERM_MAP :: u32 where "PERM_MAP = 8"
definition PERM_CNTL :: u32 where "PERM_CNTL = 16"
definition PERM_WRITE :: u32 where "PERM_WRITE = 32"
definition PERM_EXEC :: u32 where "PERM_EXEC = 64"
definition PERM_ALL :: u32 where
  "PERM_ALL = PERM_WAIT OR PERM_SEND OR PERM_TXFR OR PERM_MAP OR PERM_CNTL OR PERM_WRITE OR PERM_EXEC"

section \<open>Tables\<close>

text \<open>An entry as \<open>KZAlloc\<close> and \<open>memset\<close> leave it.\<close>

definition zero_entry :: HandleTableEntry where
  "zero_entry = \<lparr>he_type = HANDLE_FREE, perms = 0, mapped_va = 0, he_obj = 0, marker = 0, generation = 0\<rparr>"

definition HandleTableInit :: HandleTable where
  "HandleTableInit = \<lparr>blocks = replicate HANDLE_MAX_BLOCKS None,
                      slot_bitmap = replicate (BITMAP_WORDS HANDLE_MAX_SLOTS) 0\<rparr>"

definition HandleTableDestroy :: "HandleTable \<Rightarrow> HandleTable" where
  "HandleTableDestroy t = t\<lparr>blocks := map (\<lambda>_. None) (blocks t),
                           slot_bitmap := BitmapZero (slot_bitmap t) HANDLE_MAX_SLOTS\<rparr>"

definition HandleTableGet :: "HandleTable \<Rightarrow> nat \<Rightarrow> HandleTableEntry option" where
  "HandleTableGet t i =
     (if i \<ge> HANDLE_MAX_SLOTS then None
      else case blocks t ! (i div HANDLE_BLOCK_SLOTS) of
             None \<Rightarrow> None
           | Some blk \<Rightarrow> Some (blk ! (i mod HANDLE_BLOCK_SLOTS)))"

definition HandleBlockEnsure :: "bool \<Rightarrow> HandleTable \<Rightarrow> nat \<Rightarrow> bool \<times> HandleTable" where
  "HandleBlockEnsure kz t i =
     (let b = i div HANDLE_BLOCK_SLOTS
      in case blocks t ! b of
           Some _ \<Rightarrow> (True, t)
         | None \<Rightarrow>
             if kz then (True, t\<lparr>blocks := (blocks t)[b := Some (replicate HANDLE_BLOCK_SLOTS zero_entry)]\<rparr>)
             else (False, t))"

definition HandleTableFindFree :: "bool \<Rightarrow> HandleTable \<Rightarrow> int \<times> HandleTable" where
  "HandleTableFindFree kz t =
     (let slot = BitmapFindFirstZero (slot_bitmap t) HANDLE_MAX_SLOTS
      in if slot < 0 then (- 1, t)
         else let (ok, t) = HandleBlockEnsure kz t (nat slot)
              in if \<not> ok then (- 1, t) else (slot, t))"

text \<open>The slot of a valid handle.\<close>

definition HandleTableLookup :: "HandleTable \<Rightarrow> Handle \<Rightarrow> nat option" where
  "HandleTableLookup t h =
     (case HandleTableGet t (unat (HANDLE_INDEX h)) of
        None \<Rightarrow> None
      | Some e \<Rightarrow> if he_type e = HANDLE_FREE \<or> generation e \<noteq> HANDLE_GEN h then None
                  else Some (unat (HANDLE_INDEX h)))"

definition HandleTableGetOrAlloc :: "bool \<Rightarrow> HandleTable \<Rightarrow> nat \<Rightarrow> nat option \<times> HandleTable" where
  "HandleTableGetOrAlloc kz t i =
     (if i \<ge> HANDLE_MAX_SLOTS then (None, t)
      else let (ok, t) = HandleBlockEnsure kz t i in (if ok then Some i else None, t))"

fun entry_index :: "HandleTable \<Rightarrow> nat \<Rightarrow> nat list \<Rightarrow> nat" where
  "entry_index t e [] = HANDLE_MAX_SLOTS"
| "entry_index t e (b # rest) =
     (if blocks t ! b \<noteq> None \<and> b * HANDLE_BLOCK_SLOTS \<le> e \<and> e < b * HANDLE_BLOCK_SLOTS + HANDLE_BLOCK_SLOTS
      then b * HANDLE_BLOCK_SLOTS + (e - b * HANDLE_BLOCK_SLOTS)
      else entry_index t e rest)"

definition HandleEntryIndex :: "HandleTable \<Rightarrow> nat \<Rightarrow> nat" where
  "HandleEntryIndex t e = entry_index t e [0..<HANDLE_MAX_BLOCKS]"

definition put_entry :: "HandleTable \<Rightarrow> nat \<Rightarrow> HandleTableEntry \<Rightarrow> HandleTable" where
  "put_entry t i e =
     t\<lparr>blocks := (blocks t)[i div HANDLE_BLOCK_SLOTS :=
                   map_option (\<lambda>blk. blk[i mod HANDLE_BLOCK_SLOTS := e]) (blocks t ! (i div HANDLE_BLOCK_SLOTS))]\<rparr>"

definition HandleEntryClaim :: "HandleTable \<Rightarrow> nat \<Rightarrow> HandleTable" where
  "HandleEntryClaim t e =
     (let i = HandleEntryIndex t e
      in if i < HANDLE_MAX_SLOTS then t\<lparr>slot_bitmap := BitmapSet (slot_bitmap t) i\<rparr> else t)"

definition HandleEntryFree :: "HandleTable \<Rightarrow> nat \<Rightarrow> HandleTable" where
  "HandleEntryFree t e =
     (let i = HandleEntryIndex t e;
          t = (if i < HANDLE_MAX_SLOTS then t\<lparr>slot_bitmap := BitmapClr (slot_bitmap t) i\<rparr> else t)
      in case HandleTableGet t e of
           None \<Rightarrow> t
         | Some ent \<Rightarrow>
             put_entry t e (zero_entry\<lparr>generation := (generation ent + 1) AND HANDLE_GEN_MASK\<rparr>))"

section \<open>Copying a handle\<close>

text \<open>A reference for the copy, counted on the object it names.\<close>

definition ref_object :: "HandleType \<Rightarrow> u32 \<Rightarrow> Kernel \<Rightarrow> Kernel" where
  "ref_object ty ob k =
     (case ty of
        HANDLE_PORT \<Rightarrow> upd_port ob (\<lambda>x. x\<lparr>port_ref_count := port_ref_count x + 1\<rparr>) k
      | HANDLE_EVENT \<Rightarrow> upd_event ob (\<lambda>x. x\<lparr>ev_ref_count := ev_ref_count x + 1\<rparr>) k
      | HANDLE_MEM \<Rightarrow> upd_mem ob (\<lambda>x. x\<lparr>mem_ref_count := mem_ref_count x + 1\<rparr>) k
      | HANDLE_TASK \<Rightarrow> TaskRef ob k
      | HANDLE_SPACE \<Rightarrow> SpaceRef ob k
      | HANDLE_FREE \<Rightarrow> k)"

definition HandleCopyInto ::
    "bool \<Rightarrow> SpacePtr \<Rightarrow> HandleTableEntry \<Rightarrow> u32 \<Rightarrow> Marker \<Rightarrow> Kernel \<Rightarrow> Err \<times> Handle option \<times> Kernel" where
  "HandleCopyInto kz dst src prm mk k =
     (if he_type src = HANDLE_FREE then (ERR_BADTYPE, None, k)
      else
        let (slot, t) = HandleTableFindFree kz (handle_table (spaces k dst));
            k = upd_space dst (\<lambda>x. x\<lparr>handle_table := t\<rparr>) k
        in if slot < 0 then (ERR_NOMEM, None, k)
           else case HandleTableGet t (nat slot) of
                  None \<Rightarrow> (ERR_NOENT, None, k)
                | Some d \<Rightarrow>
                    let t = HandleEntryClaim t (nat slot);
                        d = d\<lparr>perms := prm, he_type := he_type src, marker := mk, mapped_va := 0,
                              he_obj := he_obj src\<rparr>;
                        t = put_entry t (nat slot) d;
                        k = upd_space dst (\<lambda>x. x\<lparr>handle_table := t\<rparr>) k;
                        k = ref_object (he_type src) (he_obj src) k
                    in (ZUZU_OK, Some (HANDLE_PACK (word_of_int slot) (generation d)), k))"

end
