(* ===== verification/Msg.thy ===== *)
theory Msg
  imports Sched Handle
begin

text \<open>
  Synchronous messages: \<open>kernel/ipc/msg.c\<close>. A call either finds a receiver waiting on the port and is
  handed over at once, or queues its task as a sender; a reply or a timeout ends it. Held calls are
  parked in a table of the port and answered later with a ticket.
\<close>

section \<open>Tickets\<close>

definition TICKET_PACK :: "u32 \<Rightarrow> u32 \<Rightarrow> u32 \<Rightarrow> Ticket" where
  "TICKET_PACK index slot gen = push_bit 16 gen OR push_bit 10 slot OR (index AND HANDLE_INDEX_MASK)"

definition TICKET_INDEX :: "Ticket \<Rightarrow> u32" where
  "TICKET_INDEX t = t AND HANDLE_INDEX_MASK"

definition TICKET_SLOT :: "Ticket \<Rightarrow> u32" where
  "TICKET_SLOT t = drop_bit 10 t AND 0x3F"

definition TICKET_GEN :: "Ticket \<Rightarrow> u32" where
  "TICKET_GEN t = drop_bit 16 t AND 0x7FFF"

section \<open>Message buffers\<close>

definition copy_bytes :: "PhysAddr \<Rightarrow> PhysAddr \<Rightarrow> nat \<Rightarrow> (PhysAddr \<Rightarrow> u8) \<Rightarrow> PhysAddr \<Rightarrow> u8" where
  "copy_bytes src dst n m = fold (\<lambda>i m. m(dst + of_nat i := m (src + of_nat i))) [0..<n] m"

definition MsgBufCopy :: "TaskPtr \<Rightarrow> TaskPtr \<Rightarrow> u32 \<Rightarrow> Kernel \<Rightarrow> Kernel" where
  "MsgBufCopy src dst len k =
     (let sa = msg_buf_phys_addr (tasks k src);
          da = msg_buf_phys_addr (tasks k dst)
      in if len = 0 \<or> sa = 0 \<or> da = 0 then k
         else if len > MSG_BUF_SIZE then k
         else k\<lparr>msg_mem := copy_bytes sa da (unat len) (msg_mem k)\<rparr>)"

section \<open>Checks\<close>

definition space_table_of :: "SpacePtr \<Rightarrow> Kernel \<Rightarrow> HandleTable" where
  "space_table_of sp k = handle_table (spaces k sp)"

text \<open>\<open>HandleTableLookup\<close> followed by reading the entry.\<close>

definition lookup_entry :: "SpacePtr \<Rightarrow> Handle \<Rightarrow> Kernel \<Rightarrow> HandleTableEntry option" where
  "lookup_entry sp h k =
     (case HandleTableLookup (space_table_of sp k) h of
        None \<Rightarrow> None
      | Some i \<Rightarrow> HandleTableGet (space_table_of sp k) i)"

definition ValidateCallPort :: "SpacePtr \<Rightarrow> Handle \<Rightarrow> Kernel \<Rightarrow> Err + HandleTableEntry" where
  "ValidateCallPort sp h k =
     (case lookup_entry sp h k of
        None \<Rightarrow> Inl ERR_BADHANDLE
      | Some e \<Rightarrow>
          if perms e AND PERM_SEND = 0 then Inl ERR_NOPERM
          else if he_type e \<noteq> HANDLE_PORT then Inl ERR_BADTYPE
          else if he_obj e = NULL then Inl ERR_BADHANDLE
          else if \<not> port_alive (ports k (he_obj e)) then Inl ERR_DEAD
          else Inr e)"

definition ValidateGrantHandle :: "SpacePtr \<Rightarrow> Handle \<Rightarrow> Kernel \<Rightarrow> Err" where
  "ValidateGrantHandle from h k =
     (if h = NO_HANDLE then ZUZU_OK
      else case lookup_entry from h k of
             None \<Rightarrow> ERR_BADHANDLE
           | Some e \<Rightarrow> if perms e AND PERM_TXFR = 0 then ERR_NOPERM else ZUZU_OK)"

text \<open>The handle given to the receiver, or \<open>NO_HANDLE\<close>.\<close>

definition AllocateGrantSlot ::
    "bool \<Rightarrow> SpacePtr \<Rightarrow> SpacePtr \<Rightarrow> Handle \<Rightarrow> Kernel \<Rightarrow> Err \<times> Handle \<times> Kernel" where
  "AllocateGrantSlot kz from to h k =
     (if h = NO_HANDLE then (ZUZU_OK, NO_HANDLE, k)
      else case lookup_entry from h k of
             None \<Rightarrow> (ERR_BADHANDLE, NO_HANDLE, k)
           | Some e \<Rightarrow>
               if perms e AND PERM_TXFR = 0 then (ERR_NOPERM, NO_HANDLE, k)
               else let (err, out, k) = HandleCopyInto kz to e (perms e) (marker e) k
                    in (err, case out of Some g \<Rightarrow> g | None \<Rightarrow> NO_HANDLE, k))"

definition GrantHandleAcross ::
    "bool \<Rightarrow> SpacePtr \<Rightarrow> SpacePtr \<Rightarrow> Handle \<Rightarrow> Kernel \<Rightarrow> Err \<times> Handle \<times> Kernel" where
  "GrantHandleAcross kz from to h k =
     (let err = ValidateGrantHandle from h k
      in if err \<noteq> ZUZU_OK then (err, NO_HANDLE, k) else AllocateGrantSlot kz from to h k)"

section \<open>Calls\<close>

definition CallArmTimeout :: "TaskPtr \<Rightarrow> Duration \<Rightarrow> Kernel \<Rightarrow> Kernel" where
  "CallArmTimeout caller timeout k =
     (if timeout = TIMEOUT_INFINITE then upd_task caller (\<lambda>x. x\<lparr>wake_deadline := 0\<rparr>) k
      else let (dl, k) = ArchDeadlineFromMs timeout k
           in SchedInsertSleepQueue caller (upd_task caller (\<lambda>x. x\<lparr>wake_deadline := dl\<rparr>) k))"

definition CallBlockAsSender ::
    "TaskPtr \<Rightarrow> PortPtr \<Rightarrow> TaskPtr \<Rightarrow> u32 \<Rightarrow> Handle \<Rightarrow> Duration \<Rightarrow> Kernel \<Rightarrow> Kernel option" where
  "CallBlockAsSender caller p rc xlen grant timeout k = do {
     let k = upd_task caller (\<lambda>x. x\<lparr>ipc_state := IPC_WAITING, blocked_port := p, pending_reply_cap := rc,
               msg_xfer_len := xlen, pending_grant_handle := grant\<rparr>) k;
     let k = SchedWaitQueueAddTask p caller k;
     let k = upd_task caller (\<lambda>x. x\<lparr>state := TASK_STATE_BLOCKED\<rparr>) k;
     let k = CallArmTimeout caller timeout k;
     let k = PortBoostServers p k;
     k \<leftarrow> (if PortHasPending p k then ObserverNotify (ObsPort p) k else Some k);
     Schedule k }"

definition DeliverCallToReceiver ::
    "TaskPtr \<Rightarrow> TaskPtr \<Rightarrow> TaskPtr \<Rightarrow> u32 \<Rightarrow> Handle \<Rightarrow> Kernel \<Rightarrow> Kernel" where
  "DeliverCallToReceiver caller rx rc xlen granted k =
     (let k = ArchSetInFrame rx 0 0 k;
          k = ArchSetInFrame rx 1 (port_marker (tasks k caller)) k;
          k = ArchSetInFrame rx 2 xlen k;
          k = ArchSetInFrame rx 3 granted k;
          k = (if xlen \<noteq> 0 then MsgBufCopy caller rx xlen k else k);
          p = blocked_port (tasks k caller);
          k = upd_task rx (\<lambda>x. x\<lparr>serving_port := p\<rparr>) k;
          k = k\<lparr>active_servers := (active_servers k)(p := active_servers k p @ [rx])\<rparr>;
          k = upd_task rx (\<lambda>x. x\<lparr>reply_cap := rc\<rparr>) k;
          k = upd_task caller (\<lambda>x. x\<lparr>reply_holder := rx\<rparr>) k
      in TaskRecomputePriority rx k)"

text \<open>The result is whether the call went through; a queue without a receiver is a panic.\<close>

definition CallHandoffToReceiver ::
    "bool \<Rightarrow> TaskPtr \<Rightarrow> PortPtr \<Rightarrow> TaskPtr \<Rightarrow> u32 \<Rightarrow> Handle \<Rightarrow> Duration \<Rightarrow> Kernel
       \<Rightarrow> (bool \<times> Kernel) option" where
  "CallHandoffToReceiver kz caller p rc xlen grant timeout k =
     (case wait_q k (RecvQ p) of
        [] \<Rightarrow> None
      | rx # _ \<Rightarrow>
          if rx = NULL then None
          else
            let (err, granted, k) =
                  AllocateGrantSlot kz (owner (tasks k caller)) (owner (tasks k rx)) grant k
            in if err \<noteq> ZUZU_OK then Some (False, ArchSetInFrame caller 0 (err_reg err) k)
               else do {
                 let k = wait_remove rx k;
                 let k = upd_task caller (\<lambda>x. x\<lparr>ipc_state := IPC_WAITING, blocked_port := p,
                           pending_reply_cap := rc, state := TASK_STATE_BLOCKED\<rparr>) k;
                 let k = CallArmTimeout caller timeout k;
                 let k = DeliverCallToReceiver caller rx rc xlen granted k;
                 let k = SchedUnblock rx k;
                 k \<leftarrow> (if suspended (tasks k rx)
                        \<or> (owner (tasks k rx) \<noteq> NULL \<and> frozen (spaces k (owner (tasks k rx))))
                        \<or> SchedAnyCpuTakers rx k
                      then Schedule (SchedAdd rx k)
                      else Some (SchedSwitchNext rx k));
                 Some (True, k) })"

section \<open>Replies\<close>

definition reply_wake :: "TaskPtr \<Rightarrow> Kernel \<Rightarrow> Kernel" where
  "reply_wake target k =
     (let k = SchedRemoveSleepQueue target k;
          k = upd_task target (\<lambda>x. x\<lparr>wake_deadline := 0, ipc_state := IPC_NONE, blocked_port := NULL,
                pending_reply_cap := NULL, reply_holder := NULL, state := TASK_STATE_READY\<rparr>) k
      in SchedAdd target k)"

definition ReplyDeliverToCaller :: "TaskPtr \<Rightarrow> u32 \<Rightarrow> Handle \<Rightarrow> Kernel \<Rightarrow> Kernel" where
  "ReplyDeliverToCaller target xlen granted k =
     (let k = ArchSetInFrame target 0 (err_reg ZUZU_OK) k;
          k = ArchSetInFrame target 1 xlen k;
          k = ArchSetInFrame target 3 granted k;
          k = (if xlen \<noteq> 0 then MsgBufCopy (current_task k) target xlen k else k)
      in reply_wake target k)"

definition ReplyFailCaller :: "TaskPtr \<Rightarrow> Err \<Rightarrow> Kernel \<Rightarrow> Kernel" where
  "ReplyFailCaller target err k =
     (let k = ArchSetInFrame target 0 (err_reg err) k;
          k = ArchSetInFrame target 1 0 k;
          k = ArchSetInFrame target 3 (- 1) k
      in reply_wake target k)"

section \<open>Receiving\<close>

text \<open>
  The loop of \<open>PortReceive\<close>: a sender whose grant fails is sent away with the error and the next one
  is tried. \<open>kz\<close> says for each attempt whether a handle block can be allocated.
\<close>

fun receive_loop ::
    "(nat \<Rightarrow> bool) \<Rightarrow> PortPtr \<Rightarrow> TaskPtr list \<Rightarrow> Kernel \<Rightarrow> bool \<times> Kernel" where
  "receive_loop kz p [] k = (False, k)"
| "receive_loop kz p (caller # rest) k =
     (let cur = current_task k;
          (rc, granted, k) = AllocateGrantSlot (kz 0) (owner (tasks k caller)) (owner (tasks k cur))
                               (pending_grant_handle (tasks k caller)) k;
          k = node_remove caller k
      in if rc \<noteq> ZUZU_OK then receive_loop (\<lambda>n. kz (Suc n)) p rest (TaskAbortWait caller rc k)
         else
           let k = upd_task caller (\<lambda>x. x\<lparr>pending_grant_handle := NO_HANDLE\<rparr>) k;
               k = DeliverCallToReceiver caller cur (pending_reply_cap (tasks k caller))
                     (msg_xfer_len (tasks k caller)) granted k
           in (True, PortBoostServers p k))"

definition PortReceive :: "(nat \<Rightarrow> bool) \<Rightarrow> PortPtr \<Rightarrow> Duration \<Rightarrow> Kernel \<Rightarrow> Kernel option" where
  "PortReceive kz p timeout k =
     (let cur = current_task k
      in if \<not> port_alive (ports k p) then Some (ArchSetInFrame cur 0 (err_reg ERR_DEAD) k)
         else if reply_cap (tasks k cur) \<noteq> NULL then Some (ArchSetInFrame cur 0 (err_reg ERR_BUSY) k)
         else
           let (got, k) = receive_loop kz p (node_q k (SendQ p)) k
           in if got then if PortHasPending p k then ObserverNotify (ObsPort p) k else Some k
              else SchedBlockOn (RecvQ p) timeout k)"

section \<open>Held calls\<close>

fun free_held :: "HeldCall list \<Rightarrow> nat \<Rightarrow> nat" where
  "free_held [] i = i"
| "free_held (h # hs) i = (if hc_caller h = NULL then i else free_held hs (Suc i))"

definition PortHoldCurrent :: "bool \<Rightarrow> TaskPtr \<Rightarrow> Kernel \<Rightarrow> Err \<times> Ticket \<times> Kernel" where
  "PortHoldCurrent kz server k =
     (let rc = reply_cap (tasks k server);
          p = serving_port (tasks k server)
      in if rc = NULL \<or> p = NULL then (ERR_BADARG, 0, k)
         else
           let caller = rc_caller_task (tasks k rc)
           in if caller = NULL \<or> tid (tasks k caller) \<noteq> rc_caller_tid (tasks k rc)
                 \<or> ipc_state (tasks k caller) \<noteq> IPC_WAITING
              then (ERR_DEAD, 0, TaskClearReplyCap server k)
              else if held (ports k p) = None \<and> \<not> kz then (ERR_NOMEM, 0, k)
              else
                let k = (if held (ports k p) = None
                         then upd_port p (\<lambda>x. x\<lparr>held := Some (replicate PORT_HELD_SLOTS NO_HELD)\<rparr>) k
                         else k);
                    hs = (case held (ports k p) of Some hs \<Rightarrow> hs | None \<Rightarrow> []);
                    slot = free_held hs 0
                in if slot = PORT_HELD_SLOTS then (ERR_NOMEM, 0, k)
                   else
                     let gen = (hc_gen (hs ! slot) + 1) AND 0x7FFF;
                         gen = (if gen = 0 then 1 else gen);
                         k = upd_port p (\<lambda>x. x\<lparr>held := Some (hs[slot := \<lparr>hc_caller = caller,
                               hc_caller_tid = tid (tasks k caller), hc_gen = gen\<rparr>])\<rparr>) k;
                         k = upd_task caller (\<lambda>x. x\<lparr>reply_holder := NULL, held_port := p, held_slot := slot\<rparr>) k;
                         t = TICKET_PACK (HANDLE_INDEX (serving_handle (tasks k server))) (of_nat slot) (ucast gen)
                     in (ZUZU_OK, t, TaskClearReplyCap server k))"

definition PortTakeHeld :: "TaskPtr \<Rightarrow> Ticket \<Rightarrow> Kernel \<Rightarrow> Err + TaskPtr \<times> Kernel" where
  "PortTakeHeld server ticket k =
     (case HandleTableGet (space_table_of (owner (tasks k server)) k) (unat (TICKET_INDEX ticket)) of
        None \<Rightarrow> Inl ERR_BADHANDLE
      | Some e \<Rightarrow>
          if he_type e \<noteq> HANDLE_PORT \<or> he_obj e = NULL then Inl ERR_BADHANDLE
          else if perms e AND PERM_WAIT = 0 then Inl ERR_NOPERM
          else
            let p = he_obj e; slot = unat (TICKET_SLOT ticket)
            in case held (ports k p) of
                 None \<Rightarrow> Inl ERR_NOENT
               | Some hs \<Rightarrow>
                   let h = hs ! slot; caller = hc_caller h
                   in if caller = NULL \<or> ucast (hc_gen h) \<noteq> TICKET_GEN ticket then Inl ERR_NOENT
                      else if tid (tasks k caller) \<noteq> hc_caller_tid h
                              \<or> ipc_state (tasks k caller) \<noteq> IPC_WAITING then Inl ERR_NOENT
                      else Inr (caller, upd_task caller (\<lambda>x. x\<lparr>held_port := NULL\<rparr>) (clear_held p slot k)))"

end
