(* ===== verification/Irq_Relay.thy ===== *)
theory Irq_Relay
  imports Task_Life
begin

text \<open>
  Interrupts delivered to user space: \<open>kernel/irq/irq_relay.c\<close> over the line table of
  \<open>arch/arm/irq/irq.c\<close>. Each line has at most one owning space, which binds it to a bit of an event;
  an interrupt masks its line and signals the event, and the owner unmasks the line again.
\<close>

definition MAX_IRQS :: nat where "MAX_IRQS = 256"
definition TIMER_IRQ_VIRT :: nat where "TIMER_IRQ_VIRT = 27"

definition ArchIrqIsOwnedByKernel :: "nat \<Rightarrow> bool" where
  "ArchIrqIsOwnedByKernel irq \<longleftrightarrow> irq = TIMER_IRQ_VIRT"

definition ArchIrqMaskLine :: "nat \<Rightarrow> Kernel \<Rightarrow> Kernel" where
  "ArchIrqMaskLine irq k =
     k\<lparr>irq_unmasked := (irq_unmasked k)(irq := False)\<rparr>"

definition ArchIrqUnmaskLine :: "nat \<Rightarrow> Kernel \<Rightarrow> Kernel" where
  "ArchIrqUnmaskLine irq k =
     k\<lparr>irq_unmasked := (irq_unmasked k)(irq := True)\<rparr>"

definition ArchIrqRegister :: "nat \<Rightarrow> Kernel \<Rightarrow> Kernel" where
  "ArchIrqRegister irq k =
     (if irq \<ge> MAX_IRQS then k else k\<lparr>irq_registered := (irq_registered k)(irq := True)\<rparr>)"

definition upd_irq :: "nat \<Rightarrow> (IrqOwner \<Rightarrow> IrqOwner) \<Rightarrow> Kernel \<Rightarrow> Kernel" where
  "upd_irq i f k = k\<lparr>irq_owners := (irq_owners k)(i := f (irq_owners k i))\<rparr>"

definition RelayIrqHandler :: "nat \<Rightarrow> Kernel \<Rightarrow> Kernel option" where
  "RelayIrqHandler i k = do {
     let k = ArchIrqMaskLine i k;
     let k = upd_irq i (\<lambda>x. x\<lparr>irq_pending := True\<rparr>) k;
     let ev = bound_ev (irq_owners k i);
     if ev \<noteq> NULL \<and> ev_alive (events k ev)
     then do {
       k \<leftarrow> EventSignal ev (push_bit (irq_bit (irq_owners k i)) 1) False k;
       Some (upd_irq i (\<lambda>x. x\<lparr>irq_pending := False\<rparr>) k) }
     else if ev \<noteq> NULL
     then do {
       let k = upd_irq i (\<lambda>x. x\<lparr>bound_ev := NULL\<rparr>) k;
       EventUnref ev (EventUnbindBit ev (irq_bit (irq_owners k i)) k) }
     else Some k }"

definition IrqIsValid :: "u32 \<Rightarrow> bool" where
  "IrqIsValid irq \<longleftrightarrow> unat irq < MAX_IRQS \<and> \<not> ArchIrqIsOwnedByKernel (unat irq)"

definition IrqBindToEvent :: "SpacePtr \<Rightarrow> nat \<Rightarrow> EventPtr \<Rightarrow> nat \<Rightarrow> Kernel \<Rightarrow> (Err \<times> Kernel) option" where
  "IrqBindToEvent sp i ev b k =
     (let cur = irq_owner (irq_owners k i)
      in if cur \<noteq> NULL \<and> cur \<noteq> sp then Some (ERR_BUSY, k)
         else if \<not> ev_alive (events k ev) then Some (ERR_DEAD, k)
         else do {
           let k = (if cur = NULL
                    then ArchIrqRegister i
                           (upd_irq i (\<lambda>_. \<lparr>irq_owner = sp, irq_pending = False, bound_ev = NULL, irq_bit = b\<rparr>) k)
                    else k);
           k \<leftarrow> (if bound_ev (irq_owners k i) \<noteq> NULL
                then EventUnref (bound_ev (irq_owners k i))
                       (EventUnbindBit (bound_ev (irq_owners k i)) (irq_bit (irq_owners k i)) k)
                else Some k);
           let k = upd_irq i (\<lambda>x. x\<lparr>irq_bit := b, bound_ev := ev\<rparr>) k;
           let k = upd_event ev (\<lambda>x. x\<lparr>ev_ref_count := ev_ref_count x + 1\<rparr>) k;
           let k = EventBindBit ev b k;
           k \<leftarrow> (if irq_pending (irq_owners k i)
                then do {
                  k \<leftarrow> EventSignal ev (push_bit (irq_bit (irq_owners k i)) 1) False k;
                  Some (upd_irq i (\<lambda>x. x\<lparr>irq_pending := False\<rparr>) k) }
                else Some k);
           Some (ZUZU_OK, ArchIrqUnmaskLine i k) })"

definition IrqRelease :: "SpacePtr \<Rightarrow> nat \<Rightarrow> Kernel \<Rightarrow> Kernel option" where
  "IrqRelease sp i k =
     (if i \<ge> MAX_IRQS \<or> irq_owner (irq_owners k i) \<noteq> sp then Some k
      else do {
        let ev = bound_ev (irq_owners k i);
        k \<leftarrow> (if ev \<noteq> NULL
             then EventUnref ev (EventUnbindBit ev (irq_bit (irq_owners k i)) k) else Some k);
        let k = upd_irq i (\<lambda>_. \<lparr>irq_owner = NULL, irq_pending = False, bound_ev = NULL, irq_bit = 0\<rparr>) k;
        Some (ArchIrqMaskLine i k) })"

fun release_irqs :: "SpacePtr \<Rightarrow> nat list \<Rightarrow> Kernel \<Rightarrow> Kernel option" where
  "release_irqs sp [] k = Some k"
| "release_irqs sp (i # rest) k = do { k \<leftarrow> IrqRelease sp i k; release_irqs sp rest k }"

definition IrqReleaseAll :: "SpacePtr \<Rightarrow> Kernel \<Rightarrow> Kernel option" where
  "IrqReleaseAll sp = release_irqs sp [0..<MAX_IRQS]"

definition IrqRelayRearm :: "SpacePtr \<Rightarrow> nat \<Rightarrow> Kernel \<Rightarrow> Err \<times> Kernel" where
  "IrqRelayRearm sp i k =
     (if i \<ge> MAX_IRQS then (ERR_BADARG, k)
      else if irq_owner (irq_owners k i) \<noteq> sp then (ERR_NOPERM, k)
      else (ZUZU_OK, ArchIrqUnmaskLine i k))"

end
