(* ===== verification/Regs.thy ===== *)
theory Regs
  imports Kstate
begin

text \<open>
  Trap frames: the register accessors of \<open>arch/arm/include/arch_impl/regs.h\<close> and the initial frame of
  \<open>arch/arm/context.c\<close>. A frame maps register numbers to values: 0 to 12 are \<open>r0\<close> to \<open>r12\<close>, then come
  the user stack pointer, the user link register, the return address and the saved CPSR.
\<close>

definition FRAME_SP :: nat where "FRAME_SP = 13"
definition FRAME_LR :: nat where "FRAME_LR = 14"
definition FRAME_PC :: nat where "FRAME_PC = 15"
definition FRAME_CPSR :: nat where "FRAME_CPSR = 16"

lemmas frame_index_defs [const_defs] = FRAME_SP_def FRAME_LR_def FRAME_PC_def FRAME_CPSR_def

definition ARCH_NUM_GP_REGS :: nat where "ARCH_NUM_GP_REGS = 13"

record TaskRegs =
  gp :: "nat \<Rightarrow> u32"
  rg_sp :: u32
  rg_lr :: u32
  rg_pc :: u32
  rg_flags :: u32

definition ARM_CPSR_MODE_USR :: u32 where "ARM_CPSR_MODE_USR = 0x10"
definition ARM_CPSR_T :: u32 where "ARM_CPSR_T = push_bit 5 1"
definition ARM_CPSR_USER_BITS :: u32 where
  "ARM_CPSR_USER_BITS = 0xF8000000 OR 0x06000000 OR 0x000F0000 OR 0x0000FC00 OR push_bit 9 1 OR ARM_CPSR_T"

definition ArchFrameToRegs :: "(nat \<Rightarrow> u32) \<Rightarrow> TaskRegs" where
  "ArchFrameToRegs f =
     \<lparr>gp = (\<lambda>i. if i < ARCH_NUM_GP_REGS then f i else 0),
      rg_sp = f FRAME_SP, rg_lr = f FRAME_LR, rg_pc = f FRAME_PC, rg_flags = f FRAME_CPSR\<rparr>"

text \<open>The new frame, or \<^const>\<open>None\<close> when the routine returns \<open>false\<close> and leaves the frame alone.\<close>

definition ArchRegsToFrame :: "(nat \<Rightarrow> u32) \<Rightarrow> TaskRegs \<Rightarrow> (nat \<Rightarrow> u32) option" where
  "ArchRegsToFrame f r =
     (let cpsr = (rg_flags r AND ARM_CPSR_USER_BITS) OR ARM_CPSR_MODE_USR;
          align = (if cpsr AND ARM_CPSR_T \<noteq> 0 then 1 else 3)
      in if rg_pc r AND align \<noteq> 0 then None
         else Some ((\<lambda>i. if i < ARCH_NUM_GP_REGS then gp r i else f i)
                      (FRAME_SP := rg_sp r, FRAME_LR := rg_lr r, FRAME_PC := rg_pc r, FRAME_CPSR := cpsr)))"

text \<open>The user frame \<open>ArchTaskUserInit\<close> builds at the top of a kernel stack.\<close>

definition ArchTaskUserInit :: "u32 \<Rightarrow> u32 \<Rightarrow> u32 \<Rightarrow> u32 \<Rightarrow> u32 \<Rightarrow> nat \<Rightarrow> u32" where
  "ArchTaskUserInit entry user_sp user_lr a0 a1 =
     (\<lambda>_. 0)(0 := a0, 1 := a1, FRAME_SP := user_sp, FRAME_LR := user_lr, FRAME_PC := entry, FRAME_CPSR := 0x10)"

section \<open>A task cannot leave user mode\<close>

lemma mode_field: "((x AND ARM_CPSR_USER_BITS) OR ARM_CPSR_MODE_USR) AND 0x1F = 0x10"
proof -
  have b: "ARM_CPSR_USER_BITS AND 0x1F = 0"
    by (simp add: ARM_CPSR_USER_BITS_def ARM_CPSR_T_def)
  have "((x AND ARM_CPSR_USER_BITS) OR ARM_CPSR_MODE_USR) AND 0x1F
        = (x AND (ARM_CPSR_USER_BITS AND 0x1F)) OR (ARM_CPSR_MODE_USR AND 0x1F)"
    by (simp add: bit.conj_disj_distrib2 and.assoc)
  then show ?thesis
    by (simp add: b ARM_CPSR_MODE_USR_def)
qed

lemma interrupt_masks: "((x AND ARM_CPSR_USER_BITS) OR ARM_CPSR_MODE_USR) AND 0x1C0 = 0"
proof -
  have b: "ARM_CPSR_USER_BITS AND 0x1C0 = 0"
    by (simp add: ARM_CPSR_USER_BITS_def ARM_CPSR_T_def)
  have "((x AND ARM_CPSR_USER_BITS) OR ARM_CPSR_MODE_USR) AND 0x1C0
        = (x AND (ARM_CPSR_USER_BITS AND 0x1C0)) OR (ARM_CPSR_MODE_USR AND 0x1C0)"
    by (simp add: bit.conj_disj_distrib2 and.assoc)
  then show ?thesis
    by (simp add: b ARM_CPSR_MODE_USR_def)
qed

end
