(* ===== verification/Svc.thy ===== *)
theory Svc
  imports Msg Irq_Relay Regs
begin

text \<open>
  System calls: the handlers of \<open>kernel/svc/\<close> for messages, events, tasks and handles. A handler
  works on the trap frame of \<open>current_task\<close>, which \<open>SvcDispatch\<close> checks to be the frame it was given.
  What allocators and the copies from user memory return are arguments: \<open>kz\<close> says whether \<open>KZAlloc\<close>
  finds memory, an optional structure is \<^const>\<open>None\<close> when the copy from user memory fails.
\<close>

section \<open>Results\<close>

text \<open>\<open>ENSURE_ERR\<close> and the final store of a result: write \<open>r0\<close> of the caller and return.\<close>

definition ret_err :: "Err \<Rightarrow> Kernel \<Rightarrow> Kernel option" where
  "ret_err e k = Some (ArchSetInFrame (current_task k) 0 (err_reg e) k)"

definition ret_ok_val :: "u32 \<Rightarrow> Kernel \<Rightarrow> Kernel option" where
  "ret_ok_val v k =
     Some (ArchSetInFrame (current_task k) 1 v (ArchSetInFrame (current_task k) 0 (err_reg ZUZU_OK) k))"

definition arg :: "nat \<Rightarrow> Kernel \<Rightarrow> u32" where
  "arg r k = ArchGetFromFrame (current_task k) r k"

definition CURRENT_SPACE :: "Kernel \<Rightarrow> SpacePtr" where
  "CURRENT_SPACE k = owner (tasks k (current_task k))"

section \<open>Messages\<close>

definition SvcCall :: "bool \<Rightarrow> Kernel \<Rightarrow> Kernel option" where
  "SvcCall kz k =
     (let handle = arg 0 k; xlen = arg 1 k; grant = arg 2 k; timeout = arg 3 k;
          cur = current_task k
      in if xlen > MSG_BUF_SIZE then ret_err ERR_OVERFLOW k
         else case ValidateCallPort (CURRENT_SPACE k) handle k of
                Inl e \<Rightarrow> ret_err e k
              | Inr entry \<Rightarrow>
                  let p = he_obj entry;
                      ge = ValidateGrantHandle (CURRENT_SPACE k) grant k
                  in if ge \<noteq> ZUZU_OK then ret_err ge k
                     else if timeout = TIMEOUT_POLL then ret_err ERR_TIMEOUT k
                     else
                       let k = upd_task cur (\<lambda>x. x\<lparr>rc_caller_task := cur, rc_caller_tid := tid x\<rparr>) k;
                           k = upd_task cur (\<lambda>x. x\<lparr>port_marker := marker entry\<rparr>) k
                       in if wait_q k (RecvQ p) \<noteq> []
                          then map_option snd (CallHandoffToReceiver kz cur p cur xlen grant timeout k)
                          else CallBlockAsSender cur p cur xlen grant timeout k)"

text \<open>The answer to the call being served, or to a held one.\<close>

definition reply_to :: "bool \<Rightarrow> TaskPtr \<Rightarrow> u32 \<Rightarrow> Err \<Rightarrow> Handle \<Rightarrow> Kernel \<Rightarrow> (bool \<times> Kernel) option" where
  "reply_to kz target xlen grant_err granted k =
     (if grant_err \<noteq> ZUZU_OK
      then map_option (Pair False) (ret_err grant_err (ReplyFailCaller target grant_err k))
      else Some (True, ReplyDeliverToCaller target xlen granted k))"

definition reply_held :: "bool \<Rightarrow> u32 \<Rightarrow> Handle \<Rightarrow> Ticket \<Rightarrow> Kernel \<Rightarrow> Kernel option" where
  "reply_held kz xlen grant ticket k =
     (if xlen > MSG_BUF_SIZE then ret_err ERR_OVERFLOW k
      else case PortTakeHeld (current_task k) ticket k of
             Inl e \<Rightarrow> ret_err e k
           | Inr (target, k) \<Rightarrow>
               let (ge, granted, k) =
                     GrantHandleAcross kz (CURRENT_SPACE k) (owner (tasks k target)) grant k
               in do {
                    (ok, k) \<leftarrow> reply_to kz target xlen ge granted k;
                    if ok then ret_err ZUZU_OK k else Some k })"

text \<open>The reply half of \<open>SvcReply\<close>: whether the handler goes on to receive, and the state.\<close>

definition reply_current :: "bool \<Rightarrow> u32 \<Rightarrow> Handle \<Rightarrow> Handle \<Rightarrow> Kernel \<Rightarrow> (bool \<times> Kernel) option" where
  "reply_current kz xlen grant recv k =
     (let cur = current_task k; rc = reply_cap (tasks k cur)
      in if rc = NULL
         then if recv = NO_HANDLE then map_option (Pair False) (ret_err ERR_BADHANDLE k)
              else Some (True, k)
         else
           let target = rc_caller_task (tasks k rc)
           in if \<not> waiting_caller rc k
              then let k = TaskClearReplyCap cur k
                   in if recv = NO_HANDLE then map_option (Pair False) (ret_err ERR_DEAD k)
                      else Some (True, k)
              else
                let (ge, granted, k) =
                      GrantHandleAcross kz (CURRENT_SPACE k) (owner (tasks k target)) grant k;
                    k = TaskClearReplyCap cur k
                in reply_to kz target xlen ge granted k)"

definition SvcReply :: "bool \<Rightarrow> (nat \<Rightarrow> bool) \<Rightarrow> Kernel \<Rightarrow> Kernel option" where
  "SvcReply kz kzr k =
     (let xlen = arg 0 k; grant = arg 1 k; recv = arg 2 k; timeout = arg 3 k; cur = current_task k;
          recv_entry = lookup_entry (CURRENT_SPACE k) recv k
      in if recv = NO_HANDLE \<and> timeout \<noteq> 0 then reply_held kz xlen grant timeout k
         else if recv \<noteq> NO_HANDLE \<and> recv_entry = None then ret_err ERR_BADHANDLE k
         else if recv \<noteq> NO_HANDLE \<and> he_type (the recv_entry) \<noteq> HANDLE_PORT then ret_err ERR_BADTYPE k
         else if recv \<noteq> NO_HANDLE \<and> perms (the recv_entry) AND PERM_WAIT = 0 then ret_err ERR_NOPERM k
         else if xlen > MSG_BUF_SIZE then ret_err ERR_OVERFLOW k
         else do {
           (go, k) \<leftarrow> reply_current kz xlen grant recv k;
           if \<not> go then Some k
           else if recv = NO_HANDLE then ret_err ZUZU_OK k
           else PortReceive kzr (he_obj (the recv_entry)) timeout
                  (upd_task cur (\<lambda>x. x\<lparr>serving_handle := recv\<rparr>) k) })"

definition SvcHold :: "bool \<Rightarrow> Kernel \<Rightarrow> Kernel option" where
  "SvcHold kz k =
     (let (rc, t, k) = PortHoldCurrent kz (current_task k) k;
          k = ArchSetInFrame (current_task k) 0 (err_reg rc) k
      in Some (if rc = ZUZU_OK then ArchSetInFrame (current_task k) 1 t k else k))"

section \<open>Waiting\<close>

definition SvcWaitOn :: "(nat \<Rightarrow> bool) \<Rightarrow> Kernel \<Rightarrow> Kernel option" where
  "SvcWaitOn kzr k =
     (let h = arg 0 k; timeout = arg 1 k; cur = current_task k
      in case lookup_entry (CURRENT_SPACE k) h k of
           None \<Rightarrow> ret_err ERR_BADHANDLE k
         | Some e \<Rightarrow>
             if perms e AND PERM_WAIT = 0 then ret_err ERR_NOPERM k
             else case he_type e of
                    HANDLE_PORT \<Rightarrow> PortReceive kzr (he_obj e) timeout
                                     (upd_task cur (\<lambda>x. x\<lparr>serving_handle := h\<rparr>) k)
                  | HANDLE_EVENT \<Rightarrow> EventWait (he_obj e) timeout (NOT EVENT_WAIT_ALL AND arg 2 k)
                                      (EVENT_WAIT_ALL AND arg 2 k \<noteq> 0) k
                  | HANDLE_SPACE \<Rightarrow> SpaceWaitHollow (he_obj e) timeout k
                  | HANDLE_TASK \<Rightarrow> TaskWaitExit (he_obj e) timeout k
                  | _ \<Rightarrow> ret_err ERR_BADTYPE k)"

section \<open>Events\<close>

definition SvcSignal :: "Kernel \<Rightarrow> Kernel option" where
  "SvcSignal k =
     (let h = arg 0 k; bits = arg 1 k; flags = arg 2 k
      in if bits AND push_bit 31 1 \<noteq> 0 then ret_err ERR_BADARG k
         else case lookup_entry (CURRENT_SPACE k) h k of
                None \<Rightarrow> ret_err ERR_BADHANDLE k
              | Some e \<Rightarrow>
                  if perms e AND PERM_SEND = 0 then ret_err ERR_NOPERM k
                  else if he_type e \<noteq> HANDLE_EVENT then ret_err ERR_BADTYPE k
                  else if he_obj e = NULL then ret_err ERR_DEAD k
                  else if bits AND bound_mask (events k (he_obj e)) \<noteq> 0 then ret_err ERR_NOPERM k
                  else if \<not> ev_alive (events k (he_obj e)) then ret_err ERR_DEAD k
                  else if flags AND NOT SIGNAL_BROADCAST \<noteq> 0 then ret_err ERR_BADARG k
                  else do {
                    k \<leftarrow> EventSignal (he_obj e) bits (flags AND SIGNAL_BROADCAST \<noteq> 0) k;
                    ret_err ZUZU_OK k })"

definition EVENT_MEMMGMT :: u32 where "EVENT_MEMMGMT = 1"
definition EVENT_IRQ :: u32 where "EVENT_IRQ = 2"
definition EVENT_PORT :: u32 where "EVENT_PORT = 3"
definition EVENT_TASK :: u32 where "EVENT_TASK = 4"
definition EVENT_SPACE :: u32 where "EVENT_SPACE = 5"
definition EVENT_EVENT :: u32 where "EVENT_EVENT = 6"

text \<open>The observer set a binding goes to, unless the task is gone, and whether it is already due.\<close>

definition BindLookupTarget :: "u32 \<Rightarrow> Handle \<Rightarrow> u32 \<Rightarrow> Kernel \<Rightarrow> Err + ObsSrc option \<times> bool" where
  "BindLookupTarget ty h b k =
     (let want = (if ty = EVENT_PORT then HANDLE_PORT else if ty = EVENT_TASK then HANDLE_TASK
                  else HANDLE_SPACE)
      in case lookup_entry (CURRENT_SPACE k) h k of
           None \<Rightarrow> Inl ERR_BADHANDLE
         | Some e \<Rightarrow>
             if he_type e \<noteq> want then Inl ERR_BADTYPE
             else if perms e AND PERM_WAIT = 0 then Inl ERR_NOPERM
             else if b \<ge> 31 then Inl ERR_BADARG
             else if he_obj e = NULL then Inl ERR_BADHANDLE
             else if ty = EVENT_PORT
             then if \<not> port_alive (ports k (he_obj e)) then Inl ERR_DEAD
                  else Inr (Some (ObsPort (he_obj e)), PortHasPending (he_obj e) k)
             else if ty = EVENT_TASK
             then Inr (if released (tasks k (he_obj e)) then None else Some (ObsTask (he_obj e)),
                       TaskIsDead (he_obj e) k)
             else Inr (Some (ObsSpace (he_obj e)), SpaceIsHollow (he_obj e) k))"

definition PmmSubscribe :: "bool \<Rightarrow> EventPtr \<Rightarrow> Kernel \<Rightarrow> Err \<times> Kernel" where
  "PmmSubscribe kz ev k =
     (if ev = NULL then (ERR_BADARG, k)
      else if \<not> kz then (ERR_NOMEM, k)
      else let k = EventBindBit ev 0 k;
               k = k\<lparr>mem_subscribers := mem_subscribers k @ [ev]\<rparr>
           in (ZUZU_OK, upd_event ev (\<lambda>x. x\<lparr>ev_ref_count := ev_ref_count x + 1\<rparr>) k))"

definition bind_irq :: "EventPtr \<Rightarrow> Kernel \<Rightarrow> Kernel option" where
  "bind_irq ev k =
     (let b = arg 3 k
      in case lookup_entry (CURRENT_SPACE k) (arg 2 k) k of
           None \<Rightarrow> ret_err ERR_BADHANDLE k
         | Some d \<Rightarrow>
             if he_type d \<noteq> HANDLE_MEM then ret_err ERR_BADTYPE k
             else if he_obj d = NULL then ret_err ERR_BADHANDLE k
             else if mem_kind (mems k (he_obj d)) \<noteq> MEMKIND_DEVICE then ret_err ERR_BADTYPE k
             else if perms d AND PERM_MAP = 0 then ret_err ERR_NOPERM k
             else if \<not> IrqIsValid (dev_irq (mems k (he_obj d))) then ret_err ERR_BADARG k
             else if b \<ge> 31 then ret_err ERR_BADARG k
             else do {
               (rc, k) \<leftarrow> IrqBindToEvent (CURRENT_SPACE k) (unat (dev_irq (mems k (he_obj d)))) ev (unat b) k;
               ret_err rc k })"

definition bind_object :: "u32 \<Rightarrow> EventPtr \<Rightarrow> Kernel \<Rightarrow> Kernel option" where
  "bind_object ty ev k =
     (case BindLookupTarget ty (arg 2 k) (arg 3 k) k of
        Inl e \<Rightarrow> ret_err e k
      | Inr (src, ready) \<Rightarrow> do {
          let b = unat (arg 3 k);
          (rc, k) \<leftarrow> (case src of None \<Rightarrow> Some (ZUZU_OK, k) | Some s \<Rightarrow> ObserverAdd s ev b False k);
          k \<leftarrow> (if rc = ZUZU_OK \<and> ready then EventSignal ev (push_bit b 1) False k else Some k);
          ret_err rc k })"

definition bind_event :: "EventPtr \<Rightarrow> Kernel \<Rightarrow> Kernel option" where
  "bind_event ev k =
     (let b = arg 3 k
      in case lookup_entry (CURRENT_SPACE k) (arg 2 k) k of
           None \<Rightarrow> ret_err ERR_BADHANDLE k
         | Some ce \<Rightarrow>
             let child = he_obj ce
             in if he_type ce \<noteq> HANDLE_EVENT \<or> child = NULL then ret_err ERR_BADTYPE k
                else if perms ce AND PERM_WAIT = 0 then ret_err ERR_NOPERM k
                else if b \<ge> 31 then ret_err ERR_BADARG k
                else if \<not> ev_alive (events k child) then ret_err ERR_DEAD k
                else if child = ev then ret_err ERR_BADARG k
                else if child_count (events k child) \<noteq> 0 then ret_err ERR_BADARG k
                else if \<not> ObserverEmpty (ObsEvent ev) k then ret_err ERR_BADARG k
                else do {
                  (rc, k) \<leftarrow> ObserverAdd (ObsEvent child) ev (unat b) True k;
                  k \<leftarrow> (if rc = ZUZU_OK \<and> word (events k child) \<noteq> 0
                       then EventSignal ev (push_bit (unat b) 1) False k else Some k);
                  ret_err rc k })"

definition SvcBind :: "bool \<Rightarrow> Kernel \<Rightarrow> Kernel option" where
  "SvcBind kz k =
     (let ty = arg 0 k
      in case lookup_entry (CURRENT_SPACE k) (arg 1 k) k of
           None \<Rightarrow> ret_err ERR_BADHANDLE k
         | Some e \<Rightarrow>
             let ev = he_obj e
             in if he_type e \<noteq> HANDLE_EVENT then ret_err ERR_BADTYPE k
                else if perms e AND PERM_CNTL = 0 then ret_err ERR_NOPERM k
                else if ev = NULL then ret_err ERR_BADHANDLE k
                else if \<not> ev_alive (events k ev) then ret_err ERR_DEAD k
                else if ty = EVENT_MEMMGMT then (let (rc, k) = PmmSubscribe kz ev k in ret_err rc k)
                else if ty = EVENT_IRQ then bind_irq ev k
                else if ty = EVENT_PORT \<or> ty = EVENT_TASK \<or> ty = EVENT_SPACE then bind_object ty ev k
                else if ty = EVENT_EVENT then bind_event ev k
                else ret_err ERR_BADARG k)"

end
