(* ===== verification/Mem_Object.thy ===== *)
theory Mem_Object
  imports Kstate
begin

text \<open>
  Memory objects: \<open>kernel/mm/mem_object.c\<close>. An object is a device window or shared memory; a device
  keeps a list of DMA mappings, each holding a reference on the shared memory it exposes. The list
  of mappings is modelled as the list of \<open>DmaMapping\<close>s, latest first; cache maintenance has no effect on
  the state.
\<close>

definition PROT_READ :: u32 where "PROT_READ = 1"
definition PROT_WRITE :: u32 where "PROT_WRITE = 2"
definition PROT_EXEC :: u32 where "PROT_EXEC = 4"
definition DMA_MAX_MAPPINGS :: nat where "DMA_MAX_MAPPINGS = 256"
definition DMA_ALIGN :: u32 where "DMA_ALIGN = 64"
definition MEM_CONTIG :: u32 where "MEM_CONTIG = 1"
definition MEM_UNCACHED :: u32 where "MEM_UNCACHED = 2"
definition DMA_TO_DEVICE :: u32 where "DMA_TO_DEVICE = 1"
definition DMA_FROM_DEVICE :: u32 where "DMA_FROM_DEVICE = 2"
definition DMA_BIDIRECTIONAL :: u32 where "DMA_BIDIRECTIONAL = 3"

lemmas dma_consts [const_defs] =
  DMA_MAX_MAPPINGS_def DMA_ALIGN_def MEM_CONTIG_def MEM_UNCACHED_def DMA_TO_DEVICE_def
  DMA_FROM_DEVICE_def DMA_BIDIRECTIONAL_def

section \<open>Lifetime\<close>

text \<open>The two constructors; \<open>m\<close> is what the slab cache returns, 0 when it is out of memory.\<close>

definition MemObjCreateDevice :: "MemPtr \<Rightarrow> PhysAddr \<Rightarrow> u32 \<Rightarrow> u32 \<Rightarrow> Kernel \<Rightarrow> MemPtr \<times> Kernel" where
  "MemObjCreateDevice m base sz irq k =
     (if m = NULL then (NULL, k)
      else (m, upd_mem m (\<lambda>x. x\<lparr>mem_owner_spid := - 1, mem_kind := MEMKIND_DEVICE, mem_ref_count := 1,
                 exec_synced := False, dev_phys_base := base, dev_size := sz, dev_irq := irq,
                 dev_dma_limit := - 1, dev_bus_offset := 0, dev_dma_maps := [], dev_dma_next_id := 1,
                 dev_dma_map_count := 0\<rparr>) k))"

definition MemObjCreateShm :: "MemPtr \<Rightarrow> PhysAddr list \<Rightarrow> u32 \<Rightarrow> u32 \<Rightarrow> Kernel \<Rightarrow> MemPtr \<times> Kernel" where
  "MemObjCreateShm m page_addrs page_count flags k =
     (if m = NULL then (NULL, k)
      else (m, upd_mem m (\<lambda>x. x\<lparr>mem_owner_spid := - 1, mem_kind := MEMKIND_SHARED, mem_ref_count := 1,
                 exec_synced := False, shm_page_addrs := page_addrs, shm_page_count := page_count,
                 shm_flags := flags\<rparr>) k))"

definition MemObjRef :: "MemPtr \<Rightarrow> Kernel \<Rightarrow> Kernel" where
  "MemObjRef m k = (if m = NULL then k else upd_mem m (\<lambda>x. x\<lparr>mem_ref_count := mem_ref_count x + 1\<rparr>) k)"

text \<open>The frames a dying shared object gives back.\<close>

definition free_pages :: "MemPtr \<Rightarrow> Kernel \<Rightarrow> Kernel" where
  "free_pages m k =
     k\<lparr>freed := rev (map FreedFrame (filter (\<lambda>pa. pa \<noteq> 0)
         (take (unat (shm_page_count (mems k m))) (shm_page_addrs (mems k m))))) @ freed k\<rparr>"

text \<open>
  \<open>MemObjUnref\<close> calls itself for the objects a dying device has mapped; those are shared memory, so
  the recursion is two levels deep. The first argument bounds the depth and running out of it is
  \<^const>\<open>None\<close>.
\<close>

fun mem_unref :: "nat \<Rightarrow> MemPtr \<Rightarrow> Kernel \<Rightarrow> Kernel option"
  and mem_unref_maps :: "nat \<Rightarrow> DmaMapping list \<Rightarrow> Kernel \<Rightarrow> Kernel option" where
  "mem_unref 0 m k = None"
| "mem_unref (Suc n) m k =
     (if m = NULL then Some k
      else
        let k = (if mem_ref_count (mems k m) > 0
                 then upd_mem m (\<lambda>x. x\<lparr>mem_ref_count := mem_ref_count x - 1\<rparr>) k else k)
        in if mem_ref_count (mems k m) \<noteq> 0 then Some k
           else do {
             k \<leftarrow> (case mem_kind (mems k m) of
                    MEMKIND_SHARED \<Rightarrow> Some (free_pages m k)
                  | MEMKIND_DEVICE \<Rightarrow> mem_unref_maps n (dev_dma_maps (mems k m)) k
                  | MEMKIND_NONE \<Rightarrow> Some k);
             Some (k\<lparr>freed := FreedMem m # freed k\<rparr>) })"
| "mem_unref_maps n [] k = Some k"
| "mem_unref_maps n (d # ds) k = do { k \<leftarrow> mem_unref n (dma_mem d) k; mem_unref_maps n ds k }"

definition MemObjUnref :: "MemPtr \<Rightarrow> Kernel \<Rightarrow> Kernel option" where
  "MemObjUnref = mem_unref 2"

section \<open>DMA mappings\<close>

text \<open>\<open>slab\<close> says whether a \<open>DmaMapping\<close> can be allocated.\<close>

definition MemObjDmaMap ::
    "bool \<Rightarrow> MemPtr \<Rightarrow> MemPtr \<Rightarrow> u32 \<Rightarrow> u32 \<Rightarrow> u32 \<Rightarrow> Kernel \<Rightarrow> Err \<times> u32 \<times> u32 \<times> Kernel" where
  "MemObjDmaMap slab dev m off len dir k =
     (let d = mems k dev; x = mems k m;
          sz = shm_page_count x * PAGE_SIZE;
          phys = hd (shm_page_addrs x) + off;
          bus = phys + dev_bus_offset d
      in if mem_kind d \<noteq> MEMKIND_DEVICE then (ERR_BADTYPE, 0, 0, k)
         else if \<not> (mem_kind x = MEMKIND_SHARED \<and> shm_flags x AND MEM_CONTIG \<noteq> 0) then (ERR_BADTYPE, 0, 0, k)
         else if \<not> (dir = DMA_FROM_DEVICE \<or> dir = DMA_TO_DEVICE \<or> dir = DMA_BIDIRECTIONAL) then (ERR_BADARG, 0, 0, k)
         else if len = 0 then (ERR_BADARG, 0, 0, k)
         else if off AND (PAGE_SIZE - 1) \<noteq> 0 \<or> len AND (PAGE_SIZE - 1) \<noteq> 0 then (ERR_BADARG, 0, 0, k)
         else if \<not> (off < sz \<and> len \<le> sz - off) then (ERR_BADARG, 0, 0, k)
         else if \<not> (len - 1 \<le> dev_dma_limit d \<and> bus \<le> dev_dma_limit d - (len - 1)) then (ERR_BADARG, 0, 0, k)
         else if dev_dma_map_count d \<ge> DMA_MAX_MAPPINGS then (ERR_NOMEM, 0, 0, k)
         else if \<not> slab then (ERR_NOMEM, 0, 0, k)
         else
           let i = dev_dma_next_id d;
               nxt = (if i + 1 = 0 then 1 else i + 1);
               k = MemObjRef m k;
               k = upd_mem dev (\<lambda>y. y\<lparr>dev_dma_next_id := nxt,
                     dev_dma_maps := \<lparr>dma_id = i, dma_mem = m, dma_offset = off, dma_len = len,
                                      dma_dir = dir, dma_bus_addr = bus\<rparr> # dev_dma_maps y,
                     dev_dma_map_count := dev_dma_map_count y + 1\<rparr>) k
           in (ZUZU_OK, bus, i, k))"

definition MemObjDmaUnmap :: "MemPtr \<Rightarrow> u32 \<Rightarrow> Kernel \<Rightarrow> (Err \<times> Kernel) option" where
  "MemObjDmaUnmap dev i k =
     (if mem_kind (mems k dev) \<noteq> MEMKIND_DEVICE then Some (ERR_BADTYPE, k)
      else case find (\<lambda>d. dma_id d = i) (dev_dma_maps (mems k dev)) of
             None \<Rightarrow> Some (ERR_NOENT, k)
           | Some d \<Rightarrow> do {
               let k = upd_mem dev (\<lambda>y. y\<lparr>dev_dma_maps := remove1 d (dev_dma_maps y),
                         dev_dma_map_count := dev_dma_map_count y - 1\<rparr>) k;
               k \<leftarrow> MemObjUnref (dma_mem d) k;
               Some (ZUZU_OK, k) })"

text \<open>The physical range whose cache lines a sync cleans or invalidates, if any.\<close>

definition MemObjDmaSync :: "MemPtr \<Rightarrow> u32 \<Rightarrow> u32 \<Rightarrow> u32 \<Rightarrow> Kernel \<Rightarrow> Err \<times> (PhysAddr \<times> u32) option" where
  "MemObjDmaSync dev bus len op k =
     (if mem_kind (mems k dev) \<noteq> MEMKIND_DEVICE then (ERR_BADTYPE, None)
      else if op > 1 then (ERR_BADARG, None)
      else if \<not> (len > 0 \<and> bus AND (DMA_ALIGN - 1) = 0 \<and> len AND (DMA_ALIGN - 1) = 0) then (ERR_BADARG, None)
      else case find (\<lambda>d. \<not> (len > dma_len d \<or> bus < dma_bus_addr d \<or> bus - dma_bus_addr d > dma_len d - len))
                     (dev_dma_maps (mems k dev)) of
             None \<Rightarrow> (ERR_NOENT, None)
           | Some d \<Rightarrow>
               let x = mems k (dma_mem d);
                   phys = hd (shm_page_addrs x) + dma_offset d + (bus - dma_bus_addr d)
               in if shm_flags x AND MEM_UNCACHED \<noteq> 0 then (ZUZU_OK, None)
                  else if op = 0 \<or> dma_dir d AND DMA_FROM_DEVICE \<noteq> 0 then (ZUZU_OK, Some (phys, len))
                  else (ZUZU_OK, None))"

definition MemObjDmaNth :: "MemPtr \<Rightarrow> nat \<Rightarrow> Kernel \<Rightarrow> DmaMapping option" where
  "MemObjDmaNth dev i k =
     (if mem_kind (mems k dev) \<noteq> MEMKIND_DEVICE then None
      else let ds = dev_dma_maps (mems k dev) in if i < length ds then Some (ds ! i) else None)"

definition MemObjDmaFind :: "MemPtr \<Rightarrow> u32 \<Rightarrow> Kernel \<Rightarrow> DmaMapping option" where
  "MemObjDmaFind dev i k =
     (if mem_kind (mems k dev) \<noteq> MEMKIND_DEVICE then None
      else find (\<lambda>d. dma_id d = i) (dev_dma_maps (mems k dev)))"

end
