(* ===== verification/Svc_Manage.thy ===== *)
theory Svc_Manage
  imports Svc Mem_Object
begin

text \<open>
  System calls on tasks and handles: \<open>svc_yield.c\<close>, \<open>svc_quit.c\<close>, \<open>svc_managetask.c\<close>, and the verbs of
  \<open>svc_create.c\<close> and \<open>svc_managehandle.c\<close> that touch neither an address space nor the frame allocator.
\<close>

section \<open>Yield and Quit\<close>

definition SvcYield :: "Kernel \<Rightarrow> Kernel option" where
  "SvcYield k =
     (let cur = current_task k;
          k = ArchSetInFrame cur 0 (err_reg ZUZU_OK) k
      in Schedule (upd_task cur (\<lambda>x. x\<lparr>slice_deadline := 0\<rparr>) k))"

definition SvcQuit :: "Kernel \<Rightarrow> Kernel option" where
  "SvcQuit k = do {
     k \<leftarrow> TaskTerminate (current_task k) (sint (arg 0 k)) k;
     Schedule k }"

section \<open>ManageTask\<close>

datatype ManageTaskVerb =
    MNGTASK_START | MNGTASK_KILL | MNGTASK_SET_PRIORITY | MNGTASK_SET_MAX_PRIO
  | MNGTASK_SET_TIMESLICE | MNGTASK_SUSPEND | MNGTASK_RESUME | MNGTASK_GET_REGS | MNGTASK_SET_REGS

definition task_verb :: "u32 \<Rightarrow> ManageTaskVerb option" where
  "task_verb v =
     (let vs = [MNGTASK_START, MNGTASK_KILL, MNGTASK_SET_PRIORITY, MNGTASK_SET_MAX_PRIO,
                MNGTASK_SET_TIMESLICE, MNGTASK_SUSPEND, MNGTASK_RESUME, MNGTASK_GET_REGS, MNGTASK_SET_REGS]
      in if unat v < length vs then Some (vs ! unat v) else None)"

definition TIMESLICE_MIN_US :: u32 where "TIMESLICE_MIN_US = 100"
definition TIMESLICE_MAX_US :: u32 where "TIMESLICE_MAX_US = 1000000"
definition USER_ELF_BASE :: u32 where "USER_ELF_BASE = 0x10000"

record KickstartArgs =
  ka_entry :: u32
  ka_sp :: u32
  ka_r0 :: u32
  ka_r1 :: u32

text \<open>The user memory a call reads, and whether the user buffer it writes to is writable.\<close>

record UserArgs =
  ua_kick :: "KickstartArgs option"
  ua_regs :: "TaskRegs option"
  ua_writable :: bool

definition set_base_prio :: "TaskPtr \<Rightarrow> u32 \<Rightarrow> Kernel \<Rightarrow> Kernel" where
  "set_base_prio t val k =
     TaskSyncTcbPrio t (TaskRecomputePriority t (upd_task t (\<lambda>x. x\<lparr>base_prio := unat val\<rparr>) k))"

definition set_max_prio :: "TaskPtr \<Rightarrow> u32 \<Rightarrow> Kernel \<Rightarrow> Kernel" where
  "set_max_prio t val k =
     (let k = upd_task t (\<lambda>x. x\<lparr>max_prio := unat val\<rparr>) k;
          k = (if base_prio (tasks k t) > unat val
               then TaskRecomputePriority t (upd_task t (\<lambda>x. x\<lparr>base_prio := unat val\<rparr>) k)
               else k)
      in TaskSyncTcbPrio t k)"

text \<open>\<open>ManageTask\<close> on the calling task itself, with the handle -1.\<close>

definition manage_self :: "ManageTaskVerb option \<Rightarrow> Kernel \<Rightarrow> Kernel option" where
  "manage_self verb k =
     (let val = arg 2 k; cur = current_task k
      in case verb of
           Some MNGTASK_SET_PRIORITY \<Rightarrow>
             if unat val > max_prio (tasks k cur) then ret_err ERR_NOPERM k
             else ret_err ZUZU_OK (set_base_prio cur val k)
         | Some MNGTASK_SET_MAX_PRIO \<Rightarrow>
             if unat val > max_prio (tasks k cur) then ret_err ERR_NOPERM k
             else ret_err ZUZU_OK (set_max_prio cur val k)
         | Some MNGTASK_SET_TIMESLICE \<Rightarrow>
             if val < TIMESLICE_MIN_US \<or> val > TIMESLICE_MAX_US then ret_err ERR_BADARG k
             else ret_err ZUZU_OK (upd_task cur (\<lambda>x. x\<lparr>time_slice_us := val\<rparr>) k)
         | _ \<Rightarrow> ret_err ERR_BADARG k)"

definition MngTaskStart :: "UserArgs \<Rightarrow> TaskPtr \<Rightarrow> Kernel \<Rightarrow> Kernel option" where
  "MngTaskStart ua t k =
     (if state (tasks k t) \<noteq> TASK_STATE_FROZEN then ret_err ERR_BUSY k
      else case ua_kick ua of
             None \<Rightarrow> ret_err ERR_BADPTR k
           | Some a \<Rightarrow>
               let k = upd_task t (\<lambda>x. x\<lparr>trap_frame := ArchTaskUserInit (ka_entry a) (ka_sp a) USER_ELF_BASE
                         (ka_r0 a) (ka_r1 a), state := TASK_STATE_READY\<rparr>) k
               in ret_err ZUZU_OK (SchedAdd t k))"

definition MngTaskKill :: "TaskPtr \<Rightarrow> Kernel \<Rightarrow> Kernel option" where
  "MngTaskKill t k =
     (if t = current_task k then ret_err ERR_BADARG k
      else do {
        k \<leftarrow> (if state (tasks k t) \<noteq> TASK_STATE_ZOMBIE
             then TaskTerminate t (err_code ERR_DEAD)
                    (if state (tasks k t) = TASK_STATE_FAULTED
                     then SpaceUnfreeze (owner (tasks k t)) k else k)
             else Some k);
        ret_err ZUZU_OK k })"

definition MngTaskSuspend :: "TaskPtr \<Rightarrow> Kernel \<Rightarrow> Kernel option" where
  "MngTaskSuspend t k =
     (if state (tasks k t) = TASK_STATE_ZOMBIE then ret_err ERR_DEAD k
      else if state (tasks k t) = TASK_STATE_FROZEN \<or> state (tasks k t) = TASK_STATE_FAULTED
      then ret_err ERR_BADARG k
      else
        let k = ArchSetInFrame (current_task k) 0 (err_reg ZUZU_OK) k
        in if suspended (tasks k t) then Some k
           else
             let k = upd_task t (\<lambda>x. x\<lparr>suspended := True\<rparr>) k;
                 k = (if state (tasks k t) = TASK_STATE_READY then SchedRemoveRunQueue t k else k)
             in if t = current_task k then Schedule k else Some k)"

definition MngTaskResume :: "TaskPtr \<Rightarrow> Kernel \<Rightarrow> Kernel option" where
  "MngTaskResume t k =
     (if state (tasks k t) = TASK_STATE_FAULTED
      then let k = SpaceUnfreeze (owner (tasks k t)) k
           in ret_err ZUZU_OK (SchedAdd t (upd_task t (\<lambda>x. x\<lparr>state := TASK_STATE_READY\<rparr>) k))
      else if \<not> suspended (tasks k t) then ret_err ERR_BADARG k
      else let k = upd_task t (\<lambda>x. x\<lparr>suspended := False\<rparr>) k
           in ret_err ZUZU_OK
                (if state (tasks k t) = TASK_STATE_READY \<and> node (tasks k t) = None then SchedAdd t k else k))"

text \<open>The registers copied out, and the state.\<close>

definition MngTaskGetRegs :: "UserArgs \<Rightarrow> TaskPtr \<Rightarrow> Kernel \<Rightarrow> TaskRegs option \<times> Kernel option" where
  "MngTaskGetRegs ua t k =
     (if state (tasks k t) = TASK_STATE_ZOMBIE then (None, ret_err ERR_DEAD k)
      else if state (tasks k t) \<noteq> TASK_STATE_FAULTED \<and> \<not> suspended (tasks k t) then (None, ret_err ERR_BUSY k)
      else if \<not> ua_writable ua then (None, ret_err ERR_BADPTR k)
      else (Some (ArchFrameToRegs (trap_frame (tasks k t))), ret_err ZUZU_OK k))"

definition MngTaskSetRegs :: "UserArgs \<Rightarrow> TaskPtr \<Rightarrow> Kernel \<Rightarrow> Kernel option" where
  "MngTaskSetRegs ua t k =
     (if state (tasks k t) = TASK_STATE_ZOMBIE then ret_err ERR_DEAD k
      else if \<not> (state (tasks k t) = TASK_STATE_FAULTED
                 \<or> suspended (tasks k t) \<and> state (tasks k t) \<noteq> TASK_STATE_BLOCKED)
      then ret_err ERR_BUSY k
      else case ua_regs ua of
             None \<Rightarrow> ret_err ERR_BADPTR k
           | Some r \<Rightarrow>
               case ArchRegsToFrame (trap_frame (tasks k t)) r of
                 None \<Rightarrow> ret_err ERR_BADARG k
               | Some f \<Rightarrow> ret_err ZUZU_OK (upd_task t (\<lambda>x. x\<lparr>trap_frame := f\<rparr>) k))"

definition SvcManageTask :: "UserArgs \<Rightarrow> Kernel \<Rightarrow> Kernel option" where
  "SvcManageTask ua k =
     (let h = arg 0 k; verb = task_verb (arg 1 k); val = arg 2 k; cur = current_task k
      in if h = NO_HANDLE then manage_self verb k
         else case lookup_entry (CURRENT_SPACE k) h k of
                None \<Rightarrow> ret_err ERR_BADHANDLE k
              | Some e \<Rightarrow>
                  let t = he_obj e
                  in if he_type e \<noteq> HANDLE_TASK then ret_err ERR_BADTYPE k
                     else if perms e AND PERM_CNTL = 0 then ret_err ERR_NOPERM k
                     else if t = NULL then ret_err ERR_BADHANDLE k
                     else case verb of
                            None \<Rightarrow> ret_err ERR_BADARG k
                          | Some MNGTASK_START \<Rightarrow> MngTaskStart ua t k
                          | Some MNGTASK_KILL \<Rightarrow> MngTaskKill t k
                          | Some MNGTASK_SET_PRIORITY \<Rightarrow>
                              if unat val > max_prio (tasks k cur) \<or> unat val > max_prio (tasks k t)
                              then ret_err ERR_NOPERM k else ret_err ZUZU_OK (set_base_prio t val k)
                          | Some MNGTASK_SET_MAX_PRIO \<Rightarrow>
                              if unat val > max_prio (tasks k cur) then ret_err ERR_NOPERM k
                              else ret_err ZUZU_OK (set_max_prio t val k)
                          | Some MNGTASK_SET_TIMESLICE \<Rightarrow>
                              if val < TIMESLICE_MIN_US \<or> val > TIMESLICE_MAX_US then ret_err ERR_BADARG k
                              else ret_err ZUZU_OK (upd_task t (\<lambda>x. x\<lparr>time_slice_us := val\<rparr>) k)
                          | Some MNGTASK_SUSPEND \<Rightarrow> MngTaskSuspend t k
                          | Some MNGTASK_RESUME \<Rightarrow> MngTaskResume t k
                          | Some MNGTASK_GET_REGS \<Rightarrow> snd (MngTaskGetRegs ua t k)
                          | Some MNGTASK_SET_REGS \<Rightarrow> MngTaskSetRegs ua t k)"

section \<open>Create\<close>

text \<open>
  The end of every \<open>Create\<close> verb: claim a free slot of the caller's table and fill it with all
  permissions. \<^const>\<open>None\<close> when the table is full or cannot grow.
\<close>

definition new_handle :: "bool \<Rightarrow> HandleType \<Rightarrow> u32 \<Rightarrow> Kernel \<Rightarrow> Handle option \<times> Kernel" where
  "new_handle kz ty ob k =
     (let sp = CURRENT_SPACE k;
          (slot, t) = HandleTableFindFree kz (handle_table (spaces k sp));
          k = upd_space sp (\<lambda>x. x\<lparr>handle_table := t\<rparr>) k
      in if slot = - 1 then (None, k)
         else case HandleTableGet t (nat slot) of
                None \<Rightarrow> (None, k)
              | Some e \<Rightarrow>
                  let t = HandleEntryClaim t (nat slot);
                      e = e\<lparr>he_type := ty, he_obj := ob, perms := PERM_ALL\<rparr>;
                      t = put_entry t (nat slot) e
                  in (Some (HANDLE_PACK (word_of_int slot) (generation e)),
                      upd_space sp (\<lambda>x. x\<lparr>handle_table := t\<rparr>) k))"

definition ret_handle :: "Handle \<Rightarrow> Kernel \<Rightarrow> Kernel option" where
  "ret_handle h k = Some (ArchSetInFrame (current_task k) 0 h k)"

definition CreatePort :: "PortPtr \<Rightarrow> bool \<Rightarrow> Kernel \<Rightarrow> Kernel option" where
  "CreatePort slab kz k =
     (let (p, k) = PortCreate slab (CURRENT_SPACE k) k
      in if p = NULL then ret_err ERR_NOMEM k
         else case new_handle kz HANDLE_PORT p k of
                (None, k) \<Rightarrow> do { k \<leftarrow> PortUnref p k; ret_err ERR_NOMEM k }
              | (Some h, k) \<Rightarrow> ret_handle h k)"

definition CreateEvent :: "EventPtr \<Rightarrow> bool \<Rightarrow> Kernel \<Rightarrow> Kernel option" where
  "CreateEvent slab kz k =
     (let (ev, k) = EventCreate slab (CURRENT_SPACE k) k
      in if ev = NULL then ret_err ERR_NOMEM k
         else case new_handle kz HANDLE_EVENT ev k of
                (None, k) \<Rightarrow> do { k \<leftarrow> EventDestroy ev k; ret_err ERR_NOMEM k }
              | (Some h, k) \<Rightarrow> ret_handle h k)"

text \<open>The space a new task goes to.\<close>

definition create_target :: "Handle \<Rightarrow> Kernel \<Rightarrow> Err + SpacePtr" where
  "create_target h k =
     (if h = NO_HANDLE then Inr (CURRENT_SPACE k)
      else case lookup_entry (CURRENT_SPACE k) h k of
             None \<Rightarrow> Inl ERR_BADHANDLE
           | Some e \<Rightarrow>
               if he_type e \<noteq> HANDLE_SPACE then Inl ERR_BADTYPE
               else if perms e AND PERM_CNTL = 0 then Inl ERR_NOPERM
               else if he_obj e = NULL then Inl ERR_BADHANDLE
               else if torn_down (spaces k (he_obj e)) then Inl ERR_DEAD
               else Inr (he_obj e))"

definition CreateTask :: "TaskPtr \<Rightarrow> VirtAddr \<Rightarrow> PhysAddr \<Rightarrow> bool \<Rightarrow> Kernel \<Rightarrow> Kernel option" where
  "CreateTask slab kst pg kz k =
     (case create_target (arg 1 k) k of
        Inl e \<Rightarrow> ret_err e k
      | Inr sp \<Rightarrow> do {
          (t, k) \<leftarrow> TaskCreate slab kst pg sp k;
          if t = NULL then ret_err ERR_BUSY k
          else
            let cur = current_task k;
                mx = min (max_prio (tasks k cur)) (sp_max_prio (spaces k sp));
                bp = min (base_prio (tasks k cur)) mx;
                k = upd_task t (\<lambda>x. x\<lparr>max_prio := mx, base_prio := bp, priority := bp\<rparr>) k;
                k = TaskSyncTcbPrio t k
            in case new_handle kz HANDLE_TASK t k of
                 (None, k) \<Rightarrow> do { k \<leftarrow> TaskDestroy t k; ret_err ERR_NOMEM k }
               | (Some h, k) \<Rightarrow> ret_handle h (TaskRef t k) })"

section \<open>ManageHandle\<close>

definition HandleOwnsObject :: "HandleTableEntry \<Rightarrow> SpacePtr \<Rightarrow> Kernel \<Rightarrow> bool" where
  "HandleOwnsObject e sp k =
     (case he_type e of
        HANDLE_PORT \<Rightarrow> port_owner_spid (ports k (he_obj e)) = spid (spaces k sp)
      | HANDLE_EVENT \<Rightarrow> ev_owner_spid (events k (he_obj e)) = spid (spaces k sp)
      | HANDLE_MEM \<Rightarrow> mem_owner_spid (mems k (he_obj e)) = spid (spaces k sp)
      | HANDLE_TASK \<Rightarrow> owner (tasks k (he_obj e)) = sp
      | HANDLE_SPACE \<Rightarrow> parent_spid (spaces k (he_obj e)) = spid (spaces k sp)
      | HANDLE_FREE \<Rightarrow> False)"

definition MngHandleDuplicate :: "bool \<Rightarrow> HandleTableEntry \<Rightarrow> Kernel \<Rightarrow> Kernel option" where
  "MngHandleDuplicate kz e k =
     (let mk = (if HandleOwnsObject e (CURRENT_SPACE k) k then arg 3 k else marker e);
          (rc, out, k') = HandleCopyInto kz (CURRENT_SPACE k) e (perms e AND arg 2 k) mk k
      in case out of
           Some h \<Rightarrow> if rc = ZUZU_OK then ret_ok_val h k' else ret_err rc k'
         | None \<Rightarrow> ret_err rc k')"

definition MngHandleGrant :: "bool \<Rightarrow> HandleTableEntry \<Rightarrow> Kernel \<Rightarrow> Kernel option" where
  "MngHandleGrant kz e k =
     (case lookup_entry (CURRENT_SPACE k) (arg 2 k) k of
        None \<Rightarrow> ret_err ERR_BADHANDLE k
      | Some se \<Rightarrow>
          if he_type se \<noteq> HANDLE_SPACE then ret_err ERR_BADTYPE k
          else if perms se AND PERM_CNTL = 0 then ret_err ERR_NOPERM k
          else if he_obj se = NULL \<or> torn_down (spaces k (he_obj se)) then ret_err ERR_DEAD k
          else if perms e AND PERM_TXFR = 0 then ret_err ERR_NOPERM k
          else
            let (rc, out, k') = HandleCopyInto kz (he_obj se) e (perms e AND arg 3 k) (marker e) k
            in case out of
                 Some h \<Rightarrow> if rc = ZUZU_OK then ret_ok_val h k' else ret_err rc k'
               | None \<Rightarrow> ret_err rc k')"

text \<open>
  \<open>MNGHNDL_RESTRICT\<close> on slot \<open>i\<close>; \<open>prot\<close> is what \<open>VmmRegionProt\<close> reports of the mapping of the handle. The
  result carries the ceiling passed to \<open>VmmRegionLimitProt\<close>, when it is called.
\<close>

definition MngHandleRestrict ::
    "u32 option \<Rightarrow> nat \<Rightarrow> HandleTableEntry \<Rightarrow> Kernel \<Rightarrow> u32 option \<times> Kernel option" where
  "MngHandleRestrict prot i e k =
     (let msk = arg 2 k;
          dropped = perms e AND NOT msk;
          mapped = (he_type e = HANDLE_MEM \<and> mapped_va e \<noteq> 0 \<and> dropped \<noteq> 0);
          allowed = PROT_READ OR (if msk AND PERM_WRITE \<noteq> 0 then PROT_WRITE else 0)
                              OR (if msk AND PERM_EXEC \<noteq> 0 then PROT_EXEC else 0);
          sp = CURRENT_SPACE k;
          done = ret_err ZUZU_OK (upd_space sp (\<lambda>x. x\<lparr>handle_table :=
                   put_entry (handle_table x) i (e\<lparr>perms := perms e AND msk\<rparr>)\<rparr>) k)
      in if \<not> mapped then (None, done)
         else case prot of
                None \<Rightarrow> (None, ret_err ERR_BUSY k)
              | Some pr \<Rightarrow>
                  if dropped AND PERM_MAP \<noteq> 0 then (None, ret_err ERR_BUSY k)
                  else if dropped AND PERM_WRITE \<noteq> 0 \<and> pr AND PROT_WRITE \<noteq> 0 then (None, ret_err ERR_BUSY k)
                  else if dropped AND PERM_EXEC \<noteq> 0 \<and> pr AND PROT_EXEC \<noteq> 0 then (None, ret_err ERR_BUSY k)
                  else (Some allowed, done))"

definition MngHandleIrqRearm :: "HandleTableEntry \<Rightarrow> Kernel \<Rightarrow> Kernel option" where
  "MngHandleIrqRearm e k =
     (let d = he_obj e
      in if he_type e \<noteq> HANDLE_MEM then ret_err ERR_BADTYPE k
         else if d = NULL \<or> mem_kind (mems k d) \<noteq> MEMKIND_DEVICE then ret_err ERR_BADTYPE k
         else if perms e AND PERM_MAP = 0 then ret_err ERR_NOPERM k
         else if \<not> IrqIsValid (dev_irq (mems k d)) then ret_err ERR_BADARG k
         else let (rc, k) = IrqRelayRearm (CURRENT_SPACE k) (unat (dev_irq (mems k d))) k in ret_err rc k)"

datatype QueryWhat =
    QUERY_TYPE | QUERY_PERMS | QUERY_MARKER | QUERY_STATUS | QUERY_SIZE
  | QUERY_DMA_COUNT | QUERY_DMA_ID | QUERY_DMA_BUS | QUERY_DMA_LEN | QUERY_DMA_DIR

definition query_what :: "u32 \<Rightarrow> QueryWhat option" where
  "query_what v =
     (let qs = [QUERY_TYPE, QUERY_PERMS, QUERY_MARKER, QUERY_STATUS, QUERY_SIZE, QUERY_DMA_COUNT,
                QUERY_DMA_ID, QUERY_DMA_BUS, QUERY_DMA_LEN, QUERY_DMA_DIR]
      in if unat v < length qs then Some (qs ! unat v) else None)"

fun type_code :: "HandleType \<Rightarrow> u32" where
  "type_code HANDLE_FREE = 0"
| "type_code HANDLE_PORT = 1"
| "type_code HANDLE_MEM = 2"
| "type_code HANDLE_EVENT = 3"
| "type_code HANDLE_TASK = 4"
| "type_code HANDLE_SPACE = 5"

definition QueryDma :: "HandleTableEntry \<Rightarrow> QueryWhat \<Rightarrow> u32 \<Rightarrow> Kernel \<Rightarrow> Err + u32" where
  "QueryDma e what a k =
     (let dev = he_obj e
      in if he_type e \<noteq> HANDLE_MEM \<or> dev = NULL \<or> mem_kind (mems k dev) \<noteq> MEMKIND_DEVICE then Inl ERR_BADTYPE
         else if perms e AND PERM_MAP = 0 then Inl ERR_NOPERM
         else if what = QUERY_DMA_COUNT then Inr (of_nat (dev_dma_map_count (mems k dev)))
         else case (if what = QUERY_DMA_ID then MemObjDmaNth dev (unat a) k else MemObjDmaFind dev a k) of
                None \<Rightarrow> Inl ERR_NOENT
              | Some d \<Rightarrow> Inr (case what of QUERY_DMA_ID \<Rightarrow> dma_id d | QUERY_DMA_BUS \<Rightarrow> dma_bus_addr d
                                 | QUERY_DMA_LEN \<Rightarrow> dma_len d | _ \<Rightarrow> dma_dir d))"

definition query_value :: "HandleTableEntry \<Rightarrow> QueryWhat \<Rightarrow> u32 \<Rightarrow> Kernel \<Rightarrow> Err + u32" where
  "query_value e what a k =
     (case what of
        QUERY_TYPE \<Rightarrow> Inr (type_code (he_type e))
      | QUERY_PERMS \<Rightarrow> Inr (perms e)
      | QUERY_MARKER \<Rightarrow> Inr (marker e)
      | QUERY_STATUS \<Rightarrow>
          (case he_type e of
             HANDLE_TASK \<Rightarrow> if he_obj e = NULL then Inl ERR_BADHANDLE
                            else Inr (word_of_int (exit_status (tasks k (he_obj e))))
           | HANDLE_SPACE \<Rightarrow> if he_obj e = NULL then Inl ERR_BADHANDLE
                             else Inr (word_of_int (last_exit_status (spaces k (he_obj e))))
           | HANDLE_PORT \<Rightarrow> if he_obj e = NULL then Inl ERR_BADHANDLE
                            else Inr (err_reg (if port_alive (ports k (he_obj e)) then ZUZU_OK else ERR_DEAD))
           | _ \<Rightarrow> Inl ERR_BADTYPE)
      | QUERY_SIZE \<Rightarrow>
          if he_type e \<noteq> HANDLE_MEM then Inl ERR_BADTYPE
          else if he_obj e = NULL then Inl ERR_BADHANDLE
          else Inr (if mem_kind (mems k (he_obj e)) = MEMKIND_DEVICE then dev_size (mems k (he_obj e))
                    else shm_page_count (mems k (he_obj e)) * PAGE_SIZE)
      | _ \<Rightarrow> QueryDma e what a k)"

definition MngHandleQuery :: "HandleTableEntry \<Rightarrow> Kernel \<Rightarrow> Kernel option" where
  "MngHandleQuery e k =
     (case query_what (arg 2 k) of
        None \<Rightarrow> ret_err ERR_BADARG k
      | Some what \<Rightarrow> (case query_value e what (arg 3 k) k of
                        Inl err \<Rightarrow> ret_err err k
                      | Inr v \<Rightarrow> ret_ok_val v k))"

end
