(* ===== verification/Handle_Correct.thy ===== *)
theory Handle_Correct
  imports Svc_Manage
begin

text \<open>
  Handle tables are correct: handle values pack and unpack, the table invariant, what an insertion and
  a release do to every lookup, and the interface the rest of the kernel relies on.
\<close>

section \<open>Handle values\<close>

lemma HANDLE_INDEX_MASK_mask: "HANDLE_INDEX_MASK = mask 10"
  by (simp add: HANDLE_INDEX_MASK_def mask_eq_exp_minus_1 push_bit_eq_mult)

lemma HANDLE_GEN_MASK_mask: "HANDLE_GEN_MASK = mask 21"
  by (simp add: HANDLE_GEN_MASK_def mask_eq_exp_minus_1 push_bit_eq_mult)

lemma bit_HANDLE_PACK:
  "bit (HANDLE_PACK i g) n \<longleftrightarrow> n < 32 \<and> (if n < 10 then bit i n else bit g (n - 10))"
  by (auto simp: HANDLE_PACK_def HANDLE_INDEX_MASK_mask bit_simps)

lemma word_high_bit: "(x :: u32) < 2 ^ n \<Longrightarrow> n < 32 \<Longrightarrow> n \<le> m \<Longrightarrow> \<not> bit x m"
proof
  assume x: "x < 2 ^ n" "n < 32" "n \<le> m" "bit x m"
  have "unat ((2 :: u32) ^ n) = 2 ^ n"
    using x(2) unat_of_nat [of "2 ^ n", where 'a = 32] power_strict_increasing [of n 32 "2 :: nat"] by simp
  then have "unat x < 2 ^ n"
    using x(1) by (simp add: word_less_nat_alt)
  then have "take_bit n (unat x) = unat x"
    by (simp add: take_bit_nat_eq_self)
  moreover have "bit (unat x) m"
    using x(4) by (simp add: bit_unsigned_iff)
  ultimately have "bit (take_bit n (unat x)) m"
    by simp
  then show False
    using x(3) by (simp add: bit_take_bit_iff)
qed

lemma HANDLE_INDEX_PACK:
  assumes "i < 1024"
  shows "HANDLE_INDEX (HANDLE_PACK i g) = i"
proof (rule bit_word_eqI)
  fix n
  show "bit (HANDLE_INDEX (HANDLE_PACK i g)) n = bit i n" if "n < LENGTH(32)"
    using word_high_bit [of i 10 n] assms that
    by (auto simp: HANDLE_INDEX_def HANDLE_INDEX_MASK_mask bit_simps bit_HANDLE_PACK)
qed

lemma HANDLE_GEN_PACK:
  assumes "g \<le> HANDLE_GEN_MASK"
  shows "HANDLE_GEN (HANDLE_PACK i g) = g"
proof (rule bit_word_eqI)
  fix n
  have g: "g < 2 ^ 21"
    using assms by (simp add: HANDLE_GEN_MASK_def word_le_nat_alt word_less_nat_alt)
  show "bit (HANDLE_GEN (HANDLE_PACK i g)) n = bit g n" if "n < LENGTH(32)"
    using word_high_bit [OF g, of n] that
    by (cases "n < 21") (auto simp: HANDLE_GEN_def bit_simps bit_HANDLE_PACK)
qed

lemma HANDLE_split: "HANDLE_PACK (HANDLE_INDEX h) (HANDLE_GEN h) = h"
  by (rule bit_eqI) (auto simp: bit_HANDLE_PACK HANDLE_INDEX_def HANDLE_GEN_def HANDLE_INDEX_MASK_mask bit_simps)

lemma HANDLE_PACK_positive: "g \<le> HANDLE_GEN_MASK \<Longrightarrow> \<not> bit (HANDLE_PACK i g) 31"
  using word_high_bit [of g 21 21]
  by (auto simp: bit_HANDLE_PACK HANDLE_GEN_MASK_def word_le_nat_alt word_less_nat_alt)

lemma HANDLE_INDEX_bound: "unat (HANDLE_INDEX h) < 1024"
  by (simp add: HANDLE_INDEX_def HANDLE_INDEX_MASK_mask unat_and_mask)

lemma gen_bump: "(g + 1) AND HANDLE_GEN_MASK \<le> HANDLE_GEN_MASK"
  by (simp add: word_and_le1)

lemma gen_bump_neq:
  assumes "g \<le> HANDLE_GEN_MASK"
  shows "(g + 1) AND HANDLE_GEN_MASK \<noteq> g"
proof
  assume "(g + 1) AND HANDLE_GEN_MASK = g"
  then have "unat (g + 1) mod 2 ^ 21 = unat g"
    by (metis HANDLE_GEN_MASK_mask unat_and_mask)
  moreover have "unat g < 2 ^ 21"
    using assms by (simp add: HANDLE_GEN_MASK_def word_le_nat_alt)
  then have "unat (g + 1) = unat g + 1"
    by (simp add: unat_word_ariths)
  ultimately show False
    using \<open>unat g < 2 ^ 21\<close> by (cases "unat g + 1 = 2 ^ 21") auto
qed

section \<open>The table invariant\<close>

lemmas slot_defs = HANDLE_BLOCK_SLOTS_def HANDLE_MAX_BLOCKS_def HANDLE_MAX_SLOTS_def

text \<open>
  Shape of the table, the bitmap is exactly the slots in use, generations fit a handle value, and a
  free entry keeps nothing of its past but the generation.
\<close>

definition tbl_shape :: "HandleTable \<Rightarrow> bool" where
  "tbl_shape t \<longleftrightarrow> length (blocks t) = 16 \<and> (\<forall>blk. Some blk \<in> set (blocks t) \<longrightarrow> length blk = 64)
     \<and> length (slot_bitmap t) = 32"

definition slot_ok :: "HandleTable \<Rightarrow> nat \<Rightarrow> bool" where
  "slot_ok t i \<longleftrightarrow>
     (case HandleTableGet t i of
        None \<Rightarrow> \<not> BitmapTest (slot_bitmap t) i
      | Some e \<Rightarrow> (BitmapTest (slot_bitmap t) i \<longleftrightarrow> he_type e \<noteq> HANDLE_FREE)
                  \<and> generation e \<le> HANDLE_GEN_MASK
                  \<and> (he_type e = HANDLE_FREE \<longrightarrow> e = zero_entry\<lparr>generation := generation e\<rparr>))"

definition tbl_ok :: "HandleTable \<Rightarrow> bool" where
  "tbl_ok t \<longleftrightarrow> tbl_shape t \<and> (\<forall>i < HANDLE_MAX_SLOTS. slot_ok t i)"

text \<open>\<open>HandleTableLookup\<close> and the entry it points to.\<close>

definition tlookup :: "HandleTable \<Rightarrow> Handle \<Rightarrow> HandleTableEntry option" where
  "tlookup t h = (case HandleTableLookup t h of None \<Rightarrow> None | Some i \<Rightarrow> HandleTableGet t i)"

lemma lookup_entry_tlookup: "lookup_entry sp h k = tlookup (handle_table (spaces k sp)) h"
  unfolding lookup_entry_def tlookup_def space_table_of_def ..

lemma tlookup_alt:
  "tlookup t h = (case HandleTableGet t (unat (HANDLE_INDEX h)) of
                    None \<Rightarrow> None
                  | Some e \<Rightarrow> if he_type e = HANDLE_FREE \<or> generation e \<noteq> HANDLE_GEN h then None else Some e)"
  by (simp add: tlookup_def HandleTableLookup_def split: option.splits)

lemma Get_put_entry:
  assumes "tbl_shape t" "HandleTableGet t i = Some e0"
  shows "HandleTableGet (put_entry t i e) j = (if j = i then Some e else HandleTableGet t j)"
proof -
  obtain blk where blk: "blocks t ! (i div 64) = Some blk" and i: "i < 1024"
    using assms(2) by (auto simp: HandleTableGet_def slot_defs split: if_splits option.splits)
  have len: "length (blocks t) = 16"
    using assms(1) by (simp add: tbl_shape_def)
  have "i div 64 < 16"
    using i by simp
  then have "Some blk \<in> set (blocks t)"
    using blk len by (metis nth_mem)
  then have lblk: "length blk = 64"
    using assms(1) by (auto simp: tbl_shape_def)
  show ?thesis
  proof (cases "j div 64 = i div 64")
    case True
    have "j = i \<longleftrightarrow> j mod 64 = i mod 64"
      using True by (metis div_mult_mod_eq)
    then show ?thesis
      using True i blk len lblk \<open>i div 64 < 16\<close>
      by (auto simp: HandleTableGet_def put_entry_def slot_defs nth_list_update)
  next
    case False
    then have "j \<noteq> i" by auto
    then show ?thesis
      using False by (auto simp: HandleTableGet_def put_entry_def slot_defs nth_list_update)
  qed
qed

lemma shape_put_entry [simp]:
  assumes "tbl_shape t"
  shows "tbl_shape (put_entry t i e)"
proof (cases "i div HANDLE_BLOCK_SLOTS < length (blocks t)")
  case True
  then show ?thesis
    using assms nth_mem [OF True] unfolding tbl_shape_def put_entry_def
    by (cases "blocks t ! (i div HANDLE_BLOCK_SLOTS)") (auto dest!: set_update_subset_insert [THEN subsetD])
next
  case False
  then show ?thesis
    using assms by (simp add: put_entry_def list_update_beyond)
qed

lemma bitmap_put_entry [simp]: "slot_bitmap (put_entry t i e) = slot_bitmap t"
  by (simp add: put_entry_def)

lemma Get_bitmap [simp]: "HandleTableGet (t\<lparr>slot_bitmap := b\<rparr>) i = HandleTableGet t i"
  by (simp add: HandleTableGet_def)

lemma entry_index_eq:
  assumes "blocks t ! (e div 64) \<noteq> None" "e div 64 \<in> set bs"
  shows "entry_index t e bs = e"
  using assms(2)
proof (induction bs)
  case (Cons b bs)
  show ?case
  proof (cases "b = e div 64")
    case True
    then show ?thesis
      using assms(1) by (auto simp: slot_defs dividend_less_div_times [of 64 e, simplified add.commute])
  next
    case False
    then have "\<not> (b * 64 \<le> e \<and> e < b * 64 + 64)"
      using div_nat_eqI [of 64 b e] by (auto simp: mult.commute)
    then show ?thesis
      using False Cons by (auto simp: slot_defs)
  qed
qed simp

lemma HandleEntryIndex_eq: "HandleTableGet t i = Some e \<Longrightarrow> HandleEntryIndex t i = i"
  unfolding HandleEntryIndex_def
  by (rule entry_index_eq) (auto simp: HandleTableGet_def slot_defs split: if_splits option.splits)

section \<open>Growing the table\<close>

lemma ensure_cases:
  assumes "HandleBlockEnsure kz t i = (ok, t')"
  obtains (present) "ok" "t' = t" "blocks t ! (i div 64) \<noteq> None"
  | (fresh) "ok" "kz" "blocks t ! (i div 64) = None"
      "t' = t\<lparr>blocks := (blocks t)[i div 64 := Some (replicate 64 zero_entry)]\<rparr>"
  | (nomem) "\<not> ok" "\<not> kz" "t' = t" "blocks t ! (i div 64) = None"
  using assms by (auto simp: HandleBlockEnsure_def slot_defs Let_def split: option.splits if_splits)

lemma zero_entry_simps [simp]:
  "he_type zero_entry = HANDLE_FREE" "generation zero_entry = 0" "perms zero_entry = 0"
  "mapped_va zero_entry = 0" "he_obj zero_entry = 0" "marker zero_entry = 0"
  by (simp_all add: zero_entry_def)

lemma Get_fresh_block:
  assumes "tbl_shape t" "b < 16" "blocks t ! b = None"
  shows "HandleTableGet (t\<lparr>blocks := (blocks t)[b := Some (replicate 64 zero_entry)]\<rparr>) j
         = (if j div 64 = b \<and> j < 1024 then Some zero_entry else HandleTableGet t j)"
  using assms by (auto simp: HandleTableGet_def tbl_shape_def slot_defs nth_list_update split: option.splits)

text \<open>Growing the table changes no lookup and keeps the invariant.\<close>

lemma ensure_ok_all:
  assumes "HandleBlockEnsure kz t i = (ok, t')" "tbl_ok t" "i < 1024"
  shows "tbl_ok t' \<and> slot_bitmap t' = slot_bitmap t \<and> (\<forall>h. tlookup t' h = tlookup t h)
         \<and> (ok \<longrightarrow> (\<exists>e. HandleTableGet t' i = Some e)) \<and> (kz \<longrightarrow> ok)"
  using assms(1)
proof (cases rule: ensure_cases)
  case present
  then show ?thesis
    using assms by (auto simp: HandleTableGet_def slot_defs)
next
  case nomem
  then show ?thesis
    using assms by auto
next
  case fresh
  have shape: "tbl_shape t"
    using assms(2) by (simp add: tbl_ok_def)
  have i: "i div 64 < 16"
    using assms(3) by simp
  note get = Get_fresh_block [OF shape i fresh(3), folded fresh(4)]
  have old: "HandleTableGet t j = None" if "j div 64 = i div 64" for j
    using that fresh(3) by (simp add: HandleTableGet_def slot_defs)
  have bm: "slot_bitmap t' = slot_bitmap t"
    by (simp add: fresh(4))
  have "tbl_shape t'"
    using shape unfolding fresh(4) tbl_shape_def
    by (auto dest!: set_update_subset_insert [THEN subsetD])
  moreover have "slot_ok t' j" if "j < 1024" for j
    using assms(2) that old [of j]
    unfolding slot_ok_def bm get tbl_ok_def slot_defs by auto
  moreover have "tlookup t' h = tlookup t h" for h
    using old [of "unat (HANDLE_INDEX h)"] HANDLE_INDEX_bound [of h]
    by (auto simp: tlookup_alt get)
  ultimately show ?thesis
    using assms(3) fresh(1) bm by (auto simp: tbl_ok_def slot_defs get)
qed

lemmas ensure_ok = ensure_ok_all [THEN conjunct1] ensure_ok_all [THEN conjunct2, THEN conjunct1]
  ensure_ok_all [THEN conjunct2, THEN conjunct2, THEN conjunct1, rule_format]
  ensure_ok_all [THEN conjunct2, THEN conjunct2, THEN conjunct2, THEN conjunct1, rule_format]
  ensure_ok_all [THEN conjunct2, THEN conjunct2, THEN conjunct2, THEN conjunct2, rule_format]

section \<open>Insertion\<close>

text \<open>
  The table part of \<open>HandleCopyInto\<close> and of the end of every \<open>Create\<close>: find a slot, claim it, fill it
  with \<open>f\<close> of what it held.
\<close>

definition tbl_insert ::
    "bool \<Rightarrow> (HandleTableEntry \<Rightarrow> HandleTableEntry) \<Rightarrow> HandleTable \<Rightarrow> Handle option \<times> HandleTable" where
  "tbl_insert kz f t =
     (let (slot, t) = HandleTableFindFree kz t
      in if slot < 0 then (None, t)
         else case HandleTableGet t (nat slot) of
                None \<Rightarrow> (None, t)
              | Some d \<Rightarrow> (Some (HANDLE_PACK (word_of_int slot) (generation d)),
                           put_entry (HandleEntryClaim t (nat slot)) (nat slot) (f d)))"

lemma find_free_cases:
  assumes "HandleTableFindFree kz t = (slot, t')" "tbl_ok t"
  obtains (none) "slot = - 1" "tbl_ok t'" "\<And>h. tlookup t' h = tlookup t h"
      "(\<forall>i < 1024. BitmapTest (slot_bitmap t) i) \<or> \<not> kz"
  | (found) i e where "slot = int i" "i < 1024" "tbl_ok t'" "\<And>h. tlookup t' h = tlookup t h"
      "HandleTableGet t' i = Some e" "he_type e = HANDLE_FREE" "slot_bitmap t' = slot_bitmap t"
      "\<And>j. j < i \<Longrightarrow> BitmapTest (slot_bitmap t) j" "\<not> BitmapTest (slot_bitmap t) i"
proof -
  define r where "r = BitmapFindFirstZero (slot_bitmap t) 1024"
  have fc: "first_clear (BitmapTest (slot_bitmap t)) 1024 r"
    unfolding r_def using assms(2)
    by (intro BitmapFindFirstZero_first_clear) (simp_all add: tbl_ok_def tbl_shape_def)
  show thesis
  proof (cases "r = - 1")
    case True
    then have "slot = - 1" "t' = t" "\<forall>i < 1024. BitmapTest (slot_bitmap t) i"
      using assms fc by (auto simp: HandleTableFindFree_def slot_defs r_def [symmetric] first_clear_def)
    then show thesis
      using none assms(2) by simp
  next
    case False
    then have r: "0 \<le> r" "nat r < 1024" "\<not> BitmapTest (slot_bitmap t) (nat r)"
      "\<And>j. j < nat r \<Longrightarrow> BitmapTest (slot_bitmap t) j"
      using fc by (auto simp: first_clear_def)
    obtain ok u where ens: "HandleBlockEnsure kz t (nat r) = (ok, u)"
      by fastforce
    note eok = ensure_ok [OF ens assms(2) r(2)]
    show thesis
    proof (cases ok)
      case True
      then obtain e where e: "HandleTableGet u (nat r) = Some e"
        using eok(4) by blast
      have "slot_ok u (nat r)"
        using eok(1) r(2) by (simp add: tbl_ok_def slot_defs)
      then have "he_type e = HANDLE_FREE"
        using r(3) e by (simp add: slot_ok_def eok(2))
      moreover have "slot = r" "t' = u"
        using assms(1) r(1) True by (auto simp: HandleTableFindFree_def slot_defs r_def [symmetric] ens)
      ultimately show thesis
        using found [of "nat r" e] r eok e by simp
    next
      case False
      then have "slot = - 1" "t' = u" "\<not> kz"
        using assms(1) r(1) eok(5) by (auto simp: HandleTableFindFree_def slot_defs r_def [symmetric] ens)
      then show thesis
        using none eok by simp
    qed
  qed
qed

lemma slot_ok_other:
  "HandleTableGet t' i = HandleTableGet t i \<Longrightarrow> BitmapTest (slot_bitmap t') i = BitmapTest (slot_bitmap t) i
   \<Longrightarrow> slot_ok t' i = slot_ok t i"
  by (simp add: slot_ok_def split: option.splits)

lemma claim_eq: "HandleTableGet t i = Some e \<Longrightarrow> i < 1024
    \<Longrightarrow> HandleEntryClaim t i = t\<lparr>slot_bitmap := BitmapSet (slot_bitmap t) i\<rparr>"
  by (simp add: HandleEntryClaim_def HandleEntryIndex_eq slot_defs)

lemma shape_bitmap [simp]:
  "tbl_shape (t\<lparr>slot_bitmap := BitmapSet (slot_bitmap t) i\<rparr>) = tbl_shape t"
  "tbl_shape (t\<lparr>slot_bitmap := BitmapClr (slot_bitmap t) i\<rparr>) = tbl_shape t"
  by (simp_all add: tbl_shape_def)

text \<open>Filling a free slot.\<close>

lemma fill_slot:
  assumes ok: "tbl_ok t" and i: "i < 1024" and e: "HandleTableGet t i = Some e" "he_type e = HANDLE_FREE"
    and e': "generation e' = generation e" "he_type e' \<noteq> HANDLE_FREE"
  defines "u \<equiv> put_entry (HandleEntryClaim t i) i e'"
  shows "tbl_ok u" "tlookup u (HANDLE_PACK (of_nat i) (generation e)) = Some e'"
    "tlookup t (HANDLE_PACK (of_nat i) (generation e)) = None"
    "h \<noteq> HANDLE_PACK (of_nat i) (generation e) \<Longrightarrow> tlookup u h = tlookup t h"
proof -
  have shape: "tbl_shape t" and bm: "length (slot_bitmap t) = 32"
    using ok by (auto simp: tbl_ok_def tbl_shape_def)
  have get: "HandleTableGet u j = (if j = i then Some e' else HandleTableGet t j)" for j
    unfolding u_def claim_eq [OF e(1) i] using shape e(1) by (subst Get_put_entry) auto
  have test: "BitmapTest (slot_bitmap u) j \<longleftrightarrow> j = i \<or> BitmapTest (slot_bitmap t) j" if "j < 1024" for j
    unfolding u_def claim_eq [OF e(1) i] using i that bm by (simp add: wbits.test_set1)
  have gen: "generation e \<le> HANDLE_GEN_MASK"
    using ok i e(1) by (auto simp: tbl_ok_def slot_ok_def slot_defs)
  have "slot_ok u j" if "j < 1024" for j
  proof (cases "j = i")
    case True
    then show ?thesis
      using i e' gen by (simp add: slot_ok_def get test)
  next
    case False
    then show ?thesis
      using ok that slot_ok_other [of u j t] by (simp add: tbl_ok_def get test slot_defs)
  qed
  moreover have "tbl_shape u"
    unfolding u_def claim_eq [OF e(1) i] using shape by simp
  ultimately show "tbl_ok u"
    by (simp add: tbl_ok_def slot_defs)
  have "(of_nat i :: u32) < 1024" and ui: "unat (of_nat i :: u32) = i"
    using i by (simp_all add: word_less_nat_alt unat_of_nat)
  then have idx: "HANDLE_INDEX (HANDLE_PACK (of_nat i) (generation e)) = of_nat i"
    by (simp add: HANDLE_INDEX_PACK)
  show "tlookup u (HANDLE_PACK (of_nat i) (generation e)) = Some e'"
    using e' gen by (simp add: tlookup_alt idx ui get HANDLE_GEN_PACK)
  show "tlookup t (HANDLE_PACK (of_nat i) (generation e)) = None"
    using e by (simp add: tlookup_alt idx ui)
  show "tlookup u h = tlookup t h" if "h \<noteq> HANDLE_PACK (of_nat i) (generation e)"
  proof (cases "unat (HANDLE_INDEX h) = i")
    case True
    then have "HANDLE_INDEX h = of_nat i"
      by (simp add: word_unat_eq_iff ui)
    then have "HANDLE_GEN h \<noteq> generation e"
      using that HANDLE_split [of h] by metis
    then show ?thesis
      using True e e' by (auto simp: tlookup_alt get)
  next
    case False
    then show ?thesis
      by (simp add: tlookup_alt get)
  qed
qed

text \<open>What an insertion gives: a new handle naming the entry, every other lookup unchanged.\<close>

definition fills :: "(HandleTableEntry \<Rightarrow> HandleTableEntry) \<Rightarrow> bool" where
  "fills f \<longleftrightarrow> (\<forall>d. generation (f d) = generation d \<and> he_type (f d) \<noteq> HANDLE_FREE)"

lemma tbl_insert_cases:
  assumes "tbl_insert kz f t = (r, t')" "tbl_ok t" "fills f"
  obtains (full) "r = None" "tbl_ok t'" "\<And>h. tlookup t' h = tlookup t h"
      "(\<forall>i < 1024. BitmapTest (slot_bitmap t) i) \<or> \<not> kz"
  | (ok) h g where "r = Some h" "tbl_ok t'" "g \<le> HANDLE_GEN_MASK" "tlookup t h = None"
      "tlookup t' h = Some (f (zero_entry\<lparr>generation := g\<rparr>))" "\<not> bit h 31"
      "\<And>h'. h' \<noteq> h \<Longrightarrow> tlookup t' h' = tlookup t h'"
proof -
  obtain slot u where ff: "HandleTableFindFree kz t = (slot, u)"
    by fastforce
  show thesis
    using ff assms(2)
  proof (cases rule: find_free_cases)
    case none
    then show thesis
      using full assms(1) by (auto simp: tbl_insert_def ff)
  next
    case (found i e)
    have r: "r = Some (HANDLE_PACK (of_nat i) (generation e))"
      "t' = put_entry (HandleEntryClaim u i) i (f e)"
      using assms(1) found by (auto simp: tbl_insert_def ff)
    have "slot_ok u i"
      using found(2,3) by (simp add: tbl_ok_def slot_defs)
    then have e: "e = zero_entry\<lparr>generation := generation e\<rparr>" "generation e \<le> HANDLE_GEN_MASK"
      using found(5,6) by (auto simp: slot_ok_def)
    have fe: "generation (f e) = generation e" "he_type (f e) \<noteq> HANDLE_FREE"
      using assms(3) by (auto simp: fills_def)
    note fs = fill_slot [OF found(3) found(2) found(5,6) fe, folded r(2)]
    show thesis
      using ok [OF r(1) fs(1) e(2)] fs(2-) found(4) e(1) HANDLE_PACK_positive [OF e(2)] by metis
  qed
qed

section \<open>Release\<close>

text \<open>\<open>HandleEntryFree\<close> on the slot a handle names: the handle is gone, every other one is untouched.\<close>

lemma HandleEntryFree_eq:
  assumes "HandleTableGet t i = Some e" "i < 1024"
  shows "HandleEntryFree t i = put_entry (t\<lparr>slot_bitmap := BitmapClr (slot_bitmap t) i\<rparr>) i
           (zero_entry\<lparr>generation := (generation e + 1) AND HANDLE_GEN_MASK\<rparr>)"
  using assms by (simp add: HandleEntryFree_def HandleEntryIndex_eq slot_defs Let_def)

lemma free_slot:
  assumes ok: "tbl_ok t" and i: "i < 1024" and e: "HandleTableGet t i = Some e"
  defines "u \<equiv> HandleEntryFree t i"
  shows "tbl_ok u" "unat (HANDLE_INDEX h) = i \<Longrightarrow> tlookup u h = None"
    "unat (HANDLE_INDEX h) \<noteq> i \<Longrightarrow> tlookup u h = tlookup t h"
    "HandleTableGet u i = Some (zero_entry\<lparr>generation := (generation e + 1) AND HANDLE_GEN_MASK\<rparr>)"
proof -
  have shape: "tbl_shape t" and bm: "length (slot_bitmap t) = 32"
    using ok by (auto simp: tbl_ok_def tbl_shape_def)
  let ?e' = "zero_entry\<lparr>generation := (generation e + 1) AND HANDLE_GEN_MASK\<rparr>"
  have get: "HandleTableGet u j = (if j = i then Some ?e' else HandleTableGet t j)" for j
    unfolding u_def HandleEntryFree_eq [OF e i] using shape e by (subst Get_put_entry) auto
  have test: "BitmapTest (slot_bitmap u) j \<longleftrightarrow> j \<noteq> i \<and> BitmapTest (slot_bitmap t) j" if "j < 1024" for j
    unfolding u_def HandleEntryFree_eq [OF e i] using i that bm by (simp add: wbits.test_clr1)
  have "slot_ok u j" if "j < 1024" for j
  proof (cases "j = i")
    case True
    then show ?thesis
      using i gen_bump [of "generation e"] by (simp add: slot_ok_def get test)
  next
    case False
    then show ?thesis
      using ok that slot_ok_other [of u j t] by (simp add: tbl_ok_def get test slot_defs)
  qed
  moreover have "tbl_shape u"
    unfolding u_def HandleEntryFree_eq [OF e i] using shape by simp
  ultimately show "tbl_ok u"
    by (simp add: tbl_ok_def slot_defs)
  show "tlookup u h = None" if "unat (HANDLE_INDEX h) = i"
    using that by (simp add: tlookup_alt get)
  show "tlookup u h = tlookup t h" if "unat (HANDLE_INDEX h) \<noteq> i"
    using that by (simp add: tlookup_alt get)
  show "HandleTableGet u i = Some ?e'"
    by (simp add: get)
qed

text \<open>Closing the handle \<open>h\<close>, as \<open>HandleRelease\<close> ends.\<close>

definition tbl_close :: "Handle \<Rightarrow> HandleTable \<Rightarrow> HandleTable" where
  "tbl_close h t = (case HandleTableLookup t h of None \<Rightarrow> t | Some i \<Rightarrow> HandleEntryFree t i)"

lemma tbl_close_ok:
  assumes "tbl_ok t"
  shows "tbl_ok (tbl_close h t)" "tlookup (tbl_close h t) h = None"
    "h' \<noteq> h \<Longrightarrow> tlookup (tbl_close h t) h' = tlookup t h'"
proof -
  let ?i = "unat (HANDLE_INDEX h)"
  have i: "?i < 1024"
    by (rule HANDLE_INDEX_bound)
  have "tbl_ok (tbl_close h t) \<and> tlookup (tbl_close h t) h = None
        \<and> (h' \<noteq> h \<longrightarrow> tlookup (tbl_close h t) h' = tlookup t h')"
  proof (cases "HandleTableLookup t h")
    case None
    then show ?thesis
      using assms by (simp add: tbl_close_def tlookup_def)
  next
    case (Some j)
    then obtain e where e: "j = ?i" "HandleTableGet t ?i = Some e" "generation e = HANDLE_GEN h"
      by (auto simp: HandleTableLookup_def split: option.splits if_splits)
    note fs = free_slot [OF assms i e(2)]
    have "tlookup (HandleEntryFree t ?i) h' = tlookup t h'" if "h' \<noteq> h"
    proof (cases "unat (HANDLE_INDEX h') = ?i")
      case True
      then have "HANDLE_GEN h' \<noteq> HANDLE_GEN h"
        using that HANDLE_split [of h] HANDLE_split [of h'] by (metis word_unat_eq_iff)
      then show ?thesis
        using fs(2) [OF True] True e by (simp add: tlookup_alt)
    qed (rule fs(3))
    then show ?thesis
      using Some e fs by (simp add: tbl_close_def)
  qed
  then show "tbl_ok (tbl_close h t)" "tlookup (tbl_close h t) h = None"
    "h' \<noteq> h \<Longrightarrow> tlookup (tbl_close h t) h' = tlookup t h'"
    by auto
qed

section \<open>The interface of a handle table\<close>

text \<open>
  What the system calls rely on: an insertion returns a handle that named nothing and now names the new
  entry, a close removes exactly its handle. From these, a handle keeps its meaning over any sequence
  of operations that does not close it.
\<close>

locale handle_store =
  fixes ok :: "'t \<Rightarrow> bool"
    and look :: "'t \<Rightarrow> 'h \<Rightarrow> 'e option"
    and ins :: "'x \<Rightarrow> 't \<Rightarrow> 'h option \<times> 't"
    and close :: "'h \<Rightarrow> 't \<Rightarrow> 't"
  assumes ins_ok: "ok t \<Longrightarrow> ok (snd (ins x t))"
    and ins_fresh: "ok t \<Longrightarrow> fst (ins x t) = Some h \<Longrightarrow> look t h = None"
    and ins_look: "ok t \<Longrightarrow> fst (ins x t) = Some h \<Longrightarrow> look (snd (ins x t)) h \<noteq> None"
    and ins_other: "ok t \<Longrightarrow> fst (ins x t) \<noteq> Some h \<Longrightarrow> look (snd (ins x t)) h = look t h"
    and close_ok: "ok t \<Longrightarrow> ok (close h t)"
    and close_look: "ok t \<Longrightarrow> look (close h t) h = None"
    and close_other: "ok t \<Longrightarrow> h' \<noteq> h \<Longrightarrow> look (close h t) h' = look t h'"
begin

text \<open>A run is a list of insertions (\<open>Inl\<close>) and closes (\<open>Inr\<close>).\<close>

fun run :: "('x + 'h) list \<Rightarrow> 't \<Rightarrow> 't" where
  "run [] t = t"
| "run (Inl x # xs) t = run xs (snd (ins x t))"
| "run (Inr h # xs) t = run xs (close h t)"

lemma run_ok: "ok t \<Longrightarrow> ok (run xs t)"
  by (induction xs t rule: run.induct) (auto simp: ins_ok close_ok)

lemma run_keeps:
  assumes "ok t" "look t h = Some e" "Inr h \<notin> set xs"
  shows "look (run xs t) h = Some e"
  using assms
proof (induction xs t rule: run.induct)
  case (2 x xs t)
  then have "fst (ins x t) \<noteq> Some h"
    using ins_fresh by fastforce
  then show ?case
    using 2 ins_ok ins_other by simp
next
  case (3 h' xs t)
  then show ?case
    using close_ok close_other by auto
qed simp

end

text \<open>The handle tables of the kernel implement the interface.\<close>

lemma tbl_insert_laws:
  assumes "tbl_ok t" "fills f"
  shows "tbl_ok (snd (tbl_insert kz f t))"
    "fst (tbl_insert kz f t) = Some h \<Longrightarrow> tlookup t h = None"
    "fst (tbl_insert kz f t) = Some h \<Longrightarrow> tlookup (snd (tbl_insert kz f t)) h \<noteq> None"
    "fst (tbl_insert kz f t) \<noteq> Some h \<Longrightarrow> tlookup (snd (tbl_insert kz f t)) h = tlookup t h"
  using tbl_insert_cases [of kz f t "fst (tbl_insert kz f t)" "snd (tbl_insert kz f t)"] assms
  by (metis option.distinct(1) option.inject prod.collapse)+

text \<open>The table part of \<open>HandleCopyInto\<close>: a copy of \<open>e\<close>, mapped nowhere, in a slot of its own.\<close>

definition copy_entry :: "HandleTableEntry \<Rightarrow> HandleTableEntry \<Rightarrow> HandleTableEntry" where
  "copy_entry e d = e\<lparr>mapped_va := 0, generation := generation d\<rparr>"

definition tbl_copy :: "bool \<Rightarrow> HandleTableEntry \<Rightarrow> HandleTable \<Rightarrow> Handle option \<times> HandleTable" where
  "tbl_copy kz e t = (if he_type e = HANDLE_FREE then (None, t) else tbl_insert kz (copy_entry e) t)"

lemma fills_copy_entry: "he_type e \<noteq> HANDLE_FREE \<Longrightarrow> fills (copy_entry e)"
  by (simp add: fills_def copy_entry_def)

lemma tbl_copy_laws:
  assumes "tbl_ok t"
  shows "tbl_ok (snd (tbl_copy kz e t))"
    "fst (tbl_copy kz e t) = Some h \<Longrightarrow> tlookup t h = None"
    "fst (tbl_copy kz e t) = Some h \<Longrightarrow> \<exists>y. tlookup (snd (tbl_copy kz e t)) h = Some y"
    "fst (tbl_copy kz e t) \<noteq> Some h \<Longrightarrow> tlookup (snd (tbl_copy kz e t)) h = tlookup t h"
proof -
  have "he_type e \<noteq> HANDLE_FREE \<Longrightarrow> tbl_ok (snd (tbl_insert kz (copy_entry e) t))"
    by (intro tbl_insert_laws fills_copy_entry assms)
  then show "tbl_ok (snd (tbl_copy kz e t))"
    using assms by (simp add: tbl_copy_def)
  show "tlookup t h = None" "\<exists>y. tlookup (snd (tbl_copy kz e t)) h = Some y"
    if "fst (tbl_copy kz e t) = Some h"
    using that tbl_insert_laws(2,3) [OF assms fills_copy_entry, of e kz h]
    by (auto simp: tbl_copy_def split: if_splits)
  show "tlookup (snd (tbl_copy kz e t)) h = tlookup t h" if "fst (tbl_copy kz e t) \<noteq> Some h"
    using that tbl_insert_laws(4) [OF assms fills_copy_entry, of e kz h]
    by (auto simp: tbl_copy_def split: if_splits)
qed

interpretation hs: handle_store tbl_ok tlookup "\<lambda>(kz, e). tbl_copy kz e" tbl_close
  by unfold_locales (auto simp: tbl_copy_laws tbl_close_ok split: prod.splits)

end
