(* ===== verification/Kexample.thy ===== *)
theory Kexample
  imports Svc_Manage
begin

text \<open>
  A small concrete kernel for examples: every object in the state \<open>memset\<close> leaves it in, empty queues,
  spaces with freshly initialised handle tables, and a counter that advances by one at each reading.
\<close>

definition ex_port :: PortObject where
  "ex_port = \<lparr>port_owner_spid = 0, port_ref_count = 1, port_alive = True, held = None\<rparr>"

definition ex_event :: EventObject where
  "ex_event = \<lparr>word = 0, ev_owner_spid = 0, ev_ref_count = 1, ev_alive = True, bound_mask = 0,
     bound_refs = (\<lambda>_. 0), child_count = 0\<rparr>"

definition ex_space :: SpaceObject where
  "ex_space = \<lparr>spid = 0, parent_spid = - 1, sp_as = 0, handle_table = HandleTableInit, main_task = NULL,
     sp_max_prio = 7, frozen = False, live_tasks = 0, last_exit_status = 0,
     tcb_page_pa = replicate 37 0, tcb_page_va = 0, tcb_slot_bitmap = replicate 8 0, torn_down = False,
     sp_ref_count = 1\<rparr>"

definition ex_mem :: MemObject where
  "ex_mem = \<lparr>mem_kind = MEMKIND_NONE, mem_ref_count = 1, exec_synced = False, dev_phys_base = 0,
     dev_size = 0, dev_irq = 0, dev_dma_limit = 0, dev_bus_offset = 0, dev_dma_maps = [],
     dev_dma_next_id = 1, dev_dma_map_count = 0, shm_page_addrs = [], shm_page_count = 0, shm_flags = 0,
     mem_owner_spid = - 1\<rparr>"

definition ex_kernel :: Kernel where
  "ex_kernel = \<lparr>tasks = (\<lambda>_. zero_task\<lparr>sleep_slot := - 1\<rparr>), ports = (\<lambda>_. ex_port), events = (\<lambda>_. ex_event),
     spaces = (\<lambda>_. ex_space), mems = (\<lambda>_. ex_mem),
     observers = (\<lambda>_. replicate MAX_OBSERVERS NO_OBSERVER), node_q = (\<lambda>_. []), wait_q = (\<lambda>_. []),
     active_servers = (\<lambda>_. []), space_tasks = (\<lambda>_. []), sleep_wheel = (\<lambda>_. []), task_destroy_queue = [],
     current_task = NULL, fpu_owner = NULL, fpu_access_enabled = True, do_resched = False,
     on_idle_stack = False, slice_armed = False, in_tick = False, ready_mask = 0,
     wheel_occ = replicate 16 0, wheel_min = (\<lambda>_. 0), wheel_now_slot = 0, slot_shift = 17, active_as = 0,
     tls_task = NULL, cnt_hw = of_nat, cnt_ix = 0, cnt_last = 0, freq = 62500000, cntv_ctl = 0,
     cntv_cval = 0, cntv_ctl_shadow = - 1, cntv_cval_shadow = - 1, next_tid = 1, task_table = (\<lambda>_. NULL),
     next_spid = 1, space_table = (\<lambda>_. NULL), msg_mem = (\<lambda>_. 0), tcb_mem = (\<lambda>_. ZERO_TLS),
     irq_owners = (\<lambda>_. \<lparr>irq_owner = NULL, irq_pending = False, bound_ev = NULL, irq_bit = 0\<rparr>),
     irq_registered = (\<lambda>_. False), irq_unmasked = (\<lambda>_. False), mem_subscribers = [], freed = []\<rparr>"

end
