(* ===== verification/Handle_Kernel.thy ===== *)
theory Handle_Kernel
  imports Handle_Correct Kexample
begin

text \<open>
  Handles across the kernel: what \<open>HandleCopyInto\<close> and the system calls that hand out handles do to the
  handles of every space, and how long a stale handle stays invalid.
\<close>

section \<open>Copying into a space\<close>

lemma tasks_upd_space [simp]: "tasks (upd_space s f k) = tasks k"
  by (simp add: upd_space_def)

lemma spaces_upd [simp]:
  "spaces (upd_space s f k) = (spaces k)(s := f (spaces k s))" "spaces (upd_port p g k) = spaces k"
  "spaces (upd_event ev g' k) = spaces k" "spaces (upd_mem m g'' k) = spaces k"
  "spaces (upd_task t g''' k) = spaces k"
  by (simp_all add: upd_space_def upd_port_def upd_event_def upd_mem_def upd_task_def)

lemma handle_table_ref_object [simp]:
  "handle_table (spaces (ref_object ty ob k) sp) = handle_table (spaces k sp)"
  by (cases ty) (simp_all add: ref_object_def TaskRef_def SpaceRef_def)

lemma handle_table_frame [simp]:
  "handle_table (spaces (ArchSetInFrame t r v k) sp) = handle_table (spaces k sp)"
  by (simp add: ArchSetInFrame_def)

lemma upd_space_twice [simp]: "upd_space s f (upd_space s g k) = upd_space s (\<lambda>x. f (g x)) k"
  by (simp add: upd_space_def)

definition set_table :: "SpacePtr \<Rightarrow> HandleTable \<Rightarrow> Kernel \<Rightarrow> Kernel" where
  "set_table sp t = upd_space sp (\<lambda>x. x\<lparr>handle_table := t\<rparr>)"

lemma handle_table_set_table [simp]:
  "handle_table (spaces (set_table sp t k) sp') = (if sp' = sp then t else handle_table (spaces k sp'))"
  by (simp add: set_table_def)

lemma HandleCopyInto_eq:
  assumes "tbl_ok (handle_table (spaces k dst))" "he_type src \<noteq> HANDLE_FREE"
    and "tbl_copy kz (src\<lparr>perms := prm, marker := mk\<rparr>) (handle_table (spaces k dst)) = (r, t')"
  shows "HandleCopyInto kz dst src prm mk k =
           (case r of None \<Rightarrow> (ERR_NOMEM, None, set_table dst t' k)
            | Some h \<Rightarrow> (ZUZU_OK, Some h, ref_object (he_type src) (he_obj src) (set_table dst t' k)))"
proof -
  let ?e = "src\<lparr>perms := prm, marker := mk\<rparr>"
  obtain slot u where ff: "HandleTableFindFree kz (handle_table (spaces k dst)) = (slot, u)"
    by fastforce
  have ins: "tbl_insert kz (copy_entry ?e) (handle_table (spaces k dst)) = (r, t')"
    using assms by (simp add: tbl_copy_def)
  show ?thesis
    using ff assms(1)
  proof (cases rule: find_free_cases)
    case none
    then have "r = None" "t' = u"
      using ins by (auto simp: tbl_insert_def ff)
    then show ?thesis
      using assms(2) none by (simp add: HandleCopyInto_def ff set_table_def)
  next
    case (found i e)
    have "copy_entry ?e e = e\<lparr>perms := prm, he_type := he_type src, marker := mk, mapped_va := 0, he_obj := he_obj src\<rparr>"
      by (simp add: copy_entry_def)
    then have "r = Some (HANDLE_PACK (of_nat i) (generation e))"
      "t' = put_entry (HandleEntryClaim u i) i
              (e\<lparr>perms := prm, he_type := he_type src, marker := mk, mapped_va := 0, he_obj := he_obj src\<rparr>)"
      using ins found by (auto simp: tbl_insert_def ff)
    then show ?thesis
      using assms(2) found by (simp add: HandleCopyInto_def ff set_table_def Let_def)
  qed
qed

text \<open>The handle tables of all spaces are well formed.\<close>

definition tables_ok :: "Kernel \<Rightarrow> bool" where
  "tables_ok k \<longleftrightarrow> (\<forall>sp. tbl_ok (handle_table (spaces k sp)))"

lemma tables_ok_set_table: "tables_ok k \<Longrightarrow> tbl_ok t \<Longrightarrow> tables_ok (set_table sp t k)"
  by (simp add: tables_ok_def)

lemma lookup_entry_frame [simp]:
  "lookup_entry sp h (ref_object ty ob k) = lookup_entry sp h k"
  "lookup_entry sp h (ArchSetInFrame t r v k) = lookup_entry sp h k"
  by (simp_all add: lookup_entry_tlookup)

lemma tables_ok_frame [simp]:
  "tables_ok (ref_object ty ob k) = tables_ok k" "tables_ok (ArchSetInFrame t r v k) = tables_ok k"
  by (simp_all add: tables_ok_def)

lemma HandleCopyInto_cases:
  assumes "HandleCopyInto kz dst src prm mk k = (err, r, k')" "tables_ok k" "he_type src \<noteq> HANDLE_FREE"
  obtains (full) "err = ERR_NOMEM" "r = None" "tables_ok k'"
      "\<And>sp h. lookup_entry sp h k' = lookup_entry sp h k"
      "(\<forall>i < HANDLE_MAX_SLOTS. BitmapTest (slot_bitmap (handle_table (spaces k dst))) i) \<or> \<not> kz"
  | (ok) h g where "err = ZUZU_OK" "r = Some h" "tables_ok k'" "lookup_entry dst h k = None" "\<not> bit h 31"
      "lookup_entry dst h k' = Some (src\<lparr>perms := prm, marker := mk, mapped_va := 0, generation := g\<rparr>)"
      "\<And>sp h'. (sp, h') \<noteq> (dst, h) \<Longrightarrow> lookup_entry sp h' k' = lookup_entry sp h' k"
proof -
  let ?e = "src\<lparr>perms := prm, marker := mk\<rparr>" and ?t = "handle_table (spaces k dst)"
  have t: "tbl_ok ?t"
    using assms(2) by (simp add: tables_ok_def)
  obtain r' t' where c: "tbl_copy kz ?e ?t = (r', t')"
    by fastforce
  note eq = HandleCopyInto_eq [OF t assms(3) c]
  have ins: "tbl_insert kz (copy_entry ?e) ?t = (r', t')"
    using c assms(3) by (simp add: tbl_copy_def)
  have fl: "fills (copy_entry ?e)"
    using assms(3) by (intro fills_copy_entry) simp
  show thesis
    using ins t fl
  proof (cases rule: tbl_insert_cases)
    case full
    have k': "k' = set_table dst t' k" "err = ERR_NOMEM" "r = None"
      using assms(1) eq full by auto
    show thesis
      using that(1) full assms(2)
      by (auto simp: k' lookup_entry_tlookup tables_ok_set_table slot_defs)
  next
    case (ok h g)
    have "copy_entry ?e (zero_entry\<lparr>generation := g\<rparr>)
          = src\<lparr>perms := prm, marker := mk, mapped_va := 0, generation := g\<rparr>"
      by (simp add: copy_entry_def)
    moreover have "k' = ref_object (he_type src) (he_obj src) (set_table dst t' k)" "err = ZUZU_OK" "r = Some h"
      using assms(1) eq ok by auto
    ultimately show thesis
      using that(2) [of h g] ok assms(2)
      by (auto simp: lookup_entry_tlookup tables_ok_set_table)
  qed
qed

text \<open>
  C9: Copying a handle into a space. With well-formed tables and an entry in use, \<open>HandleCopyInto\<close>
  either returns \<open>ERR_NOMEM\<close> - only when the destination table is full or a block cannot be allocated -
  and changes no handle of any space, or it returns a non-negative handle that named nothing, now names
  the object of the source with exactly the given permissions and marker and no mapping, and leaves
  every other handle of every space as it was. The tables stay well formed.
\<close>

theorem HandleCopyInto_correct:
  assumes "tables_ok k" "he_type src \<noteq> HANDLE_FREE" "HandleCopyInto kz dst src prm mk k = (err, r, k')"
  shows "tables_ok k'
    \<and> (case r of
         None \<Rightarrow> err = ERR_NOMEM \<and> (\<forall>sp h. lookup_entry sp h k' = lookup_entry sp h k)
           \<and> ((\<forall>i < HANDLE_MAX_SLOTS. BitmapTest (slot_bitmap (handle_table (spaces k dst))) i) \<or> \<not> kz)
       | Some h \<Rightarrow> err = ZUZU_OK \<and> lookup_entry dst h k = None \<and> \<not> bit h 31
           \<and> (\<exists>g. lookup_entry dst h k'
                    = Some (src\<lparr>perms := prm, marker := mk, mapped_va := 0, generation := g\<rparr>))
           \<and> (\<forall>sp h'. (sp, h') \<noteq> (dst, h) \<longrightarrow> lookup_entry sp h' k' = lookup_entry sp h' k))"
  using assms(3,1,2) by (cases rule: HandleCopyInto_cases) auto

section \<open>Rights only shrink\<close>

text \<open>
  \<open>no_amplify e k k'\<close>: every handle of every space in \<open>k'\<close> is either the same as in \<open>k\<close>, or a new
  handle on the object of \<open>e\<close> with no permission that \<open>e\<close> does not have.
\<close>

definition no_amplify :: "HandleTableEntry \<Rightarrow> Kernel \<Rightarrow> Kernel \<Rightarrow> bool" where
  "no_amplify e k k' \<longleftrightarrow>
     (\<forall>sp h x. lookup_entry sp h k' = Some x \<longrightarrow>
        lookup_entry sp h k = Some x
        \<or> lookup_entry sp h k = None \<and> he_type x = he_type e \<and> he_obj x = he_obj e
          \<and> perms x AND NOT (perms e) = 0)"

lemma and_subset: "((a :: u32) AND b) AND NOT a = 0"
  by (rule bit_eqI) (simp add: bit_simps)

lemma HandleCopyInto_no_amplify:
  assumes "HandleCopyInto kz dst e prm mk k = (err, r, k')" "tables_ok k" "he_type e \<noteq> HANDLE_FREE"
    "prm AND NOT (perms e) = 0"
  shows "no_amplify e k k'"
  using assms(1-3)
proof (cases rule: HandleCopyInto_cases)
  case full
  then show ?thesis by (simp add: no_amplify_def)
next
  case (ok h g)
  show ?thesis
    unfolding no_amplify_def
  proof (intro allI impI)
    fix sp h' x
    assume x: "lookup_entry sp h' k' = Some x"
    show "lookup_entry sp h' k = Some x
        \<or> lookup_entry sp h' k = None \<and> he_type x = he_type e \<and> he_obj x = he_obj e
          \<and> perms x AND NOT (perms e) = 0"
      using ok x assms(4) by (cases "(sp, h') = (dst, h)") auto
  qed
qed

lemma no_amplify_frame [simp]: "no_amplify e k (ArchSetInFrame t r v k') = no_amplify e k k'"
  by (simp add: no_amplify_def)

lemma no_amplify_refl [simp]: "no_amplify e k k"
  by (simp add: no_amplify_def)

lemma lookup_entry_not_free: "lookup_entry sp h k = Some e \<Longrightarrow> he_type e \<noteq> HANDLE_FREE"
  by (auto simp: lookup_entry_tlookup tlookup_alt split: option.splits if_splits)

text \<open>Which handles of which spaces an operation may change.\<close>

definition same_handles :: "Kernel \<Rightarrow> Kernel \<Rightarrow> bool" where
  "same_handles k k' \<longleftrightarrow> (\<forall>sp h. lookup_entry sp h k' = lookup_entry sp h k)"

definition only_space :: "SpacePtr \<Rightarrow> Kernel \<Rightarrow> Kernel \<Rightarrow> bool" where
  "only_space dst k k' \<longleftrightarrow> (\<forall>sp h. sp \<noteq> dst \<longrightarrow> lookup_entry sp h k' = lookup_entry sp h k)"

text \<open>
  What \<open>MNGHNDL_GRANT\<close> needs: the third argument is a handle of the caller on a live space, with
  \<open>PERM_CNTL\<close>, and the handle being granted has \<open>PERM_TXFR\<close>.
\<close>

definition may_grant :: "HandleTableEntry \<Rightarrow> SpacePtr \<Rightarrow> Kernel \<Rightarrow> bool" where
  "may_grant e dst k \<longleftrightarrow>
     (case lookup_entry (CURRENT_SPACE k) (arg 2 k) k of
        None \<Rightarrow> False
      | Some se \<Rightarrow> he_type se = HANDLE_SPACE \<and> perms se AND PERM_CNTL \<noteq> 0 \<and> he_obj se = dst)
     \<and> dst \<noteq> NULL \<and> \<not> torn_down (spaces k dst) \<and> perms e AND PERM_TXFR \<noteq> 0"

lemma same_handles_frame [simp]:
  "same_handles k (ArchSetInFrame t r v k') = same_handles k k'" "same_handles k k"
  "only_space d k (ArchSetInFrame t r v k') = only_space d k k'" "only_space d k k"
  by (simp_all add: same_handles_def only_space_def)

text \<open>
  C10: Duplicating and granting never amplify rights and reach no further than they should. Every handle
  that any space holds after \<open>ManageHandle\<close> duplicates a handle, or grants it to another space, or after a
  message grant, is either one it held before, unchanged, or a new handle on the same object whose
  permissions are among those of the handle the caller used. A duplicate changes only the caller's
  handles, and a grant only those of the space it names. A grant that changes any handle went through a
  handle with \<open>PERM_TXFR\<close>, and a grant by \<open>ManageHandle\<close> also through a handle with \<open>PERM_CNTL\<close> on a space
  that is not torn down.
\<close>

theorem rights_never_amplified:
  assumes "tables_ok k" "lookup_entry sp h k = Some e"
  shows "(\<forall>k'. MngHandleDuplicate kz e k = Some k' \<longrightarrow>
            no_amplify e k k' \<and> tables_ok k' \<and> only_space (CURRENT_SPACE k) k k')
    \<and> (\<forall>k'. MngHandleGrant kz e k = Some k' \<longrightarrow>
            no_amplify e k k' \<and> tables_ok k'
            \<and> (same_handles k k' \<or> (\<exists>dst. may_grant e dst k \<and> only_space dst k k')))
    \<and> (\<forall>err g k'. AllocateGrantSlot kz sp dst h k = (err, g, k') \<longrightarrow>
            no_amplify e k k' \<and> tables_ok k' \<and> only_space dst k k'
            \<and> (same_handles k k' \<or> h \<noteq> NO_HANDLE \<and> perms e AND PERM_TXFR \<noteq> 0)
            \<and> (err = ZUZU_OK \<and> h \<noteq> NO_HANDLE \<longrightarrow> perms e AND PERM_TXFR \<noteq> 0))"
proof -
  have nf: "he_type e \<noteq> HANDLE_FREE"
    using assms(2) by (rule lookup_entry_not_free)
  have copy: "no_amplify e k k' \<and> tables_ok k' \<and> only_space d k k'"
    if c: "HandleCopyInto kz d e prm mk k = (er, r, k')" and p: "prm AND NOT (perms e) = 0" for d prm mk er r k'
  proof -
    have "tables_ok k' \<and> only_space d k k'"
      using c assms(1) nf by (cases rule: HandleCopyInto_cases) (auto simp: only_space_def)
    then show ?thesis
      using HandleCopyInto_no_amplify [OF c assms(1) nf p] by simp
  qed
  have "no_amplify e k k' \<and> tables_ok k' \<and> only_space (CURRENT_SPACE k) k k'"
    if "MngHandleDuplicate kz e k = Some k'" for k'
    using that copy and_subset
    by (fastforce simp: MngHandleDuplicate_def ret_ok_val_def ret_err_def Let_def
                  split: prod.splits option.splits if_splits)
  moreover have "no_amplify e k k' \<and> tables_ok k' \<and> (same_handles k k' \<or> (\<exists>dst. may_grant e dst k \<and> only_space dst k k'))"
    if g: "MngHandleGrant kz e k = Some k'" for k'
  proof (cases "\<exists>dst. may_grant e dst k")
    case True
    then obtain se where se: "lookup_entry (CURRENT_SPACE k) (arg 2 k) k = Some se" "he_type se = HANDLE_SPACE"
      "perms se AND PERM_CNTL \<noteq> 0" "he_obj se \<noteq> NULL" "\<not> torn_down (spaces k (he_obj se))" "perms e AND PERM_TXFR \<noteq> 0"
      by (auto simp: may_grant_def split: option.splits)
    then have "may_grant e (he_obj se) k"
      by (simp add: may_grant_def)
    moreover have "no_amplify e k k' \<and> tables_ok k' \<and> only_space (he_obj se) k k'"
      using g se copy [of "he_obj se"] and_subset
      by (fastforce simp: MngHandleGrant_def ret_ok_val_def ret_err_def Let_def
                    split: prod.splits option.splits if_splits)
    ultimately show ?thesis
      by blast
  next
    case False
    then have "no_amplify e k k' \<and> tables_ok k' \<and> same_handles k k'"
      using g assms(1)
      by (auto simp: MngHandleGrant_def may_grant_def ret_err_def split: option.splits if_splits)
    then show ?thesis
      by blast
  qed
  moreover have "no_amplify e k k' \<and> tables_ok k' \<and> only_space dst k k'
            \<and> (same_handles k k' \<or> h \<noteq> NO_HANDLE \<and> perms e AND PERM_TXFR \<noteq> 0)
            \<and> (err = ZUZU_OK \<and> h \<noteq> NO_HANDLE \<longrightarrow> perms e AND PERM_TXFR \<noteq> 0)"
    if "AllocateGrantSlot kz sp dst h k = (err, g, k')" for err g k'
    using that copy [of dst "perms e" "marker e"] assms
    by (auto simp: AllocateGrantSlot_def Let_def split: prod.splits option.splits if_splits)
  ultimately show ?thesis
    by blast
qed

section \<open>Stale handles\<close>

text \<open>The operations on a table: copy an entry into it, close a handle.\<close>

datatype TableOp = CopyOp bool HandleTableEntry | CloseOp Handle

fun table_op :: "TableOp \<Rightarrow> HandleTable \<Rightarrow> HandleTable" where
  "table_op (CopyOp kz e) t = snd (tbl_copy kz e t)"
| "table_op (CloseOp h) t = tbl_close h t"

fun is_close :: "TableOp \<Rightarrow> bool" where
  "is_close (CopyOp kz e) = False"
| "is_close (CloseOp h) = True"

lemma table_run: "fold table_op ops t = hs.run (map (case_TableOp (\<lambda>kz e. Inl (kz, e)) Inr) ops) t"
  by (induction ops arbitrary: t) (auto split: TableOp.splits)

text \<open>
  C11: A handle keeps its meaning. Over any sequence of copies into a well-formed table and closes of
  other handles, a handle goes on naming the same entry - type, object, permissions, marker, mapping -
  and the table stays well formed.
\<close>

theorem handle_keeps_meaning:
  assumes "tbl_ok t" "tlookup t h = Some e" "CloseOp h \<notin> set ops"
  shows "tbl_ok (fold table_op ops t) \<and> tlookup (fold table_op ops t) h = Some e"
proof -
  have "Inr h \<notin> set (map (case_TableOp (\<lambda>kz e. Inl (kz, e)) Inr) ops)"
    using assms(3) by (auto split: TableOp.splits)
  then show ?thesis
    unfolding table_run using hs.run_ok [OF assms(1)] hs.run_keeps [OF assms(1,2)] by blast
qed

text \<open>The generation of a slot only changes when the handle in it is closed.\<close>

lemma Get_FindFree:
  assumes "HandleTableFindFree kz t = (slot, t')" "tbl_ok t" "HandleTableGet t i = Some e"
  shows "HandleTableGet t' i = Some e"
proof -
  have "HandleTableGet t' i = Some e" if "HandleBlockEnsure kz t j = (ok, t')" for j ok
    using that
  proof (cases rule: ensure_cases)
    case fresh
    then have "i div 64 \<noteq> j div 64"
      using assms(3) by (auto simp: HandleTableGet_def slot_defs split: if_splits)
    then show ?thesis
      using assms(3) by (auto simp: fresh(4) HandleTableGet_def slot_defs split: if_splits option.splits)
  qed (use assms(3) in auto)
  then show ?thesis
    using assms by (auto simp: HandleTableFindFree_def Let_def split: if_splits prod.splits)
qed

lemma copy_generation:
  assumes "tbl_ok t" "HandleTableGet t i = Some e"
  shows "\<exists>e'. HandleTableGet (snd (tbl_copy kz x t)) i = Some e' \<and> generation e' = generation e"
proof -
  obtain slot u where ff: "HandleTableFindFree kz t = (slot, u)"
    by fastforce
  have get: "HandleTableGet u i = Some e"
    by (rule Get_FindFree [OF ff assms])
  show ?thesis
    using ff assms(1)
  proof (cases rule: find_free_cases)
    case none
    then show ?thesis
      using get assms(2) by (simp add: tbl_copy_def tbl_insert_def ff)
  next
    case (found j d)
    have "tbl_shape (HandleEntryClaim u j)"
      unfolding claim_eq [OF found(5,2)] using found(3) by (simp add: tbl_ok_def)
    moreover have "HandleTableGet (HandleEntryClaim u j) m = HandleTableGet u m" for m
      using claim_eq [OF found(5,2)] by simp
    ultimately have "HandleTableGet (put_entry (HandleEntryClaim u j) j y) i
                     = (if i = j then Some y else HandleTableGet u i)" for y
      using found(5) by (subst Get_put_entry) auto
    then show ?thesis
      using get assms(2) found
      by (auto simp: tbl_copy_def tbl_insert_def ff copy_entry_def)
  qed
qed

definition slot_gen :: "HandleTable \<Rightarrow> nat \<Rightarrow> nat \<Rightarrow> bool" where
  "slot_gen t i g \<longleftrightarrow> (\<exists>e. HandleTableGet t i = Some e \<and> unat (generation e) = g mod 2 ^ 21)"

lemma free_generation:
  assumes "tbl_ok t" "i < 1024" "slot_gen t i g"
  shows "slot_gen (HandleEntryFree t i) i (Suc g)"
proof -
  obtain e where e: "HandleTableGet t i = Some e" "unat (generation e) = g mod 2 ^ 21"
    using assms(3) by (auto simp: slot_gen_def)
  have "unat (generation e + 1) = Suc (unat (generation e))"
    using e(2) by (simp add: unat_word_ariths)
  then have "unat ((generation e + 1) AND HANDLE_GEN_MASK) = Suc g mod 2 ^ 21"
    by (simp add: HANDLE_GEN_MASK_mask unat_and_mask e(2) mod_Suc_eq)
  then show ?thesis
    using free_slot(4) [OF assms(1,2) e(1)] by (simp add: slot_gen_def)
qed

lemma table_op_generation:
  assumes "tbl_ok t" "i < 1024" "slot_gen t i g"
  shows "\<exists>d \<le> (if is_close a then 1 else 0). slot_gen (table_op a t) i (g + d)"
proof (cases a)
  case (CopyOp kz e)
  then show ?thesis
    using assms copy_generation [OF assms(1)] by (fastforce simp: slot_gen_def)
next
  case (CloseOp h)
  show ?thesis
  proof (cases "HandleTableLookup t h")
    case None
    then show ?thesis
      using assms CloseOp by (auto simp: tbl_close_def intro: exI [of _ 0])
  next
    case (Some j)
    then have j: "j = unat (HANDLE_INDEX h)" "\<exists>e. HandleTableGet t j = Some e"
      by (auto simp: HandleTableLookup_def split: option.splits if_splits)
    show ?thesis
    proof (cases "j = i")
      case True
      then show ?thesis
        using assms CloseOp Some free_generation [OF assms] by (auto simp: tbl_close_def intro!: exI [of _ 1])
    next
      case False
      obtain e where e: "HandleTableGet t j = Some e"
        using j by blast
      have jb: "j < 1024"
        using j HANDLE_INDEX_bound by simp
      have "tbl_shape t"
        using assms(1) by (simp add: tbl_ok_def)
      then have "HandleTableGet (HandleEntryFree t j) i = HandleTableGet t i"
        unfolding HandleEntryFree_eq [OF e jb] using e False by (subst Get_put_entry) auto
      then show ?thesis
        using assms CloseOp Some by (auto simp: tbl_close_def slot_gen_def intro!: exI [of _ 0])
    qed
  qed
qed

lemma table_op_ok: "tbl_ok t \<Longrightarrow> tbl_ok (table_op a t)"
  by (cases a) (auto simp: tbl_copy_laws tbl_close_ok)

lemma run_generation:
  assumes "tbl_ok t" "i < 1024" "slot_gen t i g"
  shows "\<exists>d \<le> length (filter is_close ops). slot_gen (fold table_op ops t) i (g + d)"
  using assms
proof (induction ops arbitrary: t g)
  case Nil
  then show ?case by simp
next
  case (Cons a ops)
  obtain d where d: "d \<le> (if is_close a then 1 else 0)" "slot_gen (table_op a t) i (g + d)"
    using table_op_generation [OF Cons.prems] by blast
  obtain d' where d': "d' \<le> length (filter is_close ops)" "slot_gen (fold table_op ops (table_op a t)) i (g + d + d')"
    using Cons.IH [OF table_op_ok [OF Cons.prems(1)] Cons.prems(2) d(2)] by blast
  show ?case
    using d d' by (intro exI [of _ "d + d'"]) (auto simp: add.assoc split: if_splits)
qed

text \<open>
  C12: A stale handle is rejected. Once a handle is closed it names nothing, over any further sequence of
  copies and closes with fewer than \<open>2 ^ 21 - 1\<close> closes: the generation in the handle does not match the
  slot again until the generation counter wraps.
\<close>

theorem stale_handle_rejected:
  assumes "tbl_ok t" "tlookup t h = Some e" "length (filter is_close ops) < 2 ^ 21 - 1"
  shows "tlookup (fold table_op ops (tbl_close h t)) h = None"
proof -
  let ?i = "unat (HANDLE_INDEX h)" and ?g = "unat (HANDLE_GEN h)"
  have i: "?i < 1024"
    by (rule HANDLE_INDEX_bound)
  have e: "HandleTableGet t ?i = Some e" "generation e = HANDLE_GEN h" "he_type e \<noteq> HANDLE_FREE"
    using assms(2) by (auto simp: tlookup_alt split: option.splits if_splits)
  then have "slot_ok t ?i" "HandleTableLookup t h = Some ?i"
    using assms(1) i by (auto simp: tbl_ok_def slot_defs HandleTableLookup_def)
  then have g: "?g < 2 ^ 21"
    using e by (simp add: slot_ok_def HANDLE_GEN_MASK_def word_le_nat_alt)
  have close: "tbl_close h t = HandleEntryFree t ?i"
    by (simp add: tbl_close_def \<open>HandleTableLookup t h = Some ?i\<close>)
  have "slot_gen t ?i ?g"
    using e g by (simp add: slot_gen_def)
  then have "slot_gen (tbl_close h t) ?i (Suc ?g)"
    unfolding close by (rule free_generation [OF assms(1) i])
  moreover have "tbl_ok (tbl_close h t)"
    by (rule tbl_close_ok [OF assms(1)])
  ultimately obtain d where d: "d \<le> length (filter is_close ops)"
    "slot_gen (fold table_op ops (tbl_close h t)) ?i (Suc ?g + d)"
    using run_generation i by blast
  have "(Suc ?g + d) mod 2 ^ 21 \<noteq> ?g"
  proof
    assume "(Suc ?g + d) mod 2 ^ 21 = ?g"
    then have "(Suc ?g + d) mod 2 ^ 21 = ?g mod 2 ^ 21"
      using g by simp
    then have "2 ^ 21 dvd Suc d"
      by (metis add_Suc_shift add_diff_cancel_left' le_add1 mod_eq_dvd_iff_nat)
    then show False
      using d(1) assms(3) dvd_imp_le [of "2 ^ 21" "Suc d"] by simp
  qed
  then show ?thesis
    using d(2) by (auto simp: slot_gen_def tlookup_alt)
qed

section \<open>Examples\<close>

lemma tbl_ok_init [simp]: "tbl_ok HandleTableInit"
proof -
  have "HandleTableGet HandleTableInit i = None" for i
    by (auto simp: HandleTableGet_def HandleTableInit_def slot_defs)
  moreover have "\<not> BitmapTest (slot_bitmap HandleTableInit) i" if "i < 1024" for i
    using that by (simp add: HandleTableInit_def BitmapTest_bit BITMAP_WORDS_def slot_defs)
  ultimately show ?thesis
    by (simp add: tbl_ok_def tbl_shape_def slot_ok_def slot_defs HandleTableInit_def BITMAP_WORDS_def)
qed

lemma ex_tables: "tables_ok ex_kernel"
  by (simp add: tables_ok_def ex_kernel_def ex_space_def)

definition ex_entry :: HandleTableEntry where
  "ex_entry = \<lparr>he_type = HANDLE_PORT, perms = 7, mapped_va = 0, he_obj = 0x500, marker = 9, generation = 0\<rparr>"

definition ex_table :: HandleTable where
  "ex_table = snd (tbl_copy True ex_entry HandleTableInit)"

lemma ex_table_ok: "tbl_ok ex_table"
  unfolding ex_table_def by (rule tbl_copy_laws) simp

lemma ex_table_look: "tlookup ex_table 0 = Some ex_entry"
  by code_simp

theorem HandleCopyInto_correct_witness:
  "fst (snd (HandleCopyInto True 7 ex_entry 3 5 ex_kernel)) = Some 0
   \<and> lookup_entry 7 0 ex_kernel = None
   \<and> (\<exists>g. lookup_entry 7 0 (snd (snd (HandleCopyInto True 7 ex_entry 3 5 ex_kernel)))
            = Some (ex_entry\<lparr>perms := 3, marker := 5, mapped_va := 0, generation := g\<rparr>))"
proof -
  have r: "fst (snd (HandleCopyInto True 7 ex_entry 3 5 ex_kernel)) = Some 0"
    by code_simp
  show ?thesis
    using HandleCopyInto_correct [of ex_kernel ex_entry True 7 3 5 "fst (HandleCopyInto True 7 ex_entry 3 5 ex_kernel)"
        "fst (snd (HandleCopyInto True 7 ex_entry 3 5 ex_kernel))" "snd (snd (HandleCopyInto True 7 ex_entry 3 5 ex_kernel))"]
      ex_tables r by (simp add: ex_entry_def)
qed

theorem handle_keeps_meaning_witness:
  "tlookup (fold table_op [CopyOp True ex_entry, CloseOp 1] ex_table) 0 = Some ex_entry"
  using handle_keeps_meaning [of ex_table 0 ex_entry "[CopyOp True ex_entry, CloseOp 1]"]
    ex_table_ok ex_table_look by simp

theorem stale_handle_rejected_witness:
  "tlookup (fold table_op [CopyOp True ex_entry] (tbl_close 0 ex_table)) 0 = None
   \<and> tlookup (fold table_op [CopyOp True ex_entry] (tbl_close 0 ex_table)) 1024 \<noteq> None"
proof -
  have "tlookup (fold table_op [CopyOp True ex_entry] (tbl_close 0 ex_table)) 1024 \<noteq> None"
    by code_simp
  then show ?thesis
    using stale_handle_rejected [of ex_table 0 ex_entry "[CopyOp True ex_entry]"] ex_table_ok ex_table_look
    by simp
qed

lemma MngHandleDuplicate_total: "\<exists>k'. MngHandleDuplicate kz e k = Some k'"
  by (simp add: MngHandleDuplicate_def ret_ok_val_def ret_err_def Let_def split: prod.split option.split)

lemma MngHandleGrant_total: "\<exists>k'. MngHandleGrant kz e k = Some k'"
  by (simp add: MngHandleGrant_def ret_ok_val_def ret_err_def Let_def split: prod.split option.split)

theorem rights_never_amplified_witness:
  "(\<exists>k'. MngHandleDuplicate True ex_entry (set_table 0 ex_table ex_kernel) = Some k'
     \<and> no_amplify ex_entry (set_table 0 ex_table ex_kernel) k')
   \<and> (\<exists>k'. MngHandleGrant True ex_entry (set_table 0 ex_table ex_kernel) = Some k'
     \<and> no_amplify ex_entry (set_table 0 ex_table ex_kernel) k')"
proof -
  have "tables_ok (set_table 0 ex_table ex_kernel)"
    by (rule tables_ok_set_table [OF ex_tables ex_table_ok])
  moreover have "lookup_entry 0 0 (set_table 0 ex_table ex_kernel) = Some ex_entry"
    by (simp add: lookup_entry_tlookup ex_table_look)
  ultimately show ?thesis
    using rights_never_amplified [of "set_table 0 ex_table ex_kernel" 0 0 ex_entry True]
      MngHandleDuplicate_total MngHandleGrant_total by blast
qed

end
