(* ===== verification/Mmu.thy ===== *)
theory Mmu
  imports Mem_Object
begin

text \<open>
  Translation tables: \<open>arch/arm/mmu/mmu.c\<close> over the descriptor formats of
  \<open>arch/arm/include/arch_impl/armv7_mmu.h\<close> and the pool of second-level tables of
  \<open>arch/arm/mmu/l2_pool.c\<close>. The first-level table of an address space is the list of its descriptors; a
  second-level table is the list of its 256 descriptors, found under the physical address of the table.
  The frames that \<open>PmmAllocFrame\<close> hands to the pool are taken from a list, 0 or the end of the list being
  a failure. Barriers and TLB maintenance have no effect on the tables.
\<close>

section \<open>Descriptors\<close>

datatype VirtMemType = VM_MEM_NORMAL | VM_MEM_DEVICE | VM_MEM_NORMAL_NC

datatype AddressSpaceType = ADDRESS_SPACE_KERNEL | ADDRESS_SPACE_USER

definition VM_PROT_USER :: u32 where "VM_PROT_USER = 8"

definition SECTION_SIZE :: u32 where "SECTION_SIZE = 0x100000"
definition USER_VA_TOP :: u32 where "USER_VA_TOP = 0x80000000"

definition DESC_TYPE_MASK :: u32 where "DESC_TYPE_MASK = 3"
definition DESC_FAULT :: u32 where "DESC_FAULT = 0"
definition DESC_L2 :: u32 where "DESC_L2 = 1"
definition DESC_SECTION :: u32 where "DESC_SECTION = 2"
definition DESC_SUPERSECTION :: u32 where "DESC_SUPERSECTION = 3"
definition L2_SMALL_TAG :: u32 where "L2_SMALL_TAG = push_bit 1 1"
definition L1_SECTION_BASE_MASK :: u32 where "L1_SECTION_BASE_MASK = 0xFFF00000"
definition L1_L2PTR_BASE_MASK :: u32 where "L1_L2PTR_BASE_MASK = 0xFFFFFC00"
definition L2_SMALL_BASE_MASK :: u32 where "L2_SMALL_BASE_MASK = 0xFFFFF000"
definition L1_ENTRIES_USER :: nat where "L1_ENTRIES_USER = 2048"
definition L1_ENTRIES_KERNEL :: nat where "L1_ENTRIES_KERNEL = 4096"
definition L2_ENTRIES :: nat where "L2_ENTRIES = 256"

lemmas desc_consts [const_defs] =
  VM_PROT_USER_def SECTION_SIZE_def USER_VA_TOP_def DESC_TYPE_MASK_def DESC_FAULT_def
  DESC_L2_def DESC_SECTION_def DESC_SUPERSECTION_def L2_SMALL_TAG_def L1_SECTION_BASE_MASK_def L1_L2PTR_BASE_MASK_def L2_SMALL_BASE_MASK_def
  L1_ENTRIES_USER_def L1_ENTRIES_KERNEL_def L2_ENTRIES_def

definition L1_IDX :: "VirtAddr \<Rightarrow> nat" where
  "L1_IDX va = unat (drop_bit 20 va AND 0xFFF)"

definition L2_IDX :: "VirtAddr \<Rightarrow> nat" where
  "L2_IDX va = unat (drop_bit 12 va AND 0xFF)"

definition MMU_BIT :: "nat \<Rightarrow> u32" where "MMU_BIT n = push_bit n 1"

definition AP_KERNEL_RW :: u32 where "AP_KERNEL_RW = 1"
definition AP_USER_RO :: u32 where "AP_USER_RO = 2"
definition AP_USER_RW :: u32 where "AP_USER_RW = 3"

definition ap_bits :: "u32 \<Rightarrow> u32" where
  "ap_bits prot =
     (if prot AND VM_PROT_USER \<noteq> 0 then if prot AND PROT_WRITE \<noteq> 0 then AP_USER_RW else AP_USER_RO
      else AP_KERNEL_RW)"

definition l1_section_desc :: "PhysAddr \<Rightarrow> u32 \<Rightarrow> VirtMemType \<Rightarrow> u32" where
  "l1_section_desc pa prot memtype =
     (pa AND L1_SECTION_BASE_MASK) OR DESC_SECTION OR push_bit 10 (ap_bits prot)
     OR (if prot AND PROT_EXEC = 0 then MMU_BIT 4 else 0)
     OR (if prot AND VM_PROT_USER \<noteq> 0 then MMU_BIT 17 else 0)
     OR (case memtype of
           VM_MEM_DEVICE \<Rightarrow> MMU_BIT 2
         | VM_MEM_NORMAL_NC \<Rightarrow> push_bit 12 1 OR MMU_BIT 16
         | VM_MEM_NORMAL \<Rightarrow> (push_bit 12 1 OR MMU_BIT 3 OR MMU_BIT 2) OR MMU_BIT 16)"

definition l2_page_desc :: "PhysAddr \<Rightarrow> u32 \<Rightarrow> VirtMemType \<Rightarrow> u32" where
  "l2_page_desc pa prot memtype =
     (pa AND L2_SMALL_BASE_MASK) OR L2_SMALL_TAG OR push_bit 4 (ap_bits prot)
     OR (if prot AND PROT_EXEC = 0 then MMU_BIT 0 else 0)
     OR (if prot AND VM_PROT_USER \<noteq> 0 then MMU_BIT 11 else 0)
     OR (case memtype of
           VM_MEM_DEVICE \<Rightarrow> MMU_BIT 2
         | VM_MEM_NORMAL_NC \<Rightarrow> push_bit 6 1 OR MMU_BIT 10
         | VM_MEM_NORMAL \<Rightarrow> (push_bit 6 1 OR MMU_BIT 3 OR MMU_BIT 2) OR MMU_BIT 10)"

definition l1_section_set_prot :: "u32 \<Rightarrow> u32 \<Rightarrow> u32" where
  "l1_section_set_prot e prot =
     (e AND NOT (push_bit 10 3 OR MMU_BIT 15 OR MMU_BIT 4)) OR push_bit 10 (ap_bits prot)
     OR (if prot AND PROT_EXEC = 0 then MMU_BIT 4 else 0)"

definition l2_page_set_prot :: "u32 \<Rightarrow> u32 \<Rightarrow> u32" where
  "l2_page_set_prot e prot =
     (e AND NOT (push_bit 4 3 OR MMU_BIT 9 OR MMU_BIT 0)) OR push_bit 4 (ap_bits prot)
     OR (if prot AND PROT_EXEC = 0 then MMU_BIT 0 else 0)"

definition l1_entry_count :: "AddressSpaceType \<Rightarrow> nat" where
  "l1_entry_count ty = (if ty = ADDRESS_SPACE_USER then L1_ENTRIES_USER else L1_ENTRIES_KERNEL)"

definition ArchMmuMakeL1Pte :: "PhysAddr \<Rightarrow> u32" where
  "ArchMmuMakeL1Pte l2_pa = (if l2_pa = 0 then 0 else (l2_pa AND L1_L2PTR_BASE_MASK) OR DESC_L2)"

section \<open>The pool of second-level tables\<close>

record L2PtPoolEntry =
  page_pa :: PhysAddr
  used_mask :: u8

record Mmu =
  l1 :: "u32 list"
  l2 :: "PhysAddr \<Rightarrow> u32 list"
  pool :: "L2PtPoolEntry list"
  frames :: "PhysAddr list"
  returned :: "PhysAddr list"

text \<open>The first page with a free slot, and its first free slot.\<close>

fun pool_find :: "nat \<Rightarrow> L2PtPoolEntry list \<Rightarrow> (nat \<times> nat) option" where
  "pool_find i [] = None"
| "pool_find i (e # es) =
     (if used_mask e = 15 then pool_find (Suc i) es
      else case find (\<lambda>slot. used_mask e AND push_bit slot 1 = 0) [0..<4] of
             Some slot \<Rightarrow> Some (i, slot)
           | None \<Rightarrow> pool_find (Suc i) es)"

definition take_frame :: "Mmu \<Rightarrow> PhysAddr \<times> Mmu" where
  "take_frame m = (case frames m of [] \<Rightarrow> (0, m) | f # fs \<Rightarrow> (f, m\<lparr>frames := fs\<rparr>))"

text \<open>\<open>slab\<close> says whether a pool entry can be allocated.\<close>

definition L2PtPoolAlloc :: "bool \<Rightarrow> Mmu \<Rightarrow> PhysAddr \<times> Mmu" where
  "L2PtPoolAlloc slab m =
     (case pool_find 0 (pool m) of
        Some (i, slot) \<Rightarrow>
          let e = pool m ! i;
              pa = page_pa e + of_nat (slot * 1024)
          in (pa, m\<lparr>pool := (pool m)[i := e\<lparr>used_mask := used_mask e OR push_bit slot 1\<rparr>],
                    l2 := (l2 m)(pa := replicate L2_ENTRIES 0)\<rparr>)
      | None \<Rightarrow>
          let (pg, m) = take_frame m
          in if pg = 0 then (0, m)
             else if \<not> slab then (0, m\<lparr>returned := pg # returned m\<rparr>)
             else (pg, m\<lparr>pool := \<lparr>page_pa = pg, used_mask = 1\<rparr> # pool m,
                         l2 := (\<lambda>a. if a \<in> {pg, pg + 1024, pg + 2048, pg + 3072} then replicate L2_ENTRIES 0 else l2 m a)\<rparr>))"

fun pool_free :: "PhysAddr \<Rightarrow> nat \<Rightarrow> L2PtPoolEntry list \<Rightarrow> PhysAddr list \<times> L2PtPoolEntry list" where
  "pool_free pg slot [] = ([], [])"
| "pool_free pg slot (e # es) =
     (if page_pa e \<noteq> pg then let (r, es) = pool_free pg slot es in (r, e # es)
      else let e = e\<lparr>used_mask := used_mask e AND NOT (push_bit slot 1)\<rparr>
           in if used_mask e = 0 then ([pg], es) else ([], e # es))"

definition L2PtPoolFree :: "PhysAddr \<Rightarrow> Mmu \<Rightarrow> Mmu" where
  "L2PtPoolFree l2_pa m =
     (if l2_pa = 0 then m
      else let pg = l2_pa AND NOT (PAGE_SIZE - 1);
               slot = unat ((l2_pa AND (PAGE_SIZE - 1)) div 1024);
               (r, es) = pool_free pg slot (pool m)
           in m\<lparr>pool := es, returned := r @ returned m\<rparr>)"

section \<open>Walks\<close>

definition desc_type :: "u32 \<Rightarrow> u32" where
  "desc_type e = e AND DESC_TYPE_MASK"

definition l2_table :: "u32 \<Rightarrow> PhysAddr" where
  "l2_table e = e AND L1_L2PTR_BASE_MASK"

definition ArchMmuTranslate :: "Mmu \<Rightarrow> VirtAddr \<Rightarrow> PhysAddr" where
  "ArchMmuTranslate m va =
     (let e = l1 m ! L1_IDX va
      in if desc_type e = DESC_FAULT then 0
         else if desc_type e = DESC_SECTION \<or> desc_type e = DESC_SUPERSECTION
         then (e AND L1_SECTION_BASE_MASK) OR (va AND (SECTION_SIZE - 1))
         else if desc_type e = DESC_L2
         then let d = l2 m (l2_table e) ! L2_IDX va
              in if d AND L2_SMALL_TAG = 0 then 0 else (d AND L2_SMALL_BASE_MASK) OR (va AND (PAGE_SIZE - 1))
         else 0)"

definition ArchMmuBreakSection :: "bool \<Rightarrow> nat \<Rightarrow> Mmu \<Rightarrow> bool \<times> Mmu" where
  "ArchMmuBreakSection slab i m =
     (let s = l1 m ! i;
          section_pa = s AND L1_SECTION_BASE_MASK;
          xn = drop_bit 4 s AND 1;
          cb = drop_bit 2 s AND 3;
          ap = drop_bit 10 s AND 3;
          tex = drop_bit 12 s AND 7;
          ap2 = drop_bit 15 s AND 1;
          ng = drop_bit 17 s AND 1;
          sh = drop_bit 16 s AND 1;
          (l2_pa, m) = L2PtPoolAlloc slab m
      in if l2_pa = 0 then (False, m)
         else
           let attrs = push_bit 0 xn OR push_bit 2 cb OR push_bit 4 ap OR push_bit 6 tex
                       OR push_bit 10 sh OR push_bit 9 ap2 OR push_bit 11 ng;
               tbl = map (\<lambda>j. ((section_pa + of_nat j * PAGE_SIZE) AND L2_SMALL_BASE_MASK) OR L2_SMALL_TAG OR attrs)
                         [0..<L2_ENTRIES]
           in (True, m\<lparr>l2 := (l2 m)(l2_pa := tbl), l1 := (l1 m)[i := ArchMmuMakeL1Pte l2_pa]\<rparr>))"

definition put_l2 :: "PhysAddr \<Rightarrow> nat \<Rightarrow> u32 \<Rightarrow> Mmu \<Rightarrow> Mmu" where
  "put_l2 t j d m = m\<lparr>l2 := (l2 m)(t := (l2 m t)[j := d])\<rparr>"

definition ArchMmuMapPage ::
    "bool \<Rightarrow> AddressSpaceType \<Rightarrow> VirtAddr \<Rightarrow> PhysAddr \<Rightarrow> VirtMemType \<Rightarrow> u32 \<Rightarrow> Mmu \<Rightarrow> bool \<times> Mmu" where
  "ArchMmuMapPage slab ty va pa memtype prot m =
     (let i = L1_IDX va; j = L2_IDX va; e = l1 m ! i
      in if ty = ADDRESS_SPACE_USER \<and> va \<ge> USER_VA_TOP then (False, m)
         else if i \<ge> l1_entry_count ty then (False, m)
         else if desc_type e = DESC_FAULT
         then let (l2_pa, m) = L2PtPoolAlloc slab m
              in if l2_pa = 0 then (False, m)
                 else (True, put_l2 l2_pa j (l2_page_desc pa prot memtype)
                               (m\<lparr>l1 := (l1 m)[i := ArchMmuMakeL1Pte l2_pa]\<rparr>))
         else if desc_type e = DESC_L2
         then (True, put_l2 (l2_table e) j (l2_page_desc pa prot memtype) m)
         else let (ok, m) = ArchMmuBreakSection slab i m
              in if \<not> ok then (False, m)
                 else (True, put_l2 (l2_table (l1 m ! i)) j (l2_page_desc pa prot memtype) m))"

definition ArchMmuUnmapPage :: "VirtAddr \<Rightarrow> Mmu \<Rightarrow> bool \<times> Mmu" where
  "ArchMmuUnmapPage va m =
     (let e = l1 m ! L1_IDX va; t = l2_table e; j = L2_IDX va
      in if desc_type e \<noteq> DESC_L2 then (False, m)
         else if l2 m t ! j = 0 then (False, m)
         else (True, put_l2 t j 0 m))"

section \<open>Ranges\<close>

text \<open>The loops over the sections or pages of a range; the mapping loop stops at the first page that fails.\<close>

fun map_sections :: "AddressSpaceType \<Rightarrow> VirtAddr \<Rightarrow> PhysAddr \<Rightarrow> u32 \<Rightarrow> VirtMemType \<Rightarrow> nat list \<Rightarrow> Mmu \<Rightarrow> bool \<times> Mmu" where
  "map_sections ty va pa prot memtype [] m = (True, m)"
| "map_sections ty va pa prot memtype (n # ns) m =
     (let i = L1_IDX (va + of_nat n * SECTION_SIZE)
      in if i \<ge> l1_entry_count ty then (False, m)
         else map_sections ty va pa prot memtype ns
                (m\<lparr>l1 := (l1 m)[i := l1_section_desc (pa + of_nat n * SECTION_SIZE) prot memtype]\<rparr>))"

fun map_pages :: "bool \<Rightarrow> AddressSpaceType \<Rightarrow> VirtAddr \<Rightarrow> PhysAddr \<Rightarrow> u32 \<Rightarrow> VirtMemType \<Rightarrow> nat list \<Rightarrow> Mmu \<Rightarrow> nat option \<times> Mmu" where
  "map_pages slab ty va pa prot memtype [] m = (None, m)"
| "map_pages slab ty va pa prot memtype (n # ns) m =
     (let (ok, m) = ArchMmuMapPage slab ty (va + of_nat n * PAGE_SIZE) (pa + of_nat n * PAGE_SIZE) memtype prot m
      in if ok then map_pages slab ty va pa prot memtype ns m else (Some n, m))"

fun unmap_pages :: "VirtAddr \<Rightarrow> nat list \<Rightarrow> Mmu \<Rightarrow> bool \<times> Mmu" where
  "unmap_pages va [] m = (False, m)"
| "unmap_pages va (n # ns) m =
     (let (a, m) = ArchMmuUnmapPage (va + of_nat n * PAGE_SIZE) m; (b, m) = unmap_pages va ns m in (a \<or> b, m))"

fun unmap_sections :: "VirtAddr \<Rightarrow> nat list \<Rightarrow> Mmu \<Rightarrow> bool \<times> Mmu" where
  "unmap_sections va [] m = (False, m)"
| "unmap_sections va (n # ns) m =
     (let i = L1_IDX (va + of_nat n * SECTION_SIZE); e = l1 m ! i
      in if e = 0 then unmap_sections va ns m
         else let m = m\<lparr>l1 := (l1 m)[i := 0]\<rparr>;
                  m = (if desc_type e = DESC_L2 then L2PtPoolFree (l2_table e) m else m);
                  (_, m) = unmap_sections va ns m
              in (True, m))"

definition ArchMmuMap ::
    "bool \<Rightarrow> AddressSpaceType \<Rightarrow> VirtAddr \<Rightarrow> PhysAddr \<Rightarrow> u32 \<Rightarrow> u32 \<Rightarrow> VirtMemType \<Rightarrow> Mmu \<Rightarrow> bool \<times> Mmu" where
  "ArchMmuMap slab ty va pa sz prot memtype m =
     (if sz = 0 then (False, m)
      else if ty = ADDRESS_SPACE_USER \<and> (va \<ge> USER_VA_TOP \<or> sz > USER_VA_TOP - va) then (False, m)
      else if va mod SECTION_SIZE = 0 \<and> pa mod SECTION_SIZE = 0 \<and> sz mod SECTION_SIZE = 0
      then map_sections ty va pa prot memtype [0..<unat (sz div SECTION_SIZE)] m
      else if va mod PAGE_SIZE = 0 \<and> pa mod PAGE_SIZE = 0 \<and> sz mod PAGE_SIZE = 0
      then (case map_pages slab ty va pa prot memtype [0..<unat (sz div PAGE_SIZE)] m of
              (None, m) \<Rightarrow> (True, m)
            | (Some n, m) \<Rightarrow> (False, snd (unmap_pages va [0..<n] m)))
      else (False, m))"

definition ArchMmuUnmap :: "VirtAddr \<Rightarrow> u32 \<Rightarrow> Mmu \<Rightarrow> bool \<times> Mmu" where
  "ArchMmuUnmap va sz m =
     (if sz = 0 then (False, m)
      else if va mod SECTION_SIZE = 0 \<and> sz mod SECTION_SIZE = 0
      then unmap_sections va [0..<unat (sz div SECTION_SIZE)] m
      else if va mod PAGE_SIZE = 0 \<and> sz mod PAGE_SIZE = 0
      then unmap_pages va [0..<unat (sz div PAGE_SIZE)] m
      else (False, m))"

text \<open>
  \<open>ArchMmuProtect\<close>: the offset advances by a page, or by a section where a section is found. The offset
  is a number: for the ranges of an address space, below 2 GiB, it stays below \<open>2 ^ 32\<close>.
\<close>

function protect_loop :: "VirtAddr \<Rightarrow> nat \<Rightarrow> nat \<Rightarrow> u32 \<Rightarrow> Mmu \<Rightarrow> bool \<times> Mmu" where
  "protect_loop va off sz prot m =
     (if off \<ge> sz then (False, m)
      else
        let curr = va + of_nat off; i = L1_IDX curr; e = l1 m ! i
        in if desc_type e = DESC_SECTION
           then (True, snd (protect_loop va (off + unat SECTION_SIZE) sz prot
                              (m\<lparr>l1 := (l1 m)[i := l1_section_set_prot e prot]\<rparr>)))
           else if desc_type e = DESC_L2
           then let t = l2_table e; j = L2_IDX curr; d = l2 m t ! j
                in if d AND L2_SMALL_TAG = 0 then protect_loop va (off + unat PAGE_SIZE) sz prot m
                   else (True, snd (protect_loop va (off + unat PAGE_SIZE) sz prot (put_l2 t j (l2_page_set_prot d prot) m)))
           else protect_loop va (off + unat PAGE_SIZE) sz prot m)"
  by pat_completeness auto
termination
  by (relation "measure (\<lambda>(va, off, sz, prot, m). sz - off)") (auto simp: SECTION_SIZE_def)

declare protect_loop.simps [simp del]

definition ArchMmuProtect :: "VirtAddr \<Rightarrow> u32 \<Rightarrow> u32 \<Rightarrow> Mmu \<Rightarrow> bool \<times> Mmu" where
  "ArchMmuProtect va sz prot m = (if sz = 0 then (False, m) else protect_loop va 0 (unat sz) prot m)"

end
