(* ===== verification/Vmm.thy ===== *)
theory Vmm
  imports Mmu Handle
begin

text \<open>
  Address spaces: \<open>kernel/mm/vmm/vmm_region.c\<close>, \<open>vmm_map.c\<close> and \<open>vmm_user.c\<close>, with \<open>klib/bsearch.c\<close>. The
  vector of regions is the list of its elements and its capacity. Memory objects and handle tables are
  those of the kernel state; the frame a page fault takes, and whether a vector can grow or the pool of
  second-level tables can take a record, are arguments.
\<close>

section \<open>Regions\<close>

datatype VirtMemBacking = VM_BACKING_NONE | VM_BACKING_ANON | VM_BACKING_SHARED

definition VM_FLAG_PINNED :: u32 where "VM_FLAG_PINNED = 1"
definition VM_FLAG_GUARD :: u32 where "VM_FLAG_GUARD = 4"
definition USER_MMAP_BASE :: u32 where "USER_MMAP_BASE = 0x20000000"
definition USER_DEVICE_BASE :: u32 where "USER_DEVICE_BASE = 0x7F000000"
definition USER_DEVICE_LIMIT :: u32 where "USER_DEVICE_LIMIT = 0x7F7FE000"

lemmas vmm_consts [const_defs] = VM_FLAG_PINNED_def VM_FLAG_GUARD_def USER_MMAP_BASE_def USER_DEVICE_BASE_def USER_DEVICE_LIMIT_def

record VirtMemRegion =
  vaddr_start :: VirtAddr
  vm_size :: u32
  vm_prot :: u32
  max_prot :: u32
  memtype :: VirtMemType
  vm_owner :: VirtMemBacking
  vm_flags :: u32
  backing :: MemPtr
  backing_page_offset :: u32

record AddressSpace =
  regions :: "VirtMemRegion list"
  regions_cap :: nat
  as_type :: AddressSpaceType
  tables :: Mmu

text \<open>\<open>bsearch\<close> over the elements of an array: the index of the element found. The comparison is of the key with the element.\<close>

function bsearch_loop :: "('a \<Rightarrow> int) \<Rightarrow> 'a list \<Rightarrow> nat \<Rightarrow> nat \<Rightarrow> nat option" where
  "bsearch_loop compar xs lo hi =
     (if lo < hi
      then let mid = (lo + hi) div 2; c = compar (xs ! mid)
           in if c = 0 then Some mid
              else if c < 0 then bsearch_loop compar xs lo mid
              else bsearch_loop compar xs (mid + 1) hi
      else None)"
  by pat_completeness auto
termination
  by (relation "measure (\<lambda>(c, xs, lo, hi). hi - lo)") auto

declare bsearch_loop.simps [simp del]

definition bsearch :: "('a \<Rightarrow> int) \<Rightarrow> 'a list \<Rightarrow> nat option" where
  "bsearch compar xs = bsearch_loop compar xs 0 (length xs)"

definition RegionContainsVa :: "VirtAddr \<Rightarrow> VirtMemRegion \<Rightarrow> int" where
  "RegionContainsVa va r =
     (if va < vaddr_start r then - 1 else if va - vaddr_start r \<ge> vm_size r then 1 else 0)"

definition RegionCmpStart :: "VirtAddr \<Rightarrow> VirtMemRegion \<Rightarrow> int" where
  "RegionCmpStart va r = (if va < vaddr_start r then - 1 else if va > vaddr_start r then 1 else 0)"

definition VmmFindRegion :: "AddressSpace \<Rightarrow> VirtAddr \<Rightarrow> nat option" where
  "VmmFindRegion as va = bsearch (RegionContainsVa va) (regions as)"

text \<open>The insertion point of \<open>VmmAddRegion\<close>.\<close>

function insert_point :: "VirtMemRegion list \<Rightarrow> VirtAddr \<Rightarrow> nat \<Rightarrow> nat \<Rightarrow> nat" where
  "insert_point rs start lo hi =
     (if lo < hi
      then let mid = lo + (hi - lo) div 2
           in if vaddr_start (rs ! mid) \<le> start then insert_point rs start (mid + 1) hi
              else insert_point rs start lo mid
      else lo)"
  by pat_completeness auto
termination
  by (relation "measure (\<lambda>(rs, start, lo, hi). hi - lo)") auto

declare insert_point.simps [simp del]

definition rwx :: u32 where
  "rwx = PROT_READ OR PROT_WRITE OR PROT_EXEC"

definition VmmAddRegion :: "bool \<Rightarrow> VirtMemRegion \<Rightarrow> AddressSpace \<Rightarrow> Kernel \<Rightarrow> bool \<times> AddressSpace \<times> Kernel" where
  "VmmAddRegion grow region as k =
     (let rs = regions as;
          new_start = vaddr_start region;
          new_end = new_start + vm_size region;
          ins = insert_point rs new_start 0 (length rs)
      in if vm_size region = 0 then (False, as, k)
         else if ins > 0 \<and> vaddr_start (rs ! (ins - 1)) + vm_size (rs ! (ins - 1)) > new_start then (False, as, k)
         else if ins < length rs \<and> new_end > vaddr_start (rs ! ins) then (False, as, k)
         else if length rs \<ge> regions_cap as \<and> \<not> grow then (False, as, k)
         else
           let as = (if length rs \<ge> regions_cap as then as\<lparr>regions_cap := regions_cap as * 2\<rparr> else as);
               r = (if max_prot region = 0 then region\<lparr>max_prot := vm_prot region AND rwx\<rparr> else region)
           in (True, as\<lparr>regions := take ins rs @ r # drop ins rs\<rparr>, MemObjRef (backing region) k))"

text \<open>The gap search of \<open>VmmFindFreeVa\<close>.\<close>

fun find_gap :: "VirtMemRegion list \<Rightarrow> VirtAddr \<Rightarrow> VirtAddr \<Rightarrow> u32 \<Rightarrow> VirtAddr" where
  "find_gap [] cand hi sz = (if hi - cand \<ge> sz then cand else 0)"
| "find_gap (r # rs) cand hi sz =
     (let r_start = vaddr_start r;
          r_end = align_up (r_start + vm_size r) PAGE_SIZE
      in if r_end \<le> cand then find_gap rs cand hi sz
         else if r_start \<ge> hi then (if hi - cand \<ge> sz then cand else 0)
         else if r_start > cand \<and> r_start - cand \<ge> sz then cand
         else if r_end \<ge> hi then 0
         else find_gap rs r_end hi sz)"

definition VmmFindFreeVa :: "AddressSpace \<Rightarrow> VirtAddr \<Rightarrow> VirtAddr \<Rightarrow> u32 \<Rightarrow> VirtAddr" where
  "VmmFindFreeVa as lo hi sz =
     (if sz = 0 \<or> lo \<ge> hi \<or> sz > hi - lo then 0 else find_gap (regions as) lo hi sz)"

section \<open>Mapping\<close>

definition VmmMapRange ::
    "bool \<Rightarrow> VirtAddr \<Rightarrow> PhysAddr \<Rightarrow> u32 \<Rightarrow> u32 \<Rightarrow> VirtMemType \<Rightarrow> AddressSpace \<Rightarrow> bool \<times> AddressSpace" where
  "VmmMapRange slab va pa sz prot mt as =
     (if sz = 0 \<or> va mod 0x1000 \<noteq> 0 \<or> pa mod 0x1000 \<noteq> 0 then (False, as)
      else if va > - 1 - sz then (False, as)
      else if as_type as = ADDRESS_SPACE_USER \<and> prot AND PROT_WRITE \<noteq> 0 \<and> prot AND PROT_EXEC \<noteq> 0 then (False, as)
      else if as_type as = ADDRESS_SPACE_USER \<and> (va \<ge> USER_VA_TOP \<or> va + sz > USER_VA_TOP) then (False, as)
      else let (ok, m) = ArchMmuMap slab (as_type as) va pa sz prot mt (tables as) in (ok, as\<lparr>tables := m\<rparr>))"

definition VmmUnmapRange :: "VirtAddr \<Rightarrow> u32 \<Rightarrow> AddressSpace \<Rightarrow> bool \<times> AddressSpace" where
  "VmmUnmapRange va sz as =
     (if sz = 0 \<or> va mod PAGE_SIZE \<noteq> 0 \<or> sz mod PAGE_SIZE \<noteq> 0 then (False, as)
      else let (ok, m) = ArchMmuUnmap va sz (tables as) in (ok, as\<lparr>tables := m\<rparr>))"

definition VmmMapUserPage :: "bool \<Rightarrow> PhysAddr \<Rightarrow> VirtAddr \<Rightarrow> u32 \<Rightarrow> AddressSpace \<Rightarrow> bool \<times> AddressSpace" where
  "VmmMapUserPage slab pa va prot as =
     (if as_type as \<noteq> ADDRESS_SPACE_USER \<or> pa mod PAGE_SIZE \<noteq> 0 \<or> va mod PAGE_SIZE \<noteq> 0 then (False, as)
      else VmmMapRange slab va pa PAGE_SIZE (prot OR VM_PROT_USER) VM_MEM_NORMAL as)"

definition VmmRemoveRegion :: "VirtAddr \<Rightarrow> u32 \<Rightarrow> AddressSpace \<Rightarrow> Kernel \<Rightarrow> (bool \<times> AddressSpace \<times> Kernel) option" where
  "VmmRemoveRegion va sz as k =
     (if sz = 0 then Some (False, as, k)
      else case bsearch (RegionCmpStart va) (regions as) of
             None \<Rightarrow> Some (False, as, k)
           | Some i \<Rightarrow>
               if vm_size (regions as ! i) \<noteq> sz then Some (False, as, k)
               else do {
                 let b = backing (regions as ! i);
                 let as = snd (VmmUnmapRange va sz as);
                 let as = as\<lparr>regions := take i (regions as) @ drop (Suc i) (regions as)\<rparr>;
                 k \<leftarrow> MemObjUnref b k;
                 Some (True, as, k) })"

definition upd_region :: "nat \<Rightarrow> (VirtMemRegion \<Rightarrow> VirtMemRegion) \<Rightarrow> AddressSpace \<Rightarrow> AddressSpace" where
  "upd_region i f as = as\<lparr>regions := (regions as)[i := f (regions as ! i)]\<rparr>"

definition VmmProtectPage :: "VirtAddr \<Rightarrow> u32 \<Rightarrow> u32 \<Rightarrow> AddressSpace \<Rightarrow> bool \<times> AddressSpace" where
  "VmmProtectPage va sz new_prot as =
     (if sz = 0 then (False, as)
      else case VmmFindRegion as va of
             None \<Rightarrow> (False, as)
           | Some i \<Rightarrow>
               let r = regions as ! i
               in if va + sz > vaddr_start r + vm_size r then (False, as)
                  else if memtype r = VM_MEM_DEVICE \<and> new_prot AND PROT_EXEC \<noteq> 0 then (False, as)
                  else if memtype r = VM_MEM_NORMAL_NC \<and> new_prot AND PROT_EXEC \<noteq> 0 then (False, as)
                  else if vm_flags r AND VM_FLAG_PINNED \<noteq> 0 then (False, as)
                  else (True, upd_region i (\<lambda>r. r\<lparr>vm_prot := new_prot\<rparr>)
                                (as\<lparr>tables := snd (ArchMmuProtect va sz new_prot (tables as))\<rparr>)))"

definition VmmRegionProt :: "AddressSpace \<Rightarrow> VirtAddr \<Rightarrow> u32 option" where
  "VmmRegionProt as va = map_option (\<lambda>i. vm_prot (regions as ! i)) (VmmFindRegion as va)"

definition VmmRegionLimitProt :: "VirtAddr \<Rightarrow> u32 \<Rightarrow> AddressSpace \<Rightarrow> bool \<times> AddressSpace" where
  "VmmRegionLimitProt va allowed as =
     (case VmmFindRegion as va of
        None \<Rightarrow> (False, as)
      | Some i \<Rightarrow> (True, upd_region i (\<lambda>r. r\<lparr>max_prot := max_prot r AND allowed\<rparr>) as))"

section \<open>Demand paging\<close>

definition FreedPage :: "PhysAddr \<Rightarrow> Kernel \<Rightarrow> Kernel" where
  "FreedPage pa k = k\<lparr>freed := FreedFrame pa # freed k\<rparr>"

definition set_page :: "MemPtr \<Rightarrow> nat \<Rightarrow> PhysAddr \<Rightarrow> Kernel \<Rightarrow> Kernel" where
  "set_page m i pa = upd_mem m (\<lambda>x. x\<lparr>shm_page_addrs := (shm_page_addrs x)[i := pa]\<rparr>)"

text \<open>\<open>fr\<close> is the frame \<open>PmmAllocFrame\<close> returns, 0 when there is none.\<close>

definition VmmPageFaultHandle ::
    "bool \<Rightarrow> PhysAddr \<Rightarrow> VirtMemRegion \<Rightarrow> VirtAddr \<Rightarrow> AddressSpace \<Rightarrow> Kernel \<Rightarrow> bool \<times> AddressSpace \<times> Kernel" where
  "VmmPageFaultHandle slab fr r page_va as k =
     (let m = backing r;
          i = unat ((page_va - vaddr_start r) div PAGE_SIZE + backing_page_offset r)
      in if ArchMmuTranslate (tables as) page_va \<noteq> 0 then (True, as, k)
         else if memtype r = VM_MEM_DEVICE then (False, as, k)
         else if vm_owner r = VM_BACKING_SHARED \<and> m \<noteq> NULL
         then if page_va < vaddr_start r then (False, as, k)
              else if i \<ge> unat (shm_page_count (mems k m)) then (False, as, k)
              else
                let old = shm_page_addrs (mems k m) ! i
                in if old \<noteq> 0
                   then let (ok, as) = VmmMapRange slab page_va old PAGE_SIZE (vm_prot r) (memtype r) as in (ok, as, k)
                   else if fr = 0 then (False, as, k)
                   else let (ok, as) = VmmMapRange slab page_va fr PAGE_SIZE (vm_prot r) (memtype r) as
                        in if ok then (True, as, set_page m i fr k)
                           else (False, as, FreedPage fr k)
         else if vm_owner r = VM_BACKING_ANON
         then if fr = 0 then (False, as, k)
              else let (ok, as) = VmmMapRange slab page_va fr PAGE_SIZE (vm_prot r) (memtype r) as
                   in if ok then (True, as, k) else (False, as, FreedPage fr k)
         else (False, as, k))"

text \<open>The first region that contains the address and may serve the fault.\<close>

fun demand_region :: "u32 \<Rightarrow> u32 \<Rightarrow> VirtMemRegion list \<Rightarrow> VirtMemRegion option" where
  "demand_region dfar dfsr [] = None"
| "demand_region dfar dfsr (r # rs) =
     (if dfar \<ge> vaddr_start r \<and> dfar < vaddr_start r + vm_size r
         \<and> vm_flags r AND VM_FLAG_GUARD = 0 \<and> memtype r \<noteq> VM_MEM_DEVICE
         \<and> \<not> (dfsr AND push_bit 11 1 = 0 \<and> vm_prot r AND PROT_READ = 0)
         \<and> \<not> (dfsr AND push_bit 11 1 \<noteq> 0 \<and> vm_prot r AND PROT_WRITE = 0)
      then Some r else demand_region dfar dfsr rs)"

definition ServiceDemandPage :: "bool \<Rightarrow> PhysAddr \<Rightarrow> u32 \<Rightarrow> u32 \<Rightarrow> AddressSpace \<Rightarrow> Kernel \<Rightarrow> bool \<times> AddressSpace \<times> Kernel" where
  "ServiceDemandPage slab fr dfar dfsr as k =
     (case demand_region dfar dfsr (regions as) of
        None \<Rightarrow> (False, as, k)
      | Some r \<Rightarrow> VmmPageFaultHandle slab fr r (align_down dfar PAGE_SIZE) as k)"

text \<open>\<open>VmmCheckUserFault\<close>: the pages of the range in order; page \<open>n\<close> takes the frame \<open>fr n\<close>.\<close>

fun check_pages :: "bool \<Rightarrow> (nat \<Rightarrow> PhysAddr) \<Rightarrow> bool \<Rightarrow> VirtAddr \<Rightarrow> nat list \<Rightarrow> AddressSpace \<Rightarrow> Kernel \<Rightarrow> bool \<times> AddressSpace \<times> Kernel" where
  "check_pages slab fr write va [] as k = (True, as, k)"
| "check_pages slab fr write va (n # ns) as k =
     (let page_va = va + of_nat n * PAGE_SIZE
      in if ArchMmuTranslate (tables as) page_va \<noteq> 0 then check_pages slab fr write va ns as k
         else case VmmFindRegion as page_va of
                None \<Rightarrow> (False, as, k)
              | Some i \<Rightarrow>
                  let r = regions as ! i
                  in if vm_flags r AND VM_FLAG_GUARD \<noteq> 0 then (False, as, k)
                     else if vm_prot r AND PROT_READ = 0 then (False, as, k)
                     else if write \<and> vm_prot r AND PROT_WRITE = 0 then (False, as, k)
                     else case VmmPageFaultHandle slab (fr n) r page_va as k of
                            (ok, as, k) \<Rightarrow> if ok then check_pages slab fr write va ns as k else (False, as, k))"

definition VmmCheckUserFault ::
    "bool \<Rightarrow> (nat \<Rightarrow> PhysAddr) \<Rightarrow> VirtAddr \<Rightarrow> u32 \<Rightarrow> bool \<Rightarrow> AddressSpace \<Rightarrow> Kernel \<Rightarrow> bool \<times> AddressSpace \<times> Kernel" where
  "VmmCheckUserFault slab fr va len write as k =
     (let stop = va + len;
          page = align_down va PAGE_SIZE;
          end_va = align_up stop PAGE_SIZE
      in if len = 0 then (True, as, k)
         else if va > - 1 - len then (False, as, k)
         else if as_type as = ADDRESS_SPACE_USER \<and> (va \<ge> USER_VA_TOP \<or> stop > USER_VA_TOP) then (False, as, k)
         else check_pages slab fr write page
                (if page < end_va then [0..<unat ((end_va - page) div PAGE_SIZE)] else []) as k)"

end
