(* ===== verification/Space_Life.thy ===== *)
theory Space_Life
  imports Svc_Manage
begin

text \<open>
  Releasing handles and tearing spaces down: \<open>HandleRelease\<close> of \<open>kernel/space/handle.c\<close>, \<open>SpaceDestroy\<close> of
  \<open>kernel/space/space.c\<close>, the rest of \<open>svc_managehandle.c\<close>, \<open>svc_sleep.c\<close>, and the kernel entries for
  interrupts and user faults (\<open>arch/arm/exceptions/exception.c\<close>, \<open>arch/arm/irq/irq.c\<close>). The regions and
  page tables of an address space are not part of the kernel state of these theories; unmapping the
  region of a released memory handle and freeing the pages of a dead space leave it unchanged.
\<close>

section \<open>Releasing a handle\<close>

definition HandleTableHoldsMem :: "HandleTable \<Rightarrow> MemPtr \<Rightarrow> nat \<Rightarrow> bool" where
  "HandleTableHoldsMem t m except =
     list_ex (\<lambda>i. case HandleTableGet t i of
                    None \<Rightarrow> False
                  | Some e \<Rightarrow> i \<noteq> except \<and> he_type e = HANDLE_MEM \<and> he_obj e = m) [0..<HANDLE_MAX_SLOTS]"

definition MemObjUnmapAndDrop :: "MemPtr \<Rightarrow> Kernel \<Rightarrow> Kernel option" where
  "MemObjUnmapAndDrop m k = MemObjUnref m k"

definition release_object :: "SpacePtr \<Rightarrow> nat \<Rightarrow> HandleTableEntry \<Rightarrow> Kernel \<Rightarrow> Kernel option" where
  "release_object sp i e k =
     (case he_type e of
        HANDLE_PORT \<Rightarrow> PortUnref (he_obj e) k
      | HANDLE_EVENT \<Rightarrow> EventUnref (he_obj e) k
      | HANDLE_MEM \<Rightarrow> do {
          let m = he_obj e;
          let device = (m \<noteq> NULL \<and> mem_kind (mems k m) = MEMKIND_DEVICE);
          let irq = (if device then dev_irq (mems k m) else 0);
          k \<leftarrow> MemObjUnmapAndDrop m k;
          if device \<and> \<not> HandleTableHoldsMem (handle_table (spaces k sp)) m i
          then IrqRelease sp (unat irq) k else Some k }
      | HANDLE_TASK \<Rightarrow> TaskUnref (he_obj e) k
      | HANDLE_SPACE \<Rightarrow> SpaceUnref (he_obj e) k
      | HANDLE_FREE \<Rightarrow> Some k)"

text \<open>\<open>HandleRelease\<close> on the entry in slot \<open>i\<close> of the table of \<open>sp\<close>.\<close>

definition HandleRelease :: "SpacePtr \<Rightarrow> nat \<Rightarrow> HandleTableEntry \<Rightarrow> Kernel \<Rightarrow> Kernel option" where
  "HandleRelease sp i e k =
     (if he_type e = HANDLE_FREE then Some k
      else do {
        k \<leftarrow> release_object sp i e k;
        Some (upd_space sp (\<lambda>x. x\<lparr>handle_table := HandleEntryFree (handle_table x) i\<rparr>) k) })"

section \<open>Tearing down a space\<close>

fun destroy_tasks :: "TaskPtr list \<Rightarrow> Kernel \<Rightarrow> Kernel option" where
  "destroy_tasks [] k = Some k"
| "destroy_tasks (t # rest) k = do {
     let k = TaskRef t k;
     k \<leftarrow> (if state (tasks k t) \<noteq> TASK_STATE_ZOMBIE then TaskTerminate t (err_code ERR_DEAD) k else Some k);
     k \<leftarrow> (if t \<noteq> current_task k then TaskDestroy t k else Some (SchedQueueDestroyTask t k));
     k \<leftarrow> TaskUnref t k;
     destroy_tasks rest k }"

fun release_handles :: "SpacePtr \<Rightarrow> nat list \<Rightarrow> Kernel \<Rightarrow> Kernel option" where
  "release_handles sp [] k = Some k"
| "release_handles sp (i # rest) k =
     (case HandleTableGet (handle_table (spaces k sp)) i of
        None \<Rightarrow> release_handles sp rest k
      | Some e \<Rightarrow>
          if he_type e = HANDLE_FREE then release_handles sp rest k
          else do {
            k \<leftarrow> (if he_type e = HANDLE_PORT \<and> he_obj e \<noteq> NULL
                    \<and> port_owner_spid (ports k (he_obj e)) = spid (spaces k sp)
                 then PortKill (he_obj e) k
                 else if he_type e = HANDLE_EVENT \<and> he_obj e \<noteq> NULL
                    \<and> ev_owner_spid (events k (he_obj e)) = spid (spaces k sp)
                 then EventKill (he_obj e) k
                 else Some k);
            k \<leftarrow> HandleRelease sp i e k;
            release_handles sp rest k })"

definition SpaceDestroy :: "SpacePtr \<Rightarrow> Kernel \<Rightarrow> Kernel option" where
  "SpaceDestroy sp k =
     (if sp = NULL \<or> torn_down (spaces k sp) then Some k
      else do {
        let k = upd_space sp (\<lambda>x. x\<lparr>torn_down := True, sp_ref_count := sp_ref_count x + 1\<rparr>) k;
        k \<leftarrow> destroy_tasks (space_tasks k sp) k;
        let k = drain_wait (\<lambda>t. TaskAbortWait t ERR_DEAD) (wait_q k (SpaceQ sp)) k;
        k \<leftarrow> IrqReleaseAll sp k;
        k \<leftarrow> release_handles sp [0..<HANDLE_MAX_SLOTS] k;
        let k = (if sp_as (spaces k sp) \<noteq> 0 then upd_space sp (\<lambda>x. x\<lparr>sp_as := 0\<rparr>) k else k);
        let k = upd_space sp (\<lambda>x. x\<lparr>handle_table := HandleTableDestroy (handle_table x)\<rparr>) k;
        let slot = unat (word_of_int (spid (spaces k sp)) :: u32) mod MAX_SPACES;
        let k = (if space_table k slot = sp then k\<lparr>space_table := (space_table k)(slot := NULL)\<rparr> else k);
        SpaceUnref sp k })"

section \<open>ManageHandle\<close>

datatype ManageHandleVerb =
    MNGHNDL_DUPLICATE | MNGHNDL_RESTRICT | MNGHNDL_CLOSE | MNGHNDL_QUERY | MNGHNDL_DESTROY
  | MNGHNDL_GRANT | MNGHNDL_IRQ_REARM

definition handle_verb :: "u32 \<Rightarrow> ManageHandleVerb option" where
  "handle_verb v =
     (let vs = [MNGHNDL_DUPLICATE, MNGHNDL_RESTRICT, MNGHNDL_CLOSE, MNGHNDL_QUERY, MNGHNDL_DESTROY,
                MNGHNDL_GRANT, MNGHNDL_IRQ_REARM]
      in if unat v < length vs then Some (vs ! unat v) else None)"

definition MngHandleClose :: "nat \<Rightarrow> HandleTableEntry \<Rightarrow> Kernel \<Rightarrow> Kernel option" where
  "MngHandleClose i e k =
     (if he_type e = HANDLE_SPACE \<and> he_obj e = NULL then ret_err ERR_BADHANDLE k
      else if he_type e = HANDLE_SPACE \<and> SpaceIsSelfOrAncestor (CURRENT_SPACE k) (he_obj e) k
      then ret_err ERR_BADARG k
      else do {
        k \<leftarrow> HandleRelease (CURRENT_SPACE k) i e k;
        ret_err ZUZU_OK k })"

definition MngHandleDestroy :: "nat \<Rightarrow> HandleTableEntry \<Rightarrow> Kernel \<Rightarrow> Kernel option" where
  "MngHandleDestroy i e k =
     (let sp = CURRENT_SPACE k; ob = he_obj e
      in if he_type e = HANDLE_SPACE \<and> ob = NULL then ret_err ERR_BADHANDLE k
         else if he_type e = HANDLE_SPACE \<and> SpaceIsSelfOrAncestor sp ob k then ret_err ERR_BADARG k
         else do {
           k \<leftarrow> (if he_type e = HANDLE_SPACE then SpaceDestroy ob k
                else if he_type e = HANDLE_PORT \<and> ob \<noteq> NULL
                        \<and> port_owner_spid (ports k ob) = spid (spaces k sp) then PortKill ob k
                else if he_type e = HANDLE_EVENT \<and> ob \<noteq> NULL
                        \<and> ev_owner_spid (events k ob) = spid (spaces k sp) then EventKill ob k
                else Some k);
           k \<leftarrow> HandleRelease sp i e k;
           ret_err ZUZU_OK k })"

text \<open>\<open>prot\<close> is what \<open>VmmRegionProt\<close> reports of the mapping of the handle, for \<open>MNGHNDL_RESTRICT\<close>.\<close>

definition SvcManageHandle :: "bool \<Rightarrow> u32 option \<Rightarrow> Kernel \<Rightarrow> Kernel option" where
  "SvcManageHandle kz prot k =
     (let h = arg 0 k; sp = CURRENT_SPACE k
      in case HandleTableLookup (space_table_of sp k) h of
           None \<Rightarrow> ret_err ERR_BADHANDLE k
         | Some i \<Rightarrow>
             (case HandleTableGet (space_table_of sp k) i of
                None \<Rightarrow> ret_err ERR_BADHANDLE k
              | Some e \<Rightarrow>
                  (case handle_verb (arg 1 k) of
                     None \<Rightarrow> ret_err ERR_BADARG k
                   | Some MNGHNDL_DUPLICATE \<Rightarrow> MngHandleDuplicate kz e k
                   | Some MNGHNDL_RESTRICT \<Rightarrow> snd (MngHandleRestrict prot i e k)
                   | Some MNGHNDL_CLOSE \<Rightarrow> MngHandleClose i e k
                   | Some MNGHNDL_QUERY \<Rightarrow> MngHandleQuery e k
                   | Some MNGHNDL_DESTROY \<Rightarrow> MngHandleDestroy i e k
                   | Some MNGHNDL_GRANT \<Rightarrow> MngHandleGrant kz e k
                   | Some MNGHNDL_IRQ_REARM \<Rightarrow> MngHandleIrqRearm e k)))"

section \<open>Sleep\<close>

text \<open>
  \<open>SvcSleep\<close> up to the switch to the next task, and what is left of it when the sleeping task runs
  again.
\<close>

definition SvcSleep :: "Kernel \<Rightarrow> Kernel option" where
  "SvcSleep k =
     (let cur = current_task k;
          (dl, k) = ArchDeadlineFromMs (arg 0 k) k;
          k = upd_task cur (\<lambda>x. x\<lparr>wake_deadline := dl\<rparr>) k;
          k = upd_task cur (\<lambda>x. x\<lparr>state := TASK_STATE_BLOCKED\<rparr>) k
      in Schedule (SchedInsertSleepQueue cur k))"

definition sleep_resume :: "TaskPtr \<Rightarrow> Kernel \<Rightarrow> Kernel" where
  "sleep_resume t = ArchSetInFrame t 0 (err_reg ZUZU_OK)"

section \<open>Interrupts and faults\<close>

text \<open>\<open>ArchIrqDispatch\<close> for an acknowledged line: the timer's handler, or the relay's where registered.\<close>

definition ArmGenericTimerHandler :: "Kernel \<Rightarrow> Kernel" where
  "ArmGenericTimerHandler k = SchedTimerExpired (WriteCntvCtl 3 k)"

definition ArchIrqDispatch :: "nat \<Rightarrow> Kernel \<Rightarrow> Kernel option" where
  "ArchIrqDispatch irq k =
     (if irq = 1023 then Some k
      else if irq = TIMER_IRQ_VIRT then Some (ArmGenericTimerHandler k)
      else if irq < MAX_IRQS \<and> irq_registered k irq then RelayIrqHandler irq k
      else Some k)"

text \<open>The way out of the SVC and IRQ vectors of \<open>entry.S\<close>.\<close>

definition resched_exit :: "Kernel \<Rightarrow> Kernel option" where
  "resched_exit k = (if do_resched k then Schedule (k\<lparr>do_resched := False\<rparr>) else Some k)"

text \<open>A user fault that demand paging does not resolve; without a current space the kernel panics.\<close>

definition user_fault :: "int \<Rightarrow> Kernel \<Rightarrow> Kernel option" where
  "user_fault reason k = do {
     kassert (current_task k \<noteq> NULL \<and> CURRENT_SPACE k \<noteq> NULL);
     k \<leftarrow> TaskFault (current_task k) reason k;
     Schedule k }"

end
