(* ===== verification/Vmm_User.thy ===== *)
theory Vmm_User
  imports Vmm Space_Life
begin

text \<open>
  Operations on the address space of a user space: \<open>kernel/mm/vmm/vmm_user.c\<close>, the creation and the end of
  an address space in \<open>vmm_region.c\<close> and \<open>mmu.c\<close>, and \<open>MemObjUnmapAndDrop\<close> of \<open>mem_object.c\<close>.
\<close>

definition VM_MAP_LIMIT :: u32 where "VM_MAP_LIMIT = 32 * 1024 * 1024"

definition VmmMapAnon ::
    "bool \<Rightarrow> VirtAddr \<Rightarrow> u32 \<Rightarrow> u32 \<Rightarrow> AddressSpace \<Rightarrow> Kernel \<Rightarrow> (Err + VirtAddr) \<times> AddressSpace \<times> Kernel" where
  "VmmMapAnon grow hint sz prot as k =
     (if sz = 0 then (Inl ERR_BADARG, as, k)
      else if sz > VM_MAP_LIMIT then (Inl ERR_OVERFLOW, as, k)
      else if sz mod PAGE_SIZE \<noteq> 0 then (Inl ERR_BADARG, as, k)
      else if hint \<noteq> 0 \<and> hint mod PAGE_SIZE \<noteq> 0 then (Inl ERR_BADARG, as, k)
      else if hint \<noteq> 0 \<and> (hint \<ge> USER_VA_TOP \<or> sz > USER_VA_TOP - hint) then (Inl ERR_BADARG, as, k)
      else
        let va = (if hint \<noteq> 0 then hint else VmmFindFreeVa as USER_MMAP_BASE USER_DEVICE_BASE sz)
        in if va = 0 then (Inl ERR_NOMEM, as, k)
           else case VmmAddRegion grow \<lparr>vaddr_start = va, vm_size = sz, vm_prot = prot OR VM_PROT_USER, max_prot = rwx,
                       memtype = VM_MEM_NORMAL, vm_owner = VM_BACKING_ANON, vm_flags = 0, backing = NULL,
                       backing_page_offset = 0\<rparr> as k of
                  (ok, as, k) \<Rightarrow> (if ok then Inr va else Inl ERR_NOMEM, as, k))"

definition HandleProtLimit :: "u32 \<Rightarrow> u32" where
  "HandleProtLimit ps =
     PROT_READ OR (if ps AND PERM_WRITE \<noteq> 0 then PROT_WRITE else 0) OR (if ps AND PERM_EXEC \<noteq> 0 then PROT_EXEC else 0)"

text \<open>Slot \<open>i\<close> of the table of \<open>sp\<close> records where its object is mapped.\<close>

definition set_mapped :: "SpacePtr \<Rightarrow> nat \<Rightarrow> VirtAddr \<Rightarrow> Kernel \<Rightarrow> Kernel" where
  "set_mapped sp i va =
     upd_space sp (\<lambda>x. case HandleTableGet (handle_table x) i of
                         None \<Rightarrow> x
                       | Some e \<Rightarrow> x\<lparr>handle_table := put_entry (handle_table x) i (e\<lparr>mapped_va := va\<rparr>)\<rparr>)"

definition map_shared ::
    "bool \<Rightarrow> SpacePtr \<Rightarrow> nat \<Rightarrow> HandleTableEntry \<Rightarrow> u32 \<Rightarrow> VirtAddr \<Rightarrow> AddressSpace \<Rightarrow> Kernel \<Rightarrow> (Err + VirtAddr) \<times> AddressSpace \<times> Kernel" where
  "map_shared grow sp i e prot hint as k =
     (let mem = mems k (he_obj e);
          sz = shm_page_count mem * PAGE_SIZE;
          va = (if hint = 0 then VmmFindFreeVa as USER_MMAP_BASE USER_DEVICE_BASE sz else hint)
      in if shm_flags mem AND MEM_UNCACHED \<noteq> 0 \<and> prot AND PROT_EXEC \<noteq> 0 then (Inl ERR_NOPERM, as, k)
         else if hint \<noteq> 0 \<and> hint mod PAGE_SIZE \<noteq> 0 then (Inl ERR_BADARG, as, k)
         else if hint \<noteq> 0 \<and> \<not> (hint \<ge> USER_MMAP_BASE \<and> hint < USER_DEVICE_BASE \<and> sz \<le> USER_DEVICE_BASE - hint)
         then (Inl ERR_BADARG, as, k)
         else if va = 0 then (Inl ERR_NOMEM, as, k)
         else case VmmAddRegion grow \<lparr>vaddr_start = va, vm_size = sz, vm_prot = prot OR VM_PROT_USER,
                     max_prot = HandleProtLimit (perms e),
                     memtype = (if shm_flags mem AND MEM_UNCACHED \<noteq> 0 then VM_MEM_NORMAL_NC else VM_MEM_NORMAL),
                     vm_owner = VM_BACKING_SHARED, vm_flags = 0, backing = he_obj e, backing_page_offset = 0\<rparr> as k of
                (ok, as, k) \<Rightarrow> if ok then (Inr va, as, set_mapped sp i va k) else (Inl ERR_NOMEM, as, k))"

definition map_device ::
    "bool \<Rightarrow> bool \<Rightarrow> SpacePtr \<Rightarrow> nat \<Rightarrow> HandleTableEntry \<Rightarrow> u32 \<Rightarrow> VirtAddr \<Rightarrow> AddressSpace \<Rightarrow> Kernel \<Rightarrow> (Err + VirtAddr) \<times> AddressSpace \<times> Kernel" where
  "map_device grow slab sp i e prot hint as k =
     (let mem = mems k (he_obj e);
          sz = align_up (dev_size mem) PAGE_SIZE;
          va = (if hint = 0 then VmmFindFreeVa as USER_DEVICE_BASE USER_DEVICE_LIMIT sz else hint)
      in if hint \<noteq> 0 \<and> hint AND 0xFFF \<noteq> 0 then (Inl ERR_BADARG, as, k)
         else if hint \<noteq> 0 \<and> \<not> (hint \<ge> USER_DEVICE_BASE \<and> hint < USER_DEVICE_LIMIT \<and> sz \<le> USER_DEVICE_LIMIT - hint)
         then (Inl ERR_BADARG, as, k)
         else if va = 0 then (Inl ERR_NOMEM, as, k)
         else case VmmMapRange slab va (dev_phys_base mem) sz (prot OR VM_PROT_USER) VM_MEM_DEVICE as of
                (ok, as) \<Rightarrow>
                  if \<not> ok then (Inl ERR_NOMEM, as, k)
                  else case VmmAddRegion grow \<lparr>vaddr_start = va, vm_size = sz, vm_prot = prot OR VM_PROT_USER,
                              max_prot = HandleProtLimit (perms e), memtype = VM_MEM_DEVICE, vm_owner = VM_BACKING_NONE,
                              vm_flags = 0, backing = he_obj e, backing_page_offset = 0\<rparr> as k of
                         (ok, as, k) \<Rightarrow> if ok then (Inr va, as, set_mapped sp i va k)
                                        else (Inl ERR_NOMEM, snd (VmmUnmapRange va sz as), k))"

definition VmmMapMemObj ::
    "bool \<Rightarrow> bool \<Rightarrow> SpacePtr \<Rightarrow> nat \<Rightarrow> HandleTableEntry \<Rightarrow> u32 \<Rightarrow> VirtAddr \<Rightarrow> AddressSpace \<Rightarrow> Kernel \<Rightarrow> (Err + VirtAddr) \<times> AddressSpace \<times> Kernel" where
  "VmmMapMemObj grow slab sp i e prot hint as k =
     (if prot AND NOT (HandleProtLimit (perms e)) \<noteq> 0 then (Inl ERR_NOPERM, as, k)
      else if mapped_va e \<noteq> 0 then (Inl ERR_BUSY, as, k)
      else if he_obj e = NULL then (Inl ERR_BADHANDLE, as, k)
      else case mem_kind (mems k (he_obj e)) of
             MEMKIND_SHARED \<Rightarrow> map_shared grow sp i e prot hint as k
           | MEMKIND_DEVICE \<Rightarrow> map_device grow slab sp i e prot hint as k
           | MEMKIND_NONE \<Rightarrow> (Inl ERR_BADTYPE, as, k))"

text \<open>The pages of an anonymous region that are present go back to the allocator.\<close>

fun free_anon :: "VirtAddr \<Rightarrow> nat list \<Rightarrow> AddressSpace \<Rightarrow> Kernel \<Rightarrow> Kernel" where
  "free_anon va [] as k = k"
| "free_anon va (n # ns) as k =
     (let pa = ArchMmuTranslate (tables as) (va + of_nat n * PAGE_SIZE)
      in free_anon va ns as (if pa = 0 then k else FreedPage pa k))"

definition clear_mapped :: "SpacePtr \<Rightarrow> VirtAddr \<Rightarrow> Kernel \<Rightarrow> Kernel" where
  "clear_mapped sp va k =
     (case find (\<lambda>i. case HandleTableGet (handle_table (spaces k sp)) i of
                       None \<Rightarrow> False
                     | Some e \<Rightarrow> he_type e = HANDLE_MEM \<and> mapped_va e = va) [0..<HANDLE_MAX_SLOTS] of
        None \<Rightarrow> k
      | Some i \<Rightarrow> set_mapped sp i 0 k)"

definition VmmUnmapUserRegion :: "SpacePtr \<Rightarrow> VirtAddr \<Rightarrow> AddressSpace \<Rightarrow> Kernel \<Rightarrow> (Err \<times> AddressSpace \<times> Kernel) option" where
  "VmmUnmapUserRegion sp va as k =
     (case VmmFindRegion as va of
        None \<Rightarrow> Some (ERR_NOENT, as, k)
      | Some i \<Rightarrow>
          let r = regions as ! i
          in if vaddr_start r \<noteq> va then Some (ERR_BADARG, as, k)
             else if vm_flags r AND VM_FLAG_PINNED \<noteq> 0 then Some (ERR_NOPERM, as, k)
             else
               let k = (if vm_owner r = VM_BACKING_ANON
                        then free_anon va [0..<(unat (vm_size r) + 4095) div 4096] as k
                        else clear_mapped sp va k)
               in do {
                 (ok, as, k) \<leftarrow> VmmRemoveRegion (vaddr_start r) (vm_size r) as k;
                 kassert ok;
                 Some (ZUZU_OK, as, k) })"

definition VmmProtectUserRange :: "VirtAddr \<Rightarrow> u32 \<Rightarrow> u32 \<Rightarrow> AddressSpace \<Rightarrow> Err \<times> AddressSpace" where
  "VmmProtectUserRange va sz new_prot as =
     (if sz = 0 \<or> sz mod PAGE_SIZE \<noteq> 0 \<or> va mod PAGE_SIZE \<noteq> 0 then (ERR_BADARG, as)
      else if \<not> (va < USER_VA_TOP \<and> sz \<le> USER_VA_TOP - va) then (ERR_BADARG, as)
      else if new_prot AND NOT rwx \<noteq> 0 then (ERR_BADARG, as)
      else if new_prot AND PROT_WRITE \<noteq> 0 \<and> new_prot AND PROT_EXEC \<noteq> 0 then (ERR_BADARG, as)
      else case VmmFindRegion as va of
             None \<Rightarrow> (ERR_BADARG, as)
           | Some i \<Rightarrow>
               let r = regions as ! i
               in if new_prot AND NOT (max_prot r) \<noteq> 0 then (ERR_NOPERM, as)
                  else if \<not> (va = vaddr_start r \<and> sz = vm_size r) then (ERR_BADARG, as)
                  else case VmmProtectPage va sz (new_prot OR VM_PROT_USER) as of
                         (ok, as) \<Rightarrow> (if ok then ZUZU_OK else ERR_BADARG, as))"

record InjectObjArgs =
  ia_mem :: Handle
  ia_dest :: VirtAddr
  ia_offset :: u32
  ia_len :: u32
  ia_prot :: u32

fun inject_pages :: "bool \<Rightarrow> PhysAddr list \<Rightarrow> VirtAddr \<Rightarrow> u32 \<Rightarrow> AddressSpace \<Rightarrow> bool \<times> AddressSpace" where
  "inject_pages slab [] va prot as = (True, as)"
| "inject_pages slab (pa # pas) va prot as =
     (if pa = 0 then inject_pages slab pas (va + PAGE_SIZE) prot as
      else case VmmMapUserPage slab pa va prot as of
             (ok, as) \<Rightarrow> if ok then inject_pages slab pas (va + PAGE_SIZE) prot as else (False, as))"

definition inject_region :: "InjectObjArgs \<Rightarrow> VirtMemBacking \<Rightarrow> MemPtr \<Rightarrow> VirtMemRegion" where
  "inject_region a own m = \<lparr>vaddr_start = ia_dest a, vm_size = ia_len a, vm_prot = ia_prot a OR VM_PROT_USER,
     max_prot = ia_prot a, memtype = VM_MEM_NORMAL, vm_owner = own, vm_flags = 0, backing = m,
     backing_page_offset = (if m = NULL then 0 else ia_offset a div PAGE_SIZE)\<rparr>"

definition inject_object ::
    "bool \<Rightarrow> bool \<Rightarrow> HandleTableEntry \<Rightarrow> InjectObjArgs \<Rightarrow> AddressSpace \<Rightarrow> Kernel \<Rightarrow> (Err \<times> AddressSpace \<times> Kernel) option" where
  "inject_object grow slab e a as k =
     (let m = he_obj e;
          obj_bytes = shm_page_count (mems k m) * PAGE_SIZE;
          first = unat (ia_offset a div PAGE_SIZE);
          pages = unat (ia_len a div PAGE_SIZE);
          pas = take pages (drop first (shm_page_addrs (mems k m)))
      in if he_type e \<noteq> HANDLE_MEM then Some (ERR_BADTYPE, as, k)
         else if perms e AND PERM_MAP = 0 then Some (ERR_NOPERM, as, k)
         else if ia_prot a AND NOT (HandleProtLimit (perms e)) \<noteq> 0 then Some (ERR_NOPERM, as, k)
         else if m = NULL \<or> mem_kind (mems k m) \<noteq> MEMKIND_SHARED then Some (ERR_BADTYPE, as, k)
         else if shm_flags (mems k m) AND MEM_UNCACHED \<noteq> 0 then Some (ERR_BADARG, as, k)
         else if \<not> (ia_offset a < obj_bytes \<and> ia_len a \<le> obj_bytes - ia_offset a) then Some (ERR_BADARG, as, k)
         else if ia_prot a AND PROT_EXEC \<noteq> 0 \<and> 0 \<in> set pas then Some (ERR_BADARG, as, k)
         else case VmmAddRegion grow (inject_region a VM_BACKING_SHARED m) as k of
                (ok, as, k) \<Rightarrow>
                  if \<not> ok then Some (ERR_NOMEM, as, k)
                  else case inject_pages slab pas (ia_dest a) (ia_prot a) as of
                         (ok, as) \<Rightarrow>
                           if \<not> ok then do {
                             (_, as, k) \<leftarrow> VmmRemoveRegion (ia_dest a) (ia_len a) as k;
                             Some (ERR_NOMEM, as, k) }
                           else Some (ZUZU_OK, as,
                                  if ia_prot a AND PROT_EXEC \<noteq> 0 \<and> \<not> exec_synced (mems k m)
                                  then upd_mem m (\<lambda>x. x\<lparr>exec_synced := True\<rparr>) k else k))"

definition InjectObjIntoSpace ::
    "bool \<Rightarrow> bool \<Rightarrow> SpacePtr \<Rightarrow> SpacePtr \<Rightarrow> InjectObjArgs \<Rightarrow> AddressSpace \<Rightarrow> Kernel \<Rightarrow> (Err \<times> AddressSpace \<times> Kernel) option" where
  "InjectObjIntoSpace grow slab kitten parent a as k =
     (if ia_len a = 0 \<or> ia_len a mod PAGE_SIZE \<noteq> 0 then Some (ERR_BADARG, as, k)
      else if ia_dest a mod PAGE_SIZE \<noteq> 0 \<or> ia_offset a mod PAGE_SIZE \<noteq> 0 then Some (ERR_BADARG, as, k)
      else if ia_prot a AND NOT rwx \<noteq> 0 then Some (ERR_BADARG, as, k)
      else if ia_prot a AND PROT_WRITE \<noteq> 0 \<and> ia_prot a AND PROT_EXEC \<noteq> 0 then Some (ERR_BADARG, as, k)
      else if \<not> (ia_dest a < USER_VA_TOP \<and> ia_len a \<le> USER_VA_TOP - ia_dest a) then Some (ERR_BADARG, as, k)
      else if space_tasks k kitten \<noteq> [] then Some (ERR_BUSY, as, k)
      else if ia_mem a = NO_HANDLE
      then (case VmmAddRegion grow (inject_region a VM_BACKING_ANON NULL) as k of
              (ok, as, k) \<Rightarrow> Some (if ok then ZUZU_OK else ERR_NOMEM, as, k))
      else case lookup_entry parent (ia_mem a) k of
             None \<Rightarrow> Some (ERR_BADHANDLE, as, k)
           | Some e \<Rightarrow> inject_object grow slab e a as k)"

section \<open>Creation and end of an address space\<close>

definition VEC_INITIAL_CAP :: nat where "VEC_INITIAL_CAP = 16"
definition USER_SYSPAGE_VA :: u32 where "USER_SYSPAGE_VA = 0x1000"
definition L2_PAGE_ATTR_MASK :: u32 where "L2_PAGE_ATTR_MASK = push_bit 6 7 OR MMU_BIT 3 OR MMU_BIT 2"
definition L2_PAGE_ATTR_DEVICE :: u32 where "L2_PAGE_ATTR_DEVICE = MMU_BIT 2"

text \<open>
  What the steps of \<open>AddressSpaceCreate\<close> return: whether the slab cache and the vector can be allocated,
  the frames of the first-level table, and the ASID. \<open>m\<close> holds the pool of second-level tables.
\<close>

definition AddressSpaceCreate ::
    "bool \<Rightarrow> PhysAddr \<Rightarrow> u8 \<Rightarrow> bool \<Rightarrow> AddressSpaceType \<Rightarrow> Mmu \<Rightarrow> AddressSpace option" where
  "AddressSpaceCreate slab root asid vec ty m =
     (if \<not> slab then None
      else if root = 0 then None
      else if ty = ADDRESS_SPACE_USER \<and> asid = 0 then None
      else if \<not> vec then None
      else Some \<lparr>regions = [], regions_cap = VEC_INITIAL_CAP, as_type = ty,
                 tables = m\<lparr>l1 := replicate (l1_entry_count ty) 0\<rparr>\<rparr>)"

definition mmu_region_owner_for_va :: "VirtMemRegion list \<Rightarrow> VirtAddr \<Rightarrow> VirtMemBacking" where
  "mmu_region_owner_for_va rs va =
     (case find (\<lambda>r. \<not> vaddr_start r + vm_size r < vaddr_start r \<and> va \<ge> vaddr_start r
                    \<and> va < vaddr_start r + vm_size r) rs of
        None \<Rightarrow> VM_BACKING_ANON
      | Some r \<Rightarrow> vm_owner r)"

text \<open>The frame that \<open>ArchMmuFreeUserPages\<close> returns for entry \<open>j\<close> of the table under entry \<open>i\<close>, if any.\<close>

definition free_user_page :: "AddressSpace \<Rightarrow> nat \<Rightarrow> nat \<Rightarrow> PhysAddr list" where
  "free_user_page as i j =
     (let e = l1 (tables as) ! i;
          d = l2 (tables as) (l2_table e) ! j;
          va = push_bit 20 (of_nat i) OR push_bit 12 (of_nat j)
      in if desc_type e \<noteq> DESC_L2 then []
         else if d AND L2_SMALL_TAG = 0 then []
         else if va = USER_SYSPAGE_VA then []
         else if mmu_region_owner_for_va (regions as) va \<noteq> VM_BACKING_ANON then []
         else if d AND L2_PAGE_ATTR_MASK = L2_PAGE_ATTR_DEVICE then []
         else [d AND L2_SMALL_BASE_MASK])"

definition ArchMmuFreeUserPages :: "AddressSpace \<Rightarrow> Kernel \<Rightarrow> Kernel" where
  "ArchMmuFreeUserPages as k =
     fold FreedPage (concat (map (\<lambda>i. concat (map (free_user_page as i) [0..<L2_ENTRIES])) [0..<L1_ENTRIES_USER])) k"

definition ArchMmuFreeTables :: "AddressSpaceType \<Rightarrow> Mmu \<Rightarrow> Mmu" where
  "ArchMmuFreeTables ty m =
     fold (\<lambda>e m. if desc_type e = DESC_L2 then L2PtPoolFree (l2_table e) m else m) (take (l1_entry_count ty) (l1 m)) m"

fun drop_regions :: "VirtMemRegion list \<Rightarrow> AddressSpace \<Rightarrow> Kernel \<Rightarrow> (AddressSpace \<times> Kernel) option" where
  "drop_regions [] as k = Some (as, k)"
| "drop_regions (r # rs) as k = do {
     k \<leftarrow> MemObjUnref (backing r) k;
     drop_regions rs (snd (VmmUnmapRange (vaddr_start r) (vm_size r) as)) k }"

text \<open>\<open>active\<close> says whether the address space is the one in use, which is a panic.\<close>

definition AddressSpaceDestroy :: "bool \<Rightarrow> AddressSpace \<Rightarrow> Kernel \<Rightarrow> (Mmu \<times> Kernel) option" where
  "AddressSpaceDestroy active as k = do {
     kassert (\<not> active);
     (as, k) \<leftarrow> drop_regions (regions as) as k;
     Some (ArchMmuFreeTables (as_type as) (tables as), k) }"

section \<open>Closing a mapped memory handle\<close>

definition unmap_and_drop :: "VirtAddr \<Rightarrow> MemPtr \<Rightarrow> AddressSpace \<Rightarrow> Kernel \<Rightarrow> (AddressSpace \<times> Kernel) option" where
  "unmap_and_drop va m as k =
     (let sz = (if mem_kind (mems k m) = MEMKIND_DEVICE then dev_size (mems k m) else shm_page_count (mems k m) * PAGE_SIZE)
      in do {
           (_, as, k) \<leftarrow> (if va \<noteq> 0 then VmmRemoveRegion va sz as k else Some (False, as, k));
           k \<leftarrow> MemObjUnref m k;
           Some (as, k) })"

end
