(* ===== verification/Svc_Dispatch.thy ===== *)
theory Svc_Dispatch
  imports Vmm_User
begin

text \<open>
  The rest of the system calls: \<open>SpaceCreate\<close> of \<open>kernel/space/space.c\<close>, \<open>svc_create.c\<close>,
  \<open>svc_managememory.c\<close>, and the dispatcher \<open>kernel/svc/dispatch.c\<close> with the entry \<open>SvcTrap\<close> of
  \<open>arch/arm/exceptions/svc.c\<close> and the way out in \<open>entry.S\<close>. Outcomes of the allocators, the address
  space of the caller and the user memory a call reads are arguments, gathered in \<open>SvcEnv\<close>.
\<close>

section \<open>Creating a space\<close>

text \<open>
  What the allocators return in \<open>SpaceCreate\<close>: the slab cache, the address space made by
  \<open>AddressSpaceCreate\<close> with its pointer, whether the vector of regions and the pool of second-level tables
  can grow, the frame of the system page, and the frame for the first thread-local page.
\<close>

record SpaceEnv =
  se_slab :: SpacePtr
  se_as :: u32
  se_as0 :: AddressSpace
  se_grow :: bool
  se_l2slab :: bool
  se_syspage :: PhysAddr
  se_tcb_pa :: PhysAddr

definition MAX_TCB_PAGES :: nat where "MAX_TCB_PAGES = 37"

definition zero_space :: SpaceObject where
  "zero_space = \<lparr>spid = 0, parent_spid = 0, sp_as = 0, handle_table = HandleTableInit, main_task = NULL,
     sp_max_prio = 0, frozen = False, live_tasks = 0, last_exit_status = 0,
     tcb_page_pa = replicate MAX_TCB_PAGES 0, tcb_page_va = 0, tcb_slot_bitmap = replicate 8 0, torn_down = False,
     sp_ref_count = 0\<rparr>"

definition USER_STACK_GUARD_VA :: u32 where "USER_STACK_GUARD_VA = 0x7F7FF000"
definition USER_STACK_BASE :: u32 where "USER_STACK_BASE = 0x7F800000"
definition USER_STACK_TOP :: u32 where "USER_STACK_TOP = 0x80000000"

definition region_at :: "VirtAddr \<Rightarrow> u32 \<Rightarrow> u32 \<Rightarrow> VirtMemBacking \<Rightarrow> u32 \<Rightarrow> VirtMemRegion" where
  "region_at va sz prot own fl = \<lparr>vaddr_start = va, vm_size = sz, vm_prot = prot, max_prot = 0, memtype = VM_MEM_NORMAL,
     vm_owner = own, vm_flags = fl, backing = NULL, backing_page_offset = 0\<rparr>"

text \<open>
  The address space of a new space: the system page, the window of thread-local pages, the stack and its
  guard. The result is the address of the window, or \<^const>\<open>None\<close> where the source jumps to \<open>fail_as\<close>.
\<close>

definition add_region :: "SpaceEnv \<Rightarrow> VirtMemRegion \<Rightarrow> AddressSpace \<Rightarrow> Kernel \<Rightarrow> AddressSpace option" where
  "add_region env r as k = (case VmmAddRegion (se_grow env) r as k of (ok, as, k) \<Rightarrow> if ok then Some as else None)"

definition map_page :: "SpaceEnv \<Rightarrow> PhysAddr \<Rightarrow> VirtAddr \<Rightarrow> u32 \<Rightarrow> AddressSpace \<Rightarrow> AddressSpace option" where
  "map_page env pa va prot as = (case VmmMapUserPage (se_l2slab env) pa va prot as of (ok, as) \<Rightarrow> if ok then Some as else None)"

definition space_layout :: "SpaceEnv \<Rightarrow> Kernel \<Rightarrow> (VirtAddr \<times> AddressSpace) option" where
  "space_layout env k = do {
     as \<leftarrow> map_page env (se_syspage env) USER_SYSPAGE_VA PROT_READ (se_as0 env);
     as \<leftarrow> add_region env (region_at USER_SYSPAGE_VA PAGE_SIZE (PROT_READ OR VM_PROT_USER) VM_BACKING_SHARED
                             (VM_FLAG_PINNED OR VM_FLAG_GUARD)) as k;
     kassert (se_tcb_pa env \<noteq> 0);
     let va = VmmFindFreeVa as USER_MMAP_BASE USER_DEVICE_BASE (of_nat MAX_TCB_PAGES * PAGE_SIZE);
     kassert (va \<noteq> 0);
     as \<leftarrow> map_page env (se_tcb_pa env) va (VM_PROT_USER OR PROT_READ OR PROT_WRITE) as;
     as \<leftarrow> add_region env (region_at va (of_nat MAX_TCB_PAGES * PAGE_SIZE) (PROT_READ OR PROT_WRITE OR VM_PROT_USER)
                             VM_BACKING_ANON VM_FLAG_PINNED) as k;
     as \<leftarrow> add_region env (region_at USER_STACK_BASE (USER_STACK_TOP - USER_STACK_BASE)
                             (PROT_READ OR PROT_WRITE OR VM_PROT_USER) VM_BACKING_ANON 0) as k;
     as \<leftarrow> add_region env (region_at USER_STACK_GUARD_VA PAGE_SIZE 0 VM_BACKING_NONE VM_FLAG_GUARD) as k;
     Some (va, as) }"

definition space_fail :: "SpacePtr \<Rightarrow> Kernel \<Rightarrow> Kernel" where
  "space_fail sp k =
     (let k = upd_space sp (\<lambda>x. x\<lparr>tcb_page_pa := replicate MAX_TCB_PAGES 0,
                 handle_table := HandleTableDestroy (handle_table x)\<rparr>) k
      in k\<lparr>freed := FreedSpace sp # freed k\<rparr>)"

definition SpaceCreate :: "SpaceEnv \<Rightarrow> SpacePtr \<Rightarrow> Kernel \<Rightarrow> (SpacePtr \<times> Kernel) option" where
  "SpaceCreate env parent k =
     (let sp = se_slab env
      in if sp = NULL then Some (NULL, k)
         else
           let k = ObserverInit (ObsSpace sp)
                     (upd_space sp (\<lambda>_. zero_space\<lparr>parent_spid := (if parent = NULL then - 1 else spid (spaces k parent))\<rparr>) k);
               k = k\<lparr>space_tasks := (space_tasks k)(sp := []), wait_q := (wait_q k)(SpaceQ sp := [])\<rparr>
           in if se_as env = 0 then Some (NULL, space_fail sp k)
              else
                let k = upd_space sp (\<lambda>x. x\<lparr>sp_as := se_as env\<rparr>) k
                in case space_layout env k of
                     None \<Rightarrow> Some (NULL, space_fail sp k)
                   | Some (va, as) \<Rightarrow> do {
                       let k = upd_space sp (\<lambda>x. x\<lparr>tcb_page_pa := (tcb_page_pa x)[0 := se_tcb_pa env], tcb_page_va := va\<rparr>) k;
                       (i, k) \<leftarrow> SpidAlloc sp k;
                       Some (if i = 0 then (NULL, space_fail sp k)
                             else (sp, upd_space sp (\<lambda>x. x\<lparr>spid := i\<rparr>) k)) })"

section \<open>Create\<close>

text \<open>The name is copied from user memory first; \<open>name_ok\<close> says whether that copy succeeds.\<close>

definition CreateSpace :: "bool \<Rightarrow> bool \<Rightarrow> SpaceEnv \<Rightarrow> Kernel \<Rightarrow> Kernel option" where
  "CreateSpace name_ok kz env k =
     (let cur_sp = CURRENT_SPACE k;
          (slot, t) = HandleTableFindFree kz (handle_table (spaces k cur_sp))
      in if arg 2 k \<noteq> 0 \<and> \<not> name_ok then ret_err ERR_BADPTR k
         else
           let k = upd_space cur_sp (\<lambda>x. x\<lparr>handle_table := t\<rparr>) k
           in if slot = - 1 then ret_err ERR_NOMEM k
              else do {
                (sp, k) \<leftarrow> SpaceCreate env cur_sp k;
                if sp = NULL then ret_err ERR_NOMEM k
                else
                  let k = upd_space sp (\<lambda>x. x\<lparr>sp_max_prio := max_prio (tasks k (current_task k))\<rparr>) k
                  in case HandleTableGet (handle_table (spaces k cur_sp)) (nat slot) of
                       None \<Rightarrow> None
                     | Some e \<Rightarrow>
                         let t = HandleEntryClaim (handle_table (spaces k cur_sp)) (nat slot);
                             e = e\<lparr>he_type := HANDLE_SPACE, he_obj := sp, perms := PERM_ALL\<rparr>;
                             k = upd_space cur_sp (\<lambda>x. x\<lparr>handle_table := put_entry t (nat slot) e\<rparr>) k
                         in ret_handle (HANDLE_PACK (word_of_int slot) (generation e)) (SpaceRef sp k) })"

record MemEnv =
  me_free_frames :: u32
  me_addrs :: bool
  me_slab :: MemPtr
  me_base :: PhysAddr

definition CreateMemory :: "bool \<Rightarrow> MemEnv \<Rightarrow> Kernel \<Rightarrow> Kernel option" where
  "CreateMemory kz env k =
     (let flags = arg 2 k; n = arg 1 k
      in if flags AND NOT (MEM_CONTIG OR MEM_UNCACHED) \<noteq> 0 then ret_err ERR_BADARG k
         else if flags AND MEM_UNCACHED \<noteq> 0 \<and> flags AND MEM_CONTIG = 0 then ret_err ERR_BADARG k
         else if n = 0 then ret_err ERR_BADARG k
         else if n > me_free_frames env then ret_err ERR_NOMEM k
         else if n > (- 1) div 4 then ret_err ERR_NOMEM k
         else if \<not> me_addrs env then ret_err ERR_NOMEM k
         else case MemObjCreateShm (me_slab env) (replicate (unat n) 0) n flags k of
                (m, k) \<Rightarrow>
                  if m = NULL then ret_err ERR_NOMEM k
                  else
                    let k = upd_mem m (\<lambda>x. x\<lparr>mem_owner_spid := spid (spaces k (CURRENT_SPACE k))\<rparr>) k
                    in if flags AND MEM_CONTIG \<noteq> 0 \<and> me_base env = 0
                       then do { k \<leftarrow> MemObjUnref m k; ret_err ERR_NOMEM k }
                       else
                         let k = (if flags AND MEM_CONTIG \<noteq> 0
                                  then upd_mem m (\<lambda>x. x\<lparr>shm_page_addrs :=
                                         map (\<lambda>i. me_base env + of_nat i * PAGE_SIZE) [0..<unat n]\<rparr>) k
                                  else k)
                         in case new_handle kz HANDLE_MEM m k of
                              (None, k) \<Rightarrow> do { k \<leftarrow> MemObjUnref m k; ret_err ERR_NOMEM k }
                            | (Some h, k) \<Rightarrow> ret_handle h k)"

record SvcEnv =
  e_kz :: bool
  e_kzr :: "nat \<Rightarrow> bool"
  e_port :: PortPtr
  e_event :: EventPtr
  e_task :: TaskPtr
  e_kstack :: VirtAddr
  e_page :: PhysAddr
  e_name_ok :: bool
  e_space :: SpaceEnv
  e_mem :: MemEnv
  e_user :: UserArgs
  e_inject :: "InjectObjArgs option"
  e_dma :: "(Handle \<times> Handle \<times> u32 \<times> u32 \<times> u32) option"
  e_grow :: bool
  e_slab :: bool
  e_as :: AddressSpace
  e_kitten_as :: AddressSpace

text \<open>The object codes of \<open>ZuzuObjectCode\<close>.\<close>

definition SvcCreate :: "SvcEnv \<Rightarrow> Kernel \<Rightarrow> Kernel option" where
  "SvcCreate env k =
     (let ty = arg 0 k
      in if ty = 0 then CreateTask (e_task env) (e_kstack env) (e_page env) (e_kz env) k
         else if ty = 1 then CreateSpace (e_name_ok env) (e_kz env) (e_space env) k
         else if ty = 2 then CreatePort (e_port env) (e_kz env) k
         else if ty = 3 then CreateEvent (e_event env) (e_kz env) k
         else if ty = 4 then CreateMemory (e_kz env) (e_mem env) k
         else ret_err ERR_BADARG k)"

section \<open>ManageMemory\<close>

definition ret_addr :: "Err + VirtAddr \<Rightarrow> Kernel \<Rightarrow> Kernel option" where
  "ret_addr r k = Some (ArchSetInFrame (current_task k) 0 (case r of Inr va \<Rightarrow> va | Inl e \<Rightarrow> err_reg e) k)"

definition MemMap :: "SvcEnv \<Rightarrow> Kernel \<Rightarrow> Kernel option" where
  "MemMap env k =
     (let h = arg 1 k; prot = arg 3 k AND 7; hint = arg 3 k AND NOT 0xFFF; sp = CURRENT_SPACE k
      in if prot AND PROT_WRITE \<noteq> 0 \<and> prot AND PROT_EXEC \<noteq> 0 then ret_err ERR_BADARG k
         else if h = NO_HANDLE
         then (case VmmMapAnon (e_grow env) hint (arg 2 k) prot (e_as env) k of (r, as, k) \<Rightarrow> ret_addr r k)
         else case HandleTableLookup (space_table_of sp k) h of
                None \<Rightarrow> ret_err ERR_BADHANDLE k
              | Some i \<Rightarrow>
                  (case HandleTableGet (space_table_of sp k) i of
                     None \<Rightarrow> ret_err ERR_BADHANDLE k
                   | Some e \<Rightarrow>
                       if he_type e \<noteq> HANDLE_MEM then ret_err ERR_BADTYPE k
                       else if perms e AND PERM_MAP = 0 then ret_err ERR_NOPERM k
                       else case VmmMapMemObj (e_grow env) (e_slab env) sp i e prot hint (e_as env) k of
                              (r, as, k) \<Rightarrow> ret_addr r k))"

definition MemInject :: "SvcEnv \<Rightarrow> Kernel \<Rightarrow> Kernel option" where
  "MemInject env k =
     (case lookup_entry (CURRENT_SPACE k) (arg 1 k) k of
        None \<Rightarrow> ret_err ERR_BADHANDLE k
      | Some e \<Rightarrow>
          if he_type e \<noteq> HANDLE_SPACE then ret_err ERR_BADTYPE k
          else if he_obj e = NULL then ret_err ERR_BADHANDLE k
          else if perms e AND PERM_CNTL = 0 then ret_err ERR_NOPERM k
          else if torn_down (spaces k (he_obj e)) then ret_err ERR_DEAD k
          else case e_inject env of
                 None \<Rightarrow> ret_err ERR_BADPTR k
               | Some a \<Rightarrow> do {
                   (rc, as, k) \<leftarrow> InjectObjIntoSpace (e_grow env) (e_slab env) (he_obj e) (CURRENT_SPACE k) a (e_kitten_as env) k;
                   ret_err rc k })"

text \<open>The checks the DMA verbs make of a handle.\<close>

definition dma_handle :: "Handle \<Rightarrow> Kernel \<Rightarrow> Err + MemPtr" where
  "dma_handle h k =
     (case lookup_entry (CURRENT_SPACE k) h k of
        None \<Rightarrow> Inl ERR_BADHANDLE
      | Some e \<Rightarrow> if he_type e \<noteq> HANDLE_MEM then Inl ERR_BADTYPE
                  else if perms e AND PERM_MAP = 0 then Inl ERR_NOPERM
                  else Inr (he_obj e))"

definition MemDmaMap :: "SvcEnv \<Rightarrow> Kernel \<Rightarrow> Kernel option" where
  "MemDmaMap env k =
     (case e_dma env of
        None \<Rightarrow> ret_err ERR_BADPTR k
      | Some (dh, mh, off, len, dir) \<Rightarrow>
          (case dma_handle dh k of
             Inl e \<Rightarrow> ret_err e k
           | Inr dev \<Rightarrow>
               (case dma_handle mh k of
                  Inl e \<Rightarrow> ret_err e k
                | Inr m \<Rightarrow>
                    (case MemObjDmaMap (e_slab env) dev m off len dir k of
                       (rc, bus, i, k) \<Rightarrow>
                         let cur = current_task k;
                             k = ArchSetInFrame cur 0 (err_reg rc) k;
                             k = ArchSetInFrame cur 1 (if rc = ZUZU_OK then bus else 0) k
                         in Some (ArchSetInFrame cur 2 (if rc = ZUZU_OK then i else 0) k)))))"

definition MemDmaAdopt :: "bool \<Rightarrow> Kernel \<Rightarrow> Kernel option" where
  "MemDmaAdopt kz k =
     (let sp = CURRENT_SPACE k
      in case lookup_entry sp (arg 1 k) k of
           None \<Rightarrow> ret_err ERR_BADHANDLE k
         | Some e \<Rightarrow>
             let dev = he_obj e
             in if he_type e \<noteq> HANDLE_MEM then ret_err ERR_BADTYPE k
                else if dev = NULL \<or> mem_kind (mems k dev) \<noteq> MEMKIND_DEVICE then ret_err ERR_BADTYPE k
                else if perms e AND PERM_MAP = 0 then ret_err ERR_NOPERM k
                else case MemObjDmaFind dev (arg 2 k) k of
                       None \<Rightarrow> ret_err ERR_NOENT k
                     | Some d \<Rightarrow>
                         let m = dma_mem d;
                             (slot, t) = HandleTableFindFree kz (handle_table (spaces k sp));
                             k = upd_space sp (\<lambda>x. x\<lparr>handle_table := t\<rparr>) k
                         in if slot = - 1 then ret_err ERR_NOMEM k
                            else case HandleTableGet t (nat slot) of
                                   None \<Rightarrow> None
                                 | Some x \<Rightarrow>
                                     let t = HandleEntryClaim t (nat slot);
                                         k = MemObjRef m k;
                                         x = x\<lparr>he_type := HANDLE_MEM, he_obj := m, perms := PERM_MAP OR PERM_WRITE,
                                               mapped_va := 0\<rparr>;
                                         k = upd_mem m (\<lambda>y. y\<lparr>mem_owner_spid := spid (spaces k sp)\<rparr>) k;
                                         k = upd_space sp (\<lambda>y. y\<lparr>handle_table := put_entry t (nat slot) x\<rparr>) k
                                     in ret_ok_val (HANDLE_PACK (word_of_int slot) (generation x)) k)"

definition SvcManageMemory :: "SvcEnv \<Rightarrow> Kernel \<Rightarrow> Kernel option" where
  "SvcManageMemory env k =
     (let verb = arg 0 k; sp = CURRENT_SPACE k
      in if verb = 0 then MemMap env k
         else if verb = 1 then do {
           (rc, as, k) \<leftarrow> VmmUnmapUserRegion sp (arg 1 k) (e_as env) k;
           ret_err rc k }
         else if verb = 2 then ret_err (fst (VmmProtectUserRange (arg 1 k) (arg 2 k) (arg 3 k) (e_as env))) k
         else if verb = 3 then MemInject env k
         else if verb = 4 then MemDmaMap env k
         else if verb = 5
         then (case dma_handle (arg 1 k) k of
                 Inl e \<Rightarrow> ret_err e k
               | Inr dev \<Rightarrow> do { (rc, k) \<leftarrow> MemObjDmaUnmap dev (arg 2 k) k; ret_err rc k })
         else if verb = 6
         then (case dma_handle (arg 1 k) k of
                 Inl e \<Rightarrow> ret_err e k
               | Inr dev \<Rightarrow> ret_err (fst (MemObjDmaSync dev (arg 2 k AND NOT 1) (arg 3 k) (arg 2 k AND 1) k)) k)
         else if verb = 7 then MemDmaAdopt (e_kz env) k
         else ret_err ERR_BADARG k)"

section \<open>Dispatch\<close>

text \<open>
  \<open>svc_table\<close> of a build without the debugging and benchmarking calls, so \<open>SVC_LOG\<close> has no entry. A frame
  that is not the trap frame of the running task is a panic; the frame is that of the current task here, and
  without one the error is written to a frame that belongs to no task.
\<close>

definition mapped_prot :: "SvcEnv \<Rightarrow> Kernel \<Rightarrow> u32 option" where
  "mapped_prot env k =
     (case lookup_entry (CURRENT_SPACE k) (arg 0 k) k of
        None \<Rightarrow> None
      | Some e \<Rightarrow> VmmRegionProt (e_as env) (mapped_va e))"

definition svc_table :: "SvcEnv \<Rightarrow> nat \<Rightarrow> (Kernel \<Rightarrow> Kernel option) option" where
  "svc_table env n =
     (let tbl = [Some SvcQuit, Some SvcYield, Some SvcSleep, None, Some (SvcCreate env), Some (SvcCall (e_kz env)),
                 Some (SvcReply (e_kz env) (e_kzr env)), Some (SvcWaitOn (e_kzr env)),
                 Some (\<lambda>k. SvcManageHandle (e_kz env) (mapped_prot env k) k), Some SvcSignal,
                 Some (SvcBind (e_kz env)), Some (SvcManageMemory env), Some (SvcManageTask (e_user env)),
                 Some (SvcHold (e_kz env))]
      in if n < length tbl then tbl ! n else None)"

definition SvcDispatch :: "SvcEnv \<Rightarrow> nat \<Rightarrow> Kernel \<Rightarrow> Kernel option" where
  "SvcDispatch env n k =
     (if current_task k = NULL then Some k
      else case svc_table env n of
             Some f \<Rightarrow> f k
           | None \<Rightarrow> ret_err ERR_NOSYS k)"

text \<open>\<open>SvcTrap\<close> ignores an \<open>svc\<close> from a mode other than user mode; the number of the call is in r12.\<close>

definition SvcTrap :: "SvcEnv \<Rightarrow> Kernel \<Rightarrow> Kernel option" where
  "SvcTrap env k =
     (let f = trap_frame (tasks k (current_task k))
      in if f FRAME_CPSR AND 0x1F \<noteq> 0x10 then Some k else SvcDispatch env (unat (f 12)) k)"

definition svc_handler :: "SvcEnv \<Rightarrow> Kernel \<Rightarrow> Kernel option" where
  "svc_handler env k = do { k \<leftarrow> SvcTrap env k; resched_exit k }"

section \<open>Exceptions\<close>

datatype ExceptionType =
    EXCEPTION_UNDEF | EXCEPTION_PREFETCH_ABORT | EXCEPTION_DATA_ABORT | EXCEPTION_RESERVED | EXCEPTION_IRQ | EXCEPTION_FIQ

definition KERNEL_VA_BASE :: u32 where "KERNEL_VA_BASE = 0xC0000000"
definition KSTACK_REGION_BASE :: u32 where "KSTACK_REGION_BASE = 0xF1000000"
definition KSTACK_SLOT_SIZE :: u32 where "KSTACK_SLOT_SIZE = 0x2000"
definition MAX_KSTACKS :: nat where "MAX_KSTACKS = 256"
definition KSTACK_REGION_TOP :: u32 where "KSTACK_REGION_TOP = KSTACK_REGION_BASE + of_nat MAX_KSTACKS * KSTACK_SLOT_SIZE"

definition KILLED_FAULT_DATA :: int where "KILLED_FAULT_DATA = 1"
definition KILLED_FAULT_PREFETCH :: int where "KILLED_FAULT_PREFETCH = 2"
definition KILLED_FAULT_UNDEF :: int where "KILLED_FAULT_UNDEF = 3"

text \<open>
  What the exception registers say: the mode of the interrupted code, its fault address and status, the
  acknowledged interrupt, and what demand paging has at hand.
\<close>

record ExcEnv =
  x_cpsr :: u32
  x_far :: u32
  x_fsr :: u32
  x_irq :: nat
  x_slab :: bool
  x_frame :: PhysAddr
  x_as :: AddressSpace

definition is_translation :: "u32 \<Rightarrow> bool" where
  "is_translation fsr \<longleftrightarrow> (let st = (fsr AND 0xF) OR (drop_bit 6 fsr AND 0x10) in st = 5 \<or> st = 7)"

definition data_abort :: "ExcEnv \<Rightarrow> Kernel \<Rightarrow> Kernel option" where
  "data_abort x k =
     (let far = x_far x; md = x_cpsr x AND 0x1F;
          served = (if is_translation (x_fsr x) \<and> far < KERNEL_VA_BASE
                    then ServiceDemandPage (x_slab x) (x_frame x) far (x_fsr x) (x_as x) k
                    else (False, x_as x, k))
      in if far \<ge> KSTACK_REGION_BASE \<and> far < KSTACK_REGION_TOP
            \<and> (far - KSTACK_REGION_BASE) mod KSTACK_SLOT_SIZE < 0x1000 then None
         else if current_task k = NULL \<or> CURRENT_SPACE k = NULL \<or> sp_as (spaces k (CURRENT_SPACE k)) = 0 then None
         else if md = 0x10 \<or> md = 0x13 \<and> far < KERNEL_VA_BASE
         then (case served of
                 (True, as, k) \<Rightarrow> Some k
               | (False, as, k) \<Rightarrow> user_fault KILLED_FAULT_DATA k)
         else None)"

text \<open>An undefined instruction of a task that does not own the floating-point unit hands the unit over.\<close>

definition undef_instruction :: "ExcEnv \<Rightarrow> Kernel \<Rightarrow> Kernel option" where
  "undef_instruction x k =
     (let cur = current_task k;
          k = (if cur \<noteq> NULL \<and> x_cpsr x AND push_bit 5 1 \<noteq> 0
               then upd_task cur (\<lambda>t. t\<lparr>trap_frame := (trap_frame t)(FRAME_PC := trap_frame t FRAME_PC + 2)\<rparr>) k else k)
      in if cur \<noteq> NULL \<and> cur \<noteq> fpu_owner k then Some (k\<lparr>fpu_access_enabled := True, fpu_owner := cur\<rparr>)
         else if x_cpsr x AND 0x1F = 0x10 \<and> cur \<noteq> NULL \<and> CURRENT_SPACE k \<noteq> NULL
         then user_fault KILLED_FAULT_UNDEF k
         else None)"

definition ExceptionDispatch :: "ExceptionType \<Rightarrow> ExcEnv \<Rightarrow> Kernel \<Rightarrow> Kernel option" where
  "ExceptionDispatch ty x k =
     (case ty of
        EXCEPTION_UNDEF \<Rightarrow> undef_instruction x k
      | EXCEPTION_PREFETCH_ABORT \<Rightarrow>
          if x_cpsr x AND 0x1F = 0x10 \<and> current_task k \<noteq> NULL \<and> CURRENT_SPACE k \<noteq> NULL
          then user_fault KILLED_FAULT_PREFETCH k else None
      | EXCEPTION_DATA_ABORT \<Rightarrow> data_abort x k
      | EXCEPTION_IRQ \<Rightarrow> ArchIrqDispatch (x_irq x) k
      | EXCEPTION_FIQ \<Rightarrow> Some k
      | EXCEPTION_RESERVED \<Rightarrow> None)"

definition irq_handler :: "ExcEnv \<Rightarrow> Kernel \<Rightarrow> Kernel option" where
  "irq_handler x k = do { k \<leftarrow> ExceptionDispatch EXCEPTION_IRQ x k; resched_exit k }"

end
