(* ===== verification/Vmm_Correct.thy ===== *)
theory Vmm_Correct
  imports Svc_Dispatch Kexample
begin

text \<open>
  Correctness of the region list of an address space: the binary searches find what a linear search finds,
  and insertion keeps the regions sorted and apart.
\<close>

section \<open>Region lists\<close>

definition rstart :: "VirtMemRegion \<Rightarrow> nat" where "rstart r = unat (vaddr_start r)"
definition rend :: "VirtMemRegion \<Rightarrow> nat" where "rend r = unat (vaddr_start r) + unat (vm_size r)"

definition region_ok :: "VirtMemRegion \<Rightarrow> bool" where
  "region_ok r \<longleftrightarrow> vm_size r \<noteq> 0 \<and> rend r < 2 ^ 32"

definition before :: "VirtMemRegion \<Rightarrow> VirtMemRegion \<Rightarrow> bool" where
  "before a b \<longleftrightarrow> rend a \<le> rstart b"

definition regions_ok :: "VirtMemRegion list \<Rightarrow> bool" where
  "regions_ok rs \<longleftrightarrow> list_all region_ok rs \<and> sorted_wrt before rs"

definition contains :: "VirtMemRegion \<Rightarrow> VirtAddr \<Rightarrow> bool" where
  "contains r va \<longleftrightarrow> rstart r \<le> unat va \<and> unat va < rend r"

definition apart :: "VirtMemRegion \<Rightarrow> VirtMemRegion \<Rightarrow> bool" where
  "apart a b \<longleftrightarrow> before a b \<or> before b a"

lemma region_okD: "region_ok r \<Longrightarrow> rstart r < rend r"
  by (auto simp: region_ok_def rstart_def rend_def unat_gt_0)

lemma rend_word: "region_ok r \<Longrightarrow> unat (vaddr_start r + vm_size r) = rend r"
  by (simp add: region_ok_def rend_def unat_plus_simple word_le_nat_alt unat_word_ariths)

lemma regions_ok_Cons [simp]: "regions_ok (r # rs) \<longleftrightarrow> region_ok r \<and> list_all (before r) rs \<and> regions_ok rs"
  by (auto simp: regions_ok_def list_all_iff)

lemma regions_ok_append:
  "regions_ok (xs @ ys) \<longleftrightarrow> regions_ok xs \<and> regions_ok ys \<and> (\<forall>x \<in> set xs. \<forall>y \<in> set ys. before x y)"
  by (auto simp: regions_ok_def sorted_wrt_append)

lemma regions_ok_nth:
  assumes "regions_ok rs" "i < j" "j < length rs"
  shows "before (rs ! i) (rs ! j)"
  using assms sorted_wrt_nth_less [of before rs i j] by (simp add: regions_ok_def)

lemma regions_ok_mem: "regions_ok rs \<Longrightarrow> i < length rs \<Longrightarrow> region_ok (rs ! i)"
  by (simp add: regions_ok_def list_all_length)

section \<open>Binary search\<close>

text \<open>The comparison orders the array: an element the key is not after has only elements the key is before behind it.\<close>

definition ordered_by :: "('a \<Rightarrow> int) \<Rightarrow> 'a list \<Rightarrow> bool" where
  "ordered_by compar xs \<longleftrightarrow> sorted_wrt (\<lambda>x y. compar x \<le> 0 \<longrightarrow> compar y < 0) xs"

lemma ordered_nth:
  "ordered_by compar xs \<Longrightarrow> i < j \<Longrightarrow> j < length xs \<Longrightarrow> compar (xs ! i) \<le> 0 \<Longrightarrow> compar (xs ! j) < 0"
  unfolding ordered_by_def using sorted_wrt_nth_less by fastforce

lemma bsearch_loop_Some:
  "bsearch_loop compar xs lo hi = Some i \<Longrightarrow> lo \<le> i \<and> i < hi \<and> compar (xs ! i) = 0"
proof (induction compar xs lo hi rule: bsearch_loop.induct)
  case (1 compar xs lo hi)
  then show ?case
    by (subst (asm) bsearch_loop.simps) (fastforce simp: Let_def split: if_splits)
qed

lemma bsearch_loop_None:
  "bsearch_loop compar xs lo hi = None \<Longrightarrow> ordered_by compar xs \<Longrightarrow> hi \<le> length xs \<Longrightarrow> lo \<le> i \<Longrightarrow> i < hi \<Longrightarrow> compar (xs ! i) \<noteq> 0"
proof (induction compar xs lo hi rule: bsearch_loop.induct)
  case (1 compar xs lo hi)
  define mid where "mid = (lo + hi) div 2"
  have m: "lo \<le> mid" "mid < hi" "mid < length xs"
    using "1.prems" by (simp_all add: mid_def)
  have eq: "(if compar (xs ! mid) = 0 then Some mid else if compar (xs ! mid) < 0 then bsearch_loop compar xs lo mid
      else bsearch_loop compar xs (mid + 1) hi) = None"
    using "1.prems"(1) m by (subst (asm) bsearch_loop.simps) (simp add: mid_def Let_def split: if_splits)
  show ?case
  proof (cases "compar (xs ! mid) < 0")
    case True
    with eq have "bsearch_loop compar xs lo mid = None"
      by simp
    then have "i < mid \<Longrightarrow> compar (xs ! i) \<noteq> 0"
      using "1.IH"(1) [OF _ mid_def refl _ True] True m "1.prems" by simp
    moreover have "mid \<le> i \<Longrightarrow> compar (xs ! i) < 0"
      using ordered_nth [OF "1.prems"(2), of mid i] True "1.prems" by (cases "mid = i") simp_all
    ultimately show ?thesis
      by fastforce
  next
    case False
    with eq have n: "compar (xs ! mid) \<noteq> 0" "bsearch_loop compar xs (mid + 1) hi = None"
      by (simp_all split: if_splits)
    then have "mid < i \<Longrightarrow> compar (xs ! i) \<noteq> 0"
      using "1.IH"(2) [OF _ mid_def refl n(1) False] m "1.prems" by simp
    moreover have "i \<le> mid \<Longrightarrow> compar (xs ! i) > 0"
      using ordered_nth [OF "1.prems"(2), of i mid] False m n(1) by (cases "i = mid") force+
    ultimately show ?thesis
      by fastforce
  qed
qed

lemma bsearch_iff:
  assumes "ordered_by compar xs"
  shows "bsearch compar xs = Some i \<longleftrightarrow> i < length xs \<and> compar (xs ! i) = 0"
proof
  assume "bsearch compar xs = Some i"
  then show "i < length xs \<and> compar (xs ! i) = 0"
    using bsearch_loop_Some by (force simp: bsearch_def)
next
  assume i: "i < length xs \<and> compar (xs ! i) = 0"
  then obtain j where j: "bsearch compar xs = Some j"
    using bsearch_loop_None [OF _ assms, of 0 "length xs" i] by (cases "bsearch compar xs") (auto simp: bsearch_def)
  then have "j < length xs" "compar (xs ! j) = 0"
    using bsearch_loop_Some by (force simp: bsearch_def)+
  then have "j = i"
    using i ordered_nth [OF assms, of i j] ordered_nth [OF assms, of j i] by (cases i j rule: linorder_cases) auto
  then show "bsearch compar xs = Some i"
    using j by simp
qed

section \<open>Finding a region\<close>

lemma RegionContainsVa_eq: "region_ok r \<Longrightarrow> RegionContainsVa va r = (if unat va < rstart r then - 1 else if rend r \<le> unat va then 1 else 0)"
  by (auto simp: RegionContainsVa_def rstart_def rend_def word_less_nat_alt word_le_nat_alt unat_sub_if')

lemma RegionCmpStart_eq: "RegionCmpStart va r = (if unat va < rstart r then - 1 else if rstart r < unat va then 1 else 0)"
  by (auto simp: RegionCmpStart_def rstart_def word_less_nat_alt)

lemma ordered_contains: "regions_ok rs \<Longrightarrow> ordered_by (RegionContainsVa va) rs"
proof (induction rs)
  case (Cons r rs)
  have "RegionContainsVa va r \<le> 0 \<longrightarrow> RegionContainsVa va s < 0" if "s \<in> set rs" for s
  proof -
    have "region_ok r" "region_ok s" "before r s"
      using Cons.prems that by (auto simp: list_all_iff regions_ok_def)
    then show ?thesis
      using region_okD [of r] by (auto simp: RegionContainsVa_eq before_def split: if_splits)
  qed
  then show ?case
    using Cons by (simp add: ordered_by_def)
qed (simp add: ordered_by_def)

lemma ordered_starts: "regions_ok rs \<Longrightarrow> ordered_by (RegionCmpStart va) rs"
proof (induction rs)
  case (Cons r rs)
  have "RegionCmpStart va r \<le> 0 \<longrightarrow> RegionCmpStart va s < 0" if "s \<in> set rs" for s
  proof -
    have "region_ok r" "before r s"
      using Cons.prems that by (auto simp: list_all_iff)
    then show ?thesis
      using region_okD [of r] by (auto simp: RegionCmpStart_eq before_def split: if_splits)
  qed
  then show ?case
    using Cons by (simp add: ordered_by_def)
qed (simp add: ordered_by_def)

lemma VmmFindRegion_iff:
  assumes "regions_ok (regions as)"
  shows "VmmFindRegion as va = Some i \<longleftrightarrow> i < length (regions as) \<and> contains (regions as ! i) va"
  unfolding VmmFindRegion_def bsearch_iff [OF ordered_contains [OF assms]]
  using regions_ok_mem [OF assms, of i] by (auto simp: RegionContainsVa_eq contains_def split: if_splits)

section \<open>Inserting a region\<close>

lemma insert_point_bounds:
  assumes "lo \<le> hi" "hi \<le> length rs"
    and "\<And>i j. i < j \<Longrightarrow> j < length rs \<Longrightarrow> rstart (rs ! i) \<le> rstart (rs ! j)"
  shows "lo \<le> insert_point rs st lo hi \<and> insert_point rs st lo hi \<le> hi
    \<and> (\<forall>i. lo \<le> i \<and> i < insert_point rs st lo hi \<longrightarrow> rstart (rs ! i) \<le> unat st)
    \<and> (\<forall>i. insert_point rs st lo hi \<le> i \<and> i < hi \<longrightarrow> unat st < rstart (rs ! i))"
  using assms
proof (induction rs st lo hi rule: insert_point.induct)
  case (1 rs st lo hi)
  show ?case
  proof (cases "lo < hi")
    case True
    define mid where "mid = lo + (hi - lo) div 2"
    have m: "lo \<le> mid" "mid < hi" "mid < length rs"
      using True "1.prems" by (simp_all add: mid_def)
    have sorted: "rstart (rs ! i) \<le> rstart (rs ! j)" if "i \<le> j" "j < length rs" for i j
      using "1.prems"(3) that by (cases "i = j") auto
    show ?thesis
    proof (cases "vaddr_start (rs ! mid) \<le> st")
      case le: True
      have eq: "insert_point rs st lo hi = insert_point rs st (mid + 1) hi"
        using True le by (subst insert_point.simps) (simp add: mid_def Let_def)
      have ih: "mid + 1 \<le> insert_point rs st (mid + 1) hi \<and> insert_point rs st (mid + 1) hi \<le> hi
          \<and> (\<forall>i. mid + 1 \<le> i \<and> i < insert_point rs st (mid + 1) hi \<longrightarrow> rstart (rs ! i) \<le> unat st)
          \<and> (\<forall>i. insert_point rs st (mid + 1) hi \<le> i \<and> i < hi \<longrightarrow> unat st < rstart (rs ! i))"
        by (rule "1.IH"(1) [OF True mid_def le]) (use m "1.prems" in auto)
      have low: "rstart (rs ! i) \<le> unat st" if "i \<le> mid" for i
        using sorted [OF that m(3)] le by (simp add: rstart_def word_le_nat_alt)
      have "rstart (rs ! i) \<le> unat st" if "i < insert_point rs st (mid + 1) hi" for i
        using low [of i] ih that by (cases "i \<le> mid") auto
      then show ?thesis
        using ih m unfolding eq by auto
    next
      case gt: False
      have eq: "insert_point rs st lo hi = insert_point rs st lo mid"
        using True gt by (subst insert_point.simps) (simp add: mid_def Let_def)
      have ih: "lo \<le> insert_point rs st lo mid \<and> insert_point rs st lo mid \<le> mid
          \<and> (\<forall>i. lo \<le> i \<and> i < insert_point rs st lo mid \<longrightarrow> rstart (rs ! i) \<le> unat st)
          \<and> (\<forall>i. insert_point rs st lo mid \<le> i \<and> i < mid \<longrightarrow> unat st < rstart (rs ! i))"
        by (rule "1.IH"(2) [OF True mid_def gt]) (use m "1.prems" in auto)
      have high: "unat st < rstart (rs ! i)" if "mid \<le> i" "i < hi" for i
        using sorted [OF that(1)] that "1.prems"(2) gt by (fastforce simp: rstart_def word_le_nat_alt)
      have "unat st < rstart (rs ! i)" if "insert_point rs st lo mid \<le> i" "i < hi" for i
        using high [of i] ih that by (cases "mid \<le> i") auto
      then show ?thesis
        using ih m unfolding eq by auto
    qed
  next
    case False
    then show ?thesis
      using "1.prems"(1) by (simp add: insert_point.simps)
  qed
qed

lemma regions_sorted: "regions_ok rs \<Longrightarrow> i < j \<Longrightarrow> j < length rs \<Longrightarrow> rstart (rs ! i) \<le> rstart (rs ! j)"
  using regions_ok_nth [of rs i j] region_okD [of "rs ! i"] regions_ok_mem [of rs i] by (auto simp: before_def)

lemma insert_point_regions:
  assumes "regions_ok rs" "n = insert_point rs st 0 (length rs)"
  shows "n \<le> length rs" "i < n \<Longrightarrow> rstart (rs ! i) \<le> unat st" "n \<le> i \<Longrightarrow> i < length rs \<Longrightarrow> unat st < rstart (rs ! i)"
  using insert_point_bounds [of 0 "length rs" rs st] regions_sorted [OF assms(1)] by (auto simp: assms(2))

lemma insert_point_takeWhile:
  assumes "regions_ok rs"
  shows "insert_point rs st 0 (length rs) = length (takeWhile (\<lambda>r. vaddr_start r \<le> st) rs)"
proof -
  define n where "n = insert_point rs st 0 (length rs)"
  note ip = insert_point_regions [OF assms n_def]
  have "takeWhile (\<lambda>r. vaddr_start r \<le> st) rs = take n rs"
    by (rule takeWhile_eq_take_P_nth) (use ip in \<open>auto simp: word_le_nat_alt rstart_def not_le\<close>)
  then show ?thesis
    using ip(1) by (simp add: n_def)
qed

text \<open>The two neighbours of the insertion point decide whether the new region is apart from every region.\<close>

lemma neighbours_decide:
  assumes ok: "regions_ok rs" "region_ok r" and n: "n = insert_point rs (vaddr_start r) 0 (length rs)"
  defines "left \<equiv> n > 0 \<longrightarrow> rend (rs ! (n - 1)) \<le> rstart r" and "right \<equiv> n < length rs \<longrightarrow> rend r \<le> rstart (rs ! n)"
  shows "(\<forall>s \<in> set rs. apart s r) \<longleftrightarrow> left \<and> right"
    and "left \<and> right \<Longrightarrow> regions_ok (take n rs @ r # drop n rs)"
proof -
  note ip = insert_point_regions [OF ok(1) n]
  have len: "rstart s < rend s" if "s \<in> set rs" for s
    using ok(1) that region_okD by (auto simp: regions_ok_def list_all_iff)
  have L: "before s r" if left "s \<in> set (take n rs)" for s
  proof -
    obtain i where i: "s = rs ! i" "i < n" "i < length rs"
      using \<open>s \<in> set (take n rs)\<close> by (auto simp: in_set_conv_nth)
    have "rend (rs ! i) \<le> rend (rs ! (n - 1))"
    proof (cases "i = n - 1")
      case False
      then have "before (rs ! i) (rs ! (n - 1))" "rs ! (n - 1) \<in> set rs"
        using regions_ok_nth [OF ok(1), of i "n - 1"] i ip(1) by auto
      then show ?thesis
        using len [of "rs ! (n - 1)"] by (simp add: before_def)
    qed simp
    then show ?thesis
      using that(1) i by (simp add: before_def left_def right_def)
  qed
  have R: "before r s" if right "s \<in> set (drop n rs)" for s
  proof -
    obtain i where i: "s = rs ! i" "n \<le> i" "i < length rs"
      using \<open>s \<in> set (drop n rs)\<close> by (auto simp: in_set_conv_nth)
    then have "rstart (rs ! n) \<le> rstart (rs ! i)"
      using regions_sorted [OF ok(1), of n i] by (cases "i = n") auto
    then show ?thesis
      using that(1) i by (simp add: before_def left_def right_def)
  qed
  have both: "\<forall>s \<in> set rs. apart s r" if lr: "left \<and> right"
  proof
    fix s assume "s \<in> set rs"
    then have "s \<in> set (take n rs) \<or> s \<in> set (drop n rs)"
      by (metis Un_iff append_take_drop_id set_append)
    then show "apart s r"
      using L R lr by (auto simp: apart_def)
  qed
  have "left \<and> right" if "\<forall>s \<in> set rs. apart s r"
  proof
    show left
      using that ip(1) ip(2) [of "n - 1"] len [of "rs ! (n - 1)"] region_okD [OF ok(2)] nth_mem [of "n - 1" rs]
      by (fastforce simp: apart_def before_def rstart_def left_def right_def)
    show right
      using that ip(3) [of n] len [of "rs ! n"] nth_mem [of n rs]
      by (fastforce simp: apart_def before_def rstart_def left_def right_def)
  qed
  with both show "(\<forall>s \<in> set rs. apart s r) \<longleftrightarrow> left \<and> right"
    by blast
  show "regions_ok (take n rs @ r # drop n rs)" if lr: "left \<and> right"
  proof -
    have "regions_ok (take n rs @ drop n rs)"
      using ok(1) by simp
    then show ?thesis
      using L R lr ok(2) unfolding regions_ok_append by (fastforce simp: list_all_iff)
  qed
qed

text \<open>The bits of the protection a region keeps as its ceiling when it is added.\<close>

definition with_ceiling :: "VirtMemRegion \<Rightarrow> VirtMemRegion" where
  "with_ceiling r = (if max_prot r = 0 then r\<lparr>max_prot := vm_prot r AND rwx\<rparr> else r)"

lemma with_ceiling [simp]: "rstart (with_ceiling r) = rstart r" "rend (with_ceiling r) = rend r" "region_ok (with_ceiling r) = region_ok r"
  "vaddr_start (with_ceiling r) = vaddr_start r" "vm_size (with_ceiling r) = vm_size r" "vm_prot (with_ceiling r) = vm_prot r"
  "before (with_ceiling r) s = before r s" "before s (with_ceiling r) = before s r"
  by (auto simp: with_ceiling_def rstart_def rend_def region_ok_def before_def)

definition addable :: "bool \<Rightarrow> VirtMemRegion \<Rightarrow> AddressSpace \<Rightarrow> bool" where
  "addable grow r as \<longleftrightarrow> (\<forall>s \<in> set (regions as). apart s r) \<and> (length (regions as) < regions_cap as \<or> grow)"

lemma VmmAddRegion_cases:
  assumes "regions_ok (regions as)" "region_ok r"
  shows "\<not> addable grow r as \<Longrightarrow> VmmAddRegion grow r as k = (False, as, k)"
    and "addable grow r as \<Longrightarrow> \<exists>as' xs ys. VmmAddRegion grow r as k = (True, as', MemObjRef (backing r) k)
      \<and> regions as = xs @ ys \<and> regions as' = xs @ with_ceiling r # ys \<and> regions_ok (regions as')
      \<and> tables as' = tables as \<and> as_type as' = as_type as"
proof -
  define n where "n = insert_point (regions as) (vaddr_start r) 0 (length (regions as))"
  note nd = neighbours_decide [OF assms n_def]
  note ip = insert_point_regions [OF assms(1) n_def]
  have left: "n > 0 \<Longrightarrow> vaddr_start r < vaddr_start (regions as ! (n - 1)) + vm_size (regions as ! (n - 1)) \<longleftrightarrow> \<not> rend (regions as ! (n - 1)) \<le> rstart r"
    using rend_word [OF regions_ok_mem [OF assms(1), of "n - 1"]] ip(1) by (simp add: word_less_nat_alt rstart_def not_le)
  have right: "vaddr_start (regions as ! n) < vaddr_start r + vm_size r \<longleftrightarrow> \<not> rend r \<le> rstart (regions as ! n)"
    using rend_word [OF assms(2)] by (simp add: word_less_nat_alt rstart_def not_le)
  have sz: "vm_size r \<noteq> 0"
    using assms(2) by (simp add: region_ok_def)
  show "VmmAddRegion grow r as k = (False, as, k)" if na: "\<not> addable grow r as"
  proof -
    consider "0 < n" "\<not> rend (regions as ! (n - 1)) \<le> rstart r" | "n < length (regions as)" "\<not> rend r \<le> rstart (regions as ! n)"
      | "\<not> (length (regions as) < regions_cap as \<or> grow)"
      using na nd(1) unfolding addable_def by blast
    then show ?thesis
      unfolding VmmAddRegion_def Let_def n_def [symmetric] using left right by cases auto
  qed
  assume add: "addable grow r as"
  then have lr: "(n > 0 \<longrightarrow> rend (regions as ! (n - 1)) \<le> rstart r) \<and> (n < length (regions as) \<longrightarrow> rend r \<le> rstart (regions as ! n))"
    using nd(1) by (simp add: addable_def)
  have new: "regions_ok (take n (regions as) @ with_ceiling r # drop n (regions as))"
    using nd(2) [OF lr] by (simp add: regions_ok_append list_all_iff)
  have g: "\<not> (0 < n \<and> vaddr_start r < vaddr_start (regions as ! (n - 1)) + vm_size (regions as ! (n - 1)))"
    "\<not> (n < length (regions as) \<and> vaddr_start (regions as ! n) < vaddr_start r + vm_size r)"
    using left right lr by blast+
  have "\<exists>as'. VmmAddRegion grow r as k = (True, as', MemObjRef (backing r) k)
      \<and> regions as' = take n (regions as) @ with_ceiling r # drop n (regions as) \<and> tables as' = tables as \<and> as_type as' = as_type as"
    using add sz unfolding addable_def VmmAddRegion_def Let_def n_def [symmetric] with_ceiling_def [symmetric]
      if_not_P [OF g(1)] if_not_P [OF g(2)] by auto
  with new show "\<exists>as' xs ys. VmmAddRegion grow r as k = (True, as', MemObjRef (backing r) k)
      \<and> regions as = xs @ ys \<and> regions as' = xs @ with_ceiling r # ys \<and> regions_ok (regions as')
      \<and> tables as' = tables as \<and> as_type as' = as_type as"
    by (metis append_take_drop_id)
qed

section \<open>Finding room\<close>

text \<open>The range of \<open>n\<close> bytes at \<open>w\<close> is clear of a region.\<close>

definition clear_of :: "nat \<Rightarrow> nat \<Rightarrow> VirtMemRegion \<Rightarrow> bool" where
  "clear_of w n r \<longleftrightarrow> w + n \<le> rstart r \<or> rend r \<le> w"

definition below_top :: "VirtMemRegion list \<Rightarrow> bool" where
  "below_top rs \<longleftrightarrow> list_all (\<lambda>r. rend r \<le> unat USER_VA_TOP) rs"

lemma region_page_end:
  assumes "region_ok r" "rend r \<le> unat USER_VA_TOP"
  shows "unat (align_up (vaddr_start r + vm_size r) PAGE_SIZE) = (rend r + 4095) div 4096 * 4096"
proof -
  have "unat (vaddr_start r + vm_size r) + 4095 < 2 ^ 32"
    using assms by (simp add: rend_word USER_VA_TOP_def)
  then show ?thesis
    using unat_align_up_page assms(1) by (metis rend_word)
qed

lemma page_end_least: "w mod 4096 = (0::nat) \<Longrightarrow> w < (e + 4095) div 4096 * 4096 \<Longrightarrow> w < e"
  by (auto elim!: dvdE simp: mod_eq_0_iff_dvd)

lemma page_end_ge: "e \<le> (e + 4095) div 4096 * (4096::nat)"
  by linarith

text \<open>
  \<open>v\<close> is the least page-aligned address from \<open>cand\<close> on whose range ends by \<open>hi\<close> and is clear of every region;
  it is 0 when there is none.
\<close>

definition least_gap :: "VirtMemRegion list \<Rightarrow> nat \<Rightarrow> nat \<Rightarrow> nat \<Rightarrow> nat \<Rightarrow> bool" where
  "least_gap rs cand hi n v \<longleftrightarrow>
     (v \<noteq> 0 \<longrightarrow> cand \<le> v \<and> v + n \<le> hi \<and> v mod 4096 = 0 \<and> (\<forall>r \<in> set rs. clear_of v n r)) \<and>
     (\<forall>w. cand \<le> w \<longrightarrow> w + n \<le> hi \<longrightarrow> w mod 4096 = 0 \<longrightarrow> v = 0 \<or> w < v \<longrightarrow> (\<exists>r \<in> set rs. \<not> clear_of w n r))"

lemma least_gap_here:
  assumes "cand mod 4096 = 0" "cand \<noteq> 0" "cand + n \<le> hi" "\<forall>r \<in> set rs. clear_of cand n r"
  shows "least_gap rs cand hi n cand"
  using assms by (simp add: least_gap_def)

lemma least_gap_skip:
  assumes "least_gap rs cand hi n v" "rend r \<le> cand"
  shows "least_gap (r # rs) cand hi n v"
  using assms by (auto simp: least_gap_def clear_of_def)

lemma least_gap_past:
  assumes "least_gap rs e hi n v" "e = (rend r + 4095) div 4096 * 4096" "rstart r < cand + n" "cand \<le> e"
  shows "least_gap (r # rs) cand hi n v"
proof -
  have hit: "\<not> clear_of w n r" if "cand \<le> w" "w mod 4096 = 0" "w < e" for w
    using page_end_least [of w "rend r"] that assms(2,3) by (simp add: clear_of_def)
  show ?thesis
    unfolding least_gap_def
  proof (intro conjI impI allI)
    assume "v \<noteq> 0"
    then have v: "e \<le> v" "v + n \<le> hi" "v mod 4096 = 0" "\<forall>r \<in> set rs. clear_of v n r"
      using assms(1) by (simp_all add: least_gap_def)
    then show "cand \<le> v" "v + n \<le> hi" "v mod 4096 = 0"
      using assms(4) by simp_all
    show "\<forall>r \<in> set (r # rs). clear_of v n r"
      using v page_end_ge [of "rend r"] assms(2) by (simp add: clear_of_def)
  next
    fix w
    assume w: "cand \<le> w" "w + n \<le> hi" "w mod 4096 = 0" "v = 0 \<or> w < v"
    show "\<exists>r \<in> set (r # rs). \<not> clear_of w n r"
    proof (cases "w < e")
      case False
      then have "\<exists>r \<in> set rs. \<not> clear_of w n r"
        using assms(1) w unfolding least_gap_def by (meson not_less)
      then show ?thesis
        by simp
    qed (use hit [OF w(1,3)] in simp)
  qed
qed

lemma find_gap_spec:
  "\<lbrakk>regions_ok rs; below_top rs; cand < hi; cand \<noteq> 0; unat cand mod 4096 = 0; sz \<noteq> 0\<rbrakk>
    \<Longrightarrow> least_gap rs (unat cand) (unat hi) (unat sz) (unat (find_gap rs cand hi sz))"
proof (induction rs arbitrary: cand)
  case Nil
  then show ?case
    by (auto simp: least_gap_def word_le_nat_alt word_less_nat_alt unat_sub_if' unat_gt_0)
next
  case (Cons r rs)
  define e where "e = align_up (vaddr_start r + vm_size r) PAGE_SIZE"
  have ok: "regions_ok rs" "below_top rs" "region_ok r" "\<forall>s \<in> set rs. rend r \<le> rstart s"
    using Cons.prems by (auto simp: below_top_def list_all_iff before_def)
  have e: "unat e = (rend r + 4095) div 4096 * 4096"
    using Cons.prems region_page_end [of r] by (simp add: e_def below_top_def)
  note len = region_okD [OF ok(3)] page_end_ge [of "rend r", folded e]
  have tail: "clear_of (unat cand) (unat sz) s" if "unat cand + unat sz \<le> rstart r" "s \<in> set rs" for s
    using that ok(4) len by (force simp: clear_of_def)
  consider "e \<le> cand" | "cand < e" "hi \<le> vaddr_start r" | "cand < e" "vaddr_start r < hi" "vaddr_start r > cand" "sz \<le> vaddr_start r - cand"
    | "cand < e" "vaddr_start r < hi" "\<not> (vaddr_start r > cand \<and> sz \<le> vaddr_start r - cand)"
    by fastforce
  then show ?case
  proof cases
    case 1
    then have "find_gap (r # rs) cand hi sz = find_gap rs cand hi sz"
      by (auto simp: e_def [symmetric] Let_def simp del: PAGE_SIZE_val)
    moreover have "rend r \<le> unat cand"
      using 1 len by (simp add: word_le_nat_alt)
    ultimately show ?thesis
      using least_gap_skip [OF Cons.IH [OF ok(1,2) Cons.prems(3-6)]] by simp
  next
    case 2
    then have "find_gap (r # rs) cand hi sz = (if hi - cand \<ge> sz then cand else 0)"
      by (auto simp: e_def [symmetric] Let_def simp del: PAGE_SIZE_val)
    moreover have "unat hi \<le> rstart r" "unat cand < unat hi"
      using 2 Cons.prems(3) by (simp_all add: rstart_def word_le_nat_alt word_less_nat_alt)
    ultimately show ?thesis
      using tail Cons.prems least_gap_here [of "unat cand" "unat sz" "unat hi" "r # rs"]
      by (auto simp: word_le_nat_alt unat_sub_if' clear_of_def least_gap_def unat_eq_0)
  next
    case 3
    then have "find_gap (r # rs) cand hi sz = cand"
      by (auto simp: e_def [symmetric] Let_def simp del: PAGE_SIZE_val)
    moreover have "unat cand + unat sz \<le> rstart r" "rstart r < unat hi"
      using 3 by (simp_all add: rstart_def word_le_nat_alt word_less_nat_alt unat_sub_if')
    ultimately show ?thesis
      using tail Cons.prems least_gap_here [of "unat cand" "unat sz" "unat hi" "r # rs"]
      by (auto simp: clear_of_def unat_eq_0)
  next
    case 4
    have near: "rstart r < unat cand + unat sz" "unat cand \<le> unat e"
      using 4 Cons.prems(6) unat_gt_0 [of sz] by (auto simp: rstart_def word_le_nat_alt word_less_nat_alt unat_sub_if' split: if_splits)
    show ?thesis
    proof (cases "hi \<le> e")
      case True
      with 4 have "find_gap (r # rs) cand hi sz = 0"
        by (auto simp: e_def [symmetric] Let_def simp del: PAGE_SIZE_val)
      moreover have "least_gap rs (unat e) (unat hi) (unat sz) 0"
        using True Cons.prems(6) unat_gt_0 [of sz] by (auto simp: least_gap_def word_le_nat_alt)
      ultimately show ?thesis
        using least_gap_past [OF _ e near] by simp
    next
      case False
      with 4 have "find_gap (r # rs) cand hi sz = find_gap rs e hi sz"
        by (auto simp: e_def [symmetric] Let_def simp del: PAGE_SIZE_val)
      moreover have "least_gap rs (unat e) (unat hi) (unat sz) (unat (find_gap rs e hi sz))"
        using Cons.IH [of e] ok(1,2) False 4(1) Cons.prems(6) e by (cases "e = 0") (simp_all add: not_le)
      ultimately show ?thesis
        using least_gap_past [OF _ e near] by simp
    qed
  qed
qed

lemma VmmFindFreeVa_least:
  assumes "regions_ok (regions as)" "below_top (regions as)" "lo \<noteq> 0" "unat lo mod 4096 = 0" "sz \<noteq> 0"
  shows "least_gap (regions as) (unat lo) (unat hi) (unat sz) (unat (VmmFindFreeVa as lo hi sz))"
proof (cases "lo < hi \<and> sz \<le> hi - lo")
  case True
  then have "VmmFindFreeVa as lo hi sz = find_gap (regions as) lo hi sz"
    using assms(5) by (auto simp: VmmFindFreeVa_def)
  then show ?thesis
    using find_gap_spec [OF assms(1,2) _ assms(3-5)] True by simp
next
  case False
  then have "VmmFindFreeVa as lo hi sz = 0"
    by (auto simp: VmmFindFreeVa_def)
  then show ?thesis
    using False unat_gt_0 [of sz] assms(5) by (auto simp: least_gap_def word_le_nat_alt word_less_nat_alt unat_sub_if' split: if_splits)
qed

section \<open>Address spaces of user spaces\<close>

text \<open>The bits of \<open>p\<close> are among those of \<open>q\<close>, as far as reading, writing and executing go.\<close>

definition within :: "u32 \<Rightarrow> u32 \<Rightarrow> bool" where
  "within p q \<longleftrightarrow> p AND rwx AND NOT q = 0"

text \<open>
  A region of a user space: it lies below \<open>USER_VA_TOP\<close> on page boundaries, and its protection is within
  its ceiling.
\<close>

definition user_region :: "VirtMemRegion \<Rightarrow> bool" where
  "user_region r \<longleftrightarrow> region_ok r \<and> rend r \<le> unat USER_VA_TOP
     \<and> rstart r mod 4096 = 0 \<and> unat (vm_size r) mod 4096 = 0 \<and> within (vm_prot r) (max_prot r)"

definition user_as_ok :: "AddressSpace \<Rightarrow> bool" where
  "user_as_ok as \<longleftrightarrow> regions_ok (regions as) \<and> list_all user_region (regions as)"

lemma user_as_okD: "user_as_ok as \<Longrightarrow> regions_ok (regions as)" "user_as_ok as \<Longrightarrow> below_top (regions as)"
  by (auto simp: user_as_ok_def below_top_def user_region_def list_all_iff)

lemma user_as_ok_tables [simp]: "user_as_ok (as\<lparr>tables := m\<rparr>) = user_as_ok as"
  by (simp add: user_as_ok_def)

lemma rwx_val: "rwx = 7" "VM_PROT_USER = 8"
  by (simp_all add: rwx_def PROT_READ_def PROT_WRITE_def PROT_EXEC_def VM_PROT_USER_def)

lemma within_bits: "within p q \<longleftrightarrow> (\<forall>n. bit p n \<and> bit rwx n \<longrightarrow> bit q n)"
proof -
  have "within p q \<longleftrightarrow> (\<forall>n. \<not> bit (p AND rwx AND NOT q) n)"
    unfolding within_def by (metis bit_eqI bit_0_eq bot_apply bot_bool_def)
  then show ?thesis
    using bit_imp_le_length [of p] by (auto simp: bit_and_iff bit_not_iff)
qed

lemma bit_rwx: "bit rwx n \<longleftrightarrow> n < 3"
proof -
  have m: "rwx = mask 3"
    by (simp add: rwx_val mask_eq_exp_minus_1)
  show ?thesis
    unfolding m bit_mask_iff by auto
qed

lemma bit_VM_PROT_USER: "bit VM_PROT_USER n \<longleftrightarrow> n = 3"
proof -
  have p: "VM_PROT_USER = push_bit 3 1"
    by (simp add: rwx_val)
  show ?thesis
    unfolding p bit_push_bit_iff bit_1_iff by auto
qed

lemma within_user [simp]: "within (p OR VM_PROT_USER) q = within p q"
  by (auto simp: within_bits bit_or_iff bit_rwx bit_VM_PROT_USER)

lemma within_subset: "p AND NOT q = 0 \<Longrightarrow> within p q"
  unfolding within_bits bit_eq_iff [of "p AND NOT q"] using bit_imp_le_length [of p]
  by (auto simp: bit_and_iff bit_not_iff)

lemma within_rwx [simp]: "within p rwx" "within p p"
  by (auto simp: within_bits)

lemma within_ceiling: "max_prot r = 0 \<or> within (vm_prot r) (max_prot r) \<Longrightarrow> within (vm_prot (with_ceiling r)) (max_prot (with_ceiling r))"
  by (auto simp: with_ceiling_def within_bits bit_and_iff)

lemma VmmAddRegion_user:
  assumes "user_as_ok as" "VmmAddRegion grow r as k = (ok, as', k')"
    and "vm_size r \<noteq> 0 \<Longrightarrow> region_ok r \<and> rend r \<le> unat USER_VA_TOP \<and> rstart r mod 4096 = 0
      \<and> unat (vm_size r) mod 4096 = 0 \<and> (max_prot r = 0 \<or> within (vm_prot r) (max_prot r))"
  shows "user_as_ok as'"
proof (cases "vm_size r = 0")
  case True
  then show ?thesis
    using assms(1,2) by (simp add: VmmAddRegion_def)
next
  case False
  note r = assms(3) [OF False]
  note c = VmmAddRegion_cases [OF user_as_okD(1) [OF assms(1)] conjunct1 [OF r]]
  show ?thesis
  proof (cases "addable grow r as")
    case True
    obtain xs ys where xy: "regions as = xs @ ys" "regions as' = xs @ with_ceiling r # ys" "regions_ok (regions as')"
      using c(2) [OF True, of k] assms(2) by auto
    have "user_region (with_ceiling r)"
      using r within_ceiling by (simp add: user_region_def)
    then show ?thesis
      using xy assms(1) by (simp add: user_as_ok_def)
  next
    case False
    then show ?thesis
      using c(1) [OF False, of k] assms(1,2) by simp
  qed
qed

lemma free_va_user:
  assumes "user_as_ok as" "va = VmmFindFreeVa as lo hi sz" "va \<noteq> 0" "lo \<noteq> 0" "unat lo mod 4096 = 0" "unat hi \<le> unat USER_VA_TOP"
  shows "unat va + unat sz \<le> unat USER_VA_TOP" "unat va mod 4096 = 0"
proof -
  have "sz \<noteq> 0"
    using assms(2,3) by (auto simp: VmmFindFreeVa_def)
  then have "least_gap (regions as) (unat lo) (unat hi) (unat sz) (unat va)"
    using VmmFindFreeVa_least [OF user_as_okD [OF assms(1)] assms(4,5)] assms(2) by simp
  then show "unat va + unat sz \<le> unat USER_VA_TOP" "unat va mod 4096 = 0"
    using assms(3,6) by (auto simp: least_gap_def unat_gt_0)
qed

lemma region_at_ok:
  assumes "vm_size r \<noteq> 0" "unat (vaddr_start r) + unat (vm_size r) \<le> unat USER_VA_TOP"
  shows "region_ok r \<and> rend r \<le> unat USER_VA_TOP"
  using assms by (simp add: region_ok_def rend_def USER_VA_TOP_def)

lemma page_dvd: "(4096 :: u32) dvd x \<longleftrightarrow> x mod 4096 = 0"
proof
  assume "4096 dvd x"
  then show "x mod 4096 = 0"
    by (elim dvdE) (simp add: word_unat_eq_iff [of _ 0] unat_mod unat_word_ariths mod_mod_cancel)
next
  assume "x mod 4096 = 0"
  then have "x = 4096 * (x div 4096)"
    using mult_div_mod_eq [of 4096 x] by simp
  then show "4096 dvd x"
    by (rule dvdI)
qed

lemma VmmMapAnon_user:
  assumes "user_as_ok as" "VmmMapAnon grow hint sz prot as k = (res, as', k')"
  shows "user_as_ok as'"
proof -
  define va where "va = (if hint \<noteq> 0 then hint else VmmFindFreeVa as USER_MMAP_BASE USER_DEVICE_BASE sz)"
  define r where "r = \<lparr>vaddr_start = va, vm_size = sz, vm_prot = prot OR VM_PROT_USER, max_prot = rwx,
    memtype = VM_MEM_NORMAL, vm_owner = VM_BACKING_ANON, vm_flags = 0, backing = NULL, backing_page_offset = 0\<rparr>"
  show ?thesis
  proof (cases "as' = as")
    case False
    then have c: "sz mod PAGE_SIZE = 0" "hint \<noteq> 0 \<longrightarrow> hint mod PAGE_SIZE = 0 \<and> hint < USER_VA_TOP \<and> sz \<le> USER_VA_TOP - hint"
      "va \<noteq> 0" and add: "\<exists>ok. VmmAddRegion grow r as k = (ok, as', k')"
      using assms(2) unfolding VmmMapAnon_def Let_def va_def [symmetric] r_def [symmetric]
      by (auto simp: page_dvd split: if_splits prod.splits)
    have "unat va + unat sz \<le> unat USER_VA_TOP \<and> unat va mod 4096 = 0"
    proof (cases "hint = 0")
      case True
      then show ?thesis
        using free_va_user [OF assms(1), of va USER_MMAP_BASE USER_DEVICE_BASE sz] c(3)
        by (simp add: va_def vmm_consts USER_VA_TOP_def)
    next
      case False
      then show ?thesis
        using c(2) by (auto simp: va_def word_le_nat_alt word_less_nat_alt unat_sub_if' page_mod_iff split: if_splits)
    qed
    moreover have "unat sz mod 4096 = 0"
      using c(1) by (simp add: page_mod_iff)
    ultimately show ?thesis
      using add region_at_ok [of r] by (auto intro!: VmmAddRegion_user [OF assms(1), of grow r k] simp: r_def rstart_def)
  qed (use assms(1) in simp)
qed

lemma regions_unmap [simp]: "regions (snd (VmmUnmapRange va sz as)) = regions as"
  by (simp add: VmmUnmapRange_def split: prod.split)

lemma regions_map [simp]: "regions (snd (VmmMapRange slab va pa sz prot mt as)) = regions as"
  by (simp add: VmmMapRange_def split: prod.split)

lemma regions_inject [simp]: "regions (snd (inject_pages slab pas va prot as)) = regions as"
proof (induction slab pas va prot as rule: inject_pages.induct)
  case (2 slab pa pas va prot as)
  have "regions (snd (VmmMapUserPage slab pa va prot as)) = regions as"
    by (simp add: VmmMapUserPage_def)
  then show ?case
    using 2 by (auto split: prod.split)
qed simp

lemma user_as_ok_regions: "regions as' = regions as \<Longrightarrow> user_as_ok as' = user_as_ok as"
  by (simp add: user_as_ok_def)

lemma VmmRemoveRegion_user:
  assumes "user_as_ok as" "VmmRemoveRegion va sz as k = Some (ok, as', k')"
  shows "user_as_ok as'"
proof (cases "as' = as")
  case False
  then obtain i where "regions as' = take i (regions as) @ drop (Suc i) (regions as)"
    using assms(2) by (auto simp: VmmRemoveRegion_def Let_def bind_eq_Some_conv split: if_splits option.splits)
  moreover have "regions_ok (take i (regions as) @ drop (Suc i) (regions as))"
  proof (cases "i < length (regions as)")
    case True
    then have "regions_ok (take i (regions as) @ regions as ! i # drop (Suc i) (regions as))"
      using assms(1) by (simp add: id_take_nth_drop [symmetric] user_as_ok_def)
    then show ?thesis
      by (simp add: regions_ok_append)
  qed (use assms(1) in \<open>simp add: user_as_ok_def\<close>)
  moreover have "set (take i (regions as) @ drop (Suc i) (regions as)) \<subseteq> set (regions as)"
    by (auto dest: in_set_takeD in_set_dropD)
  ultimately show ?thesis
    using assms(1) by (auto simp: user_as_ok_def list_all_iff)
qed (use assms(1) in simp)

lemma VmmUnmapUserRegion_user:
  assumes "user_as_ok as" "VmmUnmapUserRegion sp va as k = Some (e, as', k')"
  shows "user_as_ok as'"
  using assms(2) VmmRemoveRegion_user [OF assms(1)] assms(1)
  by (auto simp: VmmUnmapUserRegion_def Let_def bind_eq_Some_conv split: option.splits if_splits)

lemma VmmProtectUserRange_user:
  assumes "user_as_ok as" "VmmProtectUserRange va sz p as = (e, as')"
  shows "user_as_ok as'"
proof (cases "as' = as")
  case False
  obtain i m where i: "VmmFindRegion as va = Some i" "p AND NOT (max_prot (regions as ! i)) = 0"
    "as' = upd_region i (\<lambda>r. r\<lparr>vm_prot := p OR VM_PROT_USER\<rparr>) (as\<lparr>tables := m\<rparr>)"
    using assms(2) False
    by (auto simp: VmmProtectUserRange_def VmmProtectPage_def Let_def split: option.splits if_splits prod.splits)
  define r where "r = (regions as ! i)\<lparr>vm_prot := p OR VM_PROT_USER\<rparr>"
  have len: "i < length (regions as)"
    using i(1) VmmFindRegion_iff [OF user_as_okD(1) [OF assms(1)]] by simp
  then have old: "user_region (regions as ! i)"
    using assms(1) by (simp add: user_as_ok_def list_all_length)
  then have r: "user_region r" "rstart r = rstart (regions as ! i)" "rend r = rend (regions as ! i)"
    using within_subset [OF i(2)] by (simp_all add: r_def user_region_def rstart_def rend_def region_ok_def)
  have "as' = as\<lparr>tables := m, regions := (regions as)[i := r]\<rparr>"
    using i(3) by (simp add: upd_region_def r_def)
  moreover have "regions_ok (take i (regions as) @ regions as ! i # drop (Suc i) (regions as))"
    using assms(1) len by (simp add: id_take_nth_drop [symmetric] user_as_ok_def)
  then have "regions_ok ((regions as)[i := r])"
    using r old len by (simp add: upd_conv_take_nth_drop regions_ok_append before_def list_all_iff user_region_def)
  moreover have "list_all user_region ((regions as)[i := r])"
    using r(1) assms(1) by (auto simp: user_as_ok_def list_all_iff dest!: set_update_subset_insert [THEN subsetD])
  ultimately show ?thesis
    by (simp add: user_as_ok_def)
qed (use assms(1) in simp)

text \<open>A region for a whole object at \<open>va\<close>, where \<open>va\<close> is either the hint, inside its window, or a free address of the window.\<close>

lemma window_va_user:
  assumes "user_as_ok as" "va = (if hint = 0 then VmmFindFreeVa as lo hi sz else hint)" "va \<noteq> 0"
    and "hint \<noteq> 0 \<Longrightarrow> hint mod 4096 = 0 \<and> hint < hi \<and> sz \<le> hi - hint"
    and "lo \<noteq> 0" "unat lo mod 4096 = 0" "unat hi \<le> unat USER_VA_TOP"
  shows "unat va + unat sz \<le> unat USER_VA_TOP" "unat va mod 4096 = 0"
  using free_va_user [OF assms(1) _ assms(3,5-7), of sz] assms(2-4,7)
  by (auto simp: word_le_nat_alt word_less_nat_alt unat_sub_if' page_mod_iff split: if_splits)

lemma map_shared_user:
  assumes "user_as_ok as" "map_shared grow sp i e prot hint as k = (res, as', k')" "prot AND NOT (HandleProtLimit (perms e)) = 0"
  shows "user_as_ok as'"
proof -
  define sz where "sz = shm_page_count (mems k (he_obj e)) * PAGE_SIZE"
  define va where "va = (if hint = 0 then VmmFindFreeVa as USER_MMAP_BASE USER_DEVICE_BASE sz else hint)"
  define r where "r = \<lparr>vaddr_start = va, vm_size = sz, vm_prot = prot OR VM_PROT_USER, max_prot = HandleProtLimit (perms e),
    memtype = (if shm_flags (mems k (he_obj e)) AND MEM_UNCACHED \<noteq> 0 then VM_MEM_NORMAL_NC else VM_MEM_NORMAL),
    vm_owner = VM_BACKING_SHARED, vm_flags = 0, backing = he_obj e, backing_page_offset = 0\<rparr>"
  show ?thesis
  proof (cases "as' = as")
    case False
    then have c: "hint \<noteq> 0 \<longrightarrow> hint mod 4096 = 0 \<and> hint < USER_DEVICE_BASE \<and> sz \<le> USER_DEVICE_BASE - hint" "va \<noteq> 0"
      and add: "\<exists>ok k''. VmmAddRegion grow r as k = (ok, as', k'')"
      using assms(2) unfolding map_shared_def Let_def sz_def [symmetric] va_def [symmetric] r_def [symmetric]
      by (auto simp: page_dvd split: if_splits prod.splits)
    have "unat sz mod 4096 = 0"
      by (simp add: sz_def unat_word_ariths mod_mod_cancel)
    moreover have "unat va + unat sz \<le> unat USER_VA_TOP" "unat va mod 4096 = 0"
      using c by (intro window_va_user [OF assms(1) va_def]; simp add: vmm_consts USER_VA_TOP_def)+
    ultimately show ?thesis
      using add region_at_ok [of r] within_subset [OF assms(3)]
      by (auto intro!: VmmAddRegion_user [OF assms(1), of grow r k] simp: r_def rstart_def)
  qed (use assms(1) in simp)
qed

lemma map_device_user:
  assumes "user_as_ok as" "map_device grow slab sp i e prot hint as k = (res, as', k')" "prot AND NOT (HandleProtLimit (perms e)) = 0"
  shows "user_as_ok as'"
proof -
  define sz where "sz = align_up (dev_size (mems k (he_obj e))) PAGE_SIZE"
  define va where "va = (if hint = 0 then VmmFindFreeVa as USER_DEVICE_BASE USER_DEVICE_LIMIT sz else hint)"
  define r where "r = \<lparr>vaddr_start = va, vm_size = sz, vm_prot = prot OR VM_PROT_USER, max_prot = HandleProtLimit (perms e),
    memtype = VM_MEM_DEVICE, vm_owner = VM_BACKING_NONE, vm_flags = 0, backing = he_obj e, backing_page_offset = 0\<rparr>"
  define as1 where "as1 = snd (VmmMapRange slab va (dev_phys_base (mems k (he_obj e))) sz (prot OR VM_PROT_USER) VM_MEM_DEVICE as)"
  have u1: "user_as_ok as1"
    using assms(1) user_as_ok_regions [of as1 as] by (simp add: as1_def)
  have c: "as' = as \<or> as' = as1 \<or> (hint \<noteq> 0 \<longrightarrow> hint AND 0xFFF = 0 \<and> hint < USER_DEVICE_LIMIT \<and> sz \<le> USER_DEVICE_LIMIT - hint) \<and> va \<noteq> 0
      \<and> (\<exists>ok as2 k''. VmmAddRegion grow r as1 k = (ok, as2, k'') \<and> (as' = as2 \<or> as' = snd (VmmUnmapRange va sz as2)))"
    using assms(2) unfolding map_device_def Let_def sz_def [symmetric] va_def [symmetric] r_def [symmetric] as1_def
    by (auto split: if_splits prod.splits)
  show ?thesis
  proof (cases "as' = as \<or> as' = as1")
    case False
    then obtain ok as2 k'' where a: "VmmAddRegion grow r as1 k = (ok, as2, k'')" "as' = as2 \<or> as' = snd (VmmUnmapRange va sz as2)"
      and h: "hint \<noteq> 0 \<longrightarrow> hint AND 0xFFF = 0 \<and> hint < USER_DEVICE_LIMIT \<and> sz \<le> USER_DEVICE_LIMIT - hint" "va \<noteq> 0"
      using c by blast
    have "hint AND 0xFFF = hint mod 4096"
      using take_bit_eq_mask [of 12 hint] take_bit_eq_mod [of 12 hint] by (simp add: mask_eq_exp_minus_1)
    then have w: "unat va + unat sz \<le> unat USER_VA_TOP" "unat va mod 4096 = 0"
      using h by (intro window_va_user [OF assms(1) va_def]; simp add: vmm_consts USER_VA_TOP_def)+
    have "unat sz mod 4096 = 0"
      unfolding sz_def by (rule align_up_page_mod)
    then have "user_as_ok as2"
      using a(1) region_at_ok [of r] within_subset [OF assms(3)] w
      by (auto intro!: VmmAddRegion_user [OF u1, of grow r k] simp: r_def rstart_def)
    then show ?thesis
      using a(2) user_as_ok_regions [of as' as2] by auto
  qed (use assms(1) u1 in auto)
qed

lemma VmmMapMemObj_user:
  assumes "user_as_ok as" "VmmMapMemObj grow slab sp i e prot hint as k = (res, as', k')"
  shows "user_as_ok as'"
  using assms map_shared_user [OF assms(1)] map_device_user [OF assms(1)]
  by (auto simp: VmmMapMemObj_def split: if_splits MemKind.splits)

lemma inject_region_user:
  assumes "user_as_ok as" "VmmAddRegion grow (inject_region a own m) as k = (ok, as', k')"
    and "ia_len a mod PAGE_SIZE = 0" "ia_dest a mod PAGE_SIZE = 0" "ia_dest a < USER_VA_TOP" "ia_len a \<le> USER_VA_TOP - ia_dest a"
  shows "user_as_ok as'"
proof -
  let ?r = "inject_region a own m"
  have "unat (ia_dest a) + unat (ia_len a) \<le> unat USER_VA_TOP"
    using assms(5,6) by (auto simp: word_le_nat_alt word_less_nat_alt unat_sub_if' split: if_splits)
  then show ?thesis
    using assms(3,4) region_at_ok [of ?r]
    by (intro VmmAddRegion_user [OF assms(1,2)]) (simp add: inject_region_def rstart_def page_mod_iff)
qed

lemma InjectObjIntoSpace_user:
  assumes "user_as_ok as" "InjectObjIntoSpace grow slab kit par a as k = Some (e, as', k')"
  shows "user_as_ok as'"
proof (cases "as' = as")
  case False
  have c: "ia_len a mod PAGE_SIZE = 0" "ia_dest a mod PAGE_SIZE = 0" "ia_dest a < USER_VA_TOP" "ia_len a \<le> USER_VA_TOP - ia_dest a"
    using assms(2) False unfolding InjectObjIntoSpace_def by (auto simp: page_dvd split: if_splits)
  note reg = inject_region_user [OF assms(1) _ c]
  show ?thesis
  proof (cases "ia_mem a = NO_HANDLE")
    case True
    then show ?thesis
      using assms(2) False reg unfolding InjectObjIntoSpace_def by (auto split: if_splits prod.splits)
  next
    case False
    then obtain x where x: "inject_object grow slab x a as k = Some (e, as', k')"
      using assms(2) \<open>as' \<noteq> as\<close> unfolding InjectObjIntoSpace_def by (auto split: if_splits option.splits)
    obtain ok as1 k1 where a1: "VmmAddRegion grow (inject_region a VM_BACKING_SHARED (he_obj x)) as k = (ok, as1, k1)"
      by (metis prod_cases3)
    note u1 = reg [OF a1]
    define pas where "pas = take (unat (ia_len a div PAGE_SIZE)) (drop (unat (ia_offset a div PAGE_SIZE)) (shm_page_addrs (mems k (he_obj x))))"
    define as2 where "as2 = snd (inject_pages slab pas (ia_dest a) (ia_prot a) as1)"
    have u2: "user_as_ok as2"
      using u1 user_as_ok_regions [of as2 as1] by (simp add: as2_def)
    have "as' = as1 \<or> as' = as2 \<or> (\<exists>b k2. VmmRemoveRegion (ia_dest a) (ia_len a) as2 k1 = Some (b, as', k2))"
      using x \<open>as' \<noteq> as\<close> a1 unfolding inject_object_def Let_def pas_def [symmetric] as2_def
      by (auto simp: bind_eq_Some_conv split: if_splits prod.splits)
    then show ?thesis
      using u1 u2 VmmRemoveRegion_user [OF u2] by auto
  qed
qed (use assms(1) in simp)

text \<open>
  Closing the handle of a mapped device whose size is not a multiple of the page size: the mapping was made
  with the size rounded up and is looked for with the size as it is, so the region stays.
\<close>

lemma device_region_stays:
  assumes "regions_ok (regions as)" "i < length (regions as)" "vaddr_start (regions as ! i) = va"
    "mem_kind (mems k m) = MEMKIND_DEVICE" "vm_size (regions as ! i) = align_up (dev_size (mems k m)) PAGE_SIZE"
    "dev_size (mems k m) mod PAGE_SIZE \<noteq> 0" "unmap_and_drop va m as k = Some (as', k')"
  shows "as' = as"
proof -
  have "unat (vm_size (regions as ! i)) mod 4096 = 0"
    unfolding assms(5) by (rule align_up_page_mod)
  then have "vm_size (regions as ! i) \<noteq> dev_size (mems k m)"
    using assms(6) by (auto simp: page_mod_iff)
  moreover have "bsearch (RegionCmpStart va) (regions as) = Some i"
    using bsearch_iff [OF ordered_starts [OF assms(1)]] assms(2,3) by (simp add: RegionCmpStart_eq rstart_def)
  ultimately have "VmmRemoveRegion va (dev_size (mems k m)) as k = Some (False, as, k)"
    by (simp add: VmmRemoveRegion_def)
  then show ?thesis
    using assms(4,7) by (auto simp: unmap_and_drop_def bind_eq_Some_conv split: if_splits)
qed

section \<open>A concrete address space\<close>

definition ex_region :: "VirtAddr \<Rightarrow> u32 \<Rightarrow> VirtMemRegion" where
  "ex_region va sz = \<lparr>vaddr_start = va, vm_size = sz, vm_prot = PROT_READ OR VM_PROT_USER, max_prot = PROT_READ OR PROT_WRITE,
     memtype = VM_MEM_NORMAL, vm_owner = VM_BACKING_ANON, vm_flags = 0, backing = NULL, backing_page_offset = 0\<rparr>"

definition ex_as :: AddressSpace where
  "ex_as = \<lparr>regions = [ex_region 0x20001000 0x1000, ex_region 0x20004000 0x2000], regions_cap = 16,
     as_type = ADDRESS_SPACE_USER, tables = \<lparr>l1 = [], l2 = (\<lambda>_. []), pool = [], frames = [], returned = []\<rparr>\<rparr>"

lemma ex_as_ok: "user_as_ok ex_as"
  by (simp add: user_as_ok_def ex_as_def ex_region_def user_region_def region_ok_def regions_ok_def before_def rstart_def
      rend_def within_def rwx_def PROT_READ_def PROT_WRITE_def PROT_EXEC_def VM_PROT_USER_def USER_VA_TOP_def)

section \<open>Properties\<close>

text \<open>
  C0: Looking up an address by binary search in the region array finds what a search through the regions one
  by one finds: the region that contains the address, or nothing when there is none.
\<close>

theorem VmmFindRegion_linear:
  assumes "regions_ok (regions as)"
  shows "map_option ((!) (regions as)) (VmmFindRegion as va) = find (\<lambda>r. contains r va) (regions as)"
proof (cases "VmmFindRegion as va")
  case None
  then have "\<not> contains r va" if "r \<in> set (regions as)" for r
    using VmmFindRegion_iff [OF assms, of va] that by (auto simp: in_set_conv_nth)
  then show ?thesis
    using None by (simp add: find_None_iff2)
next
  case (Some i)
  then have i: "i < length (regions as)" "contains (regions as ! i) va"
    using VmmFindRegion_iff [OF assms, of va] by auto
  moreover have "\<not> contains (regions as ! j) va" if "j < i" for j
    using VmmFindRegion_iff [OF assms, of va j] Some that i(1) by auto
  ultimately have "find (\<lambda>r. contains r va) (regions as) = Some (regions as ! i)"
    unfolding find_Some_iff by blast
  then show ?thesis
    using Some by simp
qed

theorem VmmFindRegion_linear_witness:
  "map_option ((!) (regions ex_as)) (VmmFindRegion ex_as 0x20005FFF) = Some (ex_region 0x20004000 0x2000)
   \<and> VmmFindRegion ex_as 0x20006000 = None"
  using VmmFindRegion_linear [OF user_as_okD(1) [OF ex_as_ok], of "0x20005FFF"]
    VmmFindRegion_linear [OF user_as_okD(1) [OF ex_as_ok], of "0x20006000"]
  by (simp add: ex_as_def ex_region_def contains_def rstart_def rend_def)

text \<open>
  C0: Adding a region. Into a sorted array of disjoint regions, a region that does not wrap around is
  inserted exactly when it overlaps no region and the array has or can get room; then the array gains this
  one region, with its protection as its ceiling when it names none, and is again sorted and disjoint, and the
  backing object gains a reference. Otherwise nothing changes.
\<close>

theorem VmmAddRegion_correct:
  assumes "regions_ok (regions as)" "region_ok r"
  shows "if (\<forall>s \<in> set (regions as). apart s r) \<and> (length (regions as) < regions_cap as \<or> grow)
         then \<exists>as' xs ys. VmmAddRegion grow r as k = (True, as', MemObjRef (backing r) k)
                \<and> regions as = xs @ ys \<and> regions as' = xs @ with_ceiling r # ys \<and> regions_ok (regions as')
                \<and> tables as' = tables as \<and> as_type as' = as_type as
         else VmmAddRegion grow r as k = (False, as, k)"
  using VmmAddRegion_cases [OF assms] unfolding addable_def by simp

theorem VmmAddRegion_correct_witness:
  "(\<exists>as'. VmmAddRegion False (ex_region 0x20002000 0x2000) ex_as ex_kernel = (True, as', MemObjRef NULL ex_kernel)
      \<and> regions_ok (regions as'))
   \<and> VmmAddRegion False (ex_region 0x20002000 0x2001) ex_as ex_kernel = (False, ex_as, ex_kernel)"
proof -
  have "region_ok (ex_region 0x20002000 0x2000)" "region_ok (ex_region 0x20002000 0x2001)"
    "\<forall>s \<in> set (regions ex_as). apart s (ex_region 0x20002000 0x2000)"
    "\<not> (\<forall>s \<in> set (regions ex_as). apart s (ex_region 0x20002000 0x2001))"
    "length (regions ex_as) < regions_cap ex_as" "backing (ex_region 0x20002000 0x2000) = NULL"
    by (simp_all add: ex_as_def ex_region_def region_ok_def apart_def before_def rstart_def rend_def)
  then show ?thesis
    using VmmAddRegion_correct [OF user_as_okD(1) [OF ex_as_ok], of "ex_region 0x20002000 0x2000" False ex_kernel]
      VmmAddRegion_correct [OF user_as_okD(1) [OF ex_as_ok], of "ex_region 0x20002000 0x2001" False ex_kernel]
    by auto
qed

text \<open>
  C0: Finding room. In a sorted array of disjoint regions below \<open>USER_VA_TOP\<close>, the search from a page-aligned
  \<open>lo\<close> returns the least page-aligned address whose range of the given size ends by \<open>hi\<close> and touches no region,
  and 0 exactly when there is none.
\<close>

theorem VmmFindFreeVa_correct:
  assumes "regions_ok (regions as)" "below_top (regions as)" "lo \<noteq> 0" "unat lo mod 4096 = 0" "sz \<noteq> 0"
  shows "let v = unat (VmmFindFreeVa as lo hi sz);
             fits = (\<lambda>w. unat lo \<le> w \<and> w + unat sz \<le> unat hi \<and> w mod 4096 = 0
                       \<and> list_all (clear_of w (unat sz)) (regions as))
         in if v = 0 then \<not> (\<exists>w. fits w) else fits v \<and> (\<forall>w < v. \<not> fits w)"
  using VmmFindFreeVa_least [OF assms, of hi] unfolding least_gap_def Let_def list_all_iff by auto

theorem VmmFindFreeVa_correct_witness:
  "VmmFindFreeVa ex_as USER_MMAP_BASE USER_DEVICE_BASE 0x2000 = 0x20002000
   \<and> \<not> list_all (clear_of 0x20000000 0x2000) (regions ex_as)"
proof -
  have v: "VmmFindFreeVa ex_as USER_MMAP_BASE USER_DEVICE_BASE 0x2000 = 0x20002000"
    by (simp add: VmmFindFreeVa_def ex_as_def ex_region_def vmm_consts align_up_def)
  have "unat USER_MMAP_BASE = 0x20000000" "unat USER_DEVICE_BASE = 0x7F000000" "USER_MMAP_BASE \<noteq> 0"
    by (simp_all add: vmm_consts)
  then have "\<not> list_all (clear_of 0x20000000 0x2000) (regions ex_as)"
    using VmmFindFreeVa_correct [OF user_as_okD [OF ex_as_ok], of USER_MMAP_BASE "0x2000" USER_DEVICE_BASE] v
    by (auto simp: Let_def dest: spec [of _ "0x20000000"])
  then show ?thesis
    using v by simp
qed

text \<open>
  C0: The operations on a user address space keep it well formed: its regions are sorted, disjoint, page
  aligned and below \<open>USER_VA_TOP\<close>, and no region is readable, writable or executable beyond its ceiling. This
  holds for anonymous mappings, mappings of memory objects and devices, unmapping, changing the protection and
  injecting memory into a new space, whatever their arguments and whether or not they succeed.
\<close>

theorem user_address_space_kept:
  assumes "user_as_ok as"
  shows "(\<forall>grow hint sz prot k res as' k'. VmmMapAnon grow hint sz prot as k = (res, as', k') \<longrightarrow> user_as_ok as')
    \<and> (\<forall>grow slab sp i e prot hint k res as' k'.
         VmmMapMemObj grow slab sp i e prot hint as k = (res, as', k') \<longrightarrow> user_as_ok as')
    \<and> (\<forall>sp va k e as' k'. VmmUnmapUserRegion sp va as k = Some (e, as', k') \<longrightarrow> user_as_ok as')
    \<and> (\<forall>va sz p e as'. VmmProtectUserRange va sz p as = (e, as') \<longrightarrow> user_as_ok as')
    \<and> (\<forall>grow slab kit par a k e as' k'. InjectObjIntoSpace grow slab kit par a as k = Some (e, as', k') \<longrightarrow> user_as_ok as')"
  using VmmMapAnon_user [OF assms] VmmMapMemObj_user [OF assms] VmmUnmapUserRegion_user [OF assms]
    VmmProtectUserRange_user [OF assms] InjectObjIntoSpace_user [OF assms]
  by blast

theorem user_address_space_kept_witness:
  "user_as_ok (fst (snd (VmmMapAnon True 0 0x2000 PROT_READ ex_as ex_kernel)))
   \<and> user_as_ok (snd (VmmProtectUserRange 0x20001000 0x1000 PROT_WRITE ex_as))"
  using user_address_space_kept [OF ex_as_ok] by (metis prod.collapse)

end
