(* ===== verification/Links.thy ===== *)
theory Links
  imports Space_Life Handle_Correct
begin

text \<open>
  The queues of the kernel and the tasks linked in them. A task is linked through its \<open>node\<close> in a run
  queue or in the senders of a port, through its wait slot in one wait queue, through its timeout node in
  one bucket of the sleep wheel. \<open>queues_ok\<close> says that the lists and the tasks agree on that, that the run
  queues agree with \<open>ready_mask\<close>, and which states a linked task can be in. \<open>view\<close> is the part of the state
  that the call, reply and wait protocol is about; it leaves out the order of the queues and who is on a
  run queue, which priorities decide.
\<close>

section \<open>The protocol view\<close>

record TaskView =
  v_state :: TaskState
  v_ipc :: IpcState
  v_send :: "PortPtr option"
  v_wait :: "WaitQ option"
  v_timed :: bool
  v_blocked :: PortPtr
  v_rc_task :: TaskPtr
  v_rc_tid :: Tid
  v_tid :: Tid
  v_pending :: TaskPtr
  v_cap :: TaskPtr
  v_holder :: TaskPtr
  v_serving :: PortPtr
  v_held :: PortPtr
  v_slot :: nat
  v_owner :: SpacePtr
  v_susp :: bool

record View =
  v_tasks :: "TaskPtr \<Rightarrow> TaskView"
  v_servers :: "PortPtr \<Rightarrow> TaskPtr list"
  v_parked :: "PortPtr \<Rightarrow> HeldCall list option"
  v_frozen :: "SpacePtr \<Rightarrow> bool"
  v_members :: "SpacePtr \<Rightarrow> TaskPtr list"
  v_current :: TaskPtr
  v_doomed :: "TaskPtr set"
  v_palive :: "PortPtr \<Rightarrow> bool"
  v_ealive :: "EventPtr \<Rightarrow> bool"
  v_torn :: "SpacePtr \<Rightarrow> bool"
  v_tables :: "SpacePtr \<Rightarrow> HandleTable"

definition send_of :: "NodeQ option \<Rightarrow> PortPtr option" where
  "send_of n = (case n of Some (SendQ p) \<Rightarrow> Some p | _ \<Rightarrow> None)"

lemma send_of_simps [simp]:
  "send_of None = None" "send_of (Some (SendQ p)) = Some p" "send_of (Some (RunQ l)) = None"
  by (simp_all add: send_of_def)

definition task_view :: "TaskObject \<Rightarrow> TaskView" where
  "task_view x = \<lparr>v_state = state x, v_ipc = ipc_state x, v_send = send_of (node x),
     v_wait = (if ws_linked x then ws_queue x else None), v_timed = timeout_linked x,
     v_blocked = blocked_port x, v_rc_task = rc_caller_task x, v_rc_tid = rc_caller_tid x, v_tid = tid x,
     v_pending = pending_reply_cap x, v_cap = reply_cap x, v_holder = reply_holder x,
     v_serving = serving_port x, v_held = held_port x, v_slot = held_slot x, v_owner = owner x,
     v_susp = suspended x\<rparr>"

text \<open>A handle table is consistent, and every handle but one for a memory object is known to name an object, none the idle task.\<close>

definition names_object :: "HandleTableEntry \<Rightarrow> bool" where
  "names_object e \<longleftrightarrow> he_type e \<noteq> HANDLE_FREE \<longrightarrow>
     (he_type e = HANDLE_MEM \<or> he_obj e \<noteq> 0) \<and> (he_type e = HANDLE_TASK \<longrightarrow> he_obj e \<noteq> idle_task)"

definition tbl_good :: "HandleTable \<Rightarrow> bool" where
  "tbl_good t \<longleftrightarrow> tbl_ok t \<and> (\<forall>i e. HandleTableGet t i = Some e \<longrightarrow> names_object e)"

definition view :: "Kernel \<Rightarrow> View" where
  "view k = \<lparr>v_tasks = (\<lambda>t. task_view (tasks k t)), v_servers = active_servers k,
     v_parked = (\<lambda>p. held (ports k p)), v_frozen = (\<lambda>s. frozen (spaces k s)), v_members = space_tasks k,
     v_current = current_task k, v_doomed = set (task_destroy_queue k), v_palive = (\<lambda>p. port_alive (ports k p)),
     v_ealive = (\<lambda>ev. ev_alive (events k ev)), v_torn = (\<lambda>s. torn_down (spaces k s)),
     v_tables = (\<lambda>s. handle_table (spaces k s))\<rparr>"

abbreviation vt :: "Kernel \<Rightarrow> TaskPtr \<Rightarrow> TaskView" where
  "vt k t \<equiv> v_tasks (view k) t"

definition v_upd :: "TaskPtr \<Rightarrow> (TaskView \<Rightarrow> TaskView) \<Rightarrow> View \<Rightarrow> View" where
  "v_upd t f v = v\<lparr>v_tasks := (v_tasks v)(t := f (v_tasks v t))\<rparr>"

lemma v_upd_sel [simp]:
  "v_tasks (v_upd t f v) s = (if s = t then f (v_tasks v t) else v_tasks v s)"
  "v_servers (v_upd t f v) = v_servers v" "v_parked (v_upd t f v) = v_parked v"
  "v_frozen (v_upd t f v) = v_frozen v" "v_members (v_upd t f v) = v_members v"
  "v_current (v_upd t f v) = v_current v" "v_doomed (v_upd t f v) = v_doomed v" "v_palive (v_upd t f v) = v_palive v"
  "v_ealive (v_upd t f v) = v_ealive v" "v_torn (v_upd t f v) = v_torn v" "v_tables (v_upd t f v) = v_tables v"
  by (simp_all add: v_upd_def)

lemma v_upd_id [simp]: "v_upd t (\<lambda>x. x) v = v"
  by (simp add: v_upd_def)

lemma v_upd_upd [simp]: "v_upd t f (v_upd t g v) = v_upd t (\<lambda>x. f (g x)) v"
  by (simp add: v_upd_def)

lemma v_upd_same: "f (v_tasks v t) = v_tasks v t \<Longrightarrow> v_upd t f v = v"
  by (simp add: v_upd_def)

lemma v_upd_cong: "f (v_tasks v t) = g (v_tasks v t) \<Longrightarrow> v_upd t f v = v_upd t g v"
  by (simp add: v_upd_def)

lemma view_upd_task:
  assumes "\<And>x. task_view (f x) = g (task_view x)"
  shows "view (upd_task t f k) = v_upd t g (view k)"
  by (simp add: view_def upd_task_def v_upd_def fun_eq_iff assms)

lemma view_upd_task_same:
  assumes "task_view (f (tasks k t)) = task_view (tasks k t)"
  shows "view (upd_task t f k) = view k"
  using assms by (simp add: view_def upd_task_def fun_eq_iff)

section \<open>What an operation links\<close>

text \<open>The whole of what the invariants below depend on.\<close>

definition links where
  "links k = (view k, node_q k, ready_mask k, wait_q k, sleep_wheel k, wheel_occ k, wheel_now_slot k, slot_shift k,
     \<lambda>t. (node (tasks k t), queued_prio (tasks k t), ws_queue (tasks k t), ws_linked (tasks k t),
          sleep_slot (tasks k t), wake_deadline (tasks k t)))"

named_theorems link_frame \<open>operations that change no link\<close>

lemma links_upd_task:
  assumes "\<And>x. task_view (f x) = task_view x" "\<And>x. node (f x) = node x"
    "\<And>x. queued_prio (f x) = queued_prio x" "\<And>x. ws_queue (f x) = ws_queue x"
    "\<And>x. ws_linked (f x) = ws_linked x" "\<And>x. sleep_slot (f x) = sleep_slot x"
    "\<And>x. wake_deadline (f x) = wake_deadline x"
  shows "links (upd_task t f k) = links k"
  using assms by (simp add: links_def view_def upd_task_def fun_eq_iff)

lemma links_other [link_frame]:
  "links (k\<lparr>do_resched := a\<rparr>) = links k" "links (k\<lparr>slice_armed := a\<rparr>) = links k"
  "links (k\<lparr>in_tick := a\<rparr>) = links k" "links (k\<lparr>cnt_ix := b\<rparr>) = links k" "links (k\<lparr>cnt_last := c\<rparr>) = links k"
  "links (k\<lparr>cntv_ctl := d\<rparr>) = links k" "links (k\<lparr>cntv_cval := c\<rparr>) = links k"
  "links (k\<lparr>cntv_ctl_shadow := d\<rparr>) = links k" "links (k\<lparr>cntv_cval_shadow := c\<rparr>) = links k"
  "links (k\<lparr>wheel_min := e\<rparr>) = links k"
  "links (k\<lparr>on_idle_stack := a\<rparr>) = links k" "links (k\<lparr>fpu_access_enabled := a\<rparr>) = links k"
  "links (k\<lparr>active_as := d\<rparr>) = links k" "links (k\<lparr>tls_task := d\<rparr>) = links k" "links (k\<lparr>fpu_owner := d\<rparr>) = links k"
  "links (k\<lparr>observers := f\<rparr>) = links k" "links (k\<lparr>freed := g\<rparr>) = links k" "links (k\<lparr>msg_mem := h\<rparr>) = links k"
  "links (k\<lparr>tcb_mem := i\<rparr>) = links k" 
  "links (k\<lparr>task_table := m\<rparr>) = links k" "links (k\<lparr>next_tid := n\<rparr>) = links k"
  "links (k\<lparr>irq_owners := oo\<rparr>) = links k" "links (k\<lparr>irq_unmasked := p\<rparr>) = links k"
  "links (k\<lparr>irq_registered := p\<rparr>) = links k" "links (k\<lparr>mem_subscribers := q\<rparr>) = links k"
  "links (k\<lparr>space_table := m'\<rparr>) = links k" "links (k\<lparr>next_spid := n'\<rparr>) = links k"
  by (simp_all add: links_def view_def)

lemma links_upd_event [link_frame]: "(\<And>x. ev_alive (f x) = ev_alive x) \<Longrightarrow> links (upd_event ev f k) = links k"
  by (simp add: links_def view_def upd_event_def fun_eq_iff)

lemma links_upd_mem [link_frame]: "links (upd_mem m f k) = links k"
  by (simp add: links_def view_def upd_mem_def)

lemma links_upd_space [link_frame]:
  "(\<And>x. frozen (f x) = frozen x) \<Longrightarrow> (\<And>x. torn_down (f x) = torn_down x) \<Longrightarrow> (\<And>x. handle_table (f x) = handle_table x)
     \<Longrightarrow> links (upd_space s f k) = links k"
  by (simp add: links_def view_def upd_space_def fun_eq_iff)

lemma links_upd_port [link_frame]:
  "(\<And>x. held (f x) = held x) \<Longrightarrow> (\<And>x. port_alive (f x) = port_alive x) \<Longrightarrow> links (upd_port p f k) = links k"
  by (simp add: links_def view_def upd_port_def fun_eq_iff)

lemma links_if: "links (if c then a else b) = (if c then links a else links b)"
  by simp

lemma linksD:
  assumes "links k = links k'"
  shows "view k = view k'" "node_q k = node_q k'" "ready_mask k = ready_mask k'" "wait_q k = wait_q k'"
    "sleep_wheel k = sleep_wheel k'" "wheel_occ k = wheel_occ k'" "node (tasks k t) = node (tasks k' t)"
    "queued_prio (tasks k t) = queued_prio (tasks k' t)" "ws_queue (tasks k t) = ws_queue (tasks k' t)"
    "ws_linked (tasks k t) = ws_linked (tasks k' t)" "sleep_slot (tasks k t) = sleep_slot (tasks k' t)"
    "wake_deadline (tasks k t) = wake_deadline (tasks k' t)" "wheel_now_slot k = wheel_now_slot k'" "slot_shift k = slot_shift k'"
  using assms by (simp_all add: links_def fun_eq_iff)

lemma viewD:
  assumes "view k = view k'"
  shows "state (tasks k t) = state (tasks k' t)" "ipc_state (tasks k t) = ipc_state (tasks k' t)"
    "timeout_linked (tasks k t) = timeout_linked (tasks k' t)"
    "blocked_port (tasks k t) = blocked_port (tasks k' t)" "owner (tasks k t) = owner (tasks k' t)"
    "suspended (tasks k t) = suspended (tasks k' t)" "reply_cap (tasks k t) = reply_cap (tasks k' t)"
    "reply_holder (tasks k t) = reply_holder (tasks k' t)" "held_port (tasks k t) = held_port (tasks k' t)"
    "held_slot (tasks k t) = held_slot (tasks k' t)" "serving_port (tasks k t) = serving_port (tasks k' t)"
    "pending_reply_cap (tasks k t) = pending_reply_cap (tasks k' t)"
    "rc_caller_task (tasks k t) = rc_caller_task (tasks k' t)"
    "rc_caller_tid (tasks k t) = rc_caller_tid (tasks k' t)" "tid (tasks k t) = tid (tasks k' t)"
    "send_of (node (tasks k t)) = send_of (node (tasks k' t))"
    "active_servers k = active_servers k'" "space_tasks k = space_tasks k'"
    "current_task k = current_task k'" "frozen (spaces k s) = frozen (spaces k' s)"
    "held (ports k p) = held (ports k' p)" "port_alive (ports k p) = port_alive (ports k' p)"
    "ev_alive (events k ev) = ev_alive (events k' ev)" "torn_down (spaces k s) = torn_down (spaces k' s)"
  using assms by (simp_all add: view_def task_view_def fun_eq_iff)

lemmas task_fields_of_view = viewD

section \<open>Consistent queues\<close>

definition nodes_ok :: "Kernel \<Rightarrow> bool" where
  "nodes_ok k \<longleftrightarrow> (\<forall>q. distinct (node_q k q)) \<and> (\<forall>q t. t \<in> set (node_q k q) \<longleftrightarrow> node (tasks k t) = Some q)"

definition run_ok :: "Kernel \<Rightarrow> bool" where
  "run_ok k \<longleftrightarrow> (\<forall>t l. node (tasks k t) = Some (RunQ l) \<longrightarrow> l < 8 \<and> queued_prio (tasks k t) = l)
     \<and> (\<forall>l. bit (ready_mask k) l \<longleftrightarrow> node_q k (RunQ l) \<noteq> [])"

definition waits_ok :: "Kernel \<Rightarrow> bool" where
  "waits_ok k \<longleftrightarrow> (\<forall>q. distinct (wait_q k q))
     \<and> (\<forall>q t. t \<in> set (wait_q k q) \<longleftrightarrow> ws_linked (tasks k t) \<and> ws_queue (tasks k t) = Some q)
     \<and> (\<forall>t. ws_linked (tasks k t) \<longrightarrow> ws_queue (tasks k t) \<noteq> None)"

definition wheel_ok :: "Kernel \<Rightarrow> bool" where
  "wheel_ok k \<longleftrightarrow> length (wheel_occ k) = 16 \<and> (\<forall>s. distinct (sleep_wheel k s))
     \<and> (\<forall>s t. t \<in> set (sleep_wheel k s) \<longleftrightarrow> timeout_linked (tasks k t) \<and> sleep_slot (tasks k t) = int s)
     \<and> (\<forall>t. timeout_linked (tasks k t) \<longrightarrow> 0 \<le> sleep_slot (tasks k t) \<and> sleep_slot (tasks k t) < 512)
     \<and> (\<forall>s < 512. sleep_wheel k s \<noteq> [] \<longrightarrow> BitmapTest (wheel_occ k) s)"

text \<open>The states in which a task can be linked through its \<open>node\<close>.\<close>

definition nstate_ok :: "Kernel \<Rightarrow> bool" where
  "nstate_ok k \<longleftrightarrow>
     (\<forall>t l. node (tasks k t) = Some (RunQ l) \<longrightarrow>
        t \<noteq> 0 \<and> t \<noteq> idle_task \<and> state (tasks k t) = TASK_STATE_READY \<and> \<not> suspended (tasks k t))
     \<and> (\<forall>t p. node (tasks k t) = Some (SendQ p) \<longrightarrow>
        p \<noteq> 0 \<and> state (tasks k t) = TASK_STATE_BLOCKED \<and> blocked_port (tasks k t) = p)"

definition queues_ok :: "Kernel \<Rightarrow> bool" where
  "queues_ok k \<longleftrightarrow> nodes_ok k \<and> run_ok k \<and> waits_ok k \<and> wheel_ok k \<and> nstate_ok k"

lemmas queue_defs = nodes_ok_def run_ok_def waits_ok_def wheel_ok_def nstate_ok_def

text \<open>
  What an operation is in the middle of: frozen spaces whose tasks it has yet to take off the run queues,
  objects it is about to take the waiters off, tasks whose state it relies on, tasks it has taken out of
  their space, whether it has stopped the running task and not started another, and which task
  stays the current one.
\<close>

record Scope =
  freezing :: "SpacePtr set"
  dying :: "WaitQ set"
  pinned :: "TaskPtr \<Rightarrow> TaskState option"
  outside :: "TaskPtr set"
  resting :: bool
  at_cpu :: "TaskPtr option"

text \<open>
  Nobody is forgotten: a task of a space that is ready, not suspended and not frozen is on a run queue -
  unless it is in \<open>E\<close>, the tasks an operation is working on - and a task of a frozen space is not, unless
  an operation is about to freeze the space.
\<close>

definition member_of :: "TaskPtr \<Rightarrow> Kernel \<Rightarrow> bool" where
  "member_of t k \<longleftrightarrow> t \<noteq> 0 \<and> t \<in> set (space_tasks k (owner (tasks k t)))"

definition is_frozen :: "TaskPtr \<Rightarrow> Kernel \<Rightarrow> bool" where
  "is_frozen t k \<longleftrightarrow> owner (tasks k t) \<noteq> 0 \<and> frozen (spaces k (owner (tasks k t)))"

definition must_run :: "TaskPtr \<Rightarrow> Kernel \<Rightarrow> bool" where
  "must_run t k \<longleftrightarrow> member_of t k \<and> state (tasks k t) = TASK_STATE_READY \<and> \<not> suspended (tasks k t) \<and> \<not> is_frozen t k"

definition must_not_run :: "Scope \<Rightarrow> TaskPtr \<Rightarrow> Kernel \<Rightarrow> bool" where
  "must_not_run X t k \<longleftrightarrow> member_of t k \<and> is_frozen t k \<and> owner (tasks k t) \<notin> freezing X"

definition is_queued :: "TaskPtr \<Rightarrow> Kernel \<Rightarrow> bool" where
  "is_queued t k \<longleftrightarrow> (\<exists>l. node (tasks k t) = Some (RunQ l))"

definition ready_ok :: "TaskPtr set \<Rightarrow> Scope \<Rightarrow> Kernel \<Rightarrow> bool" where
  "ready_ok E X k \<longleftrightarrow> (\<forall>t. t \<notin> E \<and> must_run t k \<longrightarrow> is_queued t k)
     \<and> (\<forall>t. must_not_run X t k \<longrightarrow> \<not> is_queued t k)"

lemma member_frozen_view:
  assumes "v_owner (vt k t) = v_owner (vt k' t)" "v_members (view k) = v_members (view k')"
    "v_frozen (view k) = v_frozen (view k')"
  shows "member_of t k = member_of t k'" "is_frozen t k = is_frozen t k'"
  using assms by (simp_all add: member_of_def is_frozen_def view_def task_view_def fun_eq_iff)

lemma must_not_run_view:
  assumes "v_owner (vt k t) = v_owner (vt k' t)" "v_members (view k) = v_members (view k')"
    "v_frozen (view k) = v_frozen (view k')"
  shows "must_not_run X t k = must_not_run X t k'"
  using assms(1) member_frozen_view [OF assms] by (simp add: must_not_run_def) (simp add: view_def task_view_def)

lemma must_run_view:
  assumes "v_owner (vt k t) = v_owner (vt k' t)" "v_members (view k) = v_members (view k')"
    "v_frozen (view k) = v_frozen (view k')" "v_state (vt k t) = v_state (vt k' t)" "v_susp (vt k t) = v_susp (vt k' t)"
  shows "must_run t k = must_run t k'"
  using assms(4,5) member_frozen_view [OF assms(1-3)]
  by (simp add: must_run_def) (simp add: view_def task_view_def)

lemma queues_ok_links: "links k = links k' \<Longrightarrow> queues_ok k = queues_ok k'"
  using linksD [of k k'] viewD [of k k', OF linksD(1)] by (simp add: queues_ok_def queue_defs)

lemma ready_ok_links: "links k = links k' \<Longrightarrow> ready_ok E X k = ready_ok E X k'"
  using linksD [of k k'] must_run_view [of k _ k'] must_not_run_view [of k _ k']
  by (simp add: ready_ok_def is_queued_def)

lemma ready_ok_mono: "ready_ok E X k \<Longrightarrow> E \<subseteq> F \<Longrightarrow> ready_ok F X k"
  unfolding ready_ok_def by blast

section \<open>Parts of the links\<close>

definition nlinks where
  "nlinks k = (node_q k, ready_mask k, \<lambda>t. (node (tasks k t), queued_prio (tasks k t)))"

definition wlinks where
  "wlinks k = (wait_q k, \<lambda>t. (ws_queue (tasks k t), ws_linked (tasks k t)))"

definition slinks where
  "slinks k = (sleep_wheel k, wheel_occ k, wheel_now_slot k, slot_shift k,
     \<lambda>t. (timeout_linked (tasks k t), sleep_slot (tasks k t), wake_deadline (tasks k t)))"

lemma links_parts: "links k = links k' \<longleftrightarrow> view k = view k' \<and> nlinks k = nlinks k' \<and> wlinks k = wlinks k' \<and> slinks k = slinks k'"
  using viewD [of k k'] by (auto simp: links_def nlinks_def wlinks_def slinks_def fun_eq_iff)

lemma nlinks_ok: "nlinks k = nlinks k' \<Longrightarrow> nodes_ok k = nodes_ok k'" "nlinks k = nlinks k' \<Longrightarrow> run_ok k = run_ok k'"
  by (simp_all add: nlinks_def nodes_ok_def run_ok_def fun_eq_iff)

lemma wlinks_ok: "wlinks k = wlinks k' \<Longrightarrow> waits_ok k = waits_ok k'"
  by (simp add: wlinks_def waits_ok_def fun_eq_iff)

lemma slinks_ok: "slinks k = slinks k' \<Longrightarrow> wheel_ok k = wheel_ok k'"
  by (simp add: slinks_def wheel_ok_def fun_eq_iff)

lemma nlinksD:
  assumes "nlinks k = nlinks k'"
  shows "node_q k = node_q k'" "ready_mask k = ready_mask k'" "node (tasks k t) = node (tasks k' t)"
    "queued_prio (tasks k t) = queued_prio (tasks k' t)"
  using assms by (simp_all add: nlinks_def fun_eq_iff)

lemma wlinksD:
  assumes "wlinks k = wlinks k'"
  shows "wait_q k = wait_q k'" "ws_queue (tasks k t) = ws_queue (tasks k' t)"
    "ws_linked (tasks k t) = ws_linked (tasks k' t)"
  using assms by (simp_all add: wlinks_def fun_eq_iff)

lemma slinksD:
  assumes "slinks k = slinks k'"
  shows "sleep_wheel k = sleep_wheel k'" "wheel_occ k = wheel_occ k'"
    "timeout_linked (tasks k t) = timeout_linked (tasks k' t)" "sleep_slot (tasks k t) = sleep_slot (tasks k' t)"
    "wake_deadline (tasks k t) = wake_deadline (tasks k' t)" "wheel_now_slot k = wheel_now_slot k'" "slot_shift k = slot_shift k'"
  using assms by (simp_all add: slinks_def fun_eq_iff)

lemma nlinks_upd_task [simp]:
  "(\<And>x. node (f x) = node x) \<Longrightarrow> (\<And>x. queued_prio (f x) = queued_prio x) \<Longrightarrow> nlinks (upd_task t f k) = nlinks k"
  by (simp add: nlinks_def upd_task_def fun_eq_iff)

lemma wlinks_upd_task [simp]:
  "(\<And>x. ws_queue (f x) = ws_queue x) \<Longrightarrow> (\<And>x. ws_linked (f x) = ws_linked x) \<Longrightarrow> wlinks (upd_task t f k) = wlinks k"
  by (simp add: wlinks_def upd_task_def fun_eq_iff)

lemma slinks_upd_task [simp]:
  "(\<And>x. timeout_linked (f x) = timeout_linked x) \<Longrightarrow> (\<And>x. sleep_slot (f x) = sleep_slot x)
     \<Longrightarrow> (\<And>x. wake_deadline (f x) = wake_deadline x) \<Longrightarrow> slinks (upd_task t f k) = slinks k"
  by (simp add: slinks_def upd_task_def fun_eq_iff)

text \<open>A field of another component.\<close>

lemma parts_other_fields [simp]:
  "nlinks (k\<lparr>wait_q := a\<rparr>) = nlinks k" "nlinks (k\<lparr>sleep_wheel := b\<rparr>) = nlinks k" "nlinks (k\<lparr>wheel_occ := c\<rparr>) = nlinks k"
  "wlinks (k\<lparr>node_q := d\<rparr>) = wlinks k" "wlinks (k\<lparr>ready_mask := e\<rparr>) = wlinks k" "wlinks (k\<lparr>sleep_wheel := b\<rparr>) = wlinks k"
  "wlinks (k\<lparr>wheel_occ := c\<rparr>) = wlinks k"
  "slinks (k\<lparr>node_q := d\<rparr>) = slinks k" "slinks (k\<lparr>ready_mask := e\<rparr>) = slinks k" "slinks (k\<lparr>wait_q := a\<rparr>) = slinks k"
  "nlinks (k\<lparr>active_servers := f\<rparr>) = nlinks k" "wlinks (k\<lparr>active_servers := f\<rparr>) = wlinks k"
  "slinks (k\<lparr>active_servers := f\<rparr>) = slinks k"
  "nlinks (k\<lparr>space_tasks := g\<rparr>) = nlinks k" "wlinks (k\<lparr>space_tasks := g\<rparr>) = wlinks k"
  "slinks (k\<lparr>space_tasks := g\<rparr>) = slinks k"
  "nlinks (k\<lparr>current_task := h\<rparr>) = nlinks k" "wlinks (k\<lparr>current_task := h\<rparr>) = wlinks k"
  "slinks (k\<lparr>current_task := h\<rparr>) = slinks k"
  "nlinks (k\<lparr>task_destroy_queue := l\<rparr>) = nlinks k" "wlinks (k\<lparr>task_destroy_queue := l\<rparr>) = wlinks k"
  "slinks (k\<lparr>task_destroy_queue := l\<rparr>) = slinks k"
  by (simp_all add: nlinks_def wlinks_def slinks_def)

lemma parts_port_space [simp]:
  "nlinks (upd_port p f k) = nlinks k" "wlinks (upd_port p f k) = wlinks k" "slinks (upd_port p f k) = slinks k"
  "nlinks (upd_space s g k) = nlinks k" "wlinks (upd_space s g k) = wlinks k" "slinks (upd_space s g k) = slinks k"
  "nlinks (upd_event ev h k) = nlinks k" "wlinks (upd_event ev h k) = wlinks k" "slinks (upd_event ev h k) = slinks k"
  by (simp_all add: nlinks_def wlinks_def slinks_def upd_port_def upd_space_def upd_event_def)

lemma view_queue_fields [simp]:
  "view (k\<lparr>wait_q := a\<rparr>) = view k" "view (k\<lparr>sleep_wheel := b\<rparr>) = view k" "view (k\<lparr>wheel_occ := c\<rparr>) = view k"
  "view (k\<lparr>node_q := d\<rparr>) = view k" "view (k\<lparr>ready_mask := e\<rparr>) = view k"
  by (simp_all add: view_def)

lemma view_fields [simp]:
  "view (k\<lparr>active_servers := f\<rparr>) = (view k)\<lparr>v_servers := f\<rparr>" "view (k\<lparr>space_tasks := g\<rparr>) = (view k)\<lparr>v_members := g\<rparr>"
  "view (k\<lparr>current_task := h\<rparr>) = (view k)\<lparr>v_current := h\<rparr>" "view (k\<lparr>task_destroy_queue := l\<rparr>) = (view k)\<lparr>v_doomed := set l\<rparr>"
  by (simp_all add: view_def)

lemma view_upd_port [simp]:
  "view (upd_port p f k) = (view k)\<lparr>v_parked := (v_parked (view k))(p := held (f (ports k p))),
     v_palive := (v_palive (view k))(p := port_alive (f (ports k p)))\<rparr>"
  by (simp add: view_def upd_port_def fun_eq_iff)

lemma view_upd_space [simp]:
  "view (upd_space s f k) = (view k)\<lparr>v_frozen := (v_frozen (view k))(s := frozen (f (spaces k s))),
     v_torn := (v_torn (view k))(s := torn_down (f (spaces k s))), v_tables := (v_tables (view k))(s := handle_table (f (spaces k s)))\<rparr>"
  by (simp add: view_def upd_space_def fun_eq_iff)

lemma view_upd_event [simp]:
  "view (upd_event ev f k) = (view k)\<lparr>v_ealive := (v_ealive (view k))(ev := ev_alive (f (events k ev)))\<rparr>"
  by (simp add: view_def upd_event_def fun_eq_iff)

lemma v_tasks_view: "v_tasks (view k) t = task_view (tasks k t)"
  by (simp add: view_def)

lemma linksD_parts:
  assumes "links k = links k'"
  shows "view k = view k'" "nlinks k = nlinks k'" "wlinks k = wlinks k'" "slinks k = slinks k'"
  using assms by (simp_all add: links_parts)

lemma wheel_ok_upd_task:
  "(\<And>x. timeout_linked (f x) = timeout_linked x) \<Longrightarrow> (\<And>x. sleep_slot (f x) = sleep_slot x)
     \<Longrightarrow> wheel_ok (upd_task t f k) = wheel_ok k"
proof -
  assume "\<And>x. timeout_linked (f x) = timeout_linked x" "\<And>x. sleep_slot (f x) = sleep_slot x"
  then have "timeout_linked (tasks (upd_task t f k) s) = timeout_linked (tasks k s)"
    "sleep_slot (tasks (upd_task t f k) s) = sleep_slot (tasks k s)" for s
    by (simp_all add: upd_task_def)
  moreover have "sleep_wheel (upd_task t f k) = sleep_wheel k" "wheel_occ (upd_task t f k) = wheel_occ k"
    by (simp_all add: upd_task_def)
  ultimately show ?thesis
    by (simp add: wheel_ok_def)
qed

section \<open>Operations that change no link\<close>

lemma links_ArchSetInFrame [link_frame]: "links (ArchSetInFrame t r v k) = links k"
  unfolding ArchSetInFrame_def by (rule links_upd_task) (simp_all add: task_view_def)

lemma links_ReadCntvct [link_frame]: "links (snd (ReadCntvct k)) = links k"
  by (simp add: ReadCntvct_def Let_def link_frame)

lemma links_ArchTimerNow [link_frame]: "links (snd (ArchTimerNow k)) = links k"
  by (simp add: ArchTimerNow_def link_frame)

lemma links_WriteCntvCtl [link_frame]: "links (WriteCntvCtl v k) = links k"
  by (simp add: WriteCntvCtl_def link_frame)

lemma links_ArchTimerSetDeadline [link_frame]: "links (ArchTimerSetDeadline d k) = links k"
  by (simp add: ArchTimerSetDeadline_def link_frame)

lemma links_ArchTimerDisable [link_frame]: "links (ArchTimerDisable k) = links k"
  by (simp add: ArchTimerDisable_def link_frame)

lemma links_ArchDeadlineFromMs [link_frame]: "links (snd (ArchDeadlineFromMs ms k)) = links k"
  by (simp add: ArchDeadlineFromMs_def Let_def case_prod_unfold link_frame)

lemma links_SchedArmTimer [link_frame]: "links (SchedArmTimer k) = links k"
  by (simp add: SchedArmTimer_def Let_def case_prod_unfold link_frame)

lemma links_SchedSetReschedFlag [link_frame]: "links (SchedSetReschedFlag k) = links k"
  by (simp add: SchedSetReschedFlag_def link_frame)

end
