(* ===== verification/Links_Queue.thy ===== *)
theory Links_Queue
  imports Links
begin

text \<open>
  The queue operations of \<open>sched.c\<close> keep the queues consistent, and what each does to the links and to the
  protocol view.
\<close>

section \<open>Unlinking a node\<close>

lemma node_node_remove: "node (tasks (node_remove t k) s) = (if s = t then None else node (tasks k s))"
  by (simp add: node_remove_def upd_task_def split: option.split)

lemma node_q_node_remove:
  "node_q (node_remove t k) q = (if node (tasks k t) = Some q then remove1 t (node_q k q) else node_q k q)"
  by (auto simp: node_remove_def upd_task_def split: option.split)

lemma node_remove_frame [simp]:
  "wlinks (node_remove t k) = wlinks k" "slinks (node_remove t k) = slinks k"
  "ready_mask (node_remove t k) = ready_mask k" "queued_prio (tasks (node_remove t k) s) = queued_prio (tasks k s)"
  by (simp_all add: node_remove_def upd_task_def wlinks_def slinks_def fun_eq_iff split: option.split)

lemma view_node_remove [simp]: "view (node_remove t k) = v_upd t (\<lambda>x. x\<lparr>v_send := None\<rparr>) (view k)"
proof (cases "node (tasks k t)")
  case None
  then show ?thesis
    by (simp add: node_remove_def v_upd_same v_tasks_view task_view_def)
next
  case (Some q)
  then show ?thesis
    by (simp add: node_remove_def) (rule view_upd_task [THEN trans], simp_all add: task_view_def)
qed

lemma nodes_ok_node_remove: "nodes_ok k \<Longrightarrow> nodes_ok (node_remove t k)"
  unfolding nodes_ok_def by (simp add: node_node_remove node_q_node_remove)

lemma nstate_ok_node_remove: "nstate_ok k \<Longrightarrow> nstate_ok (node_remove t k)"
  unfolding nstate_ok_def
  by (auto simp: node_node_remove node_remove_def upd_task_def split: option.splits if_splits)

section \<open>The run queues\<close>

lemma bit_ready_clear: "bit (m AND NOT (2 ^ l) :: u32) j \<longleftrightarrow> bit m j \<and> j \<noteq> l"
  by (auto simp: bit_simps dest: bit_imp_le_length)

lemma bit_ready_set: "l < 8 \<Longrightarrow> bit (m OR 2 ^ l :: u32) j \<longleftrightarrow> bit m j \<or> j = l"
  by (auto simp: bit_simps dest: bit_imp_le_length)

lemma node_q_remove_sub: "node_q (node_remove t k) q \<noteq> [] \<Longrightarrow> node_q k q \<noteq> []"
  by (auto simp: node_q_node_remove split: if_splits)

lemma SchedRemoveRunQueue_frame [simp]:
  "wlinks (SchedRemoveRunQueue t k) = wlinks k" "slinks (SchedRemoveRunQueue t k) = slinks k"
  by (simp_all add: SchedRemoveRunQueue_def Let_def)

lemma view_SchedRemoveRunQueue [simp]:
  "view (SchedRemoveRunQueue t k) = v_upd t (\<lambda>x. x\<lparr>v_send := None\<rparr>) (view k)"
  by (simp add: SchedRemoveRunQueue_def Let_def v_upd_same v_tasks_view task_view_def)

lemma node_SchedRemoveRunQueue:
  "node (tasks (SchedRemoveRunQueue t k) s) = (if s = t then None else node (tasks k s))"
  by (simp add: SchedRemoveRunQueue_def Let_def node_node_remove)

lemma nlinks_mask [simp]: "nodes_ok (k\<lparr>ready_mask := m\<rparr>) = nodes_ok k" "nstate_ok (k\<lparr>ready_mask := m\<rparr>) = nstate_ok k"
  by (simp_all add: nodes_ok_def nstate_ok_def)

lemma run_ok_SchedRemoveRunQueue:
  assumes "nodes_ok k" "run_ok k"
  shows "run_ok (SchedRemoveRunQueue t k)"
proof (cases "node (tasks k t)")
  case None
  then show ?thesis
    using assms(2) by (simp add: SchedRemoveRunQueue_def)
next
  case (Some q)
  let ?p = "queued_prio (tasks k t)" and ?k = "node_remove t k"
  have tasks: "node (tasks ?k s) = Some (RunQ l) \<Longrightarrow> l < 8 \<and> queued_prio (tasks ?k s) = l" for s l
    using assms(2) by (auto simp: run_ok_def node_node_remove split: if_splits)
  have other: "node_q ?k (RunQ l) \<noteq> [] \<longleftrightarrow> bit (ready_mask k) l" if "l \<noteq> ?p" for l
    using that assms(2) Some by (auto simp: run_ok_def node_q_node_remove)
  have same: "bit (ready_mask k) ?p" if "node_q ?k (RunQ ?p) \<noteq> []"
    using assms(2) node_q_remove_sub [OF that] by (simp add: run_ok_def)
  show ?thesis
  proof (cases "node_q ?k (RunQ ?p) = []")
    case True
    then have "SchedRemoveRunQueue t k = ?k\<lparr>ready_mask := ready_mask k AND NOT (push_bit ?p 1)\<rparr>"
      using Some by (simp add: SchedRemoveRunQueue_def Let_def)
    then show ?thesis
      using True tasks other unfolding run_ok_def by (simp add: bit_ready_clear) metis
  next
    case False
    then have "SchedRemoveRunQueue t k = ?k"
      using Some by (simp add: SchedRemoveRunQueue_def Let_def)
    then show ?thesis
      using False tasks other same unfolding run_ok_def by simp metis
  qed
qed

lemma queues_ok_SchedRemoveRunQueue: "queues_ok k \<Longrightarrow> queues_ok (SchedRemoveRunQueue t k)"
  using run_ok_SchedRemoveRunQueue [of k t] nodes_ok_node_remove [of k t] nstate_ok_node_remove [of k t]
    wlinks_ok [of "SchedRemoveRunQueue t k" k] slinks_ok [of "SchedRemoveRunQueue t k" k]
  by (auto simp: queues_ok_def SchedRemoveRunQueue_def Let_def)

lemma run_ok_node_remove_sender:
  assumes "run_ok k" "\<And>l. node (tasks k t) \<noteq> Some (RunQ l)"
  shows "run_ok (node_remove t k)"
  using assms unfolding run_ok_def by (simp add: node_node_remove node_q_node_remove)

lemma queues_ok_node_remove:
  assumes "queues_ok k" "\<And>l. node (tasks k t) \<noteq> Some (RunQ l)"
  shows "queues_ok (node_remove t k)"
  using assms nodes_ok_node_remove [of k t] nstate_ok_node_remove [of k t] run_ok_node_remove_sender [of k t]
    wlinks_ok [of "node_remove t k" k] slinks_ok [of "node_remove t k" k]
  by (auto simp: queues_ok_def)

text \<open>Enqueuing, when the guards let it happen.\<close>

definition enqueued :: "TaskPtr \<Rightarrow> bool \<Rightarrow> Kernel \<Rightarrow> Kernel" where
  "enqueued t front k =
     (let p = priority (tasks k t);
          p = (if p \<ge> SCHED_PRIORITY_LEVELS then SCHED_PRIO_DEFAULT else p);
          k = upd_task t (\<lambda>x. x\<lparr>queued_prio := p\<rparr>) k;
          k = (if front then node_push (RunQ p) t k else node_append (RunQ p) t k)
      in k\<lparr>ready_mask := ready_mask k OR push_bit p 1\<rparr>)"

definition may_enqueue :: "TaskPtr \<Rightarrow> Kernel \<Rightarrow> bool" where
  "may_enqueue t k \<longleftrightarrow> t \<noteq> 0 \<and> \<not> (owner (tasks k t) \<noteq> 0 \<and> frozen (spaces k (owner (tasks k t))))
     \<and> \<not> suspended (tasks k t) \<and> node (tasks k t) = None"

lemma links_SchedEnqueue: "links (SchedEnqueue t front k) = links (if may_enqueue t k then enqueued t front k else k)"
  by (simp add: SchedEnqueue_def enqueued_def may_enqueue_def Let_def link_frame)

lemma enqueued_frame [simp]:
  "wlinks (enqueued t front k) = wlinks k" "slinks (enqueued t front k) = slinks k"
  by (simp_all add: enqueued_def Let_def node_push_def node_append_def)

lemma view_enqueued: "node (tasks k t) = None \<Longrightarrow> view (enqueued t front k) = view k"
  by (simp add: enqueued_def Let_def node_push_def node_append_def view_def upd_task_def task_view_def fun_eq_iff)

lemma node_enqueued:
  "\<exists>l < 8. \<forall>s. node (tasks (enqueued t front k) s) = (if s = t then Some (RunQ l) else node (tasks k s))"
  by (auto simp: enqueued_def Let_def node_push_def node_append_def upd_task_def const_defs)

lemma nodes_run_ok_enqueued:
  assumes "nodes_ok k" "run_ok k" "node (tasks k t) = None"
  shows "nodes_ok (enqueued t front k) \<and> run_ok (enqueued t front k)"
proof -
  define p where "p = (if priority (tasks k t) \<ge> SCHED_PRIORITY_LEVELS then SCHED_PRIO_DEFAULT else priority (tasks k t))"
  have p: "p < 8"
    by (simp add: p_def const_defs)
  define q where "q = (if front then t # node_q k (RunQ p) else node_q k (RunQ p) @ [t])"
  have fields: "node (tasks (enqueued t front k) s) = (if s = t then Some (RunQ p) else node (tasks k s))"
    "queued_prio (tasks (enqueued t front k) s) = (if s = t then p else queued_prio (tasks k s))"
    "node_q (enqueued t front k) = (node_q k)(RunQ p := q)"
    "ready_mask (enqueued t front k) = ready_mask k OR push_bit p 1" for s
    by (simp_all add: enqueued_def Let_def node_push_def node_append_def upd_task_def p_def q_def)
  have "t \<notin> set (node_q k (RunQ p))"
    using assms(1,3) by (auto simp: nodes_ok_def)
  then have "distinct q" "set q = insert t (set (node_q k (RunQ p)))" "q \<noteq> []"
    using assms(1) by (auto simp: q_def nodes_ok_def)
  then show ?thesis
    using assms p by (auto simp: nodes_ok_def run_ok_def fields bit_ready_set)
qed

lemma queues_ok_SchedEnqueue:
  assumes "queues_ok k" "node (tasks k t) = None \<Longrightarrow> state (tasks k t) = TASK_STATE_READY" "t \<noteq> idle_task"
  shows "queues_ok (SchedEnqueue t front k)"
proof (cases "may_enqueue t k")
  case True
  then have n: "node (tasks k t) = None" "t \<noteq> 0" "\<not> suspended (tasks k t)"
    by (simp_all add: may_enqueue_def)
  let ?k = "enqueued t front k"
  have v: "view ?k = view k"
    using n(1) by (rule view_enqueued)
  obtain l where l: "\<And>s. node (tasks ?k s) = (if s = t then Some (RunQ l) else node (tasks k s))"
    using node_enqueued by blast
  have "nstate_ok ?k"
    using assms n viewD [OF v] l unfolding queues_ok_def nstate_ok_def by simp
  then have "queues_ok ?k"
    using assms(1) nodes_run_ok_enqueued [OF _ _ n(1), of front] wlinks_ok [of ?k k] slinks_ok [of ?k k]
    by (simp add: queues_ok_def)
  then show ?thesis
    using queues_ok_links [OF links_SchedEnqueue] True by simp
next
  case False
  then show ?thesis
    using queues_ok_links [OF links_SchedEnqueue] assms(1) by simp
qed

lemma SchedEnqueue_frame [simp]:
  "wlinks (SchedEnqueue t front k) = wlinks k" "slinks (SchedEnqueue t front k) = slinks k"
  using linksD_parts [OF links_SchedEnqueue [of t front k]] by (simp_all split: if_splits)

lemma view_SchedEnqueue [simp]: "view (SchedEnqueue t front k) = view k"
  using linksD_parts(1) [OF links_SchedEnqueue [of t front k]] view_enqueued [of k t front]
  by (simp add: may_enqueue_def split: if_splits)

lemma node_SchedEnqueue_other: "s \<noteq> t \<Longrightarrow> node (tasks (SchedEnqueue t front k) s) = node (tasks k s)"
  using linksD(7) [OF links_SchedEnqueue [of t front k], of s] node_enqueued [of t front k] by (auto split: if_splits)

lemma node_SchedEnqueue_same:
  "may_enqueue t k \<Longrightarrow> \<exists>l. node (tasks (SchedEnqueue t front k) t) = Some (RunQ l)"
  "\<not> may_enqueue t k \<Longrightarrow> node (tasks (SchedEnqueue t front k) t) = node (tasks k t)"
  using linksD(7) [OF links_SchedEnqueue [of t front k], of t] node_enqueued [of t front k] by auto

text \<open>Enqueuing a ready task discharges the obligation to do so.\<close>

lemma is_queued_SchedEnqueue:
  assumes "nstate_ok k" "must_run t k"
  shows "is_queued t (SchedEnqueue t front k)"
proof (cases "node (tasks k t) = None")
  case True
  then have "may_enqueue t k"
    using assms(2) by (simp add: may_enqueue_def must_run_def member_of_def is_frozen_def)
  then show ?thesis
    by (simp add: is_queued_def node_SchedEnqueue_same)
next
  case False
  then have "is_queued t k" "\<not> may_enqueue t k"
    using assms unfolding nstate_ok_def must_run_def may_enqueue_def is_queued_def
    by (metis NodeQ.exhaust TaskState.distinct(3) option.exhaust, simp)
  then show ?thesis
    by (simp add: is_queued_def node_SchedEnqueue_same)
qed

lemma ready_ok_SchedEnqueue:
  assumes "ready_ok (insert t E) X k" "nstate_ok k"
  shows "ready_ok E X (SchedEnqueue t front k)"
proof -
  let ?k = "SchedEnqueue t front k"
  have mr: "must_run s ?k = must_run s k" "must_not_run X s ?k = must_not_run X s k" for s
    by (simp_all add: must_run_view [of ?k s k] must_not_run_view [of ?k s k])
  have other: "is_queued s ?k = is_queued s k" if "s \<noteq> t" for s
    using that by (simp add: is_queued_def node_SchedEnqueue_other)
  have "\<not> is_queued t ?k" if "must_not_run X t k"
  proof -
    have "\<not> may_enqueue t k"
      using that by (simp add: may_enqueue_def must_not_run_def is_frozen_def)
    then show ?thesis
      using that assms(1) by (simp add: ready_ok_def is_queued_def node_SchedEnqueue_same)
  qed
  then show ?thesis
    using assms is_queued_SchedEnqueue [OF assms(2), of t front] other
    unfolding ready_ok_def mr by (metis insertE)
qed

section \<open>Wait queues\<close>

lemma prio_insert_split:
  obtains a b where "xs = b @ a" "prio_insert pr t xs = b @ t # a"
    "\<And>x. x \<in> set a \<Longrightarrow> pr x < pr t" "b \<noteq> [] \<Longrightarrow> pr t \<le> pr (last b)"
proof -
  define P where "P = (\<lambda>x. pr x < pr t)"
  define a b where "a = rev (takeWhile P (rev xs))" and "b = rev (dropWhile P (rev xs))"
  have "rev xs = rev a @ rev b"
    by (simp add: a_def b_def)
  then have "xs = b @ a"
    by (metis rev_append rev_rev_ident)
  moreover have "prio_insert pr t xs = b @ t # a"
    by (simp add: prio_insert_def a_def b_def P_def)
  moreover have "pr x < pr t" if "x \<in> set a" for x
    using that set_takeWhileD [of x P "rev xs"] by (simp add: a_def P_def)
  moreover have "pr t \<le> pr (last b)" if "b \<noteq> []"
    using that hd_dropWhile [of P "rev xs"] by (simp add: b_def last_rev P_def not_less)
  ultimately show ?thesis
    by (rule that)
qed

lemma set_prio_insert [simp]: "set (prio_insert pr t xs) = insert t (set xs)"
  by (rule prio_insert_split [of xs pr t]) auto

lemma distinct_prio_insert [simp]: "distinct (prio_insert pr t xs) \<longleftrightarrow> distinct xs \<and> t \<notin> set xs"
  by (rule prio_insert_split [of xs pr t]) auto

lemma wait_remove_frame [simp]: "nlinks (wait_remove t k) = nlinks k" "slinks (wait_remove t k) = slinks k"
  by (simp_all add: wait_remove_def split: option.split)

lemma view_wait_remove [simp]: "view (wait_remove t k) = v_upd t (\<lambda>x. x\<lparr>v_wait := None\<rparr>) (view k)"
proof (cases "ws_queue (tasks k t)")
  case None
  then show ?thesis
    by (simp add: wait_remove_def v_upd_same v_tasks_view task_view_def)
next
  case (Some q)
  then show ?thesis
    by (simp add: wait_remove_def) (rule view_upd_task [THEN trans], simp_all add: task_view_def)
qed

lemma waits_ok_wait_remove:
  assumes "waits_ok k" "ws_linked (tasks k t)"
  shows "waits_ok (wait_remove t k)"
  using assms unfolding waits_ok_def by (auto simp: wait_remove_def upd_task_def split: option.split)

lemma SchedWaitQueueAdd_frame [simp]:
  "nlinks (SchedWaitQueueAdd q t k) = nlinks k" "slinks (SchedWaitQueueAdd q t k) = slinks k"
  by (simp_all add: SchedWaitQueueAdd_def)

lemma view_SchedWaitQueueAdd [simp]:
  "view (SchedWaitQueueAdd q t k) = v_upd t (\<lambda>x. x\<lparr>v_wait := Some q\<rparr>) (view k)"
  unfolding SchedWaitQueueAdd_def by (rule view_upd_task [THEN trans]) (simp_all add: task_view_def)

lemma waits_ok_SchedWaitQueueAdd:
  assumes "waits_ok k" "\<not> ws_linked (tasks k t)"
  shows "waits_ok (SchedWaitQueueAdd q t k)"
  using assms unfolding waits_ok_def by (auto simp: SchedWaitQueueAdd_def upd_task_def)

section \<open>The senders of a port\<close>

lemma SchedWaitQueueAddTask_frame [simp]:
  "wlinks (SchedWaitQueueAddTask p t k) = wlinks k" "slinks (SchedWaitQueueAddTask p t k) = slinks k"
  by (simp_all add: SchedWaitQueueAddTask_def)

lemma view_SchedWaitQueueAddTask [simp]:
  "view (SchedWaitQueueAddTask p t k) = v_upd t (\<lambda>x. x\<lparr>v_send := Some p\<rparr>) (view k)"
  unfolding SchedWaitQueueAddTask_def by (rule view_upd_task [THEN trans]) (simp_all add: task_view_def)

lemma node_SchedWaitQueueAddTask:
  "node (tasks (SchedWaitQueueAddTask p t k) s) = (if s = t then Some (SendQ p) else node (tasks k s))"
  by (simp add: SchedWaitQueueAddTask_def upd_task_def)

lemma nodes_run_ok_SchedWaitQueueAddTask:
  assumes "nodes_ok k" "run_ok k" "node (tasks k t) = None"
  shows "nodes_ok (SchedWaitQueueAddTask p t k) \<and> run_ok (SchedWaitQueueAddTask p t k)"
  using assms unfolding nodes_ok_def run_ok_def by (auto simp: SchedWaitQueueAddTask_def upd_task_def)

section \<open>The sleep wheel\<close>

lemma wheel_remove_frame [simp]: "nlinks (wheel_remove t s k) = nlinks k" "wlinks (wheel_remove t s k) = wlinks k"
  by (simp_all add: wheel_remove_def)

lemma view_wheel_remove [simp]: "view (wheel_remove t s k) = v_upd t (\<lambda>x. x\<lparr>v_timed := False\<rparr>) (view k)"
  unfolding wheel_remove_def by (rule view_upd_task [THEN trans]) (simp_all add: task_view_def)

lemma wheel_ok_wheel_remove:
  assumes "wheel_ok k" "sleep_slot (tasks k t) = int s"
  shows "wheel_ok (wheel_remove t s k)"
  using assms unfolding wheel_ok_def by (auto simp: wheel_remove_def upd_task_def) 

lemma wheel_ok_sleep_slot:
  assumes "wheel_ok k" "\<not> timeout_linked (tasks k t)"
  shows "wheel_ok (upd_task t (\<lambda>x. x\<lparr>sleep_slot := i\<rparr>) k)"
  using assms unfolding wheel_ok_def by (auto simp: upd_task_def)

lemma view_sleep_slot [simp]: "view (upd_task t (\<lambda>x. x\<lparr>sleep_slot := i\<rparr>) k) = view k"
  by (rule view_upd_task_same) (simp add: task_view_def)

lemma SchedRemoveSleepQueue_frame [simp]:
  "nlinks (SchedRemoveSleepQueue t k) = nlinks k" "wlinks (SchedRemoveSleepQueue t k) = wlinks k"
  using linksD_parts [OF links_other(10)] by (simp_all add: SchedRemoveSleepQueue_def Let_def)

lemma view_wheel_min [simp]: "view (k\<lparr>wheel_min := e\<rparr>) = view k"
  by (simp add: view_def)

lemma view_SchedRemoveSleepQueue [simp]:
  assumes "wheel_ok k"
  shows "view (SchedRemoveSleepQueue t k) = v_upd t (\<lambda>x. x\<lparr>v_timed := False\<rparr>) (view k)"
proof -
  have "sleep_slot (tasks k t) < 0 \<Longrightarrow> \<not> timeout_linked (tasks k t)"
    using assms unfolding wheel_ok_def by fastforce
  moreover have "\<not> timeout_linked (tasks k t) \<Longrightarrow> v_upd t (\<lambda>x. x\<lparr>v_timed := False\<rparr>) (view k) = view k"
    by (rule v_upd_same) (simp add: v_tasks_view task_view_def)
  ultimately show ?thesis
    by (simp add: SchedRemoveSleepQueue_def Let_def)
qed

lemma wheel_ok_occ_clear:
  assumes "wheel_ok k" "sleep_wheel k s = []" "s < 512"
  shows "wheel_ok (k\<lparr>wheel_occ := BitmapClr (wheel_occ k) s\<rparr>)"
  using assms unfolding wheel_ok_def by (auto simp: wbits.test_clr1)

lemma wheel_ok_SchedRemoveSleepQueue:
  assumes "wheel_ok k"
  shows "wheel_ok (SchedRemoveSleepQueue t k) \<and> \<not> timeout_linked (tasks (SchedRemoveSleepQueue t k) t)"
proof (cases "sleep_slot (tasks k t) < 0")
  case True
  then have "\<not> timeout_linked (tasks k t)"
    using assms unfolding wheel_ok_def by fastforce
  then show ?thesis
    using True assms by (simp add: SchedRemoveSleepQueue_def)
next
  case False
  define s where "s = nat (sleep_slot (tasks k t))"
  define k1 where "k1 = (if timeout_linked (tasks k t) then wheel_remove t s k else k)"
  define k2 where "k2 = (if sleep_wheel k1 s = [] then k1\<lparr>wheel_occ := BitmapClr (wheel_occ k1) s\<rparr>
     else if wake_deadline (tasks k1 t) = wheel_min k1 s
     then k1\<lparr>wheel_min := (wheel_min k1)(s := WheelBucketMin s k1)\<rparr> else k1)"
  have s: "sleep_slot (tasks k t) = int s"
    using False by (simp add: s_def)
  have k1: "wheel_ok k1" "\<not> timeout_linked (tasks k1 t)" "sleep_slot (tasks k1 t) = int s"
    using assms wheel_ok_wheel_remove [OF assms s] s by (auto simp: k1_def wheel_remove_def upd_task_def)
  have "wheel_ok (k1\<lparr>wheel_occ := BitmapClr (wheel_occ k1) s\<rparr>)" if "sleep_wheel k1 s = []"
  proof (cases "s < 512")
    case True
    with k1(1) that show ?thesis by (rule wheel_ok_occ_clear)
  next
    case False
    then have "16 \<le> s div 32" "length (wheel_occ k1) = 16"
      using k1(1) by (auto simp: wheel_ok_def)
    then have "BitmapClr (wheel_occ k1) s = wheel_occ k1"
      by (simp add: BitmapClr_def list_update_beyond)
    then show ?thesis
      using k1(1) by simp
  qed
  moreover have "wheel_ok (k1\<lparr>wheel_min := m\<rparr>)" for m
    using k1(1) by (simp add: wheel_ok_def)
  ultimately have k2: "wheel_ok k2" "\<not> timeout_linked (tasks k2 t)"
    using k1 by (simp_all add: k2_def)
  have "SchedRemoveSleepQueue t k = upd_task t (\<lambda>x. x\<lparr>sleep_slot := - 1\<rparr>) k2"
    using False unfolding SchedRemoveSleepQueue_def k2_def k1_def s_def Let_def by simp
  then show ?thesis
    using wheel_ok_sleep_slot [OF k2] k2(2) by (simp add: upd_task_def)
qed

lemma wheel_slot_bound: "wheel_slot dl k < 512"
proof -
  have "unat (x mod 512 :: u64) < 512" for x
    by (simp add: unat_mod)
  then show ?thesis
    by (simp add: wheel_slot_def Let_def)
qed

text \<open>\<open>SchedInsertSleepQueue\<close> before it arms the timer.\<close>

definition filed :: "TaskPtr \<Rightarrow> Kernel \<Rightarrow> Kernel" where
  "filed t k =
     (let slot = wheel_slot (wake_deadline (tasks k t)) k;
          k = upd_task t (\<lambda>x. x\<lparr>timeout_linked := True\<rparr>)
                (k\<lparr>sleep_wheel := (sleep_wheel k)(slot := sleep_wheel k slot @ [t])\<rparr>);
          k = k\<lparr>wheel_occ := BitmapSet (wheel_occ k) slot\<rparr>
      in upd_task t (\<lambda>x. x\<lparr>sleep_slot := int slot\<rparr>) k)"

lemma links_SchedInsertSleepQueue: "links (SchedInsertSleepQueue t k) = links (filed t k)"
  by (simp add: SchedInsertSleepQueue_def filed_def Let_def link_frame)
     (simp add: links_def view_def upd_task_def task_view_def fun_eq_iff)

lemma filed_frame [simp]: "nlinks (filed t k) = nlinks k" "wlinks (filed t k) = wlinks k"
  by (simp_all add: filed_def Let_def)

lemma view_filed [simp]: "view (filed t k) = v_upd t (\<lambda>x. x\<lparr>v_timed := True\<rparr>) (view k)"
  by (simp add: filed_def Let_def) (rule view_upd_task [THEN trans], simp_all add: task_view_def)

lemma wheel_ok_filed:
  assumes "wheel_ok k" "\<not> timeout_linked (tasks k t)"
  shows "wheel_ok (filed t k)"
  using assms wheel_slot_bound [of "wake_deadline (tasks k t)" k]
  unfolding wheel_ok_def by (auto simp: filed_def Let_def upd_task_def wbits.test_set1)

lemma SchedInsertSleepQueue_frame [simp]:
  "nlinks (SchedInsertSleepQueue t k) = nlinks k" "wlinks (SchedInsertSleepQueue t k) = wlinks k"
  "view (SchedInsertSleepQueue t k) = v_upd t (\<lambda>x. x\<lparr>v_timed := True\<rparr>) (view k)"
  using linksD_parts [OF links_SchedInsertSleepQueue [of t k]] by simp_all

lemma wheel_ok_SchedInsertSleepQueue:
  "wheel_ok k \<Longrightarrow> \<not> timeout_linked (tasks k t) \<Longrightarrow> wheel_ok (SchedInsertSleepQueue t k)"
  using wheel_ok_filed slinks_ok linksD_parts(4) [OF links_SchedInsertSleepQueue] by blast

end
