(* ===== verification/Links_Wake.thy ===== *)
theory Links_Wake
  imports Links_Queue
begin

text \<open>
  Waking a task, and changing priorities along the chains of callers and servers. Whatever the
  priorities are, propagating them leaves the protocol view alone.
\<close>

section \<open>The obligation to run\<close>

lemma ready_ok_change:
  assumes "ready_ok E X k" "\<And>s. s \<noteq> t \<Longrightarrow> node (tasks k' s) = node (tasks k s)"
    and "is_queued t k' \<Longrightarrow> is_queued t k"
    and "\<And>s. s \<noteq> t \<Longrightarrow> vt k' s = vt k s" "v_owner (vt k' t) = v_owner (vt k t)"
    and "v_members (view k') = v_members (view k)" "v_frozen (view k') = v_frozen (view k)"
  shows "ready_ok (insert t E) X k'"
proof -
  have m: "must_not_run X s k' = must_not_run X s k" for s
    using assms(4-7) must_not_run_view [of k' s k] by (cases "s = t") simp_all
  have r: "must_run s k' = must_run s k" "is_queued s k' = is_queued s k" if "s \<noteq> t" for s
    using that assms(2,4,6,7) must_run_view [of k' s k] by (simp_all add: is_queued_def)
  show ?thesis
    using assms(1,3) m r unfolding ready_ok_def by (metis insertCI)
qed

lemma ready_ok_drop: "ready_ok (insert t E) X k \<Longrightarrow> (must_run t k \<Longrightarrow> is_queued t k) \<Longrightarrow> ready_ok E X k"
  unfolding ready_ok_def by (metis insertE)

lemma ready_ok_same:
  assumes "ready_ok E X k" "view k' = view k" "\<And>s. node (tasks k' s) = node (tasks k s)"
  shows "ready_ok E X k'"
  using assms must_run_view [of k' _ k] must_not_run_view [of k' _ k] by (simp add: ready_ok_def is_queued_def)

section \<open>Unblocking\<close>

definition v_woken :: "TaskView \<Rightarrow> TaskView" where
  "v_woken x = x\<lparr>v_wait := None, v_timed := False, v_ipc := IPC_NONE, v_blocked := 0, v_state := TASK_STATE_READY\<rparr>"

lemma v_woken_sel [simp]:
  "v_state (v_woken x) = TASK_STATE_READY" "v_ipc (v_woken x) = IPC_NONE" "v_wait (v_woken x) = None"
  "v_timed (v_woken x) = False" "v_blocked (v_woken x) = 0" "v_send (v_woken x) = v_send x"
  "v_rc_task (v_woken x) = v_rc_task x" "v_rc_tid (v_woken x) = v_rc_tid x" "v_tid (v_woken x) = v_tid x"
  "v_pending (v_woken x) = v_pending x" "v_cap (v_woken x) = v_cap x" "v_holder (v_woken x) = v_holder x"
  "v_serving (v_woken x) = v_serving x" "v_held (v_woken x) = v_held x" "v_slot (v_woken x) = v_slot x"
  "v_owner (v_woken x) = v_owner x" "v_susp (v_woken x) = v_susp x"
  by (simp_all add: v_woken_def)

lemma v_wait_unlinked: "waits_ok k \<Longrightarrow> v_wait (vt k t) = None \<longleftrightarrow> \<not> ws_linked (tasks k t)"
  by (auto simp: v_tasks_view task_view_def waits_ok_def)

text \<open>\<open>SchedUnblock\<close> up to the final store.\<close>

definition unlinked :: "TaskPtr \<Rightarrow> Kernel \<Rightarrow> Kernel" where
  "unlinked t k = SchedRemoveSleepQueue t (if ws_linked (tasks k t) then wait_remove t k else k)"

lemma unlinked_props:
  assumes "queues_ok k"
  shows "queues_ok (unlinked t k)" "nlinks (unlinked t k) = nlinks k"
    "view (unlinked t k) = v_upd t (\<lambda>x. x\<lparr>v_wait := None, v_timed := False\<rparr>) (view k)"
    "\<not> ws_linked (tasks (unlinked t k) t)" "\<not> timeout_linked (tasks (unlinked t k) t)"
proof -
  let ?k1 = "if ws_linked (tasks k t) then wait_remove t k else k"
  have w: "waits_ok ?k1" "wheel_ok ?k1"
    using assms waits_ok_wait_remove [of k t] slinks_ok [of "wait_remove t k" k] by (auto simp: queues_ok_def)
  have v1: "view ?k1 = v_upd t (\<lambda>x. x\<lparr>v_wait := None\<rparr>) (view k)"
    by (simp add: v_upd_same v_tasks_view task_view_def)
  show n: "nlinks (unlinked t k) = nlinks k"
    by (simp add: unlinked_def)
  show v: "view (unlinked t k) = v_upd t (\<lambda>x. x\<lparr>v_wait := None, v_timed := False\<rparr>) (view k)"
    unfolding unlinked_def view_SchedRemoveSleepQueue [OF w(2)] v1 by simp
  show "\<not> timeout_linked (tasks (unlinked t k) t)"
    using wheel_ok_SchedRemoveSleepQueue [OF w(2), of t] unfolding unlinked_def by blast
  have w': "waits_ok (unlinked t k)"
    using w(1) wlinks_ok [of "unlinked t k" ?k1] by (simp add: unlinked_def)
  show "\<not> ws_linked (tasks (unlinked t k) t)"
    using v_wait_unlinked [OF w', of t] v by simp
  have "nstate_ok (unlinked t k)"
  proof -
    have "state (tasks (unlinked t k) s) = state (tasks k s)" "blocked_port (tasks (unlinked t k) s) = blocked_port (tasks k s)"
      "suspended (tasks (unlinked t k) s) = suspended (tasks k s)" for s
      using arg_cong [OF v, of "\<lambda>v. v_state (v_tasks v s)"] arg_cong [OF v, of "\<lambda>v. v_blocked (v_tasks v s)"]
        arg_cong [OF v, of "\<lambda>v. v_susp (v_tasks v s)"]
      by (simp_all add: v_tasks_view task_view_def split: if_splits)
    then show ?thesis
      using assms nlinksD(3) [OF n] by (simp add: queues_ok_def nstate_ok_def)
  qed
  then show "queues_ok (unlinked t k)"
    using assms nlinks_ok [OF n] w' wheel_ok_SchedRemoveSleepQueue [OF w(2), of t]
    by (simp add: queues_ok_def unlinked_def)
qed

lemma SchedUnblock_unlinked:
  "SchedUnblock t k = upd_task t (\<lambda>x. x\<lparr>wake_deadline := 0, ipc_state := IPC_NONE, blocked_port := NULL,
                                      state := TASK_STATE_READY\<rparr>) (unlinked t k)"
  by (simp add: SchedUnblock_def unlinked_def Let_def)

lemma SchedUnblock_frame [simp]: "nlinks (SchedUnblock t k) = nlinks k"
  by (simp add: SchedUnblock_def Let_def)

lemma view_SchedUnblock:
  assumes "queues_ok k"
  shows "view (SchedUnblock t k) = v_upd t v_woken (view k)"
  unfolding SchedUnblock_unlinked
  by (rule view_upd_task [THEN trans, of _ "\<lambda>x. x\<lparr>v_ipc := IPC_NONE, v_blocked := 0, v_state := TASK_STATE_READY\<rparr>"])
     (simp_all add: task_view_def unlinked_props(3) [OF assms] v_woken_def [abs_def])

lemma queues_ok_SchedUnblock:
  assumes "queues_ok k" "v_send (vt k t) = None"
  shows "queues_ok (SchedUnblock t k)"
proof -
  let ?k = "unlinked t k"
  note u = unlinked_props [OF assms(1), of t]
  have "node (tasks ?k t) \<noteq> Some (SendQ p)" for p
    using assms(2) nlinksD(3) [OF u(2), of t] by (auto simp: v_tasks_view task_view_def)
  then have "nstate_ok (SchedUnblock t k)"
    using u(1) unfolding SchedUnblock_unlinked queues_ok_def nstate_ok_def by (auto simp: upd_task_def)
  moreover have "nodes_ok (SchedUnblock t k)" "run_ok (SchedUnblock t k)" "waits_ok (SchedUnblock t k)"
    "wheel_ok (SchedUnblock t k)"
    using u(1) nlinks_ok [of "SchedUnblock t k" ?k] wlinks_ok [of "SchedUnblock t k" ?k]
    by (simp_all add: SchedUnblock_unlinked queues_ok_def wheel_ok_upd_task)
  ultimately show ?thesis
    by (simp add: queues_ok_def)
qed

lemma ready_ok_SchedUnblock:
  assumes "queues_ok k" "ready_ok E X k"
  shows "ready_ok (insert t E) X (SchedUnblock t k)"
  using assms(2) by (rule ready_ok_change) (simp_all add: view_SchedUnblock [OF assms(1)] is_queued_def nlinksD(3) [OF SchedUnblock_frame])

text \<open>Unblock and enqueue: the end of every wait.\<close>

lemma unblock_add:
  assumes "queues_ok k" "v_send (vt k t) = None" "ready_ok (insert t E) X k" "t \<noteq> idle_task"
  shows "queues_ok (SchedAdd t (SchedUnblock t k))" "view (SchedAdd t (SchedUnblock t k)) = v_upd t v_woken (view k)"
    "ready_ok E X (SchedAdd t (SchedUnblock t k))"
    "s \<noteq> t \<Longrightarrow> node (tasks (SchedAdd t (SchedUnblock t k)) s) = node (tasks k s)"
proof -
  have q: "queues_ok (SchedUnblock t k)"
    using assms(1,2) by (rule queues_ok_SchedUnblock)
  have st: "state (tasks (SchedUnblock t k) t) = TASK_STATE_READY"
    by (simp add: SchedUnblock_def upd_task_def Let_def)
  show "queues_ok (SchedAdd t (SchedUnblock t k))"
    unfolding SchedAdd_def using q st assms(4) by (intro queues_ok_SchedEnqueue)
  show "view (SchedAdd t (SchedUnblock t k)) = v_upd t v_woken (view k)"
    unfolding SchedAdd_def by (simp add: view_SchedUnblock [OF assms(1)])
  show "ready_ok E X (SchedAdd t (SchedUnblock t k))"
    unfolding SchedAdd_def using ready_ok_SchedUnblock [OF assms(1,3), of t] q
    by (intro ready_ok_SchedEnqueue) (simp_all add: queues_ok_def)
  show "s \<noteq> t \<Longrightarrow> node (tasks (SchedAdd t (SchedUnblock t k)) s) = node (tasks k s)"
    unfolding SchedAdd_def by (simp add: node_SchedEnqueue_other nlinksD(3) [OF SchedUnblock_frame])
qed

section \<open>Changing a priority\<close>

lemma links_priority [link_frame]: "links (upd_task t (\<lambda>x. x\<lparr>priority := p\<rparr>) k) = links k"
  by (rule links_upd_task) (simp_all add: task_view_def)

text \<open>The first half of \<open>SchedSetEffective\<close>: off every queue; the second half: back on.\<close>

definition on_run :: "TaskPtr \<Rightarrow> Kernel \<Rightarrow> bool" where
  "on_run t k \<longleftrightarrow> state (tasks k t) = TASK_STATE_READY \<and> node (tasks k t) \<noteq> None"

definition on_senders :: "TaskPtr \<Rightarrow> Kernel \<Rightarrow> bool" where
  "on_senders t k \<longleftrightarrow> state (tasks k t) = TASK_STATE_BLOCKED \<and> node (tasks k t) \<noteq> None \<and> blocked_port (tasks k t) \<noteq> 0"

definition off_queues :: "TaskPtr \<Rightarrow> Kernel \<Rightarrow> Kernel" where
  "off_queues t k =
     (let k' = (if on_run t k then SchedRemoveRunQueue t k else k);
          k' = (if ws_linked (tasks k t) then wait_remove t k' else k')
      in if on_senders t k then node_remove t k' else k')"

definition back_on :: "bool \<Rightarrow> bool \<Rightarrow> bool \<Rightarrow> TaskPtr \<Rightarrow> Kernel \<Rightarrow> Kernel" where
  "back_on run wait send t k =
     (let k = (if run then SchedAdd t k else k);
          k = (if wait then case ws_queue (tasks k t) of Some q \<Rightarrow> SchedWaitQueueAdd q t k | None \<Rightarrow> k else k)
      in if send then SchedWaitQueueAddTask (blocked_port (tasks k t)) t k else k)"

lemma SchedSetEffective_split:
  "SchedSetEffective t prio k =
     (let k' = back_on (on_run t k) (ws_linked (tasks k t)) (on_senders t k) t
                 (upd_task t (\<lambda>x. x\<lparr>priority := prio\<rparr>) (off_queues t k))
      in if t = current_task k' \<and> SchedAnyCpuTakers (current_task k') k' then SchedSetReschedFlag k' else k')"
  unfolding SchedSetEffective_def off_queues_def back_on_def on_run_def on_senders_def Let_def ..

lemma SchedSetEffective_halves:
  "links (SchedSetEffective t prio k) =
     links (back_on (on_run t k) (ws_linked (tasks k t)) (on_senders t k) t
       (upd_task t (\<lambda>x. x\<lparr>priority := prio\<rparr>) (off_queues t k)))"
  unfolding SchedSetEffective_split Let_def by (simp add: links_SchedSetReschedFlag)

lemma run_queue_of_ready:
  assumes "nstate_ok k" "on_run t k"
  shows "\<exists>l. node (tasks k t) = Some (RunQ l)"
  using assms unfolding nstate_ok_def on_run_def
  by (metis NodeQ.exhaust TaskState.distinct(3) option.exhaust)

lemma send_queue_of_blocked:
  assumes "nstate_ok k" "on_senders t k"
  shows "node (tasks k t) = Some (SendQ (blocked_port (tasks k t)))"
  using assms unfolding nstate_ok_def on_senders_def
  by (metis NodeQ.exhaust TaskState.distinct(3) option.exhaust)

lemma off_queues_props:
  assumes "queues_ok k"
  shows "queues_ok (off_queues t k)"
    "view (off_queues t k) = v_upd t (\<lambda>x. x\<lparr>v_wait := None, v_send := None\<rparr>) (view k)"
    "s \<noteq> t \<Longrightarrow> node (tasks (off_queues t k) s) = node (tasks k s)"
    "node (tasks (off_queues t k) t) = None" "ws_queue (tasks (off_queues t k) s) = ws_queue (tasks k s)"
proof -
  have n: "nstate_ok k"
    using assms by (simp add: queues_ok_def)
  define k1 where "k1 = (if on_run t k then SchedRemoveRunQueue t k else k)"
  define k2 where "k2 = (if ws_linked (tasks k t) then wait_remove t k1 else k1)"
  have eq: "off_queues t k = (if on_senders t k then node_remove t k2 else k2)"
    by (simp add: off_queues_def k1_def k2_def Let_def)
  have excl: "\<not> (on_run t k \<and> on_senders t k)" "node (tasks k t) \<noteq> None \<Longrightarrow> on_run t k \<or> on_senders t k"
    using n unfolding on_run_def on_senders_def nstate_ok_def by (simp, metis NodeQ.exhaust option.exhaust)
  have q1: "queues_ok k1"
    using assms queues_ok_SchedRemoveRunQueue by (simp add: k1_def)
  have n1: "node (tasks k1 s) = (if s = t \<and> on_run t k then None else node (tasks k s))" for s
    by (simp add: k1_def node_SchedRemoveRunQueue)
  have v1: "view k1 = view k"
  proof (cases "on_run t k")
    case True
    then have "v_send (vt k t) = None"
      using run_queue_of_ready [OF n True] by (auto simp: v_tasks_view task_view_def)
    then show ?thesis
      by (simp add: k1_def v_upd_same)
  qed (simp add: k1_def)
  have w1: "wlinks k1 = wlinks k"
    by (simp add: k1_def)
  have v2: "view k2 = v_upd t (\<lambda>x. x\<lparr>v_wait := None\<rparr>) (view k)"
    by (simp add: k2_def v1 v_upd_same v_tasks_view task_view_def)
  have nl2: "nlinks k2 = nlinks k1" "slinks k2 = slinks k1"
    by (simp_all add: k2_def)
  have "waits_ok k2"
    using q1 wlinksD(3) [OF w1] waits_ok_wait_remove [of k1 t] by (auto simp: k2_def queues_ok_def)
  moreover have "nstate_ok k2"
    using q1 nlinksD(3) [OF nl2(1)] by (auto simp: queues_ok_def nstate_ok_def k2_def wait_remove_def upd_task_def split: option.splits)
  ultimately have q2: "queues_ok k2"
    using q1 nlinks_ok [OF nl2(1)] slinks_ok [OF nl2(2)] by (simp add: queues_ok_def)
  have n2: "node (tasks k2 s) = node (tasks k1 s)" for s
    using nlinksD(3) [OF nl2(1)] .
  have "node (tasks k2 t) \<noteq> Some (RunQ l)" if "on_senders t k" for l
    using that excl n1 [of t] n2 [of t] send_queue_of_blocked [OF n that] by simp
  then show "queues_ok (off_queues t k)"
    using q2 queues_ok_node_remove [OF q2] by (simp add: eq)
  have vs: "v_send (vt k t) = None" if "\<not> on_senders t k"
    using that excl run_queue_of_ready [OF n, of t]
    by (cases "node (tasks k t)") (auto simp: v_tasks_view task_view_def)
  show "view (off_queues t k) = v_upd t (\<lambda>x. x\<lparr>v_wait := None, v_send := None\<rparr>) (view k)"
    unfolding eq using v2 vs by (auto intro!: v_upd_cong)
  show "s \<noteq> t \<Longrightarrow> node (tasks (off_queues t k) s) = node (tasks k s)"
    by (simp add: eq n2 n1 node_node_remove)
  show "node (tasks (off_queues t k) t) = None"
    using excl n1 [of t] n2 [of t] by (cases "node (tasks k t)") (auto simp: eq node_node_remove)
  show "ws_queue (tasks (off_queues t k) s) = ws_queue (tasks k s)"
  proof -
    have "ws_queue (tasks (off_queues t k) s) = ws_queue (tasks k2 s)"
      using wlinksD(2) [OF node_remove_frame(1)] by (simp add: eq)
    also have "\<dots> = ws_queue (tasks k1 s)"
      by (simp add: k2_def wait_remove_def upd_task_def split: option.split)
    finally show ?thesis
      using wlinksD(2) [OF w1] by simp
  qed
qed

lemma SchedSetEffective_props:
  assumes "queues_ok k" "ready_ok E X k"
  shows "queues_ok (SchedSetEffective t prio k)" "view (SchedSetEffective t prio k) = view k"
    "ready_ok E X (SchedSetEffective t prio k)"
    "s \<noteq> t \<Longrightarrow> node (tasks (SchedSetEffective t prio k) s) = node (tasks k s)"
    "is_queued s (SchedSetEffective t prio k) \<Longrightarrow> is_queued s k"
proof -
  note off = off_queues_props [OF assms(1), where t = t]
  have n: "nstate_ok k" and wk: "waits_ok k"
    using assms(1) by (simp_all add: queues_ok_def)
  define k0 where "k0 = upd_task t (\<lambda>x. x\<lparr>priority := prio\<rparr>) (off_queues t k)"
  have l0: "links k0 = links (off_queues t k)"
    by (simp add: k0_def link_frame)
  have q0: "queues_ok k0" and v0: "view k0 = v_upd t (\<lambda>x. x\<lparr>v_wait := None, v_send := None\<rparr>) (view k)"
    using off(1,2) queues_ok_links [OF l0] linksD(1) [OF l0] by simp_all
  have n0: "node (tasks k0 s) = (if s = t then None else node (tasks k s))" "ws_queue (tasks k0 s) = ws_queue (tasks k s)" for s
    using off(3-5) linksD(7,9) [OF l0] by auto
  have st0: "state (tasks k0 s) = state (tasks k s)" "blocked_port (tasks k0 s) = blocked_port (tasks k s)"
    "owner (tasks k0 s) = owner (tasks k s)" for s
    using arg_cong [OF v0, of "\<lambda>v. v_state (v_tasks v s)"] arg_cong [OF v0, of "\<lambda>v. v_blocked (v_tasks v s)"]
      arg_cong [OF v0, of "\<lambda>v. v_owner (v_tasks v s)"]
    by (simp_all add: v_tasks_view task_view_def split: if_splits)
  have r0: "ready_ok (insert t E) X k0"
    using assms(2) by (rule ready_ok_change) (simp_all add: n0 v0 is_queued_def)
  define k1 where "k1 = (if on_run t k then SchedAdd t k0 else k0)"
  have "t \<noteq> idle_task" if "on_run t k"
    using that n unfolding on_run_def nstate_ok_def by (cases "the (node (tasks k t))") fastforce+
  then have q1: "queues_ok k1"
    using q0 queues_ok_SchedEnqueue [OF q0, of t False] st0 by (simp add: k1_def SchedAdd_def on_run_def)
  have v1: "view k1 = view k0" and w1: "wlinks k1 = wlinks k0"
    by (simp_all add: k1_def SchedAdd_def)
  have n1: "node (tasks k1 s) = node (tasks k s)" if "s \<noteq> t" for s
    using that by (simp add: k1_def SchedAdd_def node_SchedEnqueue_other n0)
  have r1: "is_queued t k1" if "on_run t k" "must_run t k"
  proof -
    have "must_run t k0 = must_run t k"
      by (rule must_run_view) (simp_all add: v0)
    then show ?thesis
      using that q0 is_queued_SchedEnqueue [of k0 t False] by (simp add: k1_def SchedAdd_def queues_ok_def)
  qed
  define k2 where "k2 = (if ws_linked (tasks k t) then case ws_queue (tasks k1 t) of Some q \<Rightarrow> SchedWaitQueueAdd q t k1 | None \<Rightarrow> k1 else k1)"
  have wsq: "ws_queue (tasks k1 t) = ws_queue (tasks k t)" "\<not> ws_linked (tasks k1 t)"
    using wlinksD [OF w1] n0 v_wait_unlinked [of k1 t] q1 by (simp_all add: v1 v0 queues_ok_def)
  obtain q where q: "ws_linked (tasks k t) \<Longrightarrow> ws_queue (tasks k t) = Some q"
    using wk unfolding waits_ok_def by (metis option.exhaust)
  have k2: "k2 = (if ws_linked (tasks k t) then SchedWaitQueueAdd q t k1 else k1)"
    using q by (auto simp: k2_def wsq)
  have nl2: "nlinks k2 = nlinks k1" "slinks k2 = slinks k1"
    by (simp_all add: k2)
  have v2: "view k2 = v_upd t (\<lambda>x. x\<lparr>v_send := None\<rparr>) (view k)"
    using q by (auto simp: k2 v1 v0 v_tasks_view task_view_def intro!: v_upd_cong)
  have "waits_ok k2"
    using q1 wsq(2) waits_ok_SchedWaitQueueAdd by (simp add: k2 queues_ok_def)
  moreover have "nstate_ok k2"
    using q1 nlinksD(3) [OF nl2(1)] by (auto simp: queues_ok_def nstate_ok_def k2 SchedWaitQueueAdd_def upd_task_def)
  ultimately have q2: "queues_ok k2"
    using q1 nlinks_ok [OF nl2(1)] slinks_ok [OF nl2(2)] by (simp add: queues_ok_def)
  have b2: "blocked_port (tasks k2 t) = blocked_port (tasks k t)" "state (tasks k2 t) = state (tasks k t)"
    using arg_cong [OF v2, of "\<lambda>v. v_blocked (v_tasks v t)"] arg_cong [OF v2, of "\<lambda>v. v_state (v_tasks v t)"]
    by (simp_all add: v_tasks_view task_view_def)
  define k3 where "k3 = (if on_senders t k then SchedWaitQueueAddTask (blocked_port (tasks k2 t)) t k2 else k2)"
  have l: "links (SchedSetEffective t prio k) = links k3"
    unfolding SchedSetEffective_halves back_on_def k3_def k2_def k1_def k0_def Let_def ..
  have not_both: "on_senders t k \<Longrightarrow> \<not> on_run t k"
    by (simp add: on_run_def on_senders_def)
  have n2: "node (tasks k2 t) = None" if "on_senders t k"
    using that not_both nlinksD(3) [OF nl2(1), of t] n0 by (simp add: k1_def)
  have v3: "view k3 = view k"
  proof (cases "on_senders t k")
    case True
    then have "v_send (vt k t) = Some (blocked_port (tasks k t))"
      using send_queue_of_blocked [OF n True] by (simp add: v_tasks_view task_view_def)
    then show ?thesis
      using True by (simp add: k3_def b2 v2 v_upd_same)
  next
    case False
    then have "v_send (vt k t) = None"
      using n unfolding on_senders_def nstate_ok_def
      by (cases "node (tasks k t)") (auto simp: v_tasks_view task_view_def send_of_def split: NodeQ.splits)
    then show ?thesis
      using False by (simp add: k3_def v2 v_upd_same)
  qed
  show "view (SchedSetEffective t prio k) = view k"
    using linksD(1) [OF l] v3 by simp
  have n3: "node (tasks k3 s) = node (tasks k s)" if "s \<noteq> t" for s
    using that n1 nlinksD(3) [OF nl2(1), of s] by (simp add: k3_def node_SchedWaitQueueAddTask)
  have q3: "is_queued t k3 \<longleftrightarrow> is_queued t k1 \<and> \<not> on_senders t k"
    using nlinksD(3) [OF nl2(1), of t] by (simp add: k3_def is_queued_def node_SchedWaitQueueAddTask)
  have qd: "is_queued t k" if "is_queued t k3"
  proof -
    have "is_queued t k1"
      using that by (simp add: q3)
    then have "on_run t k"
      using n0(1) [of t] by (auto simp: k1_def is_queued_def split: if_splits)
    then show "is_queued t k"
      using run_queue_of_ready [OF n] by (simp add: is_queued_def)
  qed
  have r3: "ready_ok (insert t E) X k3"
    using assms(2) by (rule ready_ok_change) (simp_all add: n3 v3 qd)
  have "ready_ok E X k3"
    using r3
  proof (cases "t \<in> E")
    case False
    show ?thesis
    proof (rule ready_ok_drop [OF r3])
      assume "must_run t k3"
      then have m: "must_run t k"
        using must_run_view [of k3 t k] v3 by simp
      then have "is_queued t k"
        using False assms(2) by (simp add: ready_ok_def)
      then have "on_run t k"
        using m by (auto simp: on_run_def is_queued_def must_run_def)
      then show "is_queued t k3"
        using r1 m not_both q3 by blast
    qed
  qed (simp add: insert_absorb)
  moreover have "queues_ok k3"
  proof (cases "on_senders t k")
    case True
    let ?k = "SchedWaitQueueAddTask (blocked_port (tasks k2 t)) t k2"
    have "nstate_ok ?k"
      using q2 True b2 unfolding queues_ok_def nstate_ok_def on_senders_def
      by (auto simp: SchedWaitQueueAddTask_def upd_task_def)
    then have "queues_ok ?k"
      using q2 nodes_run_ok_SchedWaitQueueAddTask [OF _ _ n2 [OF True]] wlinks_ok [of ?k k2] slinks_ok [of ?k k2]
      by (simp add: queues_ok_def)
    then show ?thesis
      using True by (simp add: k3_def)
  qed (use q2 in \<open>simp add: k3_def\<close>)
  ultimately show "queues_ok (SchedSetEffective t prio k)" "ready_ok E X (SchedSetEffective t prio k)"
    using queues_ok_links [OF l] ready_ok_links [OF l] by simp_all
  show "s \<noteq> t \<Longrightarrow> node (tasks (SchedSetEffective t prio k) s) = node (tasks k s)"
    using linksD(7) [OF l, of s] n3 by simp
  have "is_queued s k3 \<Longrightarrow> is_queued s k"
    using qd n3 [of s] by (cases "s = t") (simp_all add: is_queued_def)
  then show "is_queued s (SchedSetEffective t prio k) \<Longrightarrow> is_queued s k"
    using linksD(7) [OF l, of s] by (simp add: is_queued_def)
qed

lemma slinks_off_queues [simp]: "slinks (off_queues t k) = slinks k"
  by (simp add: off_queues_def Let_def)

lemma slinks_back_on [simp]: "slinks (back_on r w s t k) = slinks k"
  by (simp add: back_on_def Let_def SchedAdd_def split: option.split)

lemma slinks_SchedSetEffective: "slinks (SchedSetEffective t prio k) = slinks k"
  using linksD_parts(4) [OF SchedSetEffective_halves, of t prio k] by simp

section \<open>Priority inheritance\<close>

text \<open>What propagating priorities guarantees, whatever tasks it reaches.\<close>

definition quiet :: "(Kernel \<Rightarrow> Kernel) \<Rightarrow> bool" where
  "quiet f \<longleftrightarrow> (\<forall>k E X. queues_ok k \<and> ready_ok E X k \<longrightarrow> queues_ok (f k) \<and> ready_ok E X (f k) \<and> view (f k) = view k \<and> slinks (f k) = slinks k
     \<and> (\<forall>s. is_queued s (f k) \<longrightarrow> is_queued s k))"

lemma quietD:
  assumes "quiet f" "queues_ok k" "ready_ok E X k"
  shows "queues_ok (f k)" "ready_ok E X (f k)" "view (f k) = view k" "slinks (f k) = slinks k"
    "is_queued s (f k) \<Longrightarrow> is_queued s k"
  using assms unfolding quiet_def by blast+

lemma quiet_id [intro]: "quiet (\<lambda>k. k)"
  by (simp add: quiet_def)

lemma quietI:
  assumes "\<And>k E X. queues_ok k \<Longrightarrow> ready_ok E X k \<Longrightarrow> queues_ok (f k) \<and> ready_ok E X (f k) \<and> view (f k) = view k \<and> slinks (f k) = slinks k"
    and "\<And>k E X s. queues_ok k \<Longrightarrow> ready_ok E X k \<Longrightarrow> is_queued s (f k) \<Longrightarrow> is_queued s k"
  shows "quiet f"
  unfolding quiet_def using assms by blast

lemma quiet_comp [intro]:
  assumes "quiet f" "quiet g"
  shows "quiet (\<lambda>k. f (g k))"
proof (rule quietI)
  fix k E X
  assume k: "queues_ok k" "ready_ok E X k"
  note g = quietD [OF assms(2) k]
  note f = quietD [OF assms(1) g(1,2)]
  show "queues_ok (f (g k)) \<and> ready_ok E X (f (g k)) \<and> view (f (g k)) = view k \<and> slinks (f (g k)) = slinks k"
    using f(1-4) g(3,4) by simp
  show "is_queued s k" if "is_queued s (f (g k))" for s
    using f(5) [OF that] by (rule g(5))
qed

lemma quiet_links: "(\<And>k. links (f k) = links k) \<Longrightarrow> quiet f"
proof (rule quietI)
  fix k E X
  assume k: "queues_ok k" "ready_ok E X k" and l: "\<And>k. links (f k) = links k"
  show "queues_ok (f k) \<and> ready_ok E X (f k) \<and> view (f k) = view k \<and> slinks (f k) = slinks k"
    using k queues_ok_links [OF l] ready_ok_links [OF l] linksD(1) [OF l] linksD_parts(4) [OF l] by simp
  show "is_queued s k" if "is_queued s (f k)" for s
    using that linksD(7) [OF l, of k s] by (simp add: is_queued_def)
qed

lemma quiet_SchedSetEffective: "quiet (SchedSetEffective t prio)"
  by (rule quietI) (use SchedSetEffective_props(1-3) slinks_SchedSetEffective in simp, rule SchedSetEffective_props(5))

declare RecomputePriorityAt.simps [simp del]

lemma quiet_recompute_aux:
  fixes k :: Kernel
  shows "queues_ok k \<Longrightarrow> ready_ok E X k \<Longrightarrow>
      queues_ok (RecomputePriorityAt n t k) \<and> ready_ok E X (RecomputePriorityAt n t k)
        \<and> view (RecomputePriorityAt n t k) = view k \<and> slinks (RecomputePriorityAt n t k) = slinks k
        \<and> (\<forall>s. is_queued s (RecomputePriorityAt n t k) \<longrightarrow> is_queued s k)"
    and "queues_ok k \<Longrightarrow> ready_ok E X k \<Longrightarrow>
      queues_ok (PortBoostServersAt n ts k) \<and> ready_ok E X (PortBoostServersAt n ts k)
        \<and> view (PortBoostServersAt n ts k) = view k \<and> slinks (PortBoostServersAt n ts k) = slinks k
        \<and> (\<forall>s. is_queued s (PortBoostServersAt n ts k) \<longrightarrow> is_queued s k)"
proof (induction n t k and n ts k rule: RecomputePriorityAt_PortBoostServersAt.induct)
  case (1 n t k)
  show ?case
  proof (cases "effective_prio t k = priority (tasks k t)")
    case True
    then show ?thesis
      using "1.prems" RecomputePriorityAt.simps [of n t k] by simp
  next
    case False
    define k1 where "k1 = SchedSetEffective t (effective_prio t k) k"
    have k1: "queues_ok k1" "ready_ok E X k1" "view k1 = view k" "slinks k1 = slinks k"
      using "1.prems" SchedSetEffective_props slinks_SchedSetEffective by (simp_all add: k1_def)
    have i1: "is_queued s k1 \<Longrightarrow> is_queued s k" for s
      using SchedSetEffective_props(5) [OF "1.prems"] by (simp add: k1_def)
    show ?thesis
    proof (cases n)
      case 0
      then have "RecomputePriorityAt n t k = k1"
        using False by (subst RecomputePriorityAt.simps) (simp add: k1_def)
      then show ?thesis
        using k1 i1 by simp
    next
      case (Suc m)
      define k2 where "k2 = (if reply_holder (tasks k1 t) \<noteq> NULL
        then RecomputePriorityAt m (reply_holder (tasks k1 t)) k1 else k1)"
      have k2: "queues_ok k2" "ready_ok E X k2" "view k2 = view k" "slinks k2 = slinks k"
        using "1.IH"(1) [OF False k1_def Suc _ k1(1,2)] k1 by (simp_all add: k2_def)
      have i2: "is_queued s k2 \<Longrightarrow> is_queued s k" for s
        using "1.IH"(1) [OF False k1_def Suc _ k1(1,2)] i1 by (auto simp: k2_def split: if_splits)
      define k3 where "k3 = (if state (tasks k2 t) = TASK_STATE_BLOCKED \<and> node (tasks k2 t) \<noteq> None
          \<and> blocked_port (tasks k2 t) \<noteq> NULL
        then PortBoostServersAt m (active_servers k2 (blocked_port (tasks k2 t))) k2 else k2)"
      have "queues_ok k3 \<and> ready_ok E X k3 \<and> view k3 = view k \<and> slinks k3 = slinks k \<and> (\<forall>s. is_queued s k3 \<longrightarrow> is_queued s k)"
        using "1.IH"(2) [OF False k1_def Suc k2_def _ k2(1,2)] k2 i2 by (simp add: k3_def)
      moreover have "RecomputePriorityAt n t k = k3"
        unfolding k3_def k2_def k1_def using False Suc
        by (subst RecomputePriorityAt.simps) (simp only: nat.case if_False Let_def)
      ultimately show ?thesis
        by simp
    qed
  qed
next
  case (2 n k)
  then show ?case by simp
next
  case (3 n s rest k)
  then show ?case by simp
qed

lemma quiet_TaskRecomputePriority: "quiet (TaskRecomputePriority t)"
  unfolding TaskRecomputePriority_def
proof (rule quietI)
  fix k E X
  assume k: "queues_ok k" "ready_ok E X k"
  note r = quiet_recompute_aux(1) [OF k, of PRIORITY_PROPAGATION_DEPTH t]
  let ?f = "RecomputePriorityAt PRIORITY_PROPAGATION_DEPTH t"
  show "queues_ok (?f k) \<and> ready_ok E X (?f k) \<and> view (?f k) = view k \<and> slinks (?f k) = slinks k"
    using r by simp
  show "is_queued s k" if "is_queued s (?f k)" for s
    using r that by blast
qed

lemma quiet_fold: "(\<And>x. quiet (f x)) \<Longrightarrow> quiet (fold f xs)"
proof (induction xs)
  case Nil
  show ?case by (simp add: quiet_def)
next
  case (Cons x xs)
  then show ?case
    using quiet_comp [of "fold f xs" "f x"] by (simp add: comp_def)
qed

lemma quiet_PortBoostServers: "quiet (PortBoostServers p)"
proof (rule quietI)
  fix k E X
  assume k: "queues_ok k" "ready_ok E X k"
  note q = quietD [OF quiet_fold [of TaskRecomputePriority "active_servers k p", OF quiet_TaskRecomputePriority] k]
  show "queues_ok (PortBoostServers p k) \<and> ready_ok E X (PortBoostServers p k) \<and> view (PortBoostServers p k) = view k
      \<and> slinks (PortBoostServers p k) = slinks k"
    using q(1-4) by (simp add: PortBoostServers_def)
  show "is_queued s k" if "is_queued s (PortBoostServers p k)" for s
    using q(5) that by (simp add: PortBoostServers_def)
qed

end
