(* ===== verification/Links_Proto.thy ===== *)
theory Links_Proto
  imports Links_Wake
begin

text \<open>
  The invariant of the call, reply and wait protocol, on the view: what a task in each state is linked
  to, that reply capabilities and the callers they answer name each other, that the servers of a port and
  the held calls are recorded on both sides, that only the current task is running, and that nobody waits
  for a dead object. \<open>E\<close> are the tasks an operation is in the middle of changing.
\<close>

section \<open>The invariant\<close>

definition unlinked_view :: "TaskView \<Rightarrow> bool" where
  "unlinked_view x \<longleftrightarrow> v_send x = None \<and> v_wait x = None \<and> \<not> v_timed x \<and> v_holder x = 0 \<and> v_held x = 0"

definition calling :: "TaskPtr \<Rightarrow> TaskView \<Rightarrow> bool" where
  "calling t x \<longleftrightarrow> v_ipc x = IPC_WAITING \<and> v_wait x = None \<and> v_blocked x \<noteq> 0 \<and> v_pending x = t \<and> v_rc_task x = t
     \<and> v_rc_tid x = v_tid x
     \<and> (v_send x = Some (v_blocked x) \<and> v_holder x = 0 \<and> v_held x = 0
        \<or> v_send x = None \<and> v_holder x \<noteq> 0 \<and> v_held x = 0
        \<or> v_send x = None \<and> v_holder x = 0 \<and> v_held x \<noteq> 0)"

definition waiting :: "TaskView \<Rightarrow> bool" where
  "waiting x \<longleftrightarrow> v_ipc x = IPC_NONE \<and> v_send x = None \<and> v_holder x = 0 \<and> v_held x = 0 \<and> (v_wait x \<noteq> None \<or> v_timed x)"

definition state_ok :: "TaskPtr \<Rightarrow> TaskView \<Rightarrow> bool" where
  "state_ok t x \<longleftrightarrow>
     (case v_state x of
        TASK_STATE_ZOMBIE \<Rightarrow> unlinked_view x \<and> v_cap x = 0
      | TASK_STATE_BLOCKED \<Rightarrow> waiting x \<or> calling t x
      | _ \<Rightarrow> unlinked_view x \<and> v_ipc x = IPC_NONE)
     \<and> (v_serving x \<noteq> 0 \<longrightarrow> v_cap x \<noteq> 0) \<and> (\<forall>p. v_wait x = Some (RecvQ p) \<longrightarrow> v_cap x = 0)"

definition caps_ok :: "View \<Rightarrow> bool" where
  "caps_ok v \<longleftrightarrow> (\<forall>s c. s \<noteq> 0 \<and> c \<noteq> 0 \<longrightarrow> (v_cap (v_tasks v s) = c \<longleftrightarrow> v_holder (v_tasks v c) = s))"

definition servers_ok :: "View \<Rightarrow> bool" where
  "servers_ok v \<longleftrightarrow> (\<forall>p. p \<noteq> 0 \<longrightarrow> distinct (v_servers v p)
     \<and> (\<forall>t. t \<in> set (v_servers v p) \<longleftrightarrow> v_serving (v_tasks v t) = p))"

definition parked_ok :: "View \<Rightarrow> bool" where
  "parked_ok v \<longleftrightarrow>
     (\<forall>p hs. p \<noteq> 0 \<and> v_parked v p = Some hs \<longrightarrow> length hs = 64
        \<and> (\<forall>i < 64. hc_caller (hs ! i) \<noteq> 0 \<longrightarrow> v_held (v_tasks v (hc_caller (hs ! i))) = p
              \<and> v_slot (v_tasks v (hc_caller (hs ! i))) = i))
     \<and> (\<forall>c. c \<noteq> 0 \<and> v_held (v_tasks v c) \<noteq> 0 \<longrightarrow>
          (\<exists>hs. v_parked v (v_held (v_tasks v c)) = Some hs \<and> v_slot (v_tasks v c) < 64
             \<and> hc_caller (hs ! v_slot (v_tasks v c)) = c))"

definition members_ok :: "Scope \<Rightarrow> View \<Rightarrow> bool" where
  "members_ok X v \<longleftrightarrow> (\<forall>sp. distinct (v_members v sp)
     \<and> (\<forall>t \<in> set (v_members v sp). v_owner (v_tasks v t) = sp \<and> t \<notin> outside X \<and> t \<noteq> idle_task))"

definition running_ok :: "TaskPtr set \<Rightarrow> View \<Rightarrow> bool" where
  "running_ok E v \<longleftrightarrow> (\<forall>t. t \<noteq> 0 \<and> v_state (v_tasks v t) = TASK_STATE_RUNNING \<longrightarrow> t = v_current v
     \<and> (t \<notin> E \<longrightarrow> \<not> v_susp (v_tasks v t) \<and> (v_owner (v_tasks v t) \<noteq> 0 \<and> t \<in> set (v_members v (v_owner (v_tasks v t)))
                  \<longrightarrow> \<not> v_frozen v (v_owner (v_tasks v t)))))"

text \<open>No task is at the null pointer.\<close>

definition null_view :: "TaskView \<Rightarrow> bool" where
  "null_view x \<longleftrightarrow> unlinked_view x \<and> v_cap x = 0 \<and> v_serving x = 0"

text \<open>What a task depends on, and whether it is still there.\<close>

definition dead :: "TaskState \<Rightarrow> bool" where
  "dead s \<longleftrightarrow> s = TASK_STATE_ZOMBIE \<or> s = TASK_STATE_FAULTED"

fun q_live :: "View \<Rightarrow> WaitQ \<Rightarrow> bool" where
  "q_live v (RecvQ p) = v_palive v p"
| "q_live v (EventQ ev) = v_ealive v ev"
| "q_live v (SpaceQ sp) = (\<not> v_torn v sp)"
| "q_live v (JoinQ t) = (\<not> dead (v_state (v_tasks v t)))"

definition depends_on :: "TaskView \<Rightarrow> WaitQ set" where
  "depends_on x = set_option (v_wait x) \<union> RecvQ ` (set_option (v_send x) \<union> ({v_serving x, v_held x} - {0}))"

definition live_ok :: "Scope \<Rightarrow> View \<Rightarrow> bool" where
  "live_ok X v \<longleftrightarrow> (\<forall>t q. t \<noteq> 0 \<and> q \<in> depends_on (v_tasks v t) \<longrightarrow> q_live v q \<or> q \<in> dying X)"

text \<open>States that are relied on: those an operation has pinned, and the tasks waiting to be reaped.\<close>

definition may_state :: "Scope \<Rightarrow> View \<Rightarrow> TaskPtr \<Rightarrow> TaskState \<Rightarrow> bool" where
  "may_state X v t s \<longleftrightarrow> (\<forall>r. pinned X t = Some r \<longrightarrow> r \<noteq> TASK_STATE_BLOCKED \<and> s = r) \<and> (t \<in> v_doomed v \<longrightarrow> t \<noteq> 0 \<and> s = TASK_STATE_ZOMBIE)
     \<and> (t = idle_task \<longrightarrow> s = TASK_STATE_READY) \<and> (resting X \<and> t \<noteq> 0 \<longrightarrow> s \<noteq> TASK_STATE_RUNNING)"

definition pins_ok :: "Scope \<Rightarrow> View \<Rightarrow> bool" where
  "pins_ok X v \<longleftrightarrow> (\<forall>t. may_state X v t (v_state (v_tasks v t))) \<and> (\<forall>sp \<in> freezing X. v_frozen v sp) \<and> (\<forall>c. at_cpu X = Some c \<longrightarrow> v_current v = c)
     \<and> (\<forall>sp. tbl_good (v_tables v sp))"

definition proto_ok :: "TaskPtr set \<Rightarrow> Scope \<Rightarrow> View \<Rightarrow> bool" where
  "proto_ok E X v \<longleftrightarrow> (\<forall>t. t \<noteq> 0 \<and> t \<notin> E \<longrightarrow> state_ok t (v_tasks v t))
     \<and> caps_ok v \<and> servers_ok v \<and> parked_ok v \<and> members_ok X v \<and> running_ok E v \<and> null_view (v_tasks v 0)
     \<and> live_ok X v \<and> pins_ok X v"

definition kinv :: "TaskPtr set \<Rightarrow> Scope \<Rightarrow> Kernel \<Rightarrow> bool" where
  "kinv E X k \<longleftrightarrow> queues_ok k \<and> ready_ok E X k \<and> proto_ok E X (view k)"

lemma kinv_links: "links k = links k' \<Longrightarrow> kinv E X k = kinv E X k'"
  using queues_ok_links ready_ok_links linksD(1) by (metis kinv_def)

lemma kinv_quiet: "quiet f \<Longrightarrow> kinv E X k \<Longrightarrow> kinv E X (f k)"
  using quietD [of f k E X] by (simp add: kinv_def)

lemma kinvD:
  assumes "kinv E X k"
  shows "queues_ok k" "ready_ok E X k" "proto_ok E X (view k)"
  using assms by (simp_all add: kinv_def)

section \<open>Steps of one task\<close>

text \<open>A change of one task that leaves its links to other objects alone.\<close>

definition same_ties :: "TaskView \<Rightarrow> TaskView \<Rightarrow> bool" where
  "same_ties x y \<longleftrightarrow> v_cap y = v_cap x \<and> v_holder y = v_holder x \<and> v_serving y = v_serving x \<and> v_held y = v_held x
     \<and> v_slot y = v_slot x \<and> v_owner y = v_owner x"

lemma depends_ties: "same_ties x y \<Longrightarrow> v_wait y = None \<or> v_wait y = v_wait x \<Longrightarrow> v_send y = None \<or> v_send y = v_send x
    \<Longrightarrow> depends_on y \<subseteq> depends_on x"
  by (auto simp: depends_on_def same_ties_def)

lemma proto_change_gen:
  assumes "proto_ok E X v" "same_ties (v_tasks v t) (f (v_tasks v t))"
    and run: "t \<noteq> 0 \<Longrightarrow> v_state (f (v_tasks v t)) = TASK_STATE_RUNNING \<Longrightarrow> v_state (v_tasks v t) = TASK_STATE_RUNNING
      \<and> (t \<notin> F \<longrightarrow> t \<notin> E \<and> (v_susp (f (v_tasks v t)) \<longrightarrow> v_susp (v_tasks v t)))"
    and "\<And>s. s \<noteq> 0 \<Longrightarrow> s \<noteq> t \<Longrightarrow> s \<notin> F \<Longrightarrow> s \<notin> E" "t \<noteq> 0 \<Longrightarrow> t \<notin> F \<Longrightarrow> state_ok t (f (v_tasks v t))"
    and "t = 0 \<Longrightarrow> null_view (f (v_tasks v t))"
    and state: "v_state (f (v_tasks v t)) \<noteq> v_state (v_tasks v t) \<Longrightarrow>
      v_state (v_tasks v t) = TASK_STATE_BLOCKED \<or> may_state X v t (v_state (f (v_tasks v t)))"
    and died: "dead (v_state (f (v_tasks v t))) \<Longrightarrow> dead (v_state (v_tasks v t)) \<or> JoinQ t \<in> dying X"
    and dep: "\<And>q. t \<noteq> 0 \<Longrightarrow> q \<in> depends_on (f (v_tasks v t)) \<Longrightarrow> q \<in> depends_on (v_tasks v t) \<or> q_live (v_upd t f v) q \<or> q \<in> dying X"
  shows "proto_ok F X (v_upd t f v)"
proof -
  note ties = assms(2) [unfolded same_ties_def]
  let ?v = "v_upd t f v"
  have sel: "v_cap (v_tasks ?v s) = v_cap (v_tasks v s)" "v_holder (v_tasks ?v s) = v_holder (v_tasks v s)"
    "v_serving (v_tasks ?v s) = v_serving (v_tasks v s)" "v_held (v_tasks ?v s) = v_held (v_tasks v s)"
    "v_slot (v_tasks ?v s) = v_slot (v_tasks v s)" "v_owner (v_tasks ?v s) = v_owner (v_tasks v s)" for s
    using ties by simp_all
  have p: "running_ok E v" "live_ok X v" "pins_ok X v"
    using assms(1) by (simp_all add: proto_ok_def)
  have "caps_ok ?v" "servers_ok ?v" "parked_ok ?v" "members_ok X ?v"
    using assms(1) unfolding proto_ok_def caps_ok_def servers_ok_def parked_ok_def members_ok_def sel by simp_all
  moreover have "running_ok F ?v"
    unfolding running_ok_def sel
  proof (intro allI impI)
    fix s
    assume s: "s \<noteq> 0 \<and> v_state (v_tasks ?v s) = TASK_STATE_RUNNING"
    have "v_state (v_tasks v s) = TASK_STATE_RUNNING \<and> (s \<notin> F \<longrightarrow> s \<notin> E \<and> (v_susp (v_tasks ?v s) \<longrightarrow> v_susp (v_tasks v s)))"
      using s run assms(4) by (cases "s = t") simp_all
    then show "s = v_current ?v \<and> (s \<notin> F \<longrightarrow> \<not> v_susp (v_tasks ?v s) \<and> (v_owner (v_tasks v s) \<noteq> 0 \<and>
        s \<in> set (v_members ?v (v_owner (v_tasks v s))) \<longrightarrow> \<not> v_frozen ?v (v_owner (v_tasks v s))))"
      using p(1) s unfolding running_ok_def v_upd_sel(2-) by blast
  qed
  moreover have "live_ok X ?v"
    unfolding live_ok_def
  proof (intro allI impI)
    fix s q
    assume q: "s \<noteq> 0 \<and> q \<in> depends_on (v_tasks ?v s)"
    have "q_live v q \<Longrightarrow> q_live ?v q \<or> q \<in> dying X" for q
      using died by (cases q) auto
    then show "q_live ?v q \<or> q \<in> dying X"
      using p(2) q dep [of q] unfolding live_ok_def by (cases "s = t") auto
  qed
  moreover have "pins_ok X ?v"
    unfolding pins_ok_def
  proof (intro conjI allI)
    show "\<forall>sp \<in> freezing X. v_frozen ?v sp"
      using p(3) by (simp add: pins_ok_def)
    show "tbl_good (v_tables ?v sp)" "at_cpu X = Some sp \<longrightarrow> v_current ?v = sp" for sp
      using p(3) by (simp_all add: pins_ok_def)
    fix s
    have "may_state X v s (v_state (v_tasks v s))"
      using p(3) by (simp add: pins_ok_def)
    moreover have "v_state (f (v_tasks v t)) \<noteq> TASK_STATE_RUNNING" if "t \<noteq> 0" "v_state (v_tasks v t) = TASK_STATE_BLOCKED"
      using run that by (cases "v_state (f (v_tasks v t))") simp_all
    moreover have "may_state X ?v u r = may_state X v u r" for u r
      by (simp add: may_state_def)
    ultimately show "may_state X ?v s (v_state (v_tasks ?v s))"
      using state by (cases "s = t"; cases "v_state (f (v_tasks v t)) = v_state (v_tasks v t)") (auto simp: may_state_def)
  qed
  ultimately show ?thesis
    using assms(1,4-6) by (auto simp: proto_ok_def)
qed

lemma proto_change:
  assumes "proto_ok E X v" "same_ties (v_tasks v t) (f (v_tasks v t))"
    and "t \<noteq> 0 \<Longrightarrow> v_state (f (v_tasks v t)) = TASK_STATE_RUNNING \<Longrightarrow> v_state (v_tasks v t) = TASK_STATE_RUNNING
      \<and> (t \<notin> F \<longrightarrow> t \<notin> E \<and> (v_susp (f (v_tasks v t)) \<longrightarrow> v_susp (v_tasks v t)))"
    and "\<And>s. s \<noteq> 0 \<Longrightarrow> s \<noteq> t \<Longrightarrow> s \<notin> F \<Longrightarrow> s \<notin> E" "t \<noteq> 0 \<Longrightarrow> t \<notin> F \<Longrightarrow> state_ok t (f (v_tasks v t))"
    and "t = 0 \<Longrightarrow> null_view (f (v_tasks v t))"
    and "v_state (f (v_tasks v t)) \<noteq> v_state (v_tasks v t) \<Longrightarrow> v_state (v_tasks v t) = TASK_STATE_BLOCKED \<and> \<not> dead (v_state (f (v_tasks v t)))"
    and "v_wait (f (v_tasks v t)) = None \<or> v_wait (f (v_tasks v t)) = v_wait (v_tasks v t)"
    and "v_send (f (v_tasks v t)) = None \<or> v_send (f (v_tasks v t)) = v_send (v_tasks v t)"
  shows "proto_ok F X (v_upd t f v)"
proof (rule proto_change_gen [where E = E and t = t and f = f, OF assms(1,2)])
  show "dead (v_state (f (v_tasks v t))) \<Longrightarrow> dead (v_state (v_tasks v t)) \<or> JoinQ t \<in> dying X"
    using assms(7) by metis
  show "\<And>q. t \<noteq> 0 \<Longrightarrow> q \<in> depends_on (f (v_tasks v t)) \<Longrightarrow> q \<in> depends_on (v_tasks v t) \<or> q_live (v_upd t f v) q \<or> q \<in> dying X"
    using depends_ties [OF assms(2,8,9)] by blast
qed (use assms(3-7) in blast)+

text \<open>A change that drops links and touches no state.\<close>

lemma proto_shrink:
  assumes "running_ok E v" "live_ok X v" "pins_ok X v" "E \<subseteq> F"
    and "\<And>s. v_state (v_tasks v' s) = v_state (v_tasks v s)" "\<And>s. v_susp (v_tasks v' s) = v_susp (v_tasks v s)"
    and "\<And>s. v_owner (v_tasks v' s) = v_owner (v_tasks v s)" "\<And>s. depends_on (v_tasks v' s) \<subseteq> depends_on (v_tasks v s)"
    and "v_members v' = v_members v" "v_frozen v' = v_frozen v" "v_current v' = v_current v" "v_doomed v' = v_doomed v"
    and "v_palive v' = v_palive v" "v_ealive v' = v_ealive v" "v_torn v' = v_torn v" "v_tables v' = v_tables v"
  shows "running_ok F v'" "live_ok X v'" "pins_ok X v'"
proof -
  show "running_ok F v'"
    using assms(1,4) unfolding running_ok_def assms(5-7,9-11) by blast
  have "q_live v' q = q_live v q" for q
    by (cases q) (simp_all add: assms)
  then show "live_ok X v'"
    using assms(2,8) unfolding live_ok_def by blast
  show "pins_ok X v'"
    using assms(3) unfolding pins_ok_def may_state_def assms(5,10-12,16) .
qed

lemma proto_null: "proto_ok E X v \<Longrightarrow> null_view (v_tasks v 0)"
  by (simp add: proto_ok_def)

lemma proto_woken:
  assumes "proto_ok (insert t E) X v" "v_state (v_tasks v t) = TASK_STATE_BLOCKED"
    and "v_send (v_tasks v t) = None" "v_holder (v_tasks v t) = 0" "v_held (v_tasks v t) = 0"
    and "v_serving (v_tasks v t) \<noteq> 0 \<Longrightarrow> v_cap (v_tasks v t) \<noteq> 0"
  shows "proto_ok E X (v_upd t v_woken v)"
  by (rule proto_change [OF assms(1)])
     (use assms(2-6) proto_null [OF assms(1)] in \<open>auto simp: same_ties_def state_ok_def unlinked_view_def null_view_def dead_def\<close>)

lemma proto_mono: "proto_ok E X v \<Longrightarrow> E \<subseteq> F \<Longrightarrow> proto_ok F X v"
  unfolding proto_ok_def running_ok_def by blast

lemma kinv_mono: "kinv E X k \<Longrightarrow> E \<subseteq> F \<Longrightarrow> kinv F X k"
  unfolding kinv_def using ready_ok_mono proto_mono by blast

lemma kinv_state: "kinv E X k \<Longrightarrow> t \<noteq> 0 \<Longrightarrow> t \<notin> E \<Longrightarrow> state_ok t (vt k t)"
  by (simp add: kinv_def proto_ok_def)

text \<open>Ending a wait, for a task that is not in a call any more.\<close>

lemma kinv_not_idle: "kinv E X k \<Longrightarrow> v_state (vt k t) \<noteq> TASK_STATE_READY \<Longrightarrow> t \<noteq> idle_task"
  by (auto simp: kinv_def proto_ok_def pins_ok_def may_state_def)

lemma kinv_unblock_add:
  assumes "kinv (insert t E) X k" "v_state (vt k t) = TASK_STATE_BLOCKED"
    and "v_send (vt k t) = None" "v_holder (vt k t) = 0" "v_held (vt k t) = 0"
    and "v_serving (vt k t) \<noteq> 0 \<Longrightarrow> v_cap (vt k t) \<noteq> 0"
  shows "kinv E X (SchedAdd t (SchedUnblock t k))"
  using unblock_add [OF kinvD(1) [OF assms(1)] assms(3) kinvD(2) [OF assms(1)]] proto_woken [OF kinvD(3) [OF assms(1)] assms(2-6)]
    kinv_not_idle [OF assms(1), of t] assms(2)
  by (simp add: kinv_def)

lemma view_unblock_add:
  assumes "queues_ok k"
  shows "view (SchedAdd t (SchedUnblock t k)) = v_upd t v_woken (view k)"
  using assms by (simp add: SchedAdd_def view_SchedUnblock)

section \<open>Frames\<close>

lemmas view_frame [simp] = link_frame [THEN linksD(1)]
lemmas kinv_frame [simp] = link_frame [THEN kinv_links]

lemma queues_ok_frame:
  assumes "queues_ok k" "nlinks k' = nlinks k" "wlinks k' = wlinks k" "slinks k' = slinks k"
    and "\<And>s. node (tasks k s) \<noteq> None \<Longrightarrow> v_state (vt k' s) = v_state (vt k s)
           \<and> v_susp (vt k' s) = v_susp (vt k s) \<and> v_blocked (vt k' s) = v_blocked (vt k s)"
  shows "queues_ok k'"
proof -
  have "node (tasks k' s) = node (tasks k s)" for s
    using nlinksD(3) [OF assms(2)] .
  moreover have "state (tasks k' s) = state (tasks k s) \<and> suspended (tasks k' s) = suspended (tasks k s)
      \<and> blocked_port (tasks k' s) = blocked_port (tasks k s)" if "node (tasks k s) \<noteq> None" for s
    using assms(5) [OF that] by (simp add: v_tasks_view task_view_def)
  ultimately have "nstate_ok k'"
    using assms(1) unfolding queues_ok_def nstate_ok_def by (metis option.simps(3))
  then show ?thesis
    using assms(1) nlinks_ok [OF assms(2)] wlinks_ok [OF assms(3)] slinks_ok [OF assms(4)] by (simp add: queues_ok_def)
qed

lemma ready_ok_frame:
  assumes "ready_ok E X k" "nlinks k' = nlinks k" "\<And>s. v_owner (vt k' s) = v_owner (vt k s)"
    and "\<And>s. v_state (vt k' s) = v_state (vt k s)" "\<And>s. v_susp (vt k' s) = v_susp (vt k s)"
    and "v_members (view k') = v_members (view k)" "v_frozen (view k') = v_frozen (view k)"
  shows "ready_ok E X k'"
  using assms(1) must_run_view [of k' _ k] must_not_run_view [of k' _ k] assms(3-7) nlinksD(3) [OF assms(2)]
  by (simp add: ready_ok_def is_queued_def)

text \<open>An update of fields of one task that are in no queue.\<close>

lemma upd_task_ties:
  assumes "\<And>x. node (f x) = node x" "\<And>x. queued_prio (f x) = queued_prio x" "\<And>x. ws_queue (f x) = ws_queue x"
    "\<And>x. ws_linked (f x) = ws_linked x" "\<And>x. timeout_linked (f x) = timeout_linked x" "\<And>x. sleep_slot (f x) = sleep_slot x"
    "\<And>x. wake_deadline (f x) = wake_deadline x"
    "\<And>x. task_view (f x) = g (task_view x)"
    "\<And>x. v_state (g x) = v_state x" "\<And>x. v_susp (g x) = v_susp x" "\<And>x. v_blocked (g x) = v_blocked x" "\<And>x. v_owner (g x) = v_owner x"
  shows "queues_ok k \<Longrightarrow> queues_ok (upd_task t f k)" "ready_ok E X k \<Longrightarrow> ready_ok E X (upd_task t f k)"
    "view (upd_task t f k) = v_upd t g (view k)"
proof -
  show v: "view (upd_task t f k) = v_upd t g (view k)"
    by (rule view_upd_task) (rule assms(8))
  show "queues_ok (upd_task t f k)" if "queues_ok k"
    using that by (rule queues_ok_frame) (simp_all add: assms v)
  show "ready_ok E X (upd_task t f k)" if "ready_ok E X k"
    using that by (rule ready_ok_frame) (simp_all add: assms v)
qed

text \<open>The fields of a call; each is written on its own somewhere.\<close>

lemma task_view_upd [simp]:
  "task_view (x\<lparr>trap_frame := a0\<rparr>) = task_view x"
  "task_view (x\<lparr>exit_status := a1\<rparr>) = task_view x"
  "task_view (x\<lparr>queued_prio := a2\<rparr>) = task_view x"
  "task_view (x\<lparr>wake_deadline := a3\<rparr>) = task_view x"
  "task_view (x\<lparr>slice_remaining := a4\<rparr>) = task_view x"
  "task_view (x\<lparr>slice_deadline := a5\<rparr>) = task_view x"
  "task_view (x\<lparr>time_slice_us := a6\<rparr>) = task_view x"
  "task_view (x\<lparr>sleep_slot := a7\<rparr>) = task_view x"
  "task_view (x\<lparr>pending_grant_handle := a8\<rparr>) = task_view x"
  "task_view (x\<lparr>msg_buf_phys_addr := a9\<rparr>) = task_view x"
  "task_view (x\<lparr>msg_xfer_len := a10\<rparr>) = task_view x"
  "task_view (x\<lparr>port_marker := a11\<rparr>) = task_view x"
  "task_view (x\<lparr>priority := a12\<rparr>) = task_view x"
  "task_view (x\<lparr>base_prio := a13\<rparr>) = task_view x"
  "task_view (x\<lparr>max_prio := a14\<rparr>) = task_view x"
  "task_view (x\<lparr>serving_handle := a15\<rparr>) = task_view x"
  "task_view (x\<lparr>fault_reason := a16\<rparr>) = task_view x"
  "task_view (x\<lparr>tcb_slot := a17\<rparr>) = task_view x"
  "task_view (x\<lparr>ref_count := a18\<rparr>) = task_view x"
  "task_view (x\<lparr>released := a19\<rparr>) = task_view x"
  "task_view (x\<lparr>wait_mask := a20\<rparr>) = task_view x"
  "task_view (x\<lparr>wait_all := a21\<rparr>) = task_view x"
  "task_view (x\<lparr>kernel_stack_top := a22\<rparr>) = task_view x"
  "task_view (x\<lparr>task_info_va := a23\<rparr>) = task_view x"
  "task_view (x\<lparr>state := b0\<rparr>) = (task_view x)\<lparr>v_state := b0\<rparr>"
  "task_view (x\<lparr>ipc_state := b1\<rparr>) = (task_view x)\<lparr>v_ipc := b1\<rparr>"
  "task_view (x\<lparr>timeout_linked := b2\<rparr>) = (task_view x)\<lparr>v_timed := b2\<rparr>"
  "task_view (x\<lparr>blocked_port := b3\<rparr>) = (task_view x)\<lparr>v_blocked := b3\<rparr>"
  "task_view (x\<lparr>rc_caller_task := b4\<rparr>) = (task_view x)\<lparr>v_rc_task := b4\<rparr>"
  "task_view (x\<lparr>rc_caller_tid := b5\<rparr>) = (task_view x)\<lparr>v_rc_tid := b5\<rparr>"
  "task_view (x\<lparr>tid := b6\<rparr>) = (task_view x)\<lparr>v_tid := b6\<rparr>"
  "task_view (x\<lparr>pending_reply_cap := b7\<rparr>) = (task_view x)\<lparr>v_pending := b7\<rparr>"
  "task_view (x\<lparr>reply_cap := b8\<rparr>) = (task_view x)\<lparr>v_cap := b8\<rparr>"
  "task_view (x\<lparr>reply_holder := b9\<rparr>) = (task_view x)\<lparr>v_holder := b9\<rparr>"
  "task_view (x\<lparr>serving_port := b10\<rparr>) = (task_view x)\<lparr>v_serving := b10\<rparr>"
  "task_view (x\<lparr>held_port := b11\<rparr>) = (task_view x)\<lparr>v_held := b11\<rparr>"
  "task_view (x\<lparr>held_slot := b12\<rparr>) = (task_view x)\<lparr>v_slot := b12\<rparr>"
  "task_view (x\<lparr>owner := b13\<rparr>) = (task_view x)\<lparr>v_owner := b13\<rparr>"
  "task_view (x\<lparr>suspended := b14\<rparr>) = (task_view x)\<lparr>v_susp := b14\<rparr>"
  by (simp_all add: task_view_def cong: if_cong)

lemmas upd_reply_cap [simp] = upd_task_ties [where f = "\<lambda>x. x\<lparr>reply_cap := c\<rparr>" and g = "\<lambda>x. x\<lparr>v_cap := c\<rparr>" for c, simplified]
lemmas upd_reply_holder [simp] = upd_task_ties [where f = "\<lambda>x. x\<lparr>reply_holder := c\<rparr>" and g = "\<lambda>x. x\<lparr>v_holder := c\<rparr>" for c, simplified]
lemmas upd_serving_port [simp] = upd_task_ties [where f = "\<lambda>x. x\<lparr>serving_port := c\<rparr>" and g = "\<lambda>x. x\<lparr>v_serving := c\<rparr>" for c, simplified]
lemmas upd_held_port [simp] = upd_task_ties [where f = "\<lambda>x. x\<lparr>held_port := c\<rparr>" and g = "\<lambda>x. x\<lparr>v_held := c\<rparr>" for c, simplified]
lemmas upd_pending [simp] = upd_task_ties [where f = "\<lambda>x. x\<lparr>pending_reply_cap := c\<rparr>" and g = "\<lambda>x. x\<lparr>v_pending := c\<rparr>" for c, simplified]

section \<open>Reply capabilities\<close>

definition sched_ok :: "TaskPtr set \<Rightarrow> Scope \<Rightarrow> Kernel \<Rightarrow> bool" where
  "sched_ok E X k \<longleftrightarrow> queues_ok k \<and> ready_ok E X k"

lemma kinv_sched: "kinv E X k \<longleftrightarrow> sched_ok E X k \<and> proto_ok E X (view k)"
  by (simp add: kinv_def sched_ok_def)

lemma sched_ok_links: "links k = links k' \<Longrightarrow> sched_ok E X k = sched_ok E X k'"
  using queues_ok_links ready_ok_links by (metis sched_ok_def)

lemmas sched_ok_frame [simp] = link_frame [THEN sched_ok_links]

lemma sched_ok_mono: "sched_ok E X k \<Longrightarrow> E \<subseteq> F \<Longrightarrow> sched_ok F X k"
  using ready_ok_mono by (simp add: sched_ok_def) blast

lemma sched_quiet: "quiet f \<Longrightarrow> sched_ok E X k \<Longrightarrow> sched_ok E X (f k)" "quiet f \<Longrightarrow> sched_ok E X k \<Longrightarrow> view (f k) = view k"
    "quiet f \<Longrightarrow> sched_ok E X k \<Longrightarrow> slinks (f k) = slinks k"
  using quietD [of f k E X] by (simp_all add: sched_ok_def)

lemma sched_upd_ties [simp]:
  "sched_ok E X k \<Longrightarrow> sched_ok E X (upd_task t (\<lambda>x. x\<lparr>reply_cap := c\<rparr>) k)"
  "sched_ok E X k \<Longrightarrow> sched_ok E X (upd_task t (\<lambda>x. x\<lparr>reply_holder := c\<rparr>) k)"
  "sched_ok E X k \<Longrightarrow> sched_ok E X (upd_task t (\<lambda>x. x\<lparr>serving_port := c\<rparr>) k)"
  "sched_ok E X k \<Longrightarrow> sched_ok E X (upd_task t (\<lambda>x. x\<lparr>held_port := c\<rparr>) k)"
  "sched_ok E X k \<Longrightarrow> sched_ok E X (upd_task t (\<lambda>x. x\<lparr>pending_reply_cap := c\<rparr>) k)"
  by (simp_all add: sched_ok_def)

lemma sched_ok_servers [simp]: "sched_ok E X (k\<lparr>active_servers := f\<rparr>) = sched_ok E X k"
  by (simp add: sched_ok_def queues_ok_def queue_defs ready_ok_def must_run_def must_not_run_def member_of_def is_frozen_def is_queued_def)

lemma sched_ok_port [simp]: "sched_ok E X (upd_port p f k) = sched_ok E X k"
  by (simp add: sched_ok_def queues_ok_def queue_defs ready_ok_def must_run_def must_not_run_def member_of_def is_frozen_def
        is_queued_def upd_port_def)

definition v_clear :: "TaskPtr \<Rightarrow> View \<Rightarrow> View" where
  "v_clear t v = (v_upd t (\<lambda>x. x\<lparr>v_cap := 0, v_serving := 0\<rparr>) v)
     \<lparr>v_servers := (let p = v_serving (v_tasks v t)
                   in if p = 0 then v_servers v else (v_servers v)(p := remove1 t (v_servers v p)))\<rparr>"

lemma v_clear_sel [simp]:
  "v_tasks (v_clear t v) s = (if s = t then (v_tasks v t)\<lparr>v_cap := 0, v_serving := 0\<rparr> else v_tasks v s)"
  "v_parked (v_clear t v) = v_parked v" "v_frozen (v_clear t v) = v_frozen v" "v_members (v_clear t v) = v_members v"
  "v_current (v_clear t v) = v_current v" "v_doomed (v_clear t v) = v_doomed v" "v_palive (v_clear t v) = v_palive v"
  "v_ealive (v_clear t v) = v_ealive v" "v_torn (v_clear t v) = v_torn v" "v_tables (v_clear t v) = v_tables v"
  by (simp_all add: v_clear_def)

lemma servers_ok_clear: "servers_ok v \<Longrightarrow> servers_ok (v_clear t v)"
proof -
  assume s: "servers_ok v"
  let ?q = "v_serving (v_tasks v t)"
  have "distinct (v_servers (v_clear t v) p) \<and> (\<forall>s. s \<in> set (v_servers (v_clear t v) p) \<longleftrightarrow> v_serving (v_tasks (v_clear t v) s) = p)"
    if "p \<noteq> 0" for p
  proof -
    have p: "distinct (v_servers v p)" "\<And>s. s \<in> set (v_servers v p) \<longleftrightarrow> v_serving (v_tasks v s) = p"
      using s that by (simp_all add: servers_ok_def)
    have "v_servers (v_clear t v) p = (if p = ?q then remove1 t (v_servers v p) else v_servers v p)"
      using that by (simp add: v_clear_def Let_def)
    then show ?thesis
      using p that by (cases "p = ?q") auto
  qed
  then show ?thesis
    by (simp add: servers_ok_def)
qed

lemma field_views:
  "serving_port (tasks k t) = v_serving (vt k t)" "active_servers k = v_servers (view k)"
  by (simp_all add: view_def task_view_def)

lemma view_TaskDetachServing [simp]:
  "view (TaskDetachServing t k) = (v_upd t (\<lambda>x. x\<lparr>v_serving := 0\<rparr>) (view k))
     \<lparr>v_servers := (let p = v_serving (vt k t)
        in if p = 0 then v_servers (view k) else (v_servers (view k))(p := remove1 t (v_servers (view k) p)))\<rparr>"
proof (cases "v_serving (vt k t) = 0")
  case True
  then have "v_upd t (\<lambda>x. x\<lparr>v_serving := 0\<rparr>) (view k) = view k"
    by (intro v_upd_same) simp
  then show ?thesis
    using True by (simp add: TaskDetachServing_def field_views Let_def)
next
  case False
  then show ?thesis
    by (simp add: TaskDetachServing_def field_views Let_def v_upd_def)
qed

lemma slinks_TaskDetachServing [simp]: "slinks (TaskDetachServing t k) = slinks k"
  by (simp add: TaskDetachServing_def Let_def)

lemma sched_TaskDetachServing [simp]: "sched_ok E X k \<Longrightarrow> sched_ok E X (TaskDetachServing t k)"
  by (simp add: TaskDetachServing_def Let_def)

lemma TaskClearReplyCap_props:
  assumes "sched_ok E X k"
  shows "sched_ok E X (TaskClearReplyCap t k)" "view (TaskClearReplyCap t k) = v_clear t (view k)"
    "slinks (TaskClearReplyCap t k) = slinks k"
proof -
  let ?k = "TaskDetachServing t (upd_task t (\<lambda>x. x\<lparr>reply_cap := 0\<rparr>) k)"
  have s: "sched_ok E X ?k"
    using assms by simp
  have "view ?k = v_clear t (view k)"
    by (simp add: v_clear_def Let_def)
  then show "sched_ok E X (TaskClearReplyCap t k)" "view (TaskClearReplyCap t k) = v_clear t (view k)"
    "slinks (TaskClearReplyCap t k) = slinks k"
    using sched_quiet [OF quiet_TaskRecomputePriority s, of t] by (simp_all add: TaskClearReplyCap_def Let_def)
qed

text \<open>Clearing the capability of a server and the link back of its caller together.\<close>

lemma state_ok_clear:
  "state_ok t x \<Longrightarrow> state_ok t (x\<lparr>v_cap := 0, v_serving := 0\<rparr>)"
  by (auto simp: state_ok_def unlinked_view_def waiting_def calling_def split: TaskState.splits)

lemma proto_release:
  assumes "proto_ok E X v" "t \<noteq> 0" "v_holder (v_tasks v t) = h" "h \<noteq> 0"
  shows "proto_ok (insert t E) X (v_upd t (\<lambda>x. x\<lparr>v_holder := 0\<rparr>) (v_clear h v))"
proof -
  let ?v = "v_upd t (\<lambda>x. x\<lparr>v_holder := 0\<rparr>) (v_clear h v)"
  have cap: "v_cap (v_tasks v h) = t"
    using assms unfolding proto_ok_def caps_ok_def by metis
  have caps: "v_cap (v_tasks v s) = c \<longleftrightarrow> v_holder (v_tasks v c) = s" if "s \<noteq> 0" "c \<noteq> 0" for s c
    using assms(1) that unfolding proto_ok_def caps_ok_def by blast
  have "v_cap (v_tasks ?v s) = c \<longleftrightarrow> v_holder (v_tasks ?v c) = s" if "s \<noteq> 0" "c \<noteq> 0" for s c
    using caps [OF that] cap assms(3) that by (cases "s = h"; cases "c = t"; cases "s = t"; cases "c = h") auto
  then have "caps_ok ?v"
    unfolding caps_ok_def by blast
  moreover have "servers_ok ?v"
    using servers_ok_clear [of v h] assms(1) unfolding servers_ok_def proto_ok_def by simp
  moreover
  have sel: "v_held (v_tasks ?v s) = v_held (v_tasks v s)" "v_slot (v_tasks ?v s) = v_slot (v_tasks v s)"
    "v_owner (v_tasks ?v s) = v_owner (v_tasks v s)" "v_state (v_tasks ?v s) = v_state (v_tasks v s)" for s
    by simp_all
  have "parked_ok ?v" "members_ok X ?v"
    using assms(1) unfolding proto_ok_def parked_ok_def members_ok_def sel by simp_all
  moreover have "running_ok (insert t E) ?v" "live_ok X ?v" "pins_ok X ?v"
    using assms(1) by (intro proto_shrink [of E v X "insert t E" ?v]; auto simp: proto_ok_def depends_on_def)+
  moreover have "state_ok s (v_tasks ?v s)" if "s \<noteq> 0" "s \<notin> insert t E" for s
    using that assms(1) state_ok_clear by (auto simp: proto_ok_def)
  moreover have "null_view (v_tasks ?v 0)"
    using proto_null [OF assms(1)] assms(2,4) by (simp add: null_view_def)
  ultimately show ?thesis
    unfolding proto_ok_def by blast
qed

lemma release_holder_props:
  assumes "sched_ok E X k"
  shows "sched_ok E X (release_holder t k)" "slinks (release_holder t k) = slinks k"
    "view (release_holder t k) =
       (if v_pending (vt k t) \<noteq> 0 \<and> v_holder (vt k t) \<noteq> 0
        then v_upd t (\<lambda>x. x\<lparr>v_holder := 0\<rparr>) (v_clear (v_holder (vt k t)) (view k)) else view k)"
  using assms TaskClearReplyCap_props [OF assms] sched_quiet [OF quiet_PortBoostServers assms]
  by (simp_all add: release_holder_def Let_def v_tasks_view task_view_def)

text \<open>Taking a caller out of the table of held calls.\<close>

lemma view_clear_held [simp]:
  "view (clear_held p i k) = (view k)\<lparr>v_parked := (v_parked (view k))(p :=
     map_option (\<lambda>hs. hs[i := (hs ! i)\<lparr>hc_caller := 0\<rparr>]) (v_parked (view k) p))\<rparr>"
proof -
  have "(v_palive (view k))(p := port_alive (ports k p)) = v_palive (view k)"
    by (simp add: view_def fun_eq_iff)
  then show ?thesis
    by (simp add: clear_held_def) (simp add: view_def)
qed

lemma sched_clear_held [simp]: "sched_ok E X (clear_held p i k) = sched_ok E X k" "slinks (clear_held p i k) = slinks k"
  by (simp_all add: clear_held_def)

definition v_unpark :: "TaskPtr \<Rightarrow> View \<Rightarrow> View" where
  "v_unpark t v =
     (let p = v_held (v_tasks v t); i = v_slot (v_tasks v t)
      in v_upd t (\<lambda>x. x\<lparr>v_held := 0\<rparr>) (v\<lparr>v_parked := (v_parked v)(p :=
           map_option (\<lambda>hs. hs[i := (hs ! i)\<lparr>hc_caller := 0\<rparr>]) (v_parked v p))\<rparr>))"

lemma proto_unpark:
  assumes "proto_ok E X v" "t \<noteq> 0" "v_held (v_tasks v t) \<noteq> 0"
  shows "proto_ok (insert t E) X (v_unpark t v)"
proof -
  let ?p = "v_held (v_tasks v t)" and ?i = "v_slot (v_tasks v t)" and ?v = "v_unpark t v"
  obtain hs where hs: "v_parked v ?p = Some hs" "?i < 64" "hc_caller (hs ! ?i) = t" "length hs = 64"
    using assms unfolding proto_ok_def parked_ok_def by metis
  have tab: "length gs = 64 \<and> (\<forall>i < 64. hc_caller (gs ! i) \<noteq> 0 \<longrightarrow> v_held (v_tasks v (hc_caller (gs ! i))) = p
              \<and> v_slot (v_tasks v (hc_caller (gs ! i))) = i)" if "p \<noteq> 0" "v_parked v p = Some gs" for p gs
    using assms(1) that unfolding proto_ok_def parked_ok_def by blast
  have bk: "\<exists>hs. v_parked v (v_held (v_tasks v c)) = Some hs \<and> v_slot (v_tasks v c) < 64
             \<and> hc_caller (hs ! v_slot (v_tasks v c)) = c" if "c \<noteq> 0" "v_held (v_tasks v c) \<noteq> 0" for c
    using assms(1) that unfolding proto_ok_def parked_ok_def by blast
  have "parked_ok ?v"
    unfolding parked_ok_def
  proof (intro conjI allI impI)
    fix p gs
    assume p: "p \<noteq> 0 \<and> v_parked ?v p = Some gs"
    show "length gs = 64"
      using p tab hs by (auto simp: v_unpark_def Let_def split: if_splits)
    fix i
    assume i: "i < 64" "hc_caller (gs ! i) \<noteq> 0"
    have "hc_caller (gs ! i) \<noteq> t \<and> v_held (v_tasks v (hc_caller (gs ! i))) = p \<and> v_slot (v_tasks v (hc_caller (gs ! i))) = i"
    proof (cases "p = ?p")
      case True
      then have "gs = hs[?i := (hs ! ?i)\<lparr>hc_caller := 0\<rparr>]"
        using p hs by (simp add: v_unpark_def Let_def)
      then have "i \<noteq> ?i" "gs ! i = hs ! i"
        using i hs by (auto simp: nth_list_update)
      then show ?thesis
        using i tab [OF assms(3) hs(1)] True by metis
    next
      case False
      then have "v_parked v p = Some gs"
        using p by (simp add: v_unpark_def Let_def)
      then show ?thesis
        using i p False tab by metis
    qed
    then show "v_held (v_tasks ?v (hc_caller (gs ! i))) = p" "v_slot (v_tasks ?v (hc_caller (gs ! i))) = i"
      by (simp_all add: v_unpark_def Let_def)
  next
    fix c
    assume c: "c \<noteq> 0 \<and> v_held (v_tasks ?v c) \<noteq> 0"
    then have ct: "c \<noteq> t" "v_held (v_tasks v c) \<noteq> 0"
      by (auto simp: v_unpark_def Let_def split: if_splits)
    obtain gs where gs: "v_parked v (v_held (v_tasks v c)) = Some gs" "v_slot (v_tasks v c) < 64"
      "hc_caller (gs ! v_slot (v_tasks v c)) = c"
      using bk c ct by blast
    show "\<exists>hs. v_parked ?v (v_held (v_tasks ?v c)) = Some hs \<and> v_slot (v_tasks ?v c) < 64
             \<and> hc_caller (hs ! v_slot (v_tasks ?v c)) = c"
      using gs hs ct by (auto simp: v_unpark_def Let_def nth_list_update)
  qed
  moreover
  have sel: "v_cap (v_tasks ?v s) = v_cap (v_tasks v s)" "v_holder (v_tasks ?v s) = v_holder (v_tasks v s)"
    "v_serving (v_tasks ?v s) = v_serving (v_tasks v s)" "v_owner (v_tasks ?v s) = v_owner (v_tasks v s)"
    "v_state (v_tasks ?v s) = v_state (v_tasks v s)" "v_servers ?v = v_servers v" "v_members ?v = v_members v"
    "v_current ?v = v_current v" for s
    by (simp_all add: v_unpark_def Let_def)
  have "caps_ok ?v" "servers_ok ?v" "members_ok X ?v"
    using assms(1) unfolding proto_ok_def caps_ok_def servers_ok_def members_ok_def sel by simp_all
  moreover have "running_ok (insert t E) ?v" "live_ok X ?v" "pins_ok X ?v"
    using assms(1) by (intro proto_shrink [of E v X "insert t E" ?v]; auto simp: proto_ok_def depends_on_def v_unpark_def Let_def)+
  moreover have "state_ok s (v_tasks ?v s)" if "s \<noteq> 0" "s \<notin> insert t E" for s
    using that assms(1) by (simp add: v_unpark_def Let_def proto_ok_def)
  moreover have "null_view (v_tasks ?v 0)"
    using proto_null [OF assms(1)] assms(2) by (simp add: v_unpark_def Let_def)
  ultimately show ?thesis
    unfolding proto_ok_def by blast
qed

end
