(* ===== verification/Links_Ipc.thy ===== *)
theory Links_Ipc
  imports Links_Proto
begin

text \<open>
  Ending waits and calls: aborted waits, cancelled calls, timeouts, the wheel, event delivery. Every
  operation here keeps the invariant.
\<close>

section \<open>Aborting a wait\<close>

lemma state_ok_cases:
  assumes "state_ok t x" "v_state x = TASK_STATE_BLOCKED"
  obtains "waiting x" | "calling t x"
  using assms by (auto simp: state_ok_def)

lemma kinv_exempt_change:
  assumes "kinv E X k" "t \<in> E" "sched_ok E X k'" "view k' = v_upd t f (view k)" "same_ties (vt k t) (f (vt k t))"
    "v_state (f (vt k t)) = v_state (vt k t)" "v_wait (f (vt k t)) = None \<or> v_wait (f (vt k t)) = v_wait (vt k t)"
    "v_send (f (vt k t)) = None \<or> v_send (f (vt k t)) = v_send (vt k t)" "t = 0 \<Longrightarrow> null_view (f (vt k t))"
  shows "kinv E X k'"
  using assms proto_change [of E X "view k" t f E] by (auto simp: kinv_sched)

lemma kinv_running: "kinv E X k \<Longrightarrow> t \<noteq> 0 \<Longrightarrow> v_state (vt k t) = TASK_STATE_RUNNING \<Longrightarrow> t = v_current (view k)"
  by (simp add: kinv_def proto_ok_def running_ok_def)

lemma kinv_not_pinned: "kinv E X k \<Longrightarrow> v_state (vt k t) = TASK_STATE_BLOCKED \<Longrightarrow> pinned X t = None"
  by (cases "pinned X t") (auto simp: kinv_def proto_ok_def pins_ok_def may_state_def)

lemma kinv_upd_pending:
  assumes "kinv E X k" "t \<in> E"
  shows "kinv E X (upd_task t (\<lambda>x. x\<lparr>pending_reply_cap := c\<rparr>) k)"
  using assms(1) proto_null [OF kinvD(3) [OF assms(1)]]
  by (intro kinv_exempt_change [OF assms, of _ "\<lambda>x. x\<lparr>v_pending := c\<rparr>"]) (auto simp: kinv_sched same_ties_def null_view_def unlinked_view_def)

lemma view_TaskAbortWait:
  assumes "queues_ok k"
  shows "view (TaskAbortWait t err k) = v_upd t (\<lambda>x. v_woken (x\<lparr>v_pending := 0\<rparr>)) (view k)"
proof -
  have "queues_ok (upd_task t (\<lambda>x. x\<lparr>pending_reply_cap := 0\<rparr>) (ArchSetInFrame t 0 (err_reg err) k))"
    using assms queues_ok_links [OF links_ArchSetInFrame] by simp
  then show ?thesis
    by (simp add: TaskAbortWait_def Let_def view_unblock_add)
qed

lemma kinv_TaskAbortWait:
  assumes "kinv (insert t E) X k" "v_state (vt k t) = TASK_STATE_BLOCKED"
    and "v_send (vt k t) = None" "v_holder (vt k t) = 0" "v_held (vt k t) = 0"
    and "v_serving (vt k t) \<noteq> 0 \<Longrightarrow> v_cap (vt k t) \<noteq> 0"
  shows "kinv E X (TaskAbortWait t err k)"
proof -
  have "kinv (insert t E) X (upd_task t (\<lambda>x. x\<lparr>pending_reply_cap := 0\<rparr>) (ArchSetInFrame t 0 (err_reg err) k))"
    using assms(1) by (intro kinv_upd_pending) simp_all
  then show ?thesis
    unfolding TaskAbortWait_def Let_def by (rule kinv_unblock_add) (use assms(2-6) in simp_all)
qed

text \<open>Nobody but the task itself changes, which the loops over queues rely on.\<close>

lemma vt_TaskAbortWait_other: "queues_ok k \<Longrightarrow> s \<noteq> t \<Longrightarrow> vt (TaskAbortWait t err k) s = vt k s"
  by (simp add: view_TaskAbortWait)

section \<open>Cancelling a call\<close>

lemma blocked_not_queued: "nstate_ok k \<Longrightarrow> v_state (vt k t) = TASK_STATE_BLOCKED \<Longrightarrow> node (tasks k t) \<noteq> Some (RunQ l)"
  by (auto simp: nstate_ok_def v_tasks_view task_view_def)

lemma node_send_view: "nstate_ok k \<Longrightarrow> v_state (vt k t) \<noteq> TASK_STATE_READY \<Longrightarrow> node (tasks k t) = map_option SendQ (v_send (vt k t))"
  by (cases "node (tasks k t)") (auto simp: nstate_ok_def v_tasks_view task_view_def send_of_def split: NodeQ.splits)

lemma sched_node_remove_sender:
  assumes "sched_ok E X k" "\<And>l. node (tasks k t) \<noteq> Some (RunQ l)"
  shows "sched_ok (insert t E) X (node_remove t k)"
proof -
  have "ready_ok (insert t E) X (node_remove t k)"
    using assms(1) [unfolded sched_ok_def, THEN conjunct2]
    by (rule ready_ok_change) (simp_all add: node_node_remove is_queued_def)
  then show ?thesis
    using assms queues_ok_node_remove [of k t] by (simp add: sched_ok_def)
qed

lemma leave_queue_props:
  assumes "kinv E X k" "t \<noteq> 0" "v_state (vt k t) = TASK_STATE_BLOCKED" "calling t (vt k t)"
  defines "k' \<equiv> (if held_port (tasks k t) \<noteq> NULL
               then upd_task t (\<lambda>x. x\<lparr>held_port := NULL\<rparr>)
                      (clear_held (held_port (tasks k t)) (held_slot (tasks k t)) k)
               else if node (tasks k t) \<noteq> None then node_remove t k else k)"
  shows "kinv (insert t E) X k'" "slinks k' = slinks k" "vt k' t = (vt k t)\<lparr>v_send := None, v_held := 0\<rparr>"
    "s \<noteq> t \<Longrightarrow> vt k' s = vt k s"
proof -
  have n: "nstate_ok k"
    using assms(1) by (simp add: kinv_def queues_ok_def)
  have h: "held_port (tasks k t) = v_held (vt k t)" "held_slot (tasks k t) = v_slot (vt k t)"
    by (simp_all add: v_tasks_view task_view_def)
  have nd: "node (tasks k t) = map_option SendQ (v_send (vt k t))"
    using node_send_view [OF n] assms(3) by simp
  consider (held) "v_held (vt k t) \<noteq> 0" | (send) "v_held (vt k t) = 0" "v_send (vt k t) \<noteq> None"
    | (served) "v_held (vt k t) = 0" "v_send (vt k t) = None"
    by blast
  then have "kinv (insert t E) X k' \<and> slinks k' = slinks k \<and> vt k' t = (vt k t)\<lparr>v_send := None, v_held := 0\<rparr>
      \<and> (s \<noteq> t \<longrightarrow> vt k' s = vt k s)"
  proof cases
    case held
    then have k': "k' = upd_task t (\<lambda>x. x\<lparr>held_port := NULL\<rparr>) (clear_held (v_held (vt k t)) (v_slot (vt k t)) k)"
      by (simp add: k'_def h)
    have "view k' = v_unpark t (view k)"
      by (simp add: k' v_unpark_def Let_def)
    moreover have "v_send (vt k t) = None"
      using assms(4) held by (auto simp: calling_def)
    ultimately show ?thesis
      using kinv_mono [OF assms(1) subset_insertI, of t] proto_unpark [OF kinvD(3) [OF assms(1)] assms(2) held]
      by (simp add: kinv_sched k' v_unpark_def Let_def)
  next
    case send
    then have k': "k' = node_remove t k"
      by (simp add: k'_def h nd)
    have "proto_ok (insert t E) X (v_upd t (\<lambda>x. x\<lparr>v_send := None\<rparr>) (view k))"
      using kinvD(3) [OF assms(1)] by (rule proto_change) (auto simp: same_ties_def assms(2,3))
    then show ?thesis
      using assms(1) send sched_node_remove_sender [of E X k t] nd by (auto simp: kinv_sched k')
  next
    case served
    then have "k' = k"
      by (simp add: k'_def h nd)
    then show ?thesis
      using kinv_mono [OF assms(1), of "insert t E"] served by auto
  qed
  then show "kinv (insert t E) X k'" "slinks k' = slinks k" "vt k' t = (vt k t)\<lparr>v_send := None, v_held := 0\<rparr>"
    "s \<noteq> t \<Longrightarrow> vt k' s = vt k s"
    by auto
qed

lemma proto_release_pending:
  assumes "kinv E X k" "t \<noteq> 0" "v_holder (vt k t) \<noteq> 0 \<Longrightarrow> v_pending (vt k t) \<noteq> 0"
  shows "kinv (insert t E) X (release_holder t k)" "v_holder (vt (release_holder t k) t) = 0"
proof -
  have s: "sched_ok E X k" "proto_ok E X (view k)"
    using assms(1) by (simp_all add: kinv_sched)
  note r = release_holder_props [OF s(1), of t]
  show "v_holder (vt (release_holder t k) t) = 0"
    using assms(3) by (auto simp: r)
  have "proto_ok (insert t E) X (view (release_holder t k))"
    using proto_release [OF s(2) assms(2) refl] proto_mono [OF s(2), of "insert t E"] assms(3) by (auto simp: r)
  then show "kinv (insert t E) X (release_holder t k)"
    using sched_ok_mono [OF r(1), of "insert t E"] by (auto simp: kinv_sched)
qed

lemma vt_release_holder:
  assumes "sched_ok E X k"
  shows "v_state (vt (release_holder t k) s) = v_state (vt k s)" "v_send (vt (release_holder t k) s) = v_send (vt k s)"
    "v_wait (vt (release_holder t k) s) = v_wait (vt k s)" "v_held (vt (release_holder t k) s) = v_held (vt k s)"
    "v_timed (vt (release_holder t k) s) = v_timed (vt k s)" "v_ipc (vt (release_holder t k) s) = v_ipc (vt k s)"
    "(v_serving (vt k s) \<noteq> 0 \<longrightarrow> v_cap (vt k s) \<noteq> 0)
       \<Longrightarrow> v_serving (vt (release_holder t k) s) \<noteq> 0 \<Longrightarrow> v_cap (vt (release_holder t k) s) \<noteq> 0"
  by (simp_all add: release_holder_props [OF assms]) (auto split: if_splits)

lemma TaskCancelCall_props:
  assumes "kinv E X k" "t \<noteq> 0" "v_state (vt k t) = TASK_STATE_BLOCKED" "calling t (vt k t)"
    "v_serving (vt k t) \<noteq> 0 \<Longrightarrow> v_cap (vt k t) \<noteq> 0"
  shows "kinv (insert t E) X (TaskCancelCall t k)" "slinks (TaskCancelCall t k) = slinks k"
    "v_send (vt (TaskCancelCall t k) t) = None" "v_holder (vt (TaskCancelCall t k) t) = 0"
    "v_held (vt (TaskCancelCall t k) t) = 0" "v_state (vt (TaskCancelCall t k) t) = TASK_STATE_BLOCKED"
    "v_serving (vt (TaskCancelCall t k) t) \<noteq> 0 \<Longrightarrow> v_cap (vt (TaskCancelCall t k) t) \<noteq> 0"
proof -
  define k1 where "k1 = (if held_port (tasks k t) \<noteq> NULL
               then upd_task t (\<lambda>x. x\<lparr>held_port := NULL\<rparr>)
                      (clear_held (held_port (tasks k t)) (held_slot (tasks k t)) k)
               else if node (tasks k t) \<noteq> None then node_remove t k else k)"
  note k1 = leave_queue_props [OF assms(1-4), folded k1_def]
  let ?k = "release_holder t k1"
  have eq: "TaskCancelCall t k = upd_task t (\<lambda>x. x\<lparr>pending_reply_cap := NULL\<rparr>) ?k"
    by (simp add: TaskCancelCall_def k1_def Let_def)
  have p: "v_holder (vt k1 t) \<noteq> 0 \<Longrightarrow> v_pending (vt k1 t) \<noteq> 0"
    using assms(2,4) by (simp add: k1(3) calling_def)
  have s1: "sched_ok (insert t E) X k1"
    using k1(1) by (simp add: kinv_sched)
  have r: "kinv (insert t E) X ?k" "v_holder (vt ?k t) = 0"
    using proto_release_pending [OF k1(1) assms(2)] p by simp_all
  show "kinv (insert t E) X (TaskCancelCall t k)"
    unfolding eq using r(1) by (intro kinv_upd_pending) simp_all
  show "slinks (TaskCancelCall t k) = slinks k"
    by (simp add: eq release_holder_props(2) [OF s1] k1(2))
  show "v_send (vt (TaskCancelCall t k) t) = None" "v_holder (vt (TaskCancelCall t k) t) = 0"
    "v_held (vt (TaskCancelCall t k) t) = 0" "v_state (vt (TaskCancelCall t k) t) = TASK_STATE_BLOCKED"
    by (simp_all add: eq vt_release_holder [OF s1] k1(3) r(2) assms(3))
  show "v_serving (vt (TaskCancelCall t k) t) \<noteq> 0 \<Longrightarrow> v_cap (vt (TaskCancelCall t k) t) \<noteq> 0"
    using vt_release_holder(7) [OF s1, of t t] assms(5) by (simp add: eq k1(3))
qed

section \<open>Timeouts\<close>

text \<open>A blocked task whose wait is about to end, whatever it waits for.\<close>

definition ending :: "TaskPtr \<Rightarrow> TaskView \<Rightarrow> bool" where
  "ending t x \<longleftrightarrow> v_state x = TASK_STATE_BLOCKED
     \<and> (calling t x \<or> v_ipc x = IPC_NONE \<and> v_send x = None \<and> v_holder x = 0 \<and> v_held x = 0)
     \<and> (v_serving x \<noteq> 0 \<longrightarrow> v_cap x \<noteq> 0)"

lemma ending_timed [simp]: "ending t (x\<lparr>v_timed := b\<rparr>) = ending t x"
  by (simp add: ending_def calling_def)

lemma state_ok_ending: "state_ok t x \<Longrightarrow> v_state x = TASK_STATE_BLOCKED \<Longrightarrow> ending t x"
  by (auto simp: state_ok_def ending_def waiting_def)

lemma state_ok_timed: "state_ok t x \<Longrightarrow> v_timed x \<Longrightarrow> v_state x = TASK_STATE_BLOCKED"
  by (cases "v_state x") (auto simp: state_ok_def unlinked_view_def)

lemma kinv_timed:
  assumes "kinv E X k" "timeout_linked (tasks k t)" "t \<notin> E"
  shows "t \<noteq> 0" "ending t (vt k t)"
proof -
  have v: "v_timed (vt k t)"
    using assms(2) by (simp add: v_tasks_view task_view_def)
  show t: "t \<noteq> 0"
    using v proto_null [OF kinvD(3) [OF assms(1)]] by (auto simp: null_view_def unlinked_view_def)
  have "state_ok t (vt k t)"
    using kinv_state [OF assms(1) t assms(3)] .
  then show "ending t (vt k t)"
    using state_ok_ending state_ok_timed v by blast
qed

text \<open>Unblocking a task that is on no wheel leaves the wheel alone.\<close>

definition wheel_same :: "TaskPtr \<Rightarrow> Kernel \<Rightarrow> Kernel \<Rightarrow> bool" where
  "wheel_same t k k' \<longleftrightarrow> sleep_wheel k' = sleep_wheel k \<and> wheel_now_slot k' = wheel_now_slot k \<and> slot_shift k' = slot_shift k
     \<and> (\<forall>s. s \<noteq> t \<longrightarrow> timeout_linked (tasks k' s) = timeout_linked (tasks k s)
          \<and> sleep_slot (tasks k' s) = sleep_slot (tasks k s) \<and> wake_deadline (tasks k' s) = wake_deadline (tasks k s))"

lemma wheel_same_slinks: "slinks k' = slinks k \<Longrightarrow> wheel_same t k k'"
  using slinksD [of k' k] by (simp add: wheel_same_def)

lemma wheel_same_trans: "wheel_same t k k' \<Longrightarrow> wheel_same t k' k'' \<Longrightarrow> wheel_same t k k''"
  by (simp add: wheel_same_def)

lemma wheel_same_SchedUnblock:
  assumes "sleep_slot (tasks k t) < 0"
  shows "wheel_same t k (SchedUnblock t k)"
proof -
  let ?k = "if ws_linked (tasks k t) then wait_remove t k else k"
  have s: "slinks ?k = slinks k"
    by simp
  then have "SchedRemoveSleepQueue t ?k = ?k"
    using assms slinksD(4) [OF s, of t] by (simp add: SchedRemoveSleepQueue_def)
  then have "wheel_same t ?k (SchedUnblock t k)"
    by (simp add: SchedUnblock_def Let_def wheel_same_def upd_task_def)
  then show ?thesis
    using wheel_same_trans wheel_same_slinks [OF s] by blast
qed

lemma sched_ok_sleep_slot:
  assumes "sched_ok E X k" "\<not> timeout_linked (tasks k t)"
  shows "sched_ok E X (upd_task t (\<lambda>x. x\<lparr>sleep_slot := i\<rparr>) k)"
proof -
  let ?k = "upd_task t (\<lambda>x. x\<lparr>sleep_slot := i\<rparr>) k"
  have q: "queues_ok k" "ready_ok E X k"
    using assms(1) by (simp_all add: sched_ok_def)
  have "nstate_ok ?k"
    using q(1) unfolding queues_ok_def nstate_ok_def by (auto simp: upd_task_def)
  then have "queues_ok ?k"
    using q(1) wheel_ok_sleep_slot [of k t i] assms(2) nlinks_ok [of ?k k] wlinks_ok [of ?k k] by (simp add: queues_ok_def)
  moreover have "ready_ok E X ?k"
    using q(2) by (rule ready_ok_frame) simp_all
  ultimately show ?thesis
    by (simp add: sched_ok_def)
qed

lemma SchedWakeTimedOut_props:
  assumes "kinv (insert t E) X k" "t \<noteq> 0" "ending t (vt k t)" "\<not> timeout_linked (tasks k t)"
  shows "kinv E X (SchedWakeTimedOut t k)" "wheel_same t k (SchedWakeTimedOut t k)"
proof -
  define k1 where "k1 = upd_task t (\<lambda>x. x\<lparr>sleep_slot := - 1\<rparr>) k"
  have v1: "view k1 = view k"
    by (simp add: k1_def)
  have i1: "kinv (insert t E) X k1"
    using assms(1) sched_ok_sleep_slot [OF _ assms(4), of "insert t E" X "- 1"] by (simp add: kinv_sched k1_def)
  define k2 where "k2 = ArchSetInFrame t 0 (err_reg ERR_TIMEOUT)
     (if ipc_state (tasks k1 t) = IPC_WAITING then ArchSetInFrame t 3 (- 1) (ArchSetInFrame t 1 0 (TaskCancelCall t k1)) else k1)"
  have eq: "SchedWakeTimedOut t k = SchedAdd t (SchedUnblock t k2)"
    by (simp add: SchedWakeTimedOut_def k1_def k2_def Let_def)
  have ipc: "ipc_state (tasks k1 t) = v_ipc (vt k1 t)"
    by (simp add: v_tasks_view task_view_def)
  have k2: "kinv (insert t E) X k2 \<and> slinks k2 = slinks k1 \<and> v_send (vt k2 t) = None \<and> v_holder (vt k2 t) = 0
      \<and> v_held (vt k2 t) = 0 \<and> v_state (vt k2 t) = TASK_STATE_BLOCKED \<and> (v_serving (vt k2 t) \<noteq> 0 \<longrightarrow> v_cap (vt k2 t) \<noteq> 0)"
  proof (cases "v_ipc (vt k1 t) = IPC_WAITING")
    case True
    then have "calling t (vt k1 t)" "v_state (vt k1 t) = TASK_STATE_BLOCKED" "v_serving (vt k1 t) \<noteq> 0 \<Longrightarrow> v_cap (vt k1 t) \<noteq> 0"
      using assms(3) by (auto simp: ending_def v1)
    note c = TaskCancelCall_props [OF i1 assms(2) this(2,1,3)]
    have "links k2 = links (TaskCancelCall t k1)"
      using True by (simp add: k2_def ipc link_frame)
    then show ?thesis
      using c kinv_links [of k2] linksD_parts [of k2] by simp
  next
    case False
    then have "links k2 = links k1"
      by (simp add: k2_def ipc link_frame)
    moreover have "v_send (vt k1 t) = None \<and> v_holder (vt k1 t) = 0 \<and> v_held (vt k1 t) = 0 \<and> v_state (vt k1 t) = TASK_STATE_BLOCKED \<and> (v_serving (vt k1 t) \<noteq> 0 \<longrightarrow> v_cap (vt k1 t) \<noteq> 0)"
      using assms(3) False by (auto simp: ending_def calling_def v1)
    ultimately show ?thesis
      using i1 kinv_links [of k2 k1] linksD_parts [of k2 k1] by simp
  qed
  show "kinv E X (SchedWakeTimedOut t k)"
    unfolding eq using k2 by (intro kinv_unblock_add) simp_all
  have "sleep_slot (tasks k2 t) = - 1"
    using slinksD(4) [of k2 k1 t] k2 by (simp add: k1_def upd_task_def)
  then have "wheel_same t k2 (SchedWakeTimedOut t k)"
    unfolding eq using wheel_same_trans [OF wheel_same_SchedUnblock wheel_same_slinks] by (simp add: SchedAdd_def)
  moreover have "wheel_same t k1 k2"
    using k2 by (simp add: wheel_same_slinks)
  moreover have "wheel_same t k k1"
    by (simp add: wheel_same_def k1_def upd_task_def)
  ultimately show "wheel_same t k (SchedWakeTimedOut t k)"
    using wheel_same_trans by blast
qed

section \<open>The wheel\<close>

lemma wheel_remove_props:
  assumes "kinv E X k" "timeout_linked (tasks k t)" "sleep_slot (tasks k t) = int slot" "t \<notin> E"
  shows "kinv (insert t E) X (wheel_remove t slot k)" "ending t (vt (wheel_remove t slot k) t)" "t \<noteq> 0"
    "\<not> timeout_linked (tasks (wheel_remove t slot k) t)"
proof -
  note t = kinv_timed [OF assms(1,2,4)]
  show "t \<noteq> 0" by (rule t)
  show "\<not> timeout_linked (tasks (wheel_remove t slot k) t)"
    by (simp add: wheel_remove_def upd_task_def)
  show "ending t (vt (wheel_remove t slot k) t)"
    using t(2) by simp
  let ?k = "wheel_remove t slot k"
  have q: "queues_ok k"
    using assms(1) by (simp add: kinv_def)
  have "wheel_ok ?k"
    using q assms(3) by (intro wheel_ok_wheel_remove) (simp_all add: queues_ok_def)
  moreover have "nstate_ok ?k"
    using q unfolding queues_ok_def nstate_ok_def by (auto simp: wheel_remove_def upd_task_def)
  ultimately have "queues_ok ?k"
    using q nlinks_ok [of ?k k] wlinks_ok [of ?k k] by (simp add: queues_ok_def)
  moreover have "ready_ok (insert t E) X ?k"
    using kinvD(2) [OF assms(1)] by (rule ready_ok_change) (simp_all add: is_queued_def nlinksD(3) [OF wheel_remove_frame(1)])
  moreover have "proto_ok (insert t E) X (view ?k)"
    unfolding view_wheel_remove using kinvD(3) [OF assms(1)]
    by (rule proto_change) (use t in \<open>auto simp: same_ties_def ending_def\<close>)
  ultimately show "kinv (insert t E) X ?k"
    by (simp add: kinv_def)
qed

text \<open>The tasks a walk over a bucket still has to visit.\<close>

definition in_bucket :: "nat \<Rightarrow> TaskPtr list \<Rightarrow> Kernel \<Rightarrow> bool" where
  "in_bucket slot ts k \<longleftrightarrow> distinct ts \<and> (\<forall>t \<in> set ts. timeout_linked (tasks k t) \<and> sleep_slot (tasks k t) = int slot)"

lemma in_bucket_wheel: "kinv E X k \<Longrightarrow> in_bucket slot (sleep_wheel k slot) k"
  by (simp add: in_bucket_def kinv_def queues_ok_def wheel_ok_def)

lemma in_bucket_step:
  assumes "in_bucket slot (t # ts) k"
    "\<And>s. s \<noteq> t \<Longrightarrow> timeout_linked (tasks k' s) = timeout_linked (tasks k s) \<and> sleep_slot (tasks k' s) = sleep_slot (tasks k s)"
  shows "in_bucket slot ts k'"
  unfolding in_bucket_def
proof
  show "distinct ts"
    using assms(1) by (simp add: in_bucket_def)
  show "\<forall>s \<in> set ts. timeout_linked (tasks k' s) \<and> sleep_slot (tasks k' s) = int slot"
  proof
    fix s
    assume s: "s \<in> set ts"
    then have "s \<noteq> t"
      using assms(1) by (auto simp: in_bucket_def)
    then show "timeout_linked (tasks k' s) \<and> sleep_slot (tasks k' s) = int slot"
      using assms s by (simp add: in_bucket_def)
  qed
qed

lemma wheel_remove_other:
  "s \<noteq> t \<Longrightarrow> tasks (wheel_remove t slot k) s = tasks k s"
  by (simp add: wheel_remove_def upd_task_def)

lemma kinv_expire_current:
  assumes "kinv {} X k" "in_bucket cur ts k"
  shows "kinv {} X (expire_current now cur ts k)"
  using assms
proof (induction ts arbitrary: k)
  case (Cons t ts)
  let ?k1 = "wheel_remove t cur k"
  have t: "timeout_linked (tasks k t)" "sleep_slot (tasks k t) = int cur"
    using Cons.prems(2) by (simp_all add: in_bucket_def)
  have w: "kinv {t} X ?k1" "ending t (vt ?k1 t)" "t \<noteq> 0" "\<not> timeout_linked (tasks ?k1 t)"
    using wheel_remove_props [OF Cons.prems(1) t] by simp_all
  have o: "kinv {} X (SchedWakeTimedOut t ?k1)" "wheel_same t ?k1 (SchedWakeTimedOut t ?k1)"
    using SchedWakeTimedOut_props [of t "{}" X ?k1] w by simp_all
  have b: "in_bucket cur ts (SchedWakeTimedOut t ?k1)"
    by (rule in_bucket_step [OF Cons.prems(2)]) (use o(2) in \<open>simp add: wheel_same_def wheel_remove_other\<close>)
  have "in_bucket cur ts k"
    using Cons.prems(2) by (simp add: in_bucket_def)
  then show ?case
    using Cons.IH [OF o(1) b] Cons.IH [OF Cons.prems(1)] by simp
qed simp

end
