(* ===== verification/Links_Wheel.thy ===== *)
theory Links_Wheel
  imports Links_Ipc
begin

text \<open>
  The tick: walking the buckets of the sleep wheel, waking the tasks whose deadline has passed and filing
  again those whose deadline was out of the wheel's reach, keeps the invariant.
\<close>

section \<open>Filing a task\<close>

lemma state_view: "state (tasks k t) = v_state (vt k t)" "suspended (tasks k t) = v_susp (vt k t)" "blocked_port (tasks k t) = v_blocked (vt k t)"
  by (simp_all add: v_tasks_view task_view_def)

lemma nstate_ok_frame:
  assumes "nstate_ok k" "nlinks k' = nlinks k"
    and "\<And>s. v_state (vt k' s) = v_state (vt k s)" "\<And>s. v_susp (vt k' s) = v_susp (vt k s)" "\<And>s. v_blocked (vt k' s) = v_blocked (vt k s)"
  shows "nstate_ok k'"
  using assms(1) unfolding nstate_ok_def state_view nlinksD(3) [OF assms(2)] assms(3-5) .

lemma sched_ok_SchedInsertSleepQueue:
  assumes "sched_ok E X k" "\<not> timeout_linked (tasks k t)"
  shows "sched_ok E X (SchedInsertSleepQueue t k)"
proof -
  let ?k = "SchedInsertSleepQueue t k"
  have q: "queues_ok k" "ready_ok E X k"
    using assms(1) by (simp_all add: sched_ok_def)
  have "nstate_ok ?k"
    using q(1) nstate_ok_frame [of k ?k] by (simp add: queues_ok_def)
  moreover have "wheel_ok ?k"
    using q(1) assms(2) by (intro wheel_ok_SchedInsertSleepQueue) (simp_all add: queues_ok_def)
  ultimately have "queues_ok ?k"
    using q(1) nlinks_ok [of ?k k] wlinks_ok [of ?k k] by (simp add: queues_ok_def)
  moreover have "ready_ok E X ?k"
    using q(2) by (rule ready_ok_frame) simp_all
  ultimately show ?thesis
    by (simp add: sched_ok_def)
qed

lemma SchedInsertSleepQueue_wheel:
  "sleep_wheel (SchedInsertSleepQueue t k) = (sleep_wheel k)(wheel_slot (wake_deadline (tasks k t)) k :=
     sleep_wheel k (wheel_slot (wake_deadline (tasks k t)) k) @ [t])"
  "wheel_now_slot (SchedInsertSleepQueue t k) = wheel_now_slot k" "slot_shift (SchedInsertSleepQueue t k) = slot_shift k"
  using slinksD [OF linksD_parts(4) [OF links_SchedInsertSleepQueue [of t k]]] by (simp_all add: filed_def Let_def upd_task_def)

lemma mod_512_step:
  fixes a d :: u64
  assumes "d \<noteq> 0" "d < 512"
  shows "(a + d) mod 512 \<noteq> a mod 512"
proof
  assume e: "(a + d) mod 512 = a mod 512"
  have "unat ((a + d) mod 512) = (unat a + unat d) mod 2 ^ 64 mod 512"
    by (simp add: unat_mod unat_word_ariths(1))
  also have "\<dots> = (unat a + unat d) mod 512"
    by (rule mod_mod_cancel) simp
  finally have "(unat a + unat d) mod 512 = unat a mod 512"
    using e by (simp add: unat_mod)
  then have "512 dvd unat d"
    by (simp add: mod_eq_dvd_iff_nat)
  moreover have "0 < unat d"
    using assms(1) by (simp add: unat_gt_0)
  moreover have "unat d < 512"
    using assms(2) by (simp add: word_less_nat_alt)
  ultimately show False
    using dvd_imp_le [of 512 "unat d"] by simp
qed

text \<open>A deadline the wheel has not reached yet is filed in another bucket than the current one.\<close>

lemma wheel_slot_ne:
  assumes "wheel_now_slot k < drop_bit (slot_shift k) dl"
  shows "wheel_slot dl k \<noteq> unat (wheel_now_slot k mod 512)"
proof -
  define n where "n = wheel_now_slot k"
  define a where "a = drop_bit (slot_shift k) dl"
  have na: "n < a" "\<not> a < n"
    using assms by (auto simp: n_def a_def)
  define d where "d = (if a - n \<ge> 512 then 511 else a - n)"
  have "wheel_slot dl k = unat ((n + d) mod 512)"
    using na by (simp add: wheel_slot_def Let_def d_def flip: n_def a_def) (simp add: algebra_simps)
  moreover have "d \<noteq> 0" "d < 512"
    using na by (auto simp: d_def)
  ultimately show ?thesis
    using mod_512_step [of d n] by (simp add: n_def word_unat_eq_iff)
qed

section \<open>Walking a bucket\<close>

lemma expire_bucket_props:
  assumes "kinv {} X k" "sleep_wheel k slot = ts" "slot = unat (wheel_now_slot k mod 512)"
  shows "kinv {} X (expire_bucket slot ts k) \<and> sleep_wheel (expire_bucket slot ts k) slot = []
    \<and> wheel_now_slot (expire_bucket slot ts k) = wheel_now_slot k"
  using assms
proof (induction ts arbitrary: k)
  case (Cons t ts)
  let ?r = "wheel_remove t slot k"
  let ?k1 = "upd_task t (\<lambda>x. x\<lparr>sleep_slot := - 1\<rparr>) ?r"
  have t: "timeout_linked (tasks k t)" "sleep_slot (tasks k t) = int slot"
    using in_bucket_wheel [OF Cons.prems(1), of slot] Cons.prems(2) by (simp_all add: in_bucket_def)
  have r: "kinv {t} X ?r" "ending t (vt ?r t)" "t \<noteq> 0" "\<not> timeout_linked (tasks ?r t)"
    using wheel_remove_props [OF Cons.prems(1) t] by simp_all
  have k1: "kinv {t} X ?k1" "ending t (vt ?k1 t)" "\<not> timeout_linked (tasks ?k1 t)"
    using r sched_ok_sleep_slot [OF _ r(4)] by (simp_all add: kinv_sched) (simp add: upd_task_def)
  have w1: "sleep_wheel ?k1 slot = ts" "wheel_now_slot ?k1 = wheel_now_slot k" "slot_shift ?k1 = slot_shift k"
    using Cons.prems(2) by (simp_all add: wheel_remove_def upd_task_def)
  show ?case
  proof (cases "drop_bit (slot_shift ?k1) (wake_deadline (tasks ?k1 t)) > wheel_now_slot ?k1")
    case True
    let ?k2 = "SchedInsertSleepQueue t ?k1"
    have "wheel_slot (wake_deadline (tasks ?k1 t)) ?k1 \<noteq> slot"
      using wheel_slot_ne [OF True] Cons.prems(3) w1(2) by simp
    then have w2: "sleep_wheel ?k2 slot = ts" "wheel_now_slot ?k2 = wheel_now_slot k"
      using w1 by (simp_all add: SchedInsertSleepQueue_wheel)
    have v2: "view ?k2 = view k"
      using t(1) by (simp) (rule v_upd_same, simp add: v_tasks_view task_view_def)
    have "sched_ok {t} X ?k2"
      using k1 by (intro sched_ok_SchedInsertSleepQueue) (simp_all add: kinv_sched)
    moreover have "v_state (vt ?k2 t) = TASK_STATE_BLOCKED"
      using kinv_timed [OF Cons.prems(1) t(1)] unfolding v2 by (simp add: ending_def)
    then have "\<not> must_run t ?k2"
      by (simp add: must_run_def state_view)
    ultimately have "sched_ok {} X ?k2"
      using ready_ok_drop [of t "{}" X ?k2] unfolding sched_ok_def by blast
    then have "kinv {} X ?k2"
      using Cons.prems(1) v2 by (simp add: kinv_sched)
    then show ?thesis
      using Cons.IH [of ?k2] True w2 Cons.prems(3) by (simp add: Let_def)
  next
    case False
    let ?k2 = "SchedWakeTimedOut t ?k1"
    have "kinv {} X ?k2" "wheel_same t ?k1 ?k2"
      using SchedWakeTimedOut_props [of t "{}" X ?k1] k1 r(3) by simp_all
    then show ?thesis
      using Cons.IH [of ?k2] False w1 Cons.prems(3) by (simp add: Let_def wheel_same_def)
  qed
qed simp

lemma kinv_occ_clear:
  assumes "kinv E X k" "sleep_wheel k s = []" "s < 512"
  shows "kinv E X (k\<lparr>wheel_occ := BitmapClr (wheel_occ k) s\<rparr>)"
proof -
  let ?k = "k\<lparr>wheel_occ := BitmapClr (wheel_occ k) s\<rparr>"
  have "wheel_ok ?k"
    using assms by (intro wheel_ok_occ_clear) (simp_all add: kinv_def queues_ok_def)
  then have "queues_ok ?k"
    using kinvD(1) [OF assms(1)] unfolding queues_ok_def by (simp add: nodes_ok_def run_ok_def waits_ok_def nstate_ok_def)
  moreover have "ready_ok E X ?k"
    using kinvD(2) [OF assms(1)] by (rule ready_ok_frame) (simp_all add: nlinks_def)
  ultimately show ?thesis
    using kinvD(3) [OF assms(1)] by (simp add: kinv_def)
qed

lemma kinv_now_slot [simp]: "kinv E X (k\<lparr>wheel_now_slot := n\<rparr>) = kinv E X k"
proof -
  have "view (k\<lparr>wheel_now_slot := n\<rparr>) = view k"
    by (simp add: view_def)
  then show ?thesis
    by (simp add: kinv_def queues_ok_def queue_defs ready_ok_def must_run_def must_not_run_def member_of_def is_frozen_def is_queued_def)
qed

lemma mod_512_bound: "unat (x mod 512 :: u64) < 512"
  by (simp add: unat_mod)

lemma kinv_advance_wheel: "kinv {} X k \<Longrightarrow> kinv {} X (advance_wheel n k)"
proof (induction n arbitrary: k)
  case (Suc n)
  let ?s = "unat (wheel_now_slot k mod 512)"
  have e: "kinv {} X (expire_bucket ?s (sleep_wheel k ?s) k)" "sleep_wheel (expire_bucket ?s (sleep_wheel k ?s) k) ?s = []"
    using expire_bucket_props [OF Suc.prems, of ?s] by simp_all
  then show ?case
    using Suc.IH kinv_occ_clear [OF e mod_512_bound] by (simp add: Let_def)
qed simp

lemma kinv_let: "(\<And>y. y = a \<Longrightarrow> kinv E X (f y)) \<Longrightarrow> kinv E X (Let a f)"
  by simp

lemma kinv_let_pair: "(\<And>x y. x = fst a \<Longrightarrow> y = snd a \<Longrightarrow> kinv E X (f x y)) \<Longrightarrow> kinv E X (Let a (\<lambda>(x, y). f x y))"
  by (simp add: case_prod_unfold)

lemma kinv_SchedWakeSleepers:
  assumes "kinv {} X k"
  shows "kinv {} X (SchedWakeSleepers k)"
  unfolding SchedWakeSleepers_def
proof (intro kinv_let_pair kinv_let)
  fix now k1 ns k2 k3 now' k4 cur k5
  assume eqs: "k1 = snd (ArchTimerNow k)" "k2 = (if 512 < ns - wheel_now_slot k1 then k1\<lparr>wheel_now_slot := ns - 512\<rparr> else k1)"
    "k3 = advance_wheel (unat ns - unat (wheel_now_slot k2)) k2" "k4 = snd (ArchTimerNow k3)"
    "cur = unat (wheel_now_slot k4 mod 512)" "k5 = expire_current now' cur (sleep_wheel k4 cur) k4"
  have "kinv {} X k2"
    using assms by (simp add: eqs(1,2))
  then have "kinv {} X k4"
    using kinv_advance_wheel by (simp add: eqs(3,4))
  then have k5: "kinv {} X k5"
    unfolding eqs(6) by (intro kinv_expire_current in_bucket_wheel)
  then show "kinv {} X (if sleep_wheel k5 cur = [] then k5\<lparr>wheel_occ := BitmapClr (wheel_occ k5) cur\<rparr>
      else k5\<lparr>wheel_min := (wheel_min k5)(cur := WheelBucketMin cur k5)\<rparr>)"
    using kinv_occ_clear [OF k5, of cur] mod_512_bound by (simp add: eqs(5))
qed

end
