(* ===== verification/Links_Event.thy ===== *)
theory Links_Event
  imports Links_Wheel
begin

text \<open>
  Waking the waiters of a queue, delivering and signalling events, notifying observers: every operation of
  \<open>event.c\<close> and \<open>observer.c\<close> keeps the invariant, to any depth of the recursion.
\<close>

section \<open>Fallible operations\<close>

definition opt_all :: "('a \<Rightarrow> bool) \<Rightarrow> 'a option \<Rightarrow> bool" where
  "opt_all P m \<longleftrightarrow> (\<forall>x. m = Some x \<longrightarrow> P x)"

lemma opt_all_simps [simp]: "opt_all P None" "opt_all P (Some x) = P x"
  by (simp_all add: opt_all_def)

lemma opt_all_bind: "opt_all P m \<Longrightarrow> (\<And>x. P x \<Longrightarrow> opt_all Q (g x)) \<Longrightarrow> opt_all Q (Option.bind m g)"
  by (cases m) simp_all

lemma opt_all_kassert: "(c \<Longrightarrow> opt_all Q (g ())) \<Longrightarrow> opt_all Q (Option.bind (kassert c) g)"
  by (simp add: kassert_def)

lemma opt_all_if: "(c \<Longrightarrow> opt_all P a) \<Longrightarrow> (\<not> c \<Longrightarrow> opt_all P b) \<Longrightarrow> opt_all P (if c then a else b)"
  by simp

lemma opt_all_let: "(\<And>y. y = a \<Longrightarrow> opt_all P (f y)) \<Longrightarrow> opt_all P (Let a f)"
  by simp

lemma opt_all_mono: "opt_all P m \<Longrightarrow> (\<And>x. P x \<Longrightarrow> Q x) \<Longrightarrow> opt_all Q m"
  by (simp add: opt_all_def)

lemma opt_all_map: "opt_all P (map_option f m) = opt_all (\<lambda>x. P (f x)) m"
  by (cases m) simp_all

definition keeps :: "(Kernel \<Rightarrow> Kernel option) \<Rightarrow> bool" where
  "keeps f \<longleftrightarrow> (\<forall>X k. kinv {} X k \<longrightarrow> opt_all (kinv {} X) (f k))"

lemma keepsD: "keeps f \<Longrightarrow> kinv {} X k \<Longrightarrow> opt_all (kinv {} X) (f k)"
  by (simp add: keeps_def)

section \<open>Objects about to die\<close>

definition with_dying :: "WaitQ \<Rightarrow> Scope \<Rightarrow> Scope" where
  "with_dying q X = X\<lparr>dying := insert q (dying X)\<rparr>"

lemma with_dying_sel [simp]:
  "freezing (with_dying q X) = freezing X" "dying (with_dying q X) = insert q (dying X)" "pinned (with_dying q X) = pinned X"
  "outside (with_dying q X) = outside X" "resting (with_dying q X) = resting X" "at_cpu (with_dying q X) = at_cpu X"
  by (simp_all add: with_dying_def)

lemma scope_freezing:
  assumes "freezing X = freezing Y"
  shows "ready_ok E X = ready_ok E Y" "sched_ok E X = sched_ok E Y"
  using assms by (simp_all add: fun_eq_iff sched_ok_def ready_ok_def must_not_run_def)

lemma scope_pinned:
  "pinned X = pinned Y \<Longrightarrow> freezing X = freezing Y \<Longrightarrow> resting X = resting Y \<Longrightarrow> at_cpu X = at_cpu Y \<Longrightarrow> pins_ok X = pins_ok Y" "outside X = outside Y \<Longrightarrow> members_ok X = members_ok Y"
  by (simp_all add: fun_eq_iff pins_ok_def may_state_def members_ok_def)

lemma kinv_with_dying: "kinv E X k \<Longrightarrow> kinv E (with_dying q X) k"
  using scope_freezing(1) [of "with_dying q X" X] scope_pinned [of "with_dying q X" X]
  by (auto simp: kinv_def proto_ok_def live_ok_def)

lemma kinv_undying:
  assumes "kinv E (with_dying q X) k" "\<And>t. t \<noteq> 0 \<Longrightarrow> q \<notin> depends_on (vt k t)"
  shows "kinv E X k"
proof -
  have "live_ok X (view k)"
    using assms unfolding kinv_def proto_ok_def live_ok_def with_dying_sel by blast
  then show ?thesis
    using assms(1) scope_freezing(1) [of "with_dying q X" X] scope_pinned [of "with_dying q X" X]
    by (simp add: kinv_def proto_ok_def)
qed

section \<open>Taking a task off its wait queue\<close>

definition stopped :: "TaskView \<Rightarrow> bool" where
  "stopped x \<longleftrightarrow> v_state x = TASK_STATE_BLOCKED \<and> v_send x = None \<and> v_holder x = 0 \<and> v_held x = 0 \<and> (v_serving x \<noteq> 0 \<longrightarrow> v_cap x \<noteq> 0)"

lemma state_ok_wait:
  assumes "state_ok t x" "v_wait x = Some q"
  shows "waiting x" "v_state x = TASK_STATE_BLOCKED"
  using assms by (cases "v_state x"; auto simp: state_ok_def unlinked_view_def calling_def)+

lemma sched_wait_remove:
  assumes "sched_ok E X k" "v_wait (vt k t) \<noteq> None"
  shows "sched_ok E X (wait_remove t k)"
proof -
  let ?k = "wait_remove t k"
  have q: "queues_ok k" "ready_ok E X k"
    using assms by (simp_all add: sched_ok_def)
  have "ws_linked (tasks k t)"
    using assms(2) by (auto simp: v_tasks_view task_view_def split: if_splits)
  moreover have "nstate_ok ?k"
    using q(1) nstate_ok_frame [of k ?k] by (simp add: queues_ok_def)
  ultimately have "queues_ok ?k"
    using q(1) waits_ok_wait_remove [of k t] nlinks_ok [of ?k k] slinks_ok [of ?k k] by (simp add: queues_ok_def)
  moreover have "ready_ok E X ?k"
    using q(2) by (rule ready_ok_frame) simp_all
  ultimately show ?thesis
    by (simp add: sched_ok_def)
qed

lemma wait_remove_props:
  assumes "kinv E X k" "v_wait (vt k t) = Some q" "t \<notin> E"
  shows "t \<noteq> 0" "kinv (insert t E) X (wait_remove t k)" "stopped (vt (wait_remove t k) t)"
proof -
  show t: "t \<noteq> 0"
    using assms(2) proto_null [OF kinvD(3) [OF assms(1)]] by (auto simp: null_view_def unlinked_view_def)
  have s: "state_ok t (vt k t)"
    using kinv_state [OF assms(1) t assms(3)] .
  note w = state_ok_wait [OF s assms(2)]
  show "stopped (vt (wait_remove t k) t)"
    using s w by (auto simp: stopped_def waiting_def state_ok_def)
  have "proto_ok (insert t E) X (v_upd t (\<lambda>x. x\<lparr>v_wait := None\<rparr>) (view k))"
    using kinvD(3) [OF assms(1)] by (rule proto_change) (use t w in \<open>auto simp: same_ties_def\<close>)
  then show "kinv (insert t E) X (wait_remove t k)"
    using assms(1) assms(2) sched_wait_remove [of "insert t E" X k] sched_ok_mono [of E X k "insert t E"] by (auto simp: kinv_sched)
qed

text \<open>Losing dependencies, one kind at a time.\<close>

definition sheds :: "TaskView \<Rightarrow> TaskView \<Rightarrow> bool" where
  "sheds x y \<longleftrightarrow> (v_wait y = None \<or> v_wait y = v_wait x) \<and> (v_send y = None \<or> v_send y = v_send x)
     \<and> (v_serving y = 0 \<or> v_serving y = v_serving x) \<and> (v_held y = 0 \<or> v_held y = v_held x)"

lemma sheds_refl [simp]: "sheds x x"
  by (simp add: sheds_def)

lemma sheds_trans: "sheds x y \<Longrightarrow> sheds y z \<Longrightarrow> sheds x z"
  by (auto simp: sheds_def)

lemma sheds_depends: "sheds x y \<Longrightarrow> depends_on y \<subseteq> depends_on x"
  by (auto simp: sheds_def depends_on_def)

text \<open>A way to end the wait of a task that touches nobody else.\<close>

definition wakes :: "(TaskPtr \<Rightarrow> Kernel \<Rightarrow> Kernel) \<Rightarrow> bool" where
  "wakes f \<longleftrightarrow> (\<forall>E X t k. kinv (insert t E) X k \<and> stopped (vt k t) \<longrightarrow>
     kinv E X (f t k) \<and> v_wait (vt (f t k) t) = None \<and> view (f t k) = v_upd t (\<lambda>_. vt (f t k) t) (view k) \<and> sheds (vt k t) (vt (f t k) t))"

lemma v_upd_self: "v = v_upd t g u \<Longrightarrow> v = v_upd t (\<lambda>_. v_tasks v t) u"
  by (simp add: v_upd_def)

lemma wakesI:
  assumes "\<And>E X t k. kinv (insert t E) X k \<Longrightarrow> stopped (vt k t) \<Longrightarrow> kinv E X (f t k)"
    and "\<And>t k. queues_ok k \<Longrightarrow> view (f t k) = v_upd t (g t) (view k)"
    and "\<And>t x. v_wait (g t x) = None" "\<And>t x. sheds x (g t x)"
  shows "wakes f"
  unfolding wakes_def
proof (intro allI impI conjI)
  fix E X t k
  assume k: "kinv (insert t E) X k \<and> stopped (vt k t)"
  then show "kinv E X (f t k)"
    using assms(1) by blast
  have v: "view (f t k) = v_upd t (g t) (view k)"
    using k assms(2) by (simp add: kinv_def)
  then show "view (f t k) = v_upd t (\<lambda>_. vt (f t k) t) (view k)"
    by (rule v_upd_self)
  show "v_wait (vt (f t k) t) = None"
    using assms(3) by (simp add: v)
  show "sheds (vt k t) (vt (f t k) t)"
    using assms(4) by (simp add: v)
qed

lemma wakesD:
  assumes "wakes f" "kinv (insert t E) X k" "stopped (vt k t)"
  shows "kinv E X (f t k)" "s \<noteq> t \<Longrightarrow> vt (f t k) s = vt k s" "v_wait (vt (f t k) t) = None" "sheds (vt k t) (vt (f t k) t)"
proof -
  have v: "view (f t k) = v_upd t (\<lambda>_. vt (f t k) t) (view k)"
    using assms unfolding wakes_def by blast
  show "s \<noteq> t \<Longrightarrow> vt (f t k) s = vt k s"
    by (subst v) simp
qed (use assms in \<open>unfold wakes_def, blast\<close>)+

lemma wakes_TaskAbortWait: "wakes (\<lambda>t. TaskAbortWait t err)"
  by (rule wakesI [where g = "\<lambda>_ x. v_woken (x\<lparr>v_pending := 0\<rparr>)"])
     (auto intro!: kinv_TaskAbortWait simp: stopped_def view_TaskAbortWait sheds_def)

lemma wakes_unblock_add:
  assumes "\<And>t k. links (h t k) = links k"
  shows "wakes (\<lambda>t k. SchedAdd t (SchedUnblock t (h t k)))"
proof (rule wakesI [where g = "\<lambda>_. v_woken"])
  fix t k
  have l: "links (h t k) = links k"
    by (rule assms)
  show "kinv E X (SchedAdd t (SchedUnblock t (h t k)))" if "kinv (insert t E) X k" "stopped (vt k t)" for E X
    by (rule kinv_unblock_add) (use that linksD(1) [OF l] kinv_links [OF l] in \<open>auto simp: stopped_def\<close>)
  show "view (SchedAdd t (SchedUnblock t (h t k))) = v_upd t v_woken (view k)" if "queues_ok k"
    using view_unblock_add [of "h t k" t] queues_ok_links [OF l] linksD(1) [OF l] that by simp
qed (auto simp: sheds_def)

section \<open>Draining a wait queue\<close>

lemma drain_wait_props:
  assumes "wakes f" "kinv {} X k" "distinct ts" "\<forall>t \<in> set ts. v_wait (vt k t) = Some q"
  shows "kinv {} X (drain_wait f ts k) \<and> (\<forall>s. s \<notin> set ts \<longrightarrow> vt (drain_wait f ts k) s = vt k s)
    \<and> (\<forall>s \<in> set ts. v_wait (vt (drain_wait f ts k) s) = None \<and> sheds (vt k s) (vt (drain_wait f ts k) s))"
  using assms(2-4)
proof (induction ts arbitrary: k)
  case (Cons t ts)
  let ?r = "wait_remove t k" and ?k = "f t (wait_remove t k)"
  have r: "kinv {t} X ?r" "stopped (vt ?r t)"
    using wait_remove_props [OF Cons.prems(1)] Cons.prems(3) by simp_all
  note w = wakesD [OF assms(1) r]
  have o: "vt ?k s = vt k s" if "s \<noteq> t" for s
    using w(2) that by simp
  have ts: "t \<notin> set ts" "distinct ts"
    using Cons.prems(2) by simp_all
  have "\<forall>s \<in> set ts. v_wait (vt ?k s) = Some q"
  proof
    fix s
    assume s: "s \<in> set ts"
    with ts have "s \<noteq> t"
      by blast
    then show "v_wait (vt ?k s) = Some q"
      using o Cons.prems(3) s by simp
  qed
  note IH = Cons.IH [OF w(1) ts(2) this]
  have t: "sheds (vt k t) (vt ?k t)"
    using w(4) by (auto simp: sheds_def)
  have d: "vt (drain_wait f ts ?k) s = vt ?k s" if "s \<notin> set ts" for s
    using IH that by blast
  show ?case
  proof (intro conjI allI impI ballI)
    show "kinv {} X (drain_wait f (t # ts) k)"
      using IH by simp
    show "vt (drain_wait f (t # ts) k) s = vt k s" if "s \<notin> set (t # ts)" for s
      using d [of s] o [of s] that by simp
    fix s
    assume s: "s \<in> set (t # ts)"
    show "v_wait (vt (drain_wait f (t # ts) k) s) = None"
      using s IH d [OF ts(1)] w(3) by (cases "s = t") simp_all
    show "sheds (vt k s) (vt (drain_wait f (t # ts) k) s)"
      using s IH d [OF ts(1)] t o [of s] by (cases "s = t") auto
  qed
qed simp

lemma waiters_of: "queues_ok k \<Longrightarrow> t \<in> set (wait_q k q) \<longleftrightarrow> v_wait (vt k t) = Some q"
  by (auto simp: queues_ok_def waits_ok_def v_tasks_view task_view_def)

lemma distinct_waiters: "queues_ok k \<Longrightarrow> distinct (wait_q k q)"
  by (simp add: queues_ok_def waits_ok_def)

lemma drain_queue:
  assumes "wakes f" "kinv {} X k"
  shows "kinv {} X (drain_wait f (wait_q k q) k)" "v_wait (vt (drain_wait f (wait_q k q) k) s) \<noteq> Some q"
    "sheds (vt k s) (vt (drain_wait f (wait_q k q) k) s)"
proof -
  have q: "queues_ok k"
    using assms(2) by (simp add: kinv_def)
  note w = waiters_of [OF q]
  then have "\<forall>t \<in> set (wait_q k q). v_wait (vt k t) = Some q"
    by blast
  note d = drain_wait_props [OF assms distinct_waiters [OF q] this]
  show "kinv {} X (drain_wait f (wait_q k q) k)"
    using d by blast
  show "v_wait (vt (drain_wait f (wait_q k q) k) s) \<noteq> Some q" "sheds (vt k s) (vt (drain_wait f (wait_q k q) k) s)"
    using d w [of s] by (cases "s \<in> set (wait_q k q)"; simp)+
qed

lemma depends_wait:
  "EventQ ev \<in> depends_on x \<longleftrightarrow> v_wait x = Some (EventQ ev)" "JoinQ t \<in> depends_on x \<longleftrightarrow> v_wait x = Some (JoinQ t)"
  "SpaceQ sp \<in> depends_on x \<longleftrightarrow> v_wait x = Some (SpaceQ sp)"
  by (auto simp: depends_on_def)

section \<open>Delivery\<close>

lemma kinv_deliver_loop:
  assumes "kinv {} X k" "distinct ts" "\<forall>t \<in> set ts. v_wait (vt k t) = Some (EventQ ev)"
  shows "kinv {} X (snd (deliver_loop ev bcast ts d k))"
  using assms
proof (induction ts arbitrary: k d)
  case (Cons w ts)
  define got where "got = EventTake (word (events k ev)) (wait_mask (tasks k w)) (wait_all (tasks k w))"
  let ?h = "\<lambda>t k. ArchSetInFrame t 1 got (ArchSetInFrame t 0 (err_reg ZUZU_OK) k)"
  let ?k = "SchedAdd w (SchedUnblock w (?h w (wait_remove w k)))"
  have "kinv {w} X (wait_remove w k)" "stopped (vt (wait_remove w k) w)"
    using wait_remove_props [OF Cons.prems(1)] Cons.prems(3) by simp_all
  note wk = wakesD [OF wakes_unblock_add [of ?h] this]
  have k: "kinv {} X ?k"
    using wk(1) by (simp add: link_frame)
  have "v_wait (vt ?k s) = Some (EventQ ev)" if "s \<in> set ts" for s
    using that Cons.prems(2,3) wk(2) [of s] by (cases "s = w") (simp_all add: link_frame)
  then have "kinv {} X (snd (deliver_loop ev bcast ts d' ?k))" for d'
    using Cons.IH [OF k] Cons.prems(2) by simp
  moreover have "kinv {} X (snd (deliver_loop ev bcast ts d k))"
    using Cons.IH [OF Cons.prems(1)] Cons.prems(2,3) by simp
  ultimately show ?case
    using k by (cases bcast) (simp_all add: Let_def flip: got_def)
qed simp

lemma kinv_signal_local:
  assumes "kinv {} X k"
  shows "kinv {} X (signal_local ev bits bcast k)"
proof -
  let ?k = "upd_event ev (\<lambda>x. x\<lparr>word := word x OR bits\<rparr>) k"
  have k: "kinv {} X ?k"
    using assms by simp
  then have "queues_ok ?k"
    by (simp only: kinv_def)
  then have "kinv {} X (snd (deliver_loop ev bcast (wait_q ?k (EventQ ev)) 0 ?k))"
    using waiters_of [of ?k] by (intro kinv_deliver_loop [OF k] distinct_waiters) simp_all
  then show ?thesis
    by (simp add: signal_local_def Let_def case_prod_unfold)
qed

section \<open>Observers\<close>

lemma links_set_observer [link_frame]: "links (set_observer src i ob k) = links k"
  by (simp add: set_observer_def link_frame)

lemma links_EventBindBit [link_frame]: "links (EventBindBit ev b k) = links k"
  by (simp add: EventBindBit_def link_frame)

lemma links_EventUnbindBit [link_frame]: "links (EventUnbindBit ev b k) = links k"
  by (simp add: EventUnbindBit_def Let_def link_frame)

lemma links_ObserverInit [link_frame]: "links (ObserverInit src k) = links k"
  by (simp add: ObserverInit_def link_frame)

lemmas kinv_observer [simp] = links_set_observer [THEN kinv_links] links_EventBindBit [THEN kinv_links]
  links_EventUnbindBit [THEN kinv_links] links_ObserverInit [THEN kinv_links]

lemma keeps_release_with:
  assumes "\<And>ev. keeps (unref ev)"
  shows "keeps (release_with unref src i)"
  unfolding keeps_def release_with_def Let_def
  by (intro allI impI opt_all_bind [where P = "kinv {} _"] keepsD [OF assms]) simp_all

lemma keeps_notify_loop:
  assumes "\<And>ev bits b. keeps (signal ev bits b)" "\<And>ev. keeps (unref ev)"
  shows "keeps (notify_loop signal unref src is)"
  unfolding keeps_def
proof (intro allI impI)
  fix X k
  assume "kinv {} X k"
  then show "opt_all (kinv {} X) (notify_loop signal unref src is k)"
  proof (induction "is" arbitrary: k)
    case (Cons i "is")
    then show ?case
      using keepsD [OF assms(1)] keepsD [OF keeps_release_with [OF assms(2)]]
      by (auto simp: Let_def intro!: opt_all_bind [where P = "kinv {} X"])
  qed simp
qed

lemma keeps_clear_loop:
  assumes "\<And>ev. keeps (unref ev)"
  shows "keeps (clear_loop unref src is)"
  unfolding keeps_def
proof (intro allI impI)
  fix X k
  assume "kinv {} X k"
  then show "opt_all (kinv {} X) (clear_loop unref src is k)"
  proof (induction "is" arbitrary: k)
    case (Cons i "is")
    then show ?case
      using keepsD [OF keeps_release_with [OF assms]]
      by (auto simp: Let_def intro!: opt_all_bind [where P = "kinv {} X"])
  qed simp
qed

text \<open>Marking an event dead: from here on its waiters have to go.\<close>

lemma kinv_event_dies:
  assumes "kinv E X k"
  shows "kinv E (with_dying (EventQ ev) X) (upd_event ev (\<lambda>x. x\<lparr>ev_alive := False\<rparr>) k)"
proof -
  let ?k = "upd_event ev (\<lambda>x. x\<lparr>ev_alive := False\<rparr>) k"
  have v: "view ?k = (view k)\<lparr>v_ealive := (v_ealive (view k))(ev := False)\<rparr>"
    by simp
  have "q_live (view k) q \<Longrightarrow> q_live (view ?k) q \<or> q = EventQ ev" for q
    by (cases q) (auto simp: v)
  then have "live_ok (with_dying (EventQ ev) X) (view ?k)"
    using assms unfolding kinv_def proto_ok_def live_ok_def with_dying_sel by (simp add: v) blast
  moreover have "queues_ok ?k"
    using kinvD(1) [OF assms] by (rule queues_ok_frame) (simp_all add: v)
  moreover have "ready_ok E (with_dying (EventQ ev) X) ?k"
    unfolding scope_freezing(1) [of "with_dying (EventQ ev) X" X, simplified]
    using kinvD(2) [OF assms] by (rule ready_ok_frame) (simp_all add: v)
  ultimately show ?thesis
    using kinvD(3) [OF assms] scope_pinned [of "with_dying (EventQ ev) X" X]
    by (simp add: kinv_def proto_ok_def v caps_ok_def servers_ok_def parked_ok_def members_ok_def running_ok_def pins_ok_def may_state_def)
qed

lemma keeps_kill_with:
  assumes "\<And>ev bits b. keeps (signal ev bits b)" "\<And>ev. keeps (unref ev)"
  shows "keeps (kill_with signal unref ev)"
  unfolding keeps_def
proof (intro allI impI)
  fix X k
  assume k: "kinv {} X k"
  let ?k = "upd_event ev (\<lambda>x. x\<lparr>ev_alive := False\<rparr>) k"
  let ?d = "drain_wait (\<lambda>t. TaskAbortWait t ERR_DEAD) (wait_q ?k (EventQ ev)) ?k"
  note d = drain_queue [OF wakes_TaskAbortWait kinv_event_dies [OF k]]
  have "kinv {} X ?d"
    using d(1) by (rule kinv_undying) (simp add: depends_wait d(2))
  then show "opt_all (kinv {} X) (kill_with signal unref ev k)"
    using k keepsD [OF keeps_notify_loop [OF assms]] keepsD [OF keeps_clear_loop [OF assms(2)]]
    by (auto simp: kill_with_def notify_with_def clear_with_def Let_def intro!: opt_all_bind [where P = "kinv {} X"])
qed

section \<open>The recursion\<close>

lemma keeps_event_ops: "(\<forall>ev bits b. keeps (fst (event_ops n) ev bits b)) \<and> (\<forall>ev. keeps (snd (event_ops n) ev))"
proof (induction n)
  case (Suc n)
  then have IH: "keeps (fst (event_ops n) ev bits b)" "keeps (snd (event_ops n) ev)" for ev bits b
    by simp_all
  have "opt_all (kinv {} X) (fst (event_ops (Suc n)) ev bits b k)" if "kinv {} X k" for X k ev bits b
    using kinv_signal_local [OF that] keepsD [OF keeps_notify_loop [of "fst (event_ops n)" "snd (event_ops n)", OF IH]]
    by (auto simp: signal_body_def notify_with_def Let_def intro!: opt_all_kassert)
  moreover have "opt_all (kinv {} X) (snd (event_ops (Suc n)) ev k)" if "kinv {} X k" for X k ev
    using that keepsD [OF keeps_kill_with [of "fst (event_ops n)" "snd (event_ops n)", OF IH]]
    by (auto simp: unref_body_def Let_def intro!: opt_all_bind [where P = "kinv {} X"])
  ultimately show ?case
    unfolding keeps_def by blast
qed (simp add: keeps_def)

lemma keeps_event [intro]:
  "keeps (EventSignal ev bits b)" "keeps (EventUnref ev)" "keeps (EventKill ev)" "keeps (ObserverRelease src i)"
  "keeps (ObserverNotify src)" "keeps (ObserverClear src)"
proof -
  have s: "keeps (EventSignal ev bits b)" "keeps (EventUnref ev)" for ev bits b
    unfolding EventSignal_def EventUnref_def using keeps_event_ops by blast+
  show "keeps (EventSignal ev bits b)" "keeps (EventUnref ev)"
    by (rule s)+
  show "keeps (EventKill ev)"
    unfolding EventKill_def by (rule keeps_kill_with [OF s])
  show "keeps (ObserverRelease src i)"
    unfolding ObserverRelease_def by (rule keeps_release_with [OF s(2)])
  show "keeps (ObserverNotify src)"
    unfolding ObserverNotify_def notify_with_def by (rule keeps_notify_loop [OF s])
  show "keeps (ObserverClear src)"
    unfolding ObserverClear_def clear_with_def by (rule keeps_clear_loop [OF s(2)])
qed

end
