(* ===== verification/Links_Port.thy ===== *)
theory Links_Port
  imports Links_Event
begin

text \<open>Killing a port: its senders, receivers, servers and held callers all go, and the invariant stays.\<close>

section \<open>Senders\<close>

lemma senders_of: "queues_ok k \<Longrightarrow> t \<in> set (node_q k (SendQ p)) \<longleftrightarrow> v_send (vt k t) = Some p"
  by (auto simp: queues_ok_def nodes_ok_def v_tasks_view task_view_def send_of_def split: option.splits NodeQ.splits)

lemma distinct_senders: "queues_ok k \<Longrightarrow> distinct (node_q k (SendQ p))"
  by (simp add: queues_ok_def nodes_ok_def)

lemma state_ok_send:
  assumes "state_ok t x" "v_send x = Some p"
  shows "calling t x" "v_state x = TASK_STATE_BLOCKED"
  using assms by (cases "v_state x"; auto simp: state_ok_def unlinked_view_def waiting_def)+

lemma sender_leaves:
  assumes "kinv E X k" "v_send (vt k t) = Some p" "t \<notin> E"
  shows "t \<noteq> 0" "kinv (insert t E) X (node_remove t k)" "stopped (vt (node_remove t k) t)"
proof -
  show t: "t \<noteq> 0"
    using assms(2) proto_null [OF kinvD(3) [OF assms(1)]] by (auto simp: null_view_def unlinked_view_def)
  have s: "state_ok t (vt k t)"
    using kinv_state [OF assms(1) t assms(3)] .
  note c = state_ok_send [OF s assms(2)]
  show "stopped (vt (node_remove t k) t)"
    using s c assms(2) by (auto simp: stopped_def calling_def state_ok_def)
  have "proto_ok (insert t E) X (v_upd t (\<lambda>x. x\<lparr>v_send := None\<rparr>) (view k))"
    using kinvD(3) [OF assms(1)] by (rule proto_change) (use t c in \<open>auto simp: same_ties_def\<close>)
  moreover have "nstate_ok k"
    using kinvD(1) [OF assms(1)] by (simp add: queues_ok_def)
  then have "node (tasks k t) = Some (SendQ p)"
    using node_send_view c(2) assms(2) by simp
  ultimately show "kinv (insert t E) X (node_remove t k)"
    using assms(1) sched_node_remove_sender [of E X k t] by (auto simp: kinv_sched)
qed

lemma drain_senders_props:
  assumes "kinv {} X k" "distinct ts" "\<forall>t \<in> set ts. v_send (vt k t) = Some p"
  shows "kinv {} X (drain_senders ts k) \<and> (\<forall>s. s \<notin> set ts \<longrightarrow> vt (drain_senders ts k) s = vt k s)
    \<and> (\<forall>s \<in> set ts. v_send (vt (drain_senders ts k) s) = None \<and> sheds (vt k s) (vt (drain_senders ts k) s))"
  using assms
proof (induction ts arbitrary: k)
  case (Cons t ts)
  let ?k = "TaskAbortWait t ERR_DEAD (node_remove t k)"
  have r: "kinv {t} X (node_remove t k)" "stopped (vt (node_remove t k) t)"
    using sender_leaves [OF Cons.prems(1)] Cons.prems(3) by simp_all
  note w = wakesD [OF wakes_TaskAbortWait [of ERR_DEAD] r]
  have o: "vt ?k s = vt k s" if "s \<noteq> t" for s
    using w(2) that by simp
  have ts: "t \<notin> set ts" "distinct ts"
    using Cons.prems(2) by simp_all
  have "v_send (vt ?k s) = Some p" if "s \<in> set ts" for s
    using o [of s] that ts Cons.prems(3) by (cases "s = t") simp_all
  note IH = Cons.IH [OF w(1) ts(2), rule_format, OF this]
  have t: "v_send (vt ?k t) = None"
    using r(1) view_TaskAbortWait [of "node_remove t k" t ERR_DEAD] by (simp add: kinv_def)
  have sh: "sheds (vt k t) (vt ?k t)"
    using w(4) by (auto simp: sheds_def)
  have d: "vt (drain_senders ts ?k) s = vt ?k s" if "s \<notin> set ts" for s
    using IH that by blast
  show ?case
  proof (intro conjI allI impI ballI)
    show "kinv {} X (drain_senders (t # ts) k)"
      using IH by simp
    show "vt (drain_senders (t # ts) k) s = vt k s" if "s \<notin> set (t # ts)" for s
      using d [of s] o [of s] that by simp
    fix s
    assume s: "s \<in> set (t # ts)"
    show "v_send (vt (drain_senders (t # ts) k) s) = None"
      using s IH d [OF ts(1)] t by (cases "s = t") simp_all
    show "sheds (vt k s) (vt (drain_senders (t # ts) k) s)"
      using s IH d [OF ts(1)] sh o [of s] by (cases "s = t") auto
  qed
qed simp

section \<open>Servers\<close>

lemma kinv_TaskDetachServing:
  assumes "kinv E X k"
  shows "kinv E X (TaskDetachServing t k)"
proof -
  let ?v = "view (TaskDetachServing t k)" and ?u = "v_clear t (view k)"
  have p: "proto_ok E X (view k)"
    using assms by (simp add: kinv_def)
  have tk: "v_tasks ?v s = (if s = t then (vt k t)\<lparr>v_serving := 0\<rparr> else vt k s)" for s
    by (simp add: Let_def)
  have sel: "v_cap (v_tasks ?v s) = v_cap (vt k s)" "v_holder (v_tasks ?v s) = v_holder (vt k s)"
    "v_held (v_tasks ?v s) = v_held (vt k s)" "v_slot (v_tasks ?v s) = v_slot (vt k s)"
    "v_owner (v_tasks ?v s) = v_owner (vt k s)" "v_serving (v_tasks ?v s) = v_serving (v_tasks ?u s)"
    "v_servers ?v = v_servers ?u" "v_parked ?v = v_parked (view k)" "v_members ?v = v_members (view k)" for s
    by (simp_all add: tk v_clear_def Let_def)
  have "servers_ok ?v"
    using servers_ok_clear [of "view k" t] p unfolding proto_ok_def servers_ok_def sel by simp
  moreover have "caps_ok ?v" "parked_ok ?v" "members_ok X ?v"
    using p unfolding proto_ok_def caps_ok_def parked_ok_def members_ok_def sel by simp_all
  moreover have "running_ok E ?v" "live_ok X ?v" "pins_ok X ?v"
    using p by (intro proto_shrink [of E "view k" X E ?v]; auto simp: proto_ok_def depends_on_def Let_def)+
  moreover have "state_ok s (v_tasks ?v s)" if "s \<noteq> 0" "s \<notin> E" for s
  proof -
    have "state_ok s (vt k s)"
      using p that by (simp add: proto_ok_def)
    then show ?thesis
      unfolding tk by (auto simp: state_ok_def unlinked_view_def waiting_def calling_def split: TaskState.splits)
  qed
  moreover have "null_view (v_tasks ?v 0)"
    using proto_null [OF p] unfolding tk by (simp add: null_view_def unlinked_view_def)
  ultimately show ?thesis
    using assms by (simp add: kinv_sched proto_ok_def del: view_TaskDetachServing)
qed

lemma drain_servers_step:
  assumes "v_serving (vt k s) = p" "p \<noteq> 0"
  shows "upd_task s (\<lambda>x. x\<lparr>serving_port := NULL\<rparr>) (k\<lparr>active_servers := (active_servers k)(p := remove1 s (active_servers k p))\<rparr>)
     = TaskDetachServing s k"
  using assms by (simp add: TaskDetachServing_def field_views(1) Let_def)

lemma drain_servers_props:
  assumes "kinv {} X k" "p \<noteq> 0" "distinct ts" "\<forall>t \<in> set ts. v_serving (vt k t) = p"
  shows "kinv {} X (drain_servers p ts k)
    \<and> (\<forall>s. vt (drain_servers p ts k) s = (if s \<in> set ts then (vt k s)\<lparr>v_serving := 0\<rparr> else vt k s))"
  using assms(1,3,4)
proof (induction ts arbitrary: k)
  case (Cons t ts)
  let ?d = "TaskDetachServing t k"
  let ?k = "TaskRecomputePriority t ?d"
  have d: "kinv {} X ?d"
    by (rule kinv_TaskDetachServing) (rule Cons.prems(1))
  then have "sched_ok {} X ?d"
    by (simp add: kinv_sched del: view_TaskDetachServing)
  then have v: "view ?k = view ?d"
    by (rule sched_quiet(2) [OF quiet_TaskRecomputePriority])
  have k: "kinv {} X ?k"
    using d by (rule kinv_quiet [OF quiet_TaskRecomputePriority])
  have vk: "vt ?k s = (if s = t then (vt k t)\<lparr>v_serving := 0\<rparr> else vt k s)" for s
    unfolding v by (simp add: Let_def)
  have ts: "t \<notin> set ts" "distinct ts"
    using Cons.prems(2) by simp_all
  then have "\<forall>s \<in> set ts. v_serving (vt ?k s) = p"
    using Cons.prems(3) unfolding vk by auto
  note IH = Cons.IH [OF k ts(2) this]
  have "drain_servers p (t # ts) k = drain_servers p ts ?k"
    using drain_servers_step [of k t p] Cons.prems(3) assms(2) by (simp add: Let_def)
  then show ?case
    using IH ts(1) unfolding vk by auto
qed simp

section \<open>Held callers\<close>

lemma held_leaves:
  assumes "kinv E X k" "p \<noteq> 0" "i < 64" "held (ports k p) = Some hs" "hc_caller (hs ! i) = c" "c \<noteq> 0" "c \<notin> E"
  defines "k' \<equiv> upd_task c (\<lambda>x. x\<lparr>held_port := NULL\<rparr>) (clear_held p i k)"
  shows "kinv (insert c E) X k'" "stopped (vt k' c)" "view k' = v_unpark c (view k)"
proof -
  have "v_parked (view k) p = Some hs"
    using assms(4) by (simp add: view_def)
  then have h: "v_held (vt k c) = p" "v_slot (vt k c) = i"
    using kinvD(3) [OF assms(1)] assms(2-6) unfolding proto_ok_def parked_ok_def by metis+
  show v: "view k' = v_unpark c (view k)"
    by (simp add: k'_def v_unpark_def Let_def h)
  have s: "state_ok c (vt k c)"
    using kinv_state [OF assms(1,6,7)] .
  then have c: "calling c (vt k c) \<and> v_state (vt k c) = TASK_STATE_BLOCKED"
    using h(1) assms(2) by (cases "v_state (vt k c)") (auto simp: state_ok_def unlinked_view_def waiting_def)
  show "stopped (vt k' c)"
    using s c h(1) assms(2) unfolding v by (auto simp: v_unpark_def Let_def stopped_def calling_def state_ok_def)
  show "kinv (insert c E) X k'"
    using kinv_mono [OF assms(1) subset_insertI, of c] proto_unpark [OF kinvD(3) [OF assms(1)] assms(6)] h assms(2)
    by (simp add: kinv_sched v del: view_clear_held) (simp add: k'_def)
qed

definition slot_free :: "PortPtr \<Rightarrow> nat \<Rightarrow> View \<Rightarrow> bool" where
  "slot_free p i v \<longleftrightarrow> (\<forall>hs. v_parked v p = Some hs \<longrightarrow> hc_caller (hs ! i) = 0)"

lemma v_parked_unpark:
  "v_parked (v_unpark c v) = (v_parked v)(v_held (v_tasks v c) :=
     map_option (\<lambda>hs. hs[v_slot (v_tasks v c) := (hs ! v_slot (v_tasks v c))\<lparr>hc_caller := 0\<rparr>]) (v_parked v (v_held (v_tasks v c))))"
  by (simp add: v_unpark_def Let_def)

lemma slot_free_unpark:
  assumes "proto_ok E X v" "c \<noteq> 0" "v_held (v_tasks v c) \<noteq> 0" "slot_free p i v \<or> p = v_held (v_tasks v c) \<and> i = v_slot (v_tasks v c)"
  shows "slot_free p i (v_unpark c v)"
proof -
  obtain hs where "v_parked v (v_held (v_tasks v c)) = Some hs" "v_slot (v_tasks v c) < length hs"
    using assms(1-3) unfolding proto_ok_def parked_ok_def by metis
  then show ?thesis
    using assms(4) by (auto simp: slot_free_def v_parked_unpark nth_list_update)
qed

lemma drain_held_props:
  assumes "kinv {} X k" "p \<noteq> 0" "\<forall>i \<in> set is. i < 64"
  shows "kinv {} X (drain_held p is k) \<and> (\<forall>s. sheds (vt k s) (vt (drain_held p is k) s))
    \<and> (\<forall>i. i \<in> set is \<or> slot_free p i (view k) \<longrightarrow> slot_free p i (view (drain_held p is k)))"
  using assms(1,3)
proof (induction "is" arbitrary: k)
  case (Cons i "is")
  have pk: "v_parked (view k) p = held (ports k p)"
    by (simp add: view_def)
  show ?case
  proof (cases "held (ports k p)")
    case None
    then show ?thesis
      using Cons.prems(1) by (simp add: slot_free_def pk)
  next
    case (Some hs)
    show ?thesis
    proof (cases "hc_caller (hs ! i) = 0")
      case True
      then have "slot_free p i (view k)"
        using Some by (simp add: slot_free_def pk)
      then show ?thesis
        using Cons.IH [OF Cons.prems(1)] Cons.prems(2) True Some by (simp add: Let_def)
    next
      case False
      let ?c = "hc_caller (hs ! i)"
      let ?k1 = "upd_task ?c (\<lambda>x. x\<lparr>held_port := NULL\<rparr>) (clear_held p i k)"
      let ?k2 = "TaskAbortWait ?c ERR_DEAD ?k1"
      have i: "i < 64"
        using Cons.prems(2) by simp
      have l1: "kinv {?c} X ?k1" "stopped (vt ?k1 ?c)" "view ?k1 = v_unpark ?c (view k)"
        by (rule held_leaves [OF Cons.prems(1) assms(2) i Some refl False], simp)+
      note w = wakesD [OF wakes_TaskAbortWait [of ERR_DEAD] l1(1,2)]
      have h: "v_held (vt k ?c) = p" "v_slot (vt k ?c) = i"
        using kinvD(3) [OF Cons.prems(1)] assms(2) False i Some pk unfolding proto_ok_def parked_ok_def by metis+
      have "queues_ok ?k1"
        using l1(1) by (simp only: kinv_def)
      then have pv: "v_parked (view ?k2) = v_parked (v_unpark ?c (view k))"
        unfolding view_TaskAbortWait [OF \<open>queues_ok ?k1\<close>] l1(3) by simp
      have f: "slot_free p j (view ?k2)" if "j = i \<or> slot_free p j (view k)" for j
      proof -
        have "slot_free p j (v_unpark ?c (view k))"
          by (rule slot_free_unpark [OF kinvD(3) [OF Cons.prems(1)] False]) (use that in \<open>auto simp: h assms(2)\<close>)
        then show ?thesis
          unfolding slot_free_def pv .
      qed
      have d: "sheds (vt k s) (vt ?k2 s)" for s
        using w(2) [of s] w(4) unfolding l1(3) by (cases "s = ?c") (simp_all add: v_unpark_def Let_def sheds_def)
      have eq: "drain_held p (i # is) k = drain_held p is ?k2"
        using Some False by (simp add: Let_def)
      have ih: "\<forall>i \<in> set is. i < 64"
        using Cons.prems(2) by simp
      show ?thesis
        unfolding eq using Cons.IH [OF w(1) ih] f sheds_trans [OF d] by auto
    qed
  qed
qed simp

section \<open>Killing a port\<close>

lemma kinv_port_dies:
  assumes "kinv E X k"
  shows "kinv E (with_dying (RecvQ p) X) (upd_port p (\<lambda>x. x\<lparr>port_alive := False\<rparr>) k)"
proof -
  let ?k = "upd_port p (\<lambda>x. x\<lparr>port_alive := False\<rparr>) k"
  have "(v_parked (view k))(p := held (ports k p)) = v_parked (view k)"
    by (simp add: view_def fun_eq_iff)
  then have v: "view ?k = (view k)\<lparr>v_palive := (v_palive (view k))(p := False)\<rparr>"
    by simp
  have "q_live (view k) q \<Longrightarrow> q_live (view ?k) q \<or> q = RecvQ p" for q
    by (cases q) (auto simp: v)
  then have "live_ok (with_dying (RecvQ p) X) (view ?k)"
    using assms unfolding kinv_def proto_ok_def live_ok_def with_dying_sel v by (simp del: view_upd_port) blast
  moreover have "sched_ok E (with_dying (RecvQ p) X) ?k"
    using assms scope_freezing(2) [of "with_dying (RecvQ p) X" X E] by (simp add: kinv_sched)
  ultimately show ?thesis
    using kinvD(3) [OF assms] scope_pinned [of "with_dying (RecvQ p) X" X]
    unfolding kinv_sched proto_ok_def v
    by (simp add: caps_ok_def servers_ok_def parked_ok_def members_ok_def running_ok_def pins_ok_def may_state_def)
qed

lemma port_drained:
  assumes "kinv {} X k" "p \<noteq> 0"
  defines "k1 \<equiv> drain_senders (node_q k (SendQ p)) k"
  defines "k2 \<equiv> drain_wait (\<lambda>t. TaskAbortWait t ERR_DEAD) (wait_q k1 (RecvQ p)) k1"
  defines "k3 \<equiv> drain_servers p (active_servers k2 p) k2"
  defines "k4 \<equiv> (if held (ports k3 p) \<noteq> None then drain_held p [0..<PORT_HELD_SLOTS] k3 else k3)"
  shows "kinv {} X k4" "s \<noteq> 0 \<Longrightarrow> RecvQ p \<notin> depends_on (vt k4 s)"
proof -
  have q: "queues_ok k"
    using assms(1) by (simp add: kinv_def)
  have "\<forall>t \<in> set (node_q k (SendQ p)). v_send (vt k t) = Some p"
    using senders_of [OF q] by blast
  note d1 = drain_senders_props [OF assms(1) distinct_senders [OF q] this, folded k1_def]
  have k1: "kinv {} X k1" "v_send (vt k1 s) \<noteq> Some p" for s
    using d1 senders_of [OF q, of s p] by (cases "s \<in> set (node_q k (SendQ p))"; simp)+
  note d2 = drain_queue [OF wakes_TaskAbortWait [of ERR_DEAD] k1(1), where q = "RecvQ p", folded k2_def]
  have sv: "distinct (active_servers k2 p)" "t \<in> set (active_servers k2 p) \<longleftrightarrow> v_serving (vt k2 t) = p" for t
    using kinvD(3) [OF d2(1)] assms(2) unfolding proto_ok_def servers_ok_def field_views by simp_all
  have d3: "kinv {} X k3" "vt k3 s = (if v_serving (vt k2 s) = p then (vt k2 s)\<lparr>v_serving := 0\<rparr> else vt k2 s)" for s
    using drain_servers_props [OF d2(1) assms(2) sv(1)] sv(2) unfolding k3_def by simp_all
  have d4: "kinv {} X k4" "sheds (vt k3 s) (vt k4 s)" "i < 64 \<Longrightarrow> slot_free p i (view k4)" for s i
  proof -
    have "v_parked (view k3) p = held (ports k3 p)"
      by (simp add: view_def)
    then have "held (ports k3 p) = None \<Longrightarrow> slot_free p i (view k3)"
      by (simp add: slot_free_def)
    then show "kinv {} X k4" "sheds (vt k3 s) (vt k4 s)" "i < 64 \<Longrightarrow> slot_free p i (view k4)"
      using drain_held_props [OF d3(1) assms(2), of "[0..<64]"] d3(1)
      by (cases "held (ports k3 p)"; simp add: k4_def PORT_HELD_SLOTS_def)+
  qed
  show "kinv {} X k4"
    by (rule d4)
  assume s: "s \<noteq> 0"
  have "v_held (vt k4 s) \<noteq> p"
  proof
    assume h: "v_held (vt k4 s) = p"
    then obtain hs where "v_parked (view k4) p = Some hs" "v_slot (vt k4 s) < 64" "hc_caller (hs ! v_slot (vt k4 s)) = s"
      using kinvD(3) [OF d4(1)] s assms(2) unfolding proto_ok_def parked_ok_def by blast
    then show False
      using d4(3) s by (simp add: slot_free_def)
  qed
  moreover have k3: "sheds (vt k2 s) (vt k3 s)" "v_serving (vt k3 s) \<noteq> p"
    using assms(2) unfolding d3(2) by (simp_all add: sheds_def)
  then have "v_serving (vt k4 s) \<noteq> p"
    using d4(2) [of s] assms(2) by (auto simp: sheds_def)
  moreover have k24: "sheds (vt k2 s) (vt k4 s)"
    using k3(1) d4(2) by (rule sheds_trans)
  moreover have "v_wait (vt k4 s) \<noteq> Some (RecvQ p)"
    using k24 d2(2) [of s] by (auto simp: sheds_def)
  moreover have "sheds (vt k1 s) (vt k4 s)"
    using d2(3) k24 by (rule sheds_trans)
  then have "v_send (vt k4 s) \<noteq> Some p"
    using k1(2) [of s] by (auto simp: sheds_def)
  ultimately show "RecvQ p \<notin> depends_on (vt k4 s)"
    by (auto simp: depends_on_def)
qed

lemma keeps_PortKill: "keeps (PortKill p)"
  unfolding keeps_def
proof (intro allI impI)
  fix X k
  assume k: "kinv {} X k"
  show "opt_all (kinv {} X) (PortKill p k)"
  proof (cases "p = 0 \<or> \<not> port_alive (ports k p)")
    case True
    then show ?thesis
      using k by (auto simp: PortKill_def)
  next
    case False
    note d = port_drained [OF kinv_port_dies [OF k], of p]
    show ?thesis
      using False keepsD [OF keeps_event(5) kinv_undying [OF d]] unfolding PortKill_def Let_def by simp
  qed
qed

lemma keeps_PortUnref: "keeps (PortUnref p)"
  unfolding keeps_def
proof (intro allI impI)
  fix X k
  assume k: "kinv {} X k"
  show "opt_all (kinv {} X) (PortUnref p k)"
    unfolding PortUnref_def
    by (intro opt_all_if opt_all_let opt_all_bind [where P = "kinv {} X"] keepsD [OF keeps_PortKill] keepsD [OF keeps_event(6)])
       (use k in auto)
qed

end
