(* ===== verification/Links_Life.thy ===== *)
theory Links_Life
  imports Links_Port
begin

text \<open>
  The end of a task and of a space: unlinking, releasing whoever served or was served, waking those who
  join, reaping; freezing and unfreezing the tasks of a space. All of it keeps the invariant.
\<close>

section \<open>Taking a task off everything\<close>

lemma sched_SchedRemoveRunQueue:
  assumes "sched_ok E X k"
  shows "sched_ok (insert t E) X (SchedRemoveRunQueue t k)" "\<not> is_queued t (SchedRemoveRunQueue t k)"
proof -
  have n: "node (tasks (SchedRemoveRunQueue t k) s) = (if s = t then None else node (tasks k s))" for s
    by (simp add: node_SchedRemoveRunQueue)
  then show "\<not> is_queued t (SchedRemoveRunQueue t k)"
    by (simp add: is_queued_def)
  have "ready_ok (insert t E) X (SchedRemoveRunQueue t k)"
    using assms [unfolded sched_ok_def, THEN conjunct2] by (rule ready_ok_change) (simp_all add: n is_queued_def)
  then show "sched_ok (insert t E) X (SchedRemoveRunQueue t k)"
    using assms queues_ok_SchedRemoveRunQueue by (simp add: sched_ok_def)
qed

lemma sched_SchedRemoveSleepQueue:
  assumes "sched_ok E X k"
  shows "sched_ok E X (SchedRemoveSleepQueue t k)"
proof -
  let ?k = "SchedRemoveSleepQueue t k"
  have q: "queues_ok k" "ready_ok E X k" and w: "wheel_ok k"
    using assms by (simp_all add: sched_ok_def queues_ok_def)
  have v: "view ?k = v_upd t (\<lambda>x. x\<lparr>v_timed := False\<rparr>) (view k)"
    using w by simp
  have "nstate_ok ?k"
    by (rule nstate_ok_frame [of k]) (use q(1) v in \<open>simp_all add: queues_ok_def\<close>)
  moreover have "wheel_ok ?k"
    using wheel_ok_SchedRemoveSleepQueue [OF w] by blast
  ultimately have "queues_ok ?k"
    using q(1) nlinks_ok [of ?k k] wlinks_ok [of ?k k] by (simp add: queues_ok_def)
  moreover have "ready_ok E X ?k"
    using q(2) by (rule ready_ok_frame) (simp_all add: v)
  ultimately show ?thesis
    by (simp add: sched_ok_def)
qed

definition v_off :: "TaskView \<Rightarrow> TaskView" where
  "v_off x = x\<lparr>v_send := None, v_timed := False, v_wait := None\<rparr>"

lemma v_off_sel [simp]:
  "v_state (v_off x) = v_state x" "v_send (v_off x) = None" "v_wait (v_off x) = None" "\<not> v_timed (v_off x)"
  "v_pending (v_off x) = v_pending x" "v_cap (v_off x) = v_cap x" "v_holder (v_off x) = v_holder x"
  "v_serving (v_off x) = v_serving x" "v_held (v_off x) = v_held x" "v_slot (v_off x) = v_slot x"
  "v_owner (v_off x) = v_owner x" "v_susp (v_off x) = v_susp x" "v_ipc (v_off x) = v_ipc x"
  by (simp_all add: v_off_def)

lemma view_eta:
  fixes x :: TaskView
  shows "v_wait x = None \<Longrightarrow> x\<lparr>v_wait := None\<rparr> = x" "v_cap x = 0 \<Longrightarrow> v_serving x = 0 \<Longrightarrow> x\<lparr>v_cap := 0, v_serving := 0\<rparr> = x"
  by (cases x; simp)+

lemma TaskUnlinkWaits_props:
  assumes "sched_ok E X k" "t \<noteq> 0"
  shows "sched_ok (insert t E) X (TaskUnlinkWaits t k)" "view (TaskUnlinkWaits t k) = v_upd t v_off (view k)"
    "\<not> is_queued t (TaskUnlinkWaits t k)"
proof -
  define k1 where "k1 = (if node (tasks k t) \<noteq> None then SchedRemoveRunQueue t k else k)"
  define k2 where "k2 = SchedRemoveSleepQueue t k1"
  have eq: "TaskUnlinkWaits t k = (if ws_linked (tasks k2 t) then wait_remove t k2 else k2)"
    using assms(2) by (simp add: TaskUnlinkWaits_def k1_def k2_def Let_def)
  have k1: "sched_ok (insert t E) X k1" "\<not> is_queued t k1" "view k1 = v_upd t (\<lambda>x. x\<lparr>v_send := None\<rparr>) (view k)"
    using sched_SchedRemoveRunQueue [OF assms(1), of t] sched_ok_mono [OF assms(1) subset_insertI]
    by (simp_all add: k1_def is_queued_def v_upd_same v_tasks_view task_view_def)
  then have k2: "sched_ok (insert t E) X k2" "\<not> is_queued t k2" "view k2 = v_upd t (\<lambda>x. x\<lparr>v_send := None, v_timed := False\<rparr>) (view k)"
    using sched_SchedRemoveSleepQueue [OF k1(1), of t] nlinksD(3) [OF SchedRemoveSleepQueue_frame(1), of t k1 t]
    by (simp_all add: k2_def is_queued_def sched_ok_def queues_ok_def)
  have w: "v_wait (vt k2 t) = None \<longleftrightarrow> \<not> ws_linked (tasks k2 t)"
    using k2(1) v_wait_unlinked [of k2 t] by (simp add: sched_ok_def queues_ok_def)
  show "sched_ok (insert t E) X (TaskUnlinkWaits t k)"
    using k2(1) sched_wait_remove [OF k2(1), of t] w by (simp add: eq)
  show "\<not> is_queued t (TaskUnlinkWaits t k)"
    using k2(2) nlinksD(3) [OF wait_remove_frame(1), of t k2 t] by (simp add: eq is_queued_def)
  have "view (TaskUnlinkWaits t k) = v_upd t (\<lambda>x. x\<lparr>v_wait := None\<rparr>) (view k2)"
    using w v_upd_same [of "\<lambda>x. x\<lparr>v_wait := None\<rparr>" "view k2" t] view_eta(1) [of "vt k2 t"] by (simp add: eq)
  then show "view (TaskUnlinkWaits t k) = v_upd t v_off (view k)"
    by (simp add: k2(3) v_off_def [abs_def])
qed

section \<open>The callers of a dying server\<close>

text \<open>The caller of a reply capability waits for it.\<close>

lemma cap_caller:
  assumes "kinv E X k" "t \<noteq> 0" "v_cap (vt k t) = c" "c \<noteq> 0" "c \<notin> E"
  shows "v_holder (vt k c) = t" "calling c (vt k c)" "v_state (vt k c) = TASK_STATE_BLOCKED" "v_send (vt k c) = None" "v_held (vt k c) = 0"
    "waiting_caller c k" "rc_caller_task (tasks k c) = c" "v_serving (vt k c) \<noteq> 0 \<Longrightarrow> v_cap (vt k c) \<noteq> 0"
proof -
  show h: "v_holder (vt k c) = t"
    using kinvD(3) [OF assms(1)] assms(2-4) unfolding proto_ok_def caps_ok_def by blast
  have s: "state_ok c (vt k c)"
    using kinv_state [OF assms(1,4,5)] .
  then have c: "calling c (vt k c) \<and> v_state (vt k c) = TASK_STATE_BLOCKED"
    using h assms(2) by (cases "v_state (vt k c)") (auto simp: state_ok_def unlinked_view_def waiting_def)
  then show "calling c (vt k c)" "v_state (vt k c) = TASK_STATE_BLOCKED"
    by simp_all
  show "v_send (vt k c) = None" "v_held (vt k c) = 0"
    using c h assms(2) by (auto simp: calling_def)
  show "v_serving (vt k c) \<noteq> 0 \<Longrightarrow> v_cap (vt k c) \<noteq> 0"
    using s by (simp add: state_ok_def)
  show r: "rc_caller_task (tasks k c) = c"
    using c by (simp add: calling_def v_tasks_view task_view_def)
  have "rc_caller_tid (tasks k c) = tid (tasks k c)" "ipc_state (tasks k c) = IPC_WAITING" "state (tasks k c) = TASK_STATE_BLOCKED"
    using c by (simp_all add: calling_def v_tasks_view task_view_def)
  then show "waiting_caller c k"
    using assms(4) by (simp add: waiting_caller_def Let_def r)
qed

lemma sched_TaskAbortWait:
  assumes "sched_ok (insert t E) X k" "v_send (vt k t) = None" "t \<noteq> idle_task"
  shows "sched_ok E X (TaskAbortWait t err k)"
proof -
  let ?k = "upd_task t (\<lambda>x. x\<lparr>pending_reply_cap := NULL\<rparr>) (ArchSetInFrame t 0 (err_reg err) k)"
  have "sched_ok (insert t E) X ?k"
    using assms(1) by simp
  then show ?thesis
    using unblock_add(1,3) [of ?k t E X] assms(2,3) by (simp add: TaskAbortWait_def Let_def sched_ok_def)
qed

lemma abort_served_props:
  assumes "kinv E X k" "t \<noteq> 0" "t \<in> E" "v_cap (vt k t) = 0 \<or> v_cap (vt k t) \<notin> E" "v_cap (vt k t) = 0 \<Longrightarrow> v_serving (vt k t) = 0"
  shows "kinv E X (abort_served t k)" "v_cap (vt (abort_served t k) t) = 0" "v_serving (vt (abort_served t k) t) = 0"
    "\<And>g. (\<And>x c s. g (x\<lparr>v_cap := c, v_serving := s\<rparr>) = g x) \<Longrightarrow> g (vt (abort_served t k) t) = g (vt k t)"
proof -
  have rc: "reply_cap (tasks k t) = v_cap (vt k t)"
    by (simp add: v_tasks_view task_view_def)
  let ?c = "v_cap (vt k t)"
  have "kinv E X (abort_served t k) \<and> v_cap (vt (abort_served t k) t) = 0 \<and> v_serving (vt (abort_served t k) t) = 0
     \<and> (\<exists>c s. vt (abort_served t k) t = (vt k t)\<lparr>v_cap := c, v_serving := s\<rparr>)"
  proof (cases "?c = 0")
    case True
    have ex: "\<exists>c s. vt k t = (vt k t)\<lparr>v_cap := c, v_serving := s\<rparr>"
      using view_eta(2) [OF True assms(5) [OF True], symmetric] by blast
    have same: "abort_served t k = k"
      using True by (simp add: abort_served_def Let_def rc)
    show ?thesis
      unfolding same using assms(1,5) True ex by blast
  next
    case False
    then have cE: "?c \<notin> E"
      using assms(4) by blast
    note c = cap_caller [OF assms(1,2) refl False cE]
    have ct: "?c \<noteq> t"
      using cE assms(3) by metis
    define k1 where "k1 = TaskAbortWait ?c ERR_DEAD k"
    have eq: "abort_served t k = TaskDetachServing t (upd_task t (\<lambda>x. x\<lparr>reply_cap := NULL\<rparr>) (upd_task ?c (\<lambda>x. x\<lparr>reply_holder := NULL\<rparr>) k1))"
      using False c(6,7) by (simp add: abort_served_def Let_def rc k1_def)
    have s: "sched_ok E X k"
      using assms(1) by (simp add: kinv_sched)
    have s1: "sched_ok E X k1"
      unfolding k1_def
      by (rule sched_TaskAbortWait) (use sched_ok_mono [OF s] c(4) kinv_not_idle [OF assms(1), of ?c] c(3) in auto)
    have v1: "view k1 = v_upd ?c (\<lambda>x. v_woken (x\<lparr>v_pending := 0\<rparr>)) (view k)"
      using s by (simp add: k1_def view_TaskAbortWait sched_ok_def)
    let ?v = "v_upd ?c (\<lambda>x. x\<lparr>v_holder := 0\<rparr>) (v_clear t (view k))"
    have v: "view (abort_served t k) = v_upd ?c (\<lambda>x. v_woken (x\<lparr>v_pending := 0\<rparr>)) ?v"
      unfolding eq view_TaskDetachServing
      using ct by (simp add: v1 v_upd_def v_clear_def Let_def fun_eq_iff v_woken_def)
    have p: "proto_ok (insert ?c E) X ?v"
      using proto_release [OF kinvD(3) [OF assms(1)] False c(1) assms(2)] .
    have "proto_ok E X (v_upd ?c (\<lambda>x. v_woken (x\<lparr>v_pending := 0\<rparr>)) ?v)"
      by (rule proto_change [OF p])
         (use c ct False in \<open>auto simp: same_ties_def state_ok_def unlinked_view_def dead_def\<close>)
    then have "kinv E X (abort_served t k)"
      using s1 by (simp add: kinv_sched v del: view_TaskDetachServing) (simp add: eq)
    then show ?thesis
      using ct by (auto simp: v)
  qed
  then show "kinv E X (abort_served t k)" "v_cap (vt (abort_served t k) t) = 0" "v_serving (vt (abort_served t k) t) = 0"
    "\<And>g. (\<And>x c s. g (x\<lparr>v_cap := c, v_serving := s\<rparr>) = g x) \<Longrightarrow> g (vt (abort_served t k) t) = g (vt k t)"
    by auto
qed

section \<open>Becoming a zombie\<close>

text \<open>\<open>TaskTerminate\<close> up to the point where the task is dead.\<close>

definition ended :: "TaskPtr \<Rightarrow> int \<Rightarrow> Kernel \<Rightarrow> Kernel" where
  "ended t status k =
     (let k = upd_task t (\<lambda>x. x\<lparr>exit_status := status, suspended := False\<rparr>) k;
          k = TaskUnlinkWaits t k;
          k = (if held_port (tasks k t) \<noteq> NULL
               then upd_task t (\<lambda>x. x\<lparr>held_port := NULL\<rparr>)
                      (clear_held (held_port (tasks k t)) (held_slot (tasks k t)) k)
               else k);
          k = release_holder t k;
          k = abort_served t k
      in upd_task t (\<lambda>x. x\<lparr>state := TASK_STATE_ZOMBIE\<rparr>) k)"

definition pin :: "TaskPtr \<Rightarrow> TaskState \<Rightarrow> Scope \<Rightarrow> Scope" where
  "pin t s X = X\<lparr>pinned := (pinned X)(t := Some s)\<rparr>"

lemma pin_sel [simp]:
  "freezing (pin t s X) = freezing X" "dying (pin t s X) = dying X" "outside (pin t s X) = outside X" "resting (pin t s X) = resting X" "at_cpu (pin t s X) = at_cpu X"
  "pinned (pin t s X) u = (if u = t then Some s else pinned X u)"
  by (simp_all add: pin_def)

lemma kinv_pin: "kinv E X k \<Longrightarrow> v_state (vt k t) = s \<Longrightarrow> s \<noteq> TASK_STATE_BLOCKED \<Longrightarrow> kinv E (pin t s X) k"
  using scope_freezing(1) [of "pin t s X" X] scope_pinned(2) [of "pin t s X" X]
  by (auto simp: kinv_def proto_ok_def live_ok_def pins_ok_def may_state_def)

lemma kinv_pinned: "kinv E X k \<Longrightarrow> pinned X t = Some s \<Longrightarrow> v_state (vt k t) = s"
  by (simp add: kinv_def proto_ok_def pins_ok_def may_state_def)

lemma kinv_unpin:
  assumes "kinv E (pin t s X) k" "pinned X t = None"
  shows "kinv E X k"
proof -
  have p: "pins_ok (pin t s X) (view k)"
    using assms(1) by (simp add: kinv_def proto_ok_def)
  have "may_state X (view k) u (v_state (vt k u))" for u
  proof -
    have "may_state (pin t s X) (view k) u (v_state (vt k u))"
      using p by (simp add: pins_ok_def)
    then show ?thesis
      using assms(2) by (cases "u = t") (auto simp: may_state_def)
  qed
  then have "pins_ok X (view k)"
    using p by (simp add: pins_ok_def)
  then show ?thesis
    using assms(1) scope_freezing(1) [of "pin t s X" X] scope_pinned(2) [of "pin t s X" X]
    by (simp add: kinv_def proto_ok_def live_ok_def)
qed

lemma node_upd_task: "(\<And>x. node (f x) = node x) \<Longrightarrow> node (tasks (upd_task t f k) s) = node (tasks k s)"
  by (simp add: upd_task_def)

lemma is_queued_upd_task: "(\<And>x. node (f x) = node x) \<Longrightarrow> is_queued s (upd_task t f k) = is_queued s k"
  by (simp add: is_queued_def node_upd_task)

text \<open>A change of state of a task that is on no queue.\<close>

lemma sched_set_state:
  assumes "sched_ok (insert t E) X k" "node (tasks k t) = None" "s \<noteq> TASK_STATE_READY"
  shows "sched_ok E X (upd_task t (\<lambda>x. x\<lparr>state := s\<rparr>) k)"
proof -
  let ?k = "upd_task t (\<lambda>x. x\<lparr>state := s\<rparr>) k"
  have v: "view ?k = v_upd t (\<lambda>x. x\<lparr>v_state := s\<rparr>) (view k)"
    by (rule view_upd_task) simp
  have "queues_ok ?k"
    by (rule queues_ok_frame [of k]) (use assms(1,2) in \<open>auto simp: sched_ok_def v\<close>)
  moreover have "ready_ok (insert t (insert t E)) X ?k"
    by (rule ready_ok_change [of "insert t E" X k]) (use assms(1) in \<open>simp_all add: sched_ok_def v is_queued_upd_task node_upd_task\<close>)
  then have "ready_ok E X ?k"
    by (intro ready_ok_drop [of t E X ?k]) (use assms(3) in \<open>simp_all add: must_run_def state_view v\<close>)
  ultimately show ?thesis
    by (simp add: sched_ok_def)
qed

lemma sched_end_suspend:
  assumes "sched_ok E X k"
  shows "sched_ok (insert t E) X (upd_task t (\<lambda>x. x\<lparr>exit_status := st, suspended := False\<rparr>) k)"
    "view (upd_task t (\<lambda>x. x\<lparr>exit_status := st, suspended := False\<rparr>) k) = v_upd t (\<lambda>x. x\<lparr>v_susp := False\<rparr>) (view k)"
proof -
  let ?k = "upd_task t (\<lambda>x. x\<lparr>exit_status := st, suspended := False\<rparr>) k"
  show v: "view ?k = v_upd t (\<lambda>x. x\<lparr>v_susp := False\<rparr>) (view k)"
    by (rule view_upd_task) simp
  have "nstate_ok ?k"
    using assms unfolding sched_ok_def queues_ok_def nstate_ok_def by (auto simp: upd_task_def)
  then have "queues_ok ?k"
    using assms nlinks_ok [of ?k k] wlinks_ok [of ?k k] slinks_ok [of ?k k] by (simp add: sched_ok_def queues_ok_def)
  moreover have "ready_ok (insert t E) X ?k"
    by (rule ready_ok_change [of E X k]) (use assms in \<open>simp_all add: sched_ok_def v is_queued_upd_task node_upd_task\<close>)
  ultimately show "sched_ok (insert t E) X ?k"
    by (simp add: sched_ok_def)
qed

lemma sched_quiet_queued: "quiet f \<Longrightarrow> sched_ok E X k \<Longrightarrow> is_queued s (f k) \<Longrightarrow> is_queued s k"
  using quietD(5) [of f k E X s] by (simp add: sched_ok_def)

lemma is_queued_TaskDetachServing [simp]: "is_queued s (TaskDetachServing t k) = is_queued s k"
  by (simp add: is_queued_def TaskDetachServing_def Let_def upd_task_def)

lemma is_queued_release_holder:
  assumes "sched_ok E X k" "is_queued s (release_holder t k)"
  shows "is_queued s k"
proof -
  have "is_queued s (TaskClearReplyCap h k) \<Longrightarrow> is_queued s k" for h
    using sched_quiet_queued [OF quiet_TaskRecomputePriority, of E X "TaskDetachServing h (upd_task h (\<lambda>x. x\<lparr>reply_cap := 0\<rparr>) k)" s h] assms(1)
    by (simp add: TaskClearReplyCap_def Let_def is_queued_upd_task)
  moreover have "is_queued s (PortBoostServers p k) \<Longrightarrow> is_queued s k" for p
    using sched_quiet_queued [OF quiet_PortBoostServers assms(1)] .
  ultimately show ?thesis
    using assms(2) by (auto simp: release_holder_def Let_def is_queued_upd_task split: if_splits)
qed

lemma node_TaskAbortWait_other: "s \<noteq> c \<Longrightarrow> node (tasks (TaskAbortWait c err k) s) = node (tasks k s)"
  by (simp add: TaskAbortWait_def SchedAdd_def Let_def node_SchedEnqueue_other nlinksD(3) [OF SchedUnblock_frame] node_upd_task ArchSetInFrame_def)

lemma is_queued_abort_served:
  assumes "s \<noteq> rc_caller_task (tasks k (reply_cap (tasks k t)))"
  shows "is_queued s (abort_served t k) = is_queued s k"
  using assms node_TaskAbortWait_other [of s _ ERR_DEAD k]
  by (simp add: abort_served_def Let_def is_queued_upd_task) (simp add: is_queued_def)

lemma ended_props:
  assumes "kinv {} X k" "t \<noteq> 0" "pinned X t = None" "v_state (vt k t) \<noteq> TASK_STATE_ZOMBIE" "t \<noteq> idle_task"
  shows "kinv {} (pin t TASK_STATE_ZOMBIE (with_dying (JoinQ t) X)) (ended t status k)"
proof -
  have s0: "state_ok t (vt k t)"
    using kinv_state [OF assms(1,2)] by simp
  have q0: "v_holder (vt k t) \<noteq> 0 \<Longrightarrow> v_pending (vt k t) \<noteq> 0" "v_serving (vt k t) \<noteq> 0 \<Longrightarrow> v_cap (vt k t) \<noteq> 0"
    using s0 assms(2) by (cases "v_state (vt k t)"; auto simp: state_ok_def unlinked_view_def waiting_def calling_def)+
  define k1 where "k1 = upd_task t (\<lambda>x. x\<lparr>exit_status := status, suspended := False\<rparr>) k"
  define k2 where "k2 = TaskUnlinkWaits t k1"
  define k3 where "k3 = (if held_port (tasks k2 t) \<noteq> NULL
     then upd_task t (\<lambda>x. x\<lparr>held_port := NULL\<rparr>) (clear_held (held_port (tasks k2 t)) (held_slot (tasks k2 t)) k2) else k2)"
  define k4 where "k4 = release_holder t k3"
  define k5 where "k5 = abort_served t k4"
  have eq: "ended t status k = upd_task t (\<lambda>x. x\<lparr>state := TASK_STATE_ZOMBIE\<rparr>) k5"
    by (simp add: ended_def k5_def k4_def k3_def k2_def k1_def Let_def)
  have s: "sched_ok {} X k"
    using assms(1) by (simp add: kinv_sched)
  have s1: "sched_ok {t} X k1" and v1: "view k1 = v_upd t (\<lambda>x. x\<lparr>v_susp := False\<rparr>) (view k)"
    using sched_end_suspend [OF s, of t status] by (simp_all add: k1_def)
  have s2: "sched_ok {t} X k2" and v2: "view k2 = v_upd t (\<lambda>x. v_off (x\<lparr>v_susp := False\<rparr>)) (view k)" and n2: "\<not> is_queued t k2"
    using TaskUnlinkWaits_props [OF s1 assms(2)] by (simp_all add: k2_def v1)
  have "proto_ok {t} X (view k2)"
    unfolding v2 using kinvD(3) [OF assms(1)] by (rule proto_change) (use assms(2) in \<open>auto simp: same_ties_def\<close>)
  then have i2: "kinv {t} X k2"
    using s2 by (simp add: kinv_sched)
  have t2: "vt k2 t = v_off ((vt k t)\<lparr>v_susp := False\<rparr>)"
    by (simp add: v2)
  have h2: "held_port (tasks k2 t) = v_held (vt k2 t)" "held_slot (tasks k2 t) = v_slot (vt k2 t)"
    by (simp_all add: v_tasks_view task_view_def)
  have k3: "kinv {t} X k3 \<and> vt k3 t = (vt k2 t)\<lparr>v_held := 0\<rparr> \<and> \<not> is_queued t k3"
  proof (cases "v_held (vt k2 t) = 0")
    case True
    then show ?thesis
      using i2 n2 by (simp add: k3_def h2)
  next
    case False
    then have v: "view k3 = v_unpark t (view k2)"
      by (simp add: k3_def h2 v_unpark_def Let_def)
    have "kinv {t} X k3"
      using i2 proto_unpark [OF kinvD(3) [OF i2] assms(2) False] False by (simp add: kinv_sched v) (simp add: k3_def h2)
    moreover have "\<not> is_queued t k3"
      using n2 False by (simp add: k3_def h2 is_queued_upd_task) (simp add: is_queued_def clear_held_def upd_port_def)
    ultimately show ?thesis
      by (simp add: v) (simp add: v_unpark_def Let_def)
  qed
  then have s3: "sched_ok {t} X k3"
    by (simp add: kinv_sched)
  have i4: "kinv {t} X k4" "v_holder (vt k4 t) = 0"
    using proto_release_pending [of "{t}" X k3 t] k3 q0(1) assms(2) by (simp_all add: k4_def t2)
  note r4 = vt_release_holder [OF s3, of t t, folded k4_def]
  have c4: "v_serving (vt k4 t) \<noteq> 0 \<Longrightarrow> v_cap (vt k4 t) \<noteq> 0"
    using r4(7) k3 q0(2) by (simp add: t2)
  have n4: "\<not> is_queued t k4"
    using is_queued_release_holder [OF s3, of t t] k3 by (auto simp: k4_def)
  have ct: "v_cap (vt k4 t) \<noteq> t"
    using kinvD(3) [OF i4(1)] i4(2) assms(2) unfolding proto_ok_def caps_ok_def by metis
  have a: "kinv {t} X k5" "v_cap (vt k5 t) = 0" "v_serving (vt k5 t) = 0"
    and f: "\<And>g. (\<And>x c s. g (x\<lparr>v_cap := c, v_serving := s\<rparr>) = g x) \<Longrightarrow> g (vt k5 t) = g (vt k4 t)"
    using abort_served_props [OF i4(1) assms(2), folded k5_def] ct c4 by auto
  have "v_state (vt k5 t) = v_state (vt k t)" "v_send (vt k5 t) = None" "v_wait (vt k5 t) = None" "\<not> v_timed (vt k5 t)"
    "v_holder (vt k5 t) = 0" "v_held (vt k5 t) = 0"
    using f [of v_state] f [of v_send] f [of v_wait] f [of v_timed] f [of v_holder] f [of v_held] r4 k3 i4(2)
    by (simp_all add: t2)
  note t5 = this
  have "\<not> is_queued t k5"
  proof -
    have rc: "reply_cap (tasks k4 t) = v_cap (vt k4 t)"
      by (simp add: v_tasks_view task_view_def)
    have "v_cap (vt k4 t) = 0 \<or> rc_caller_task (tasks k4 (v_cap (vt k4 t))) \<noteq> t"
      using cap_caller(7) [OF i4(1) assms(2) refl] ct by fastforce
    then show ?thesis
      using is_queued_abort_served [of t k4 t] n4 by (auto simp: k5_def rc abort_served_def)
  qed
  moreover have "nstate_ok k5" "v_send (vt k5 t) = None"
    using a(1) t5 by (simp_all add: kinv_def queues_ok_def)
  ultimately have n5: "node (tasks k5 t) = None"
    by (cases "node (tasks k5 t)"; cases "the (node (tasks k5 t))") (auto simp: is_queued_def v_tasks_view task_view_def)
  let ?X = "with_dying (JoinQ t) X" and ?f = "\<lambda>x. x\<lparr>v_state := TASK_STATE_ZOMBIE\<rparr>"
  have v: "view (ended t status k) = v_upd t ?f (view k5)"
    unfolding eq by (rule view_upd_task) simp
  have nd: "t \<notin> v_doomed (view k5)"
    using kinvD(3) [OF a(1)] t5(1) assms(4) by (auto simp: proto_ok_def pins_ok_def may_state_def)
  have i5: "kinv {t} ?X k5"
    using a(1) by (rule kinv_with_dying)
  have "proto_ok {} ?X (v_upd t ?f (view k5))"
    using kinvD(3) [OF i5]
    by (rule proto_change_gen)
       (use assms(2,3,5) t5 a nd in \<open>auto simp: same_ties_def state_ok_def unlinked_view_def may_state_def depends_on_def\<close>)
  moreover have "sched_ok {} ?X (ended t status k)"
    unfolding eq by (rule sched_set_state) (use i5 n5 in \<open>simp_all add: kinv_sched\<close>)
  ultimately have "kinv {} ?X (ended t status k)"
    by (simp add: kinv_sched v)
  then show ?thesis
    by (rule kinv_pin) (simp_all add: v)
qed

end
