(* ===== verification/Links_Reap.thy ===== *)
theory Links_Reap
  imports Links_Life
begin

text \<open>Destroying tasks and spaces, faults and freezing: all of it keeps the invariant.\<close>

section \<open>Leaving the space\<close>

definition with_outside :: "TaskPtr \<Rightarrow> Scope \<Rightarrow> Scope" where
  "with_outside t X = X\<lparr>outside := insert t (outside X)\<rparr>"

lemma with_outside_sel [simp]:
  "freezing (with_outside t X) = freezing X" "dying (with_outside t X) = dying X" "pinned (with_outside t X) = pinned X"
  "outside (with_outside t X) = insert t (outside X)" "resting (with_outside t X) = resting X" "at_cpu (with_outside t X) = at_cpu X"
  by (simp_all add: with_outside_def)

lemma kinv_not_outside: "kinv E (with_outside t X) k \<Longrightarrow> kinv E X k"
  using scope_freezing(1) [of "with_outside t X" X] scope_pinned(1) [of "with_outside t X" X]
  by (auto simp: kinv_def proto_ok_def live_ok_def members_ok_def)

lemma proto_members_shrink:
  assumes "proto_ok E X v" "v' = v\<lparr>v_members := m\<rparr>" "members_ok Y v'" "\<And>sp. set (m sp) \<subseteq> set (v_members v sp)"
    and "dying Y = dying X" "pinned Y = pinned X" "freezing Y = freezing X" "resting Y = resting X" "at_cpu Y = at_cpu X"
  shows "proto_ok E Y v'"
proof -
  have "running_ok E v'"
    using assms(1,4) unfolding proto_ok_def running_ok_def assms(2) by auto
  moreover have "q_live v' q = q_live v q" for q
    by (cases q) (simp_all add: assms(2))
  then have "live_ok Y v'"
    using assms(1) unfolding proto_ok_def live_ok_def assms(5) by (simp add: assms(2))
  moreover have "pins_ok Y v'"
    using assms(1) unfolding proto_ok_def pins_ok_def may_state_def assms(6-9) by (simp add: assms(2))
  ultimately show ?thesis
    using assms(1,3) unfolding proto_ok_def caps_ok_def servers_ok_def parked_ok_def by (simp add: assms(2))
qed

lemma kinv_leave_space:
  assumes "sched_ok {t} X k" "proto_ok {} X (view k)" "sp = owner (tasks k t)"
  defines "k' \<equiv> k\<lparr>space_tasks := (space_tasks k)(sp := remove1 t (space_tasks k sp))\<rparr>"
  shows "kinv {} (with_outside t X) k'"
proof -
  have sp: "sp = v_owner (vt k t)"
    by (simp add: assms(3) v_tasks_view task_view_def)
  have m: "distinct (v_members (view k) s)" "u \<in> set (v_members (view k) s) \<Longrightarrow> v_owner (vt k u) = s \<and> u \<notin> outside X \<and> u \<noteq> idle_task" for s u
    using assms(2) unfolding proto_ok_def members_ok_def by blast+
  let ?m = "(v_members (view k))(sp := remove1 t (v_members (view k) sp))"
  have st: "space_tasks k = v_members (view k)"
    by (simp add: view_def)
  have v: "view k' = (view k)\<lparr>v_members := ?m\<rparr>"
    by (simp add: k'_def st)
  have ne: "u \<noteq> t" if "u \<in> set (?m s)" for u s
    using that m(1) [of s] m(2) [of t s] sp by (auto split: if_splits)
  have sub: "set (?m s) \<subseteq> set (v_members (view k) s)" for s
    by (cases "s = sp") (simp_all add: set_remove1_subset)
  have "distinct (?m s) \<and> (\<forall>u \<in> set (?m s). v_owner (vt k u) = s \<and> u \<notin> outside (with_outside t X) \<and> u \<noteq> idle_task)" for s
  proof (intro conjI ballI)
    show "distinct (?m s)"
      using m(1) by (simp add: distinct_remove1)
    fix u
    assume u: "u \<in> set (?m s)"
    then show "v_owner (vt k u) = s" "u \<notin> outside (with_outside t X)" "u \<noteq> idle_task"
      using m(2) [of u s] sub [of s] ne [OF u] by auto
  qed
  then have "members_ok (with_outside t X) (view k')"
    unfolding v members_ok_def by simp
  then have "proto_ok {} (with_outside t X) (view k')"
    by (rule proto_members_shrink [OF assms(2) v]) (simp_all add: sub del: fun_upd_apply)
  moreover
  have q: "queues_ok k'"
    using assms(1) by (simp add: k'_def sched_ok_def queues_ok_def queue_defs)
  have ms: "member_of s k' \<longleftrightarrow> member_of s k \<and> s \<noteq> t" for s
    using m(1) [of sp] sp by (auto simp: member_of_def k'_def st v_tasks_view task_view_def)
  have "ready_ok {} (with_outside t X) k'"
    using assms(1) unfolding sched_ok_def ready_ok_def must_run_def must_not_run_def ms
    by (auto simp: k'_def is_frozen_def is_queued_def)
  ultimately show ?thesis
    using q by (simp add: kinv_def)
qed

lemma state_ok_owner [simp]: "state_ok t (x\<lparr>v_owner := sp\<rparr>) = state_ok t x"
  by (cases "v_state x") (simp_all add: state_ok_def unlinked_view_def waiting_def calling_def)

lemma kinv_disown:
  assumes "kinv E X k" "t \<in> outside X"
  shows "kinv E X (upd_task t (\<lambda>x. x\<lparr>released := True, owner := 0\<rparr>) k)"
proof -
  let ?k = "upd_task t (\<lambda>x. x\<lparr>released := True, owner := 0\<rparr>) k"
  have v: "view ?k = v_upd t (\<lambda>x. x\<lparr>v_owner := 0\<rparr>) (view k)"
    by (rule view_upd_task) simp
  have p: "proto_ok E X (view k)" and q: "queues_ok k" and r: "ready_ok E X k"
    using assms(1) by (simp_all add: kinv_def)
  have out: "t \<notin> set (v_members (view k) s)" for s
    using p assms(2) unfolding proto_ok_def members_ok_def by blast
  have sel: "v_cap (vt ?k s) = v_cap (vt k s)" "v_holder (vt ?k s) = v_holder (vt k s)" "v_serving (vt ?k s) = v_serving (vt k s)"
    "v_held (vt ?k s) = v_held (vt k s)" "v_slot (vt ?k s) = v_slot (vt k s)" "v_state (vt ?k s) = v_state (vt k s)"
    "v_susp (vt ?k s) = v_susp (vt k s)" "depends_on (vt ?k s) = depends_on (vt k s)" for s
    by (simp_all add: v depends_on_def)
  have other: "v_servers (view ?k) = v_servers (view k)" "v_parked (view ?k) = v_parked (view k)" "v_members (view ?k) = v_members (view k)"
    "v_frozen (view ?k) = v_frozen (view k)" "v_current (view ?k) = v_current (view k)" "v_doomed (view ?k) = v_doomed (view k)"
    "v_palive (view ?k) = v_palive (view k)" "v_ealive (view ?k) = v_ealive (view k)" "v_torn (view ?k) = v_torn (view k)"
    "v_tables (view ?k) = v_tables (view k)"
    by (simp_all add: v)
  have "caps_ok (view ?k)" "servers_ok (view ?k)" "parked_ok (view ?k)" "pins_ok X (view ?k)"
    using p unfolding proto_ok_def caps_ok_def servers_ok_def parked_ok_def pins_ok_def may_state_def sel other by simp_all
  moreover have "members_ok X (view k)"
    using p by (simp add: proto_ok_def)
  then have "members_ok X (view ?k)"
    using out unfolding members_ok_def other by (auto simp: v)
  moreover have "running_ok E (view k)"
    using p by (simp add: proto_ok_def)
  then have "running_ok E (view ?k)"
    using out unfolding running_ok_def sel other by (auto simp: v)
  moreover have "q_live (view ?k) u = q_live (view k) u" for u
    by (cases u) (simp_all only: q_live.simps sel other)
  then have "live_ok X (view ?k)"
    using p unfolding proto_ok_def live_ok_def sel by simp
  moreover have "state_ok s (vt ?k s)" if "s \<noteq> 0" "s \<notin> E" for s
    using p that unfolding proto_ok_def by (cases "s = t") (simp_all add: v)
  moreover have "null_view (vt ?k 0)"
    using proto_null [OF p] by (simp add: v null_view_def unlinked_view_def)
  ultimately have "proto_ok E X (view ?k)"
    by (simp add: proto_ok_def)
  moreover have "queues_ok ?k"
    using q by (rule queues_ok_frame) (simp_all add: v)
  moreover have m: "member_of s ?k = member_of s k" for s
    using out by (auto simp: member_of_def upd_task_def view_def)
  have mt: "\<not> member_of t k"
    using out by (simp add: member_of_def view_def)
  have "must_run s ?k = must_run s k" "must_not_run X s ?k = must_not_run X s k" for s
    using m [of s] mt must_run_view [of ?k s k] must_not_run_view [of ?k s k]
    by (cases "s = t"; simp add: must_run_def must_not_run_def v)+
  then have "ready_ok E X ?k"
    using r by (simp add: ready_ok_def is_queued_upd_task)
  ultimately show ?thesis
    by (simp add: kinv_def)
qed

section \<open>Destroying a task\<close>

lemma links_TaskObjectUnregister [link_frame]: "links (TaskObjectUnregister t k) = links k"
  by (simp add: TaskObjectUnregister_def Let_def link_frame)

lemma links_TcbSlotFree [link_frame]: "links (TcbSlotFree sp slot k) = links k"
  by (simp add: TcbSlotFree_def link_frame)

lemma links_zero_tcb [link_frame]: "links (zero_tcb pa k) = links k"
  by (simp add: zero_tcb_def link_frame)

lemmas kinv_tcb [simp] = links_TaskObjectUnregister [THEN kinv_links] links_TcbSlotFree [THEN kinv_links] links_zero_tcb [THEN kinv_links]

lemma keeps_SpaceFinalize [intro]: "keeps (SpaceFinalize sp)"
  unfolding keeps_def SpaceFinalize_def
  by (intro allI impI opt_all_if opt_all_bind [where P = "kinv {} _"] keepsD [OF keeps_event(6)]) simp_all

lemma state_ok_unlinked:
  assumes "state_ok t x" "v_state x \<noteq> TASK_STATE_BLOCKED"
  shows "unlinked_view x" "v_off x = x"
proof -
  show u: "unlinked_view x"
    using assms by (cases "v_state x") (simp_all add: state_ok_def)
  then show "v_off x = x"
    by (cases x) (simp add: v_off_def unlinked_view_def)
qed

lemma TaskDestroy_keeps:
  assumes "kinv {} X k" "v_state (vt k t) \<noteq> TASK_STATE_BLOCKED"
  shows "opt_all (kinv {} X) (TaskDestroy t k)"
proof (cases "t = 0 \<or> released (tasks k t)")
  case True
  then show ?thesis
    using assms(1) by (auto simp: TaskDestroy_def)
next
  case False
  let ?Y = "with_outside t X"
  have t: "t \<noteq> 0"
    using False by blast
  have s: "sched_ok {} X k"
    using assms(1) by (simp add: kinv_sched)
  note u = TaskUnlinkWaits_props [OF s t]
  have vu: "view (TaskUnlinkWaits t k) = view k"
    unfolding u(2) using state_ok_unlinked(2) [OF kinv_state [OF assms(1) t]] assms(2) by (intro v_upd_same) simp
  show ?thesis
    unfolding TaskDestroy_def
    apply (rule opt_all_if)
    subgoal
      using False by blast
    apply (intro opt_all_let)
    subgoal premises e for k1 k2 k3 sp k4 k5 slot k6 k7 k8
    proof -
      have "links k3 = links k1"
        by (simp add: e(3,4) link_frame)
      then have "sched_ok {t} X k3" "proto_ok {} X (view k3)"
        using u(1) kinvD(3) [OF assms(1)] sched_ok_links [of k3 k1] linksD(1) [of k3 k1] vu by (simp_all add: e(2))
      then have "kinv {} ?Y k4"
        unfolding e(6) by (rule kinv_leave_space) (rule e(5))
      then have "kinv {} ?Y k5"
        by (simp add: e(7))
      then have "kinv {} ?Y k6"
        by (simp add: e(9))
      then have "kinv {} ?Y k7"
        by (simp add: e(10))
      then have "kinv {} ?Y k8"
        by (simp add: e(11))
      then have f: "opt_all (kinv {} ?Y) (if sp \<noteq> NULL \<and> torn_down (spaces k8 sp) \<and> space_tasks k8 sp = [] then SpaceFinalize sp k8 else Some k8)"
        using keepsD [OF keeps_SpaceFinalize] by simp
      have d: "kinv {} X (if ref_count (tasks (upd_task t (\<lambda>x. x\<lparr>released := True, owner := NULL\<rparr>) k) t) = 0
          then upd_task t (\<lambda>x. x\<lparr>released := True, owner := NULL\<rparr>) k\<lparr>freed := l\<rparr>
          else upd_task t (\<lambda>x. x\<lparr>released := True, owner := NULL\<rparr>) k)" if "kinv {} ?Y k" for k l
        using kinv_not_outside [OF kinv_disown [OF that, of t]] by simp
      show ?thesis
        by (rule opt_all_bind [OF f], rule opt_all_bind [where P = "kinv {} ?Y"], rule keepsD [OF keeps_event(6)])
           (simp_all only: Let_def opt_all_simps d)
    qed
    done
qed

section \<open>Terminating a task\<close>

lemma pin_with_dying: "pin t s (with_dying q X) = with_dying q (pin t s X)"
  by (simp add: pin_def with_dying_def)

lemma links_SetExitResult [link_frame]: "links (SetExitResult t v out k) = links k"
  by (simp add: SetExitResult_def link_frame)

lemma WakeWaiters_props:
  assumes "kinv {} X k"
  shows "kinv {} X (WakeWaiters q v out k)" "v_wait (vt (WakeWaiters q v out k) s) \<noteq> Some q"
  using drain_queue [OF wakes_unblock_add [where h = "\<lambda>t. SetExitResult t v out"] assms, where q = q]
  by (simp_all add: WakeWaiters_def link_frame)

lemma kinv_WakeWaitList: "kinv {} X k \<Longrightarrow> kinv {} X (WakeWaitList q v k)"
  by (simp add: WakeWaitList_def WakeWaiters_props)

lemma kinv_SchedQueueDestroyTask:
  assumes "kinv E X k" "v_state (vt k t) = TASK_STATE_ZOMBIE"
  shows "kinv E X (SchedQueueDestroyTask t k)"
proof (cases "t = 0 \<or> t \<in> set (task_destroy_queue k)")
  case True
  then show ?thesis
    using assms(1) by (auto simp: SchedQueueDestroyTask_def)
next
  case False
  let ?k = "k\<lparr>task_destroy_queue := task_destroy_queue k @ [t]\<rparr>"
  have v: "view ?k = (view k)\<lparr>v_doomed := insert t (v_doomed (view k))\<rparr>"
    by simp (simp add: view_def)
  have p: "proto_ok E X (view k)"
    using assms(1) by (simp add: kinv_def)
  have "pins_ok X (view ?k)"
    using p assms(2) False unfolding proto_ok_def pins_ok_def may_state_def v by auto
  moreover have "q_live (view ?k) q = q_live (view k) q" for q
    by (cases q) (simp_all add: v)
  then have "live_ok X (view ?k)"
    using p unfolding proto_ok_def live_ok_def by (simp add: v)
  ultimately have "proto_ok E X (view ?k)"
    using p unfolding proto_ok_def caps_ok_def servers_ok_def parked_ok_def members_ok_def running_ok_def by (simp add: v)
  moreover have "queues_ok ?k"
    using kinvD(1) [OF assms(1)] by (rule queues_ok_frame) (simp_all add: v)
  moreover have "ready_ok E X ?k"
    using kinvD(2) [OF assms(1)] by (rule ready_ok_frame) (simp_all add: v)
  ultimately show ?thesis
    using False by (simp add: SchedQueueDestroyTask_def kinv_def)
qed

lemma TaskTerminate_keeps:
  assumes "kinv {} X k" "t \<noteq> 0" "pinned X t = None" "v_state (vt k t) \<noteq> TASK_STATE_ZOMBIE" "t \<noteq> idle_task"
  shows "opt_all (kinv {} (pin t TASK_STATE_ZOMBIE X)) (TaskTerminate t status k)"
proof -
  let ?Z = "pin t TASK_STATE_ZOMBIE X"
  let ?Y = "with_dying (JoinQ t) ?Z"
  have fin: "opt_all (kinv {} ?Z) (if h then Some (WakeWaitList (JoinQ t) status k)
      else if t = current_task (WakeWaitList (JoinQ t) status k) then Some (SchedQueueDestroyTask t (WakeWaitList (JoinQ t) status k))
      else TaskDestroy t (WakeWaitList (JoinQ t) status k))" if k: "kinv {} ?Y k" for k h
  proof -
    note w = WakeWaiters_props [OF k, of "JoinQ t" status TASK_EXITED, folded WakeWaitList_def]
    have i: "kinv {} ?Z (WakeWaitList (JoinQ t) status k)"
      using w(1) by (rule kinv_undying) (simp add: depends_wait w(2))
    then have "v_state (vt (WakeWaitList (JoinQ t) status k) t) = TASK_STATE_ZOMBIE"
      by (rule kinv_pinned) simp
    then show ?thesis
      using i kinv_SchedQueueDestroyTask [OF i] TaskDestroy_keeps [OF i] by simp
  qed
  show ?thesis
    unfolding TaskTerminate_def
    apply (rule opt_all_if)
    subgoal
      using assms(2) by blast
    apply (intro opt_all_let)
    subgoal premises e for sp es k1 k2 k3 k4 k5 k6
    proof -
      have "k6 = ended t status k"
        by (simp only: ended_def Let_def e(4-9))
      then have k6: "kinv {} ?Y k6"
        using ended_props [OF assms] by (simp add: pin_with_dying)
      show ?thesis
        apply (rule opt_all_bind [where P = "kinv {} ?Y"])
        subgoal
          using keepsD [OF keeps_event(5) k6] .
        apply (intro opt_all_let)
        subgoal premises f for k7 k8 h
        proof -
          have "kinv {} ?Y k8"
            using f(1) by (simp add: f(2))
          then have "opt_all (kinv {} ?Y) (if h \<and> \<not> torn_down (spaces k8 sp)
             then ObserverNotify (ObsSpace sp) (WakeWaitList (SpaceQ sp) status (upd_space sp (\<lambda>x. x\<lparr>last_exit_status := status\<rparr>) k8))
             else Some k8)"
            using keepsD [OF keeps_event(5) kinv_WakeWaitList] by simp
          then show ?thesis
            by (rule opt_all_bind) (simp only: Let_def fin)
        qed
        done
    qed
    done
qed

lemma TaskTerminate_kinv:
  assumes "kinv {} X k" "pinned X t = None" "v_state (vt k t) \<noteq> TASK_STATE_ZOMBIE" "t \<noteq> idle_task"
  shows "opt_all (kinv {} X) (TaskTerminate t status k)"
proof (cases "t = 0")
  case True
  then show ?thesis
    using assms(1) by (simp add: TaskTerminate_def)
next
  case False
  show ?thesis
    by (rule opt_all_mono [OF TaskTerminate_keeps [OF assms(1) False assms(2-4)]]) (rule kinv_unpin [OF _ assms(2)])
qed

lemma TaskUnref_keeps [intro]: "keeps (TaskUnref t)"
  unfolding keeps_def
proof (intro allI impI)
  fix X k
  assume k: "kinv {} X k"
  let ?k = "if ref_count (tasks k t) > 0 then upd_task t (\<lambda>x. x\<lparr>ref_count := ref_count x - 1\<rparr>) k else k"
  have "links (upd_task t (\<lambda>x. x\<lparr>ref_count := ref_count x - 1\<rparr>) k) = links k"
    by (rule links_upd_task) simp_all
  then have "kinv {} X ?k"
    using k kinv_links [of "upd_task t (\<lambda>x. x\<lparr>ref_count := ref_count x - 1\<rparr>) k" k] by simp
  then show "opt_all (kinv {} X) (TaskUnref t k)"
    using k TaskDestroy_keeps [of X ?k t] unfolding TaskUnref_def Let_def by (auto simp: state_view)
qed

end
