(* ===== verification/Links_Space.thy ===== *)
theory Links_Space
  imports Links_Reap
begin

text \<open>
  Freezing and unfreezing a space, releasing handles and destroying a space: operations over all the tasks
  or handles of a space, and the invariant.
\<close>

section \<open>Faults\<close>

definition with_freezing :: "SpacePtr \<Rightarrow> Scope \<Rightarrow> Scope" where
  "with_freezing sp X = X\<lparr>freezing := insert sp (freezing X)\<rparr>"

lemma with_freezing_sel [simp]:
  "freezing (with_freezing sp X) = insert sp (freezing X)" "dying (with_freezing sp X) = dying X"
  "pinned (with_freezing sp X) = pinned X" "outside (with_freezing sp X) = outside X" "resting (with_freezing sp X) = resting X" "at_cpu (with_freezing sp X) = at_cpu X"
  by (simp_all add: with_freezing_def)

lemma kinv_freeze:
  assumes "kinv {} X k" "\<And>s. s \<noteq> 0 \<Longrightarrow> v_state (vt k s) \<noteq> TASK_STATE_RUNNING"
  shows "kinv {} (with_freezing sp X) (upd_space sp (\<lambda>x. x\<lparr>frozen := True\<rparr>) k)"
proof -
  let ?k = "upd_space sp (\<lambda>x. x\<lparr>frozen := True\<rparr>) k" and ?Y = "with_freezing sp X"
  have "(v_torn (view k))(sp := torn_down (spaces k sp)) = v_torn (view k)"
    "(v_tables (view k))(sp := handle_table (spaces k sp)) = v_tables (view k)"
    by (simp_all add: view_def fun_eq_iff)
  then have v: "view ?k = (view k)\<lparr>v_frozen := (v_frozen (view k))(sp := True)\<rparr>"
    by simp
  have p: "proto_ok {} X (view k)"
    using assms(1) by (simp add: kinv_def)
  have "q_live (view ?k) q = q_live (view k) q" for q
    unfolding v by (cases q) simp_all
  then have "live_ok ?Y (view ?k)"
    using p unfolding proto_ok_def live_ok_def by (simp add: v)
  moreover have "running_ok {} (view ?k)"
    using assms(2) unfolding running_ok_def v by auto
  moreover have "pins_ok ?Y (view ?k)"
    using p unfolding proto_ok_def pins_ok_def may_state_def v by simp
  ultimately have "proto_ok {} ?Y (view ?k)"
    using p scope_pinned(2) [of ?Y X] unfolding proto_ok_def caps_ok_def servers_ok_def parked_ok_def members_ok_def by (simp add: v)
  moreover have "queues_ok ?k"
    using kinvD(1) [OF assms(1)] by (rule queues_ok_frame) (simp_all add: v)
  moreover have "ready_ok {} ?Y ?k"
    using kinvD(2) [OF assms(1)]
    by (auto simp: ready_ok_def must_run_def must_not_run_def member_of_def is_frozen_def is_queued_def upd_space_def split: if_splits)
  ultimately show ?thesis
    by (simp add: kinv_def)
qed

lemma kinv_frozen:
  assumes "kinv E (with_freezing sp X) k" "\<And>t. t \<in> set (space_tasks k sp) \<Longrightarrow> \<not> is_queued t k"
  shows "kinv E X k"
proof -
  have m: "t \<in> set (space_tasks k sp)" if "member_of t k" "owner (tasks k t) = sp" for t
    using that by (simp add: member_of_def)
  have "ready_ok E X k"
    using assms m unfolding kinv_def ready_ok_def must_not_run_def with_freezing_sel by blast
  moreover have "pins_ok X (view k)"
    using assms(1) unfolding kinv_def proto_ok_def pins_ok_def may_state_def with_freezing_sel by blast
  ultimately show ?thesis
    using assms(1) scope_pinned(2) [of "with_freezing sp X" X] by (simp add: kinv_def proto_ok_def live_ok_def)
qed

lemma queued_state: "queues_ok k \<Longrightarrow> is_queued t k \<longleftrightarrow> state (tasks k t) = TASK_STATE_READY \<and> node (tasks k t) \<noteq> None"
  unfolding queues_ok_def nstate_ok_def is_queued_def
  by (metis NodeQ.exhaust TaskState.distinct(3) not_None_eq)

lemma kinv_freeze_one:
  assumes "kinv {} X k" "is_queued s k" "is_frozen s k"
  shows "kinv {} X (SchedRemoveRunQueue s k)" "view (SchedRemoveRunQueue s k) = view k"
proof -
  let ?k = "SchedRemoveRunQueue s k"
  have sc: "sched_ok {} X k"
    using assms(1) by (simp add: kinv_sched)
  have "v_send (vt k s) = None"
    using assms(2) by (auto simp: is_queued_def v_tasks_view task_view_def)
  then show v: "view ?k = view k"
    by (simp add: v_upd_same)
  have "is_frozen s ?k"
    using assms(3) member_frozen_view(2) [of ?k s k] v by simp
  then have "\<not> must_run s ?k"
    by (simp add: must_run_def)
  then have "sched_ok {} X ?k"
    using sched_SchedRemoveRunQueue(1) [OF sc, of s] ready_ok_drop [of s "{}" X ?k] by (simp add: sched_ok_def)
  then show "kinv {} X ?k"
    using assms(1) v by (simp add: kinv_sched)
qed

lemma freeze_loop_props:
  assumes "kinv {} X k" "\<And>s. s \<in> set ts \<Longrightarrow> is_frozen s k"
  shows "kinv {} X (freeze_loop t ts k)" "view (freeze_loop t ts k) = view k"
    "is_queued s (freeze_loop t ts k) \<Longrightarrow> is_queued s k \<and> (s \<in> set ts \<longrightarrow> s = t)"
proof -
  have "kinv {} X (freeze_loop t ts k) \<and> view (freeze_loop t ts k) = view k
      \<and> (\<forall>s. is_queued s (freeze_loop t ts k) \<longrightarrow> is_queued s k \<and> (s \<in> set ts \<longrightarrow> s = t))"
    using assms
  proof (induction ts arbitrary: k)
    case (Cons u ts)
    have q: "queues_ok k"
      using Cons.prems(1) by (simp add: kinv_def)
    define k1 where "k1 = (if u \<noteq> t \<and> is_queued u k then SchedRemoveRunQueue u k else k)"
    have k1: "kinv {} X k1" "view k1 = view k"
      using kinv_freeze_one [OF Cons.prems(1), of u] Cons.prems by (simp_all add: k1_def)
    have q1: "is_queued s k1 \<Longrightarrow> is_queued s k \<and> (s = u \<longrightarrow> u = t)" for s
      using sched_SchedRemoveRunQueue(2) [of "{}" X k u] Cons.prems(1)
      by (auto simp: k1_def kinv_sched is_queued_def node_SchedRemoveRunQueue split: if_splits)
    have "is_frozen s k1" if "s \<in> set ts" for s
      using Cons.prems(2) [of s] that member_frozen_view(2) [of k1 s k] k1(2) by simp
    note IH = Cons.IH [OF k1(1) this]
    moreover have "freeze_loop t (u # ts) k = freeze_loop t ts k1"
      using queued_state [OF q, of u] by (simp add: k1_def)
    ultimately show ?case
      using k1(2) q1 by auto
  qed simp
  then show "kinv {} X (freeze_loop t ts k)" "view (freeze_loop t ts k) = view k"
    "is_queued s (freeze_loop t ts k) \<Longrightarrow> is_queued s k \<and> (s \<in> set ts \<longrightarrow> s = t)"
    by blast+
qed

lemma kinv_fault_state:
  assumes "kinv {} X k" "t \<noteq> 0" "v_state (vt k t) = TASK_STATE_RUNNING" "pinned X t = None"
  shows "kinv {} (pin t TASK_STATE_FAULTED (with_dying (JoinQ t) X))
    (upd_task t (\<lambda>x. x\<lparr>state := TASK_STATE_FAULTED, fault_reason := r\<rparr>) k)"
proof -
  let ?k = "upd_task t (\<lambda>x. x\<lparr>state := TASK_STATE_FAULTED\<rparr>) k" and ?X = "with_dying (JoinQ t) X"
  let ?k' = "upd_task t (\<lambda>x. x\<lparr>state := TASK_STATE_FAULTED, fault_reason := r\<rparr>) k"
  have "?k' = upd_task t (\<lambda>x. x\<lparr>fault_reason := r\<rparr>) ?k"
    by (simp add: upd_task_def)
  then have l: "links ?k' = links ?k"
    using links_upd_task [of "\<lambda>x. x\<lparr>fault_reason := r\<rparr>" t ?k] by simp
  have s: "state_ok t (vt k t)"
    using kinv_state [OF assms(1,2)] by simp
  have i: "kinv {} ?X k"
    using assms(1) by (rule kinv_with_dying)
  have nd: "t \<notin> v_doomed (view k)"
    using kinvD(3) [OF assms(1)] assms(3) by (auto simp: proto_ok_def pins_ok_def may_state_def)
  have v: "view ?k = v_upd t (\<lambda>x. x\<lparr>v_state := TASK_STATE_FAULTED\<rparr>) (view k)"
    by (rule view_upd_task) simp
  have "nstate_ok k"
    using assms(1) by (simp add: kinv_def queues_ok_def)
  then have n: "node (tasks k t) = None"
    using assms(3) unfolding nstate_ok_def state_view
    by (cases "node (tasks k t)"; cases "the (node (tasks k t))") (fastforce, fastforce, force, force)
  have "proto_ok {} ?X (view ?k)"
    unfolding v using kinvD(3) [OF i]
    by (rule proto_change_gen)
       (use assms(2-4) s nd kinv_not_idle [OF assms(1), of t] in \<open>auto simp: same_ties_def state_ok_def may_state_def dead_def unlinked_view_def depends_on_def\<close>)
  moreover have "sched_ok {} ?X ?k"
    by (rule sched_set_state) (use i n sched_ok_mono [of "{}" ?X k "{t}"] in \<open>simp_all add: kinv_sched\<close>)
  ultimately have "kinv {} ?X ?k"
    by (simp add: kinv_sched)
  then have "kinv {} (pin t TASK_STATE_FAULTED ?X) ?k"
    by (rule kinv_pin) (simp_all add: v)
  then show ?thesis
    using kinv_links [OF l] by simp
qed

lemma TaskFault_keeps:
  assumes "kinv {} X k" "t = current_task k" "t \<noteq> 0" "v_state (vt k t) = TASK_STATE_RUNNING" "pinned X t = None" "owner (tasks k t) \<noteq> 0"
  shows "opt_all (kinv {} X) (TaskFault t reason k)"
proof -
  let ?sp = "owner (tasks k t)"
  let ?Z = "pin t TASK_STATE_FAULTED X"
  let ?Y = "with_freezing ?sp ?Z"
  define k1 where "k1 = upd_task t (\<lambda>x. x\<lparr>state := TASK_STATE_FAULTED, fault_reason := reason\<rparr>) k"
  have sp: "owner (tasks k1 t) = ?sp"
    by (simp add: k1_def upd_task_def)
  have k1: "kinv {} (with_dying (JoinQ t) ?Z) k1"
    using kinv_fault_state [OF assms(1,3,4,5)] by (simp add: k1_def pin_with_dying)
  have "v_current (view k1) = t" "v_state (vt k1 t) = TASK_STATE_FAULTED"
    by (simp_all add: k1_def upd_task_def assms(2) view_def task_view_def)
  then have "v_state (vt k1 s) \<noteq> TASK_STATE_RUNNING" if "s \<noteq> 0" for s
    using kinvD(3) [OF k1] that unfolding proto_ok_def running_ok_def by force
  note f = kinv_freeze [OF k1 this, of ?sp]
  have Y: "with_freezing ?sp (with_dying (JoinQ t) ?Z) = with_dying (JoinQ t) ?Y"
    by (simp add: with_freezing_def with_dying_def)
  have fin: "kinv {} X (freeze_loop t (space_tasks (WakeWaiters (JoinQ t) reason TASK_FAULTED k) ?sp) (WakeWaiters (JoinQ t) reason TASK_FAULTED k))"
    if k: "kinv {} (with_dying (JoinQ t) ?Y) k" for k
  proof -
    define k' where "k' = WakeWaiters (JoinQ t) reason TASK_FAULTED k"
    note w = WakeWaiters_props [OF k, of "JoinQ t" reason TASK_FAULTED, folded k'_def]
    have i: "kinv {} ?Y k'"
      using w(1) by (rule kinv_undying) (simp add: depends_wait w(2))
    have p: "proto_ok {} ?Y (view k')"
      using i by (simp add: kinv_def)
    have fr: "is_frozen s k'" if "s \<in> set (space_tasks k' ?sp)" for s
    proof -
      have "v_frozen (view k') ?sp"
        using p by (simp add: proto_ok_def pins_ok_def)
      moreover have "v_owner (vt k' s) = ?sp"
        using p that unfolding proto_ok_def members_ok_def by (simp add: view_def)
      ultimately show ?thesis
        using assms(6) by (simp add: is_frozen_def view_def task_view_def)
    qed
    note l = freeze_loop_props [where t = t and ts = "space_tasks k' ?sp", OF i fr]
    let ?f = "freeze_loop t (space_tasks k' ?sp) k'"
    have "v_state (vt ?f t) = TASK_STATE_FAULTED"
      using kinv_pinned [OF l(1), of t] by simp
    then have nt: "\<not> is_queued t ?f"
      using queued_state [of ?f t] l(1) by (simp add: kinv_def state_view)
    have "space_tasks ?f = space_tasks k'"
      using viewD(18) [OF l(2)] .
    then have "\<not> is_queued s ?f" if "s \<in> set (space_tasks ?f ?sp)" for s
      using that l(3) nt by auto
    then have "kinv {} ?Z ?f"
      using kinv_frozen [OF l(1)] by blast
    then show ?thesis
      unfolding k'_def [symmetric] by (rule kinv_unpin [OF _ assms(5)])
  qed
  show ?thesis
    unfolding TaskFault_def Let_def k1_def [symmetric] sp
    by (rule opt_all_bind [where P = "kinv {} (with_dying (JoinQ t) ?Y)"])
       (use keepsD [OF keeps_event(5) f [unfolded Y]] fin in simp_all)
qed


section \<open>Unfreezing\<close>

lemma unfreeze_loop_props:
  assumes "sched_ok (set ts) X k" "proto_ok {} X (view k)" "idle_task \<notin> set ts"
  shows "kinv {} X (unfreeze_loop ts k)" "view (unfreeze_loop ts k) = view k"
proof -
  have "kinv {} X (unfreeze_loop ts k) \<and> view (unfreeze_loop ts k) = view k"
    using assms
  proof (induction ts arbitrary: k)
    case Nil
    then show ?case
      by (simp add: kinv_sched)
  next
    case (Cons t ts)
    define k1 where "k1 = (if state (tasks k t) = TASK_STATE_READY \<and> node (tasks k t) = None then SchedAdd t k else k)"
    have v: "view k1 = view k"
      by (simp add: k1_def SchedAdd_def)
    have q: "queues_ok k" and r: "ready_ok (insert t (set ts)) X k"
      using Cons.prems(1) by (simp_all add: sched_ok_def)
    have n: "nstate_ok k"
      using q by (simp add: queues_ok_def)
    have "queues_ok k1"
      using queues_ok_SchedEnqueue [OF q, of t False] q Cons.prems(3) by (auto simp: k1_def SchedAdd_def)
    moreover have "ready_ok (set ts) X k1"
    proof (cases "state (tasks k t) = TASK_STATE_READY \<and> node (tasks k t) = None")
      case True
      then show ?thesis
        using ready_ok_SchedEnqueue [OF r n] by (simp add: k1_def SchedAdd_def)
    next
      case False
      then show ?thesis
        using ready_ok_drop [OF r] queued_state [OF q, of t] by (auto simp: k1_def must_run_def)
    qed
    ultimately show ?case
      using Cons.IH [of k1] Cons.prems(2,3) v by (simp add: sched_ok_def k1_def [symmetric])
  qed
  then show "kinv {} X (unfreeze_loop ts k)" "view (unfreeze_loop ts k) = view k"
    by blast+
qed

lemma SpaceUnfreeze_props:
  assumes "kinv {} X k" "sp \<notin> freezing X"
  shows "kinv {} X (SpaceUnfreeze sp k)"
    "sp \<noteq> 0 \<Longrightarrow> view (SpaceUnfreeze sp k) = (view k)\<lparr>v_frozen := (v_frozen (view k))(sp := False)\<rparr>"
proof -
  let ?k = "upd_space sp (\<lambda>x. x\<lparr>frozen := False\<rparr>) k"
  have "(v_torn (view k))(sp := torn_down (spaces k sp)) = v_torn (view k)"
    "(v_tables (view k))(sp := handle_table (spaces k sp)) = v_tables (view k)"
    by (simp_all add: view_def fun_eq_iff)
  then have v: "view ?k = (view k)\<lparr>v_frozen := (v_frozen (view k))(sp := False)\<rparr>"
    by simp
  have p: "proto_ok {} X (view k)"
    using assms(1) by (simp add: kinv_def)
  have "q_live (view ?k) q = q_live (view k) q" for q
    unfolding v by (cases q) simp_all
  then have "live_ok X (view ?k)"
    using p unfolding proto_ok_def live_ok_def by (simp add: v)
  moreover have "running_ok {} (view ?k)"
    using p unfolding proto_ok_def running_ok_def v by auto
  moreover have "pins_ok X (view ?k)"
    using p assms(2) unfolding proto_ok_def pins_ok_def may_state_def v by auto
  ultimately have p': "proto_ok {} X (view ?k)"
    using p unfolding proto_ok_def caps_ok_def servers_ok_def parked_ok_def members_ok_def by (simp add: v)
  have "queues_ok ?k"
    using kinvD(1) [OF assms(1)] by (rule queues_ok_frame) (simp_all add: v)
  moreover have "ready_ok (set (space_tasks ?k sp)) X ?k"
    using kinvD(2) [OF assms(1)]
    by (auto simp: ready_ok_def must_run_def must_not_run_def member_of_def is_frozen_def is_queued_def upd_space_def split: if_splits)
  ultimately have s: "sched_ok (set (space_tasks ?k sp)) X ?k"
    by (simp add: sched_ok_def)
  have "idle_task \<notin> set (v_members (view ?k) sp)"
    using p' unfolding proto_ok_def members_ok_def by blast
  then have ni: "idle_task \<notin> set (space_tasks ?k sp)"
    by (simp add: view_def upd_space_def)
  show "kinv {} X (SpaceUnfreeze sp k)"
    using unfreeze_loop_props(1) [OF s p' ni] assms(1) by (simp add: SpaceUnfreeze_def Let_def)
  show "view (SpaceUnfreeze sp k) = (view k)\<lparr>v_frozen := (v_frozen (view k))(sp := False)\<rparr>" if "sp \<noteq> 0"
    using unfreeze_loop_props(2) [OF s p' ni] v that by (simp add: SpaceUnfreeze_def Let_def)
qed

section \<open>Releasing handles\<close>

lemma links_TaskRef [link_frame]: "links (TaskRef t k) = links k"
  using links_upd_task [of "\<lambda>x. x\<lparr>ref_count := ref_count x + 1\<rparr>" t k] by (simp add: TaskRef_def)

lemma links_SpaceRef [link_frame]: "links (SpaceRef sp k) = links k"
  by (simp add: SpaceRef_def link_frame)

lemma links_upd_irq [link_frame]: "links (upd_irq i f k) = links k"
  by (simp add: upd_irq_def link_frame)

lemma links_irq_lines [link_frame]:
  "links (ArchIrqMaskLine i k) = links k" "links (ArchIrqUnmaskLine i k) = links k" "links (ArchIrqRegister i k) = links k"
  by (simp_all add: ArchIrqMaskLine_def ArchIrqUnmaskLine_def ArchIrqRegister_def link_frame)

lemma links_MemObjRef [link_frame]: "links (MemObjRef m k) = links k"
  by (simp add: MemObjRef_def link_frame)

lemma links_free_pages [link_frame]: "links (free_pages m k) = links k"
  by (simp add: free_pages_def link_frame)

lemma links_ref_object [link_frame]: "links (ref_object ty ob k) = links k"
  by (cases ty) (simp_all add: ref_object_def link_frame)

lemmas kinv_object_frame [simp] = links_TaskRef [THEN kinv_links] links_SpaceRef [THEN kinv_links] links_upd_irq [THEN kinv_links]
  links_irq_lines [THEN kinv_links] links_MemObjRef [THEN kinv_links] links_free_pages [THEN kinv_links] links_ref_object [THEN kinv_links]

lemma links_mem_unref:
  "opt_all (\<lambda>k'. links k' = links k) (mem_unref n m k)" "opt_all (\<lambda>k'. links k' = links k) (mem_unref_maps n ds k)"
proof (induction n m k and n ds k rule: mem_unref_mem_unref_maps.induct)
  case (2 n m k)
  define k1 where "k1 = (if mem_ref_count (mems k m) > 0 then upd_mem m (\<lambda>x. x\<lparr>mem_ref_count := mem_ref_count x - 1\<rparr>) k else k)"
  have l: "links k1 = links k"
    by (simp add: k1_def link_frame)
  have "opt_all (\<lambda>k'. links k' = links k) (case mem_kind (mems k1 m) of
                    MEMKIND_SHARED \<Rightarrow> Some (free_pages m k1)
                  | MEMKIND_DEVICE \<Rightarrow> mem_unref_maps n (dev_dma_maps (mems k1 m)) k1
                  | MEMKIND_NONE \<Rightarrow> Some k1)" if "m \<noteq> 0" "mem_ref_count (mems k1 m) = 0"
    using 2 [OF _ k1_def] that l by (cases "mem_kind (mems k1 m)") (simp_all add: link_frame)
  then show ?case
    unfolding mem_unref.simps k1_def [symmetric] Let_def
    by (intro opt_all_if opt_all_bind [where P = "\<lambda>k'. links k' = links k"]) (simp_all add: l link_frame)
next
  case (4 n d ds k)
  have "opt_all (\<lambda>k''. links k'' = links k) (mem_unref_maps n ds k')" if "links k' = links k" "mem_unref n (dma_mem d) k = Some k'" for k'
    using 4 that by simp
  then show ?case
    using 4(1) by (cases "mem_unref n (dma_mem d) k") simp_all
qed simp_all

lemma keeps_MemObjUnref [intro]: "keeps (MemObjUnref m)"
  unfolding keeps_def MemObjUnref_def
  using opt_all_mono [OF links_mem_unref(1)] kinv_links by blast

lemma keeps_SpaceUnref [intro]: "keeps (SpaceUnref sp)"
  unfolding keeps_def SpaceUnref_def
  by (intro allI impI opt_all_if keepsD [OF keeps_SpaceFinalize]) simp_all

lemma keeps_IrqRelease [intro]: "keeps (IrqRelease sp i)"
  unfolding keeps_def IrqRelease_def Let_def
  by (intro allI impI opt_all_if opt_all_bind [where P = "kinv {} _"] keepsD [OF keeps_event(2)]) simp_all

lemma keeps_release_irqs: "keeps (release_irqs sp is)"
proof (induction "is")
  case (Cons i "is")
  show ?case
    unfolding keeps_def release_irqs.simps
    by (intro allI impI opt_all_bind [where P = "kinv {} _"] keepsD [OF keeps_IrqRelease] keepsD [OF Cons.IH])
qed (simp add: keeps_def)

lemma keeps_IrqReleaseAll [intro]: "keeps (IrqReleaseAll sp)"
  by (simp add: IrqReleaseAll_def keeps_release_irqs)

lemma keeps_release_object [intro]: "keeps (release_object sp i e)"
  unfolding keeps_def
proof (intro allI impI)
  fix X k
  assume k: "kinv {} X k"
  show "opt_all (kinv {} X) (release_object sp i e k)"
  proof (cases "he_type e")
    case HANDLE_MEM
    then show ?thesis
      unfolding release_object_def MemObjUnmapAndDrop_def
      unfolding HANDLE_MEM HandleType.case Let_def
      by (intro opt_all_bind [where P = "kinv {} X"] opt_all_if keepsD [OF keeps_MemObjUnref] keepsD [OF keeps_IrqRelease])
         (simp_all add: k)
  qed (use k in \<open>simp_all add: release_object_def keepsD [OF keeps_PortUnref] keepsD [OF keeps_event(2)]
         keepsD [OF TaskUnref_keeps] keepsD [OF keeps_SpaceUnref]\<close>)
qed

lemma kinv_table:
  assumes "kinv E X k" "tbl_good (handle_table (f (spaces k sp)))" "\<And>x. frozen (f x) = frozen x" "\<And>x. torn_down (f x) = torn_down x"
  shows "kinv E X (upd_space sp f k)"
proof -
  define k' where "k' = upd_space sp f k"
  have "(v_torn (view k))(sp := torn_down (spaces k sp)) = v_torn (view k)" "(v_frozen (view k))(sp := frozen (spaces k sp)) = v_frozen (view k)"
    by (simp_all add: view_def fun_eq_iff)
  then have v: "view k' = (view k)\<lparr>v_tables := (v_tables (view k))(sp := handle_table (f (spaces k sp)))\<rparr>"
    by (simp add: assms k'_def)
  have p: "proto_ok E X (view k)"
    using assms(1) by (simp add: kinv_def)
  have "q_live (view k') q = q_live (view k) q" for q
    unfolding v by (cases q) simp_all
  then have "live_ok X (view k')"
    using p unfolding proto_ok_def live_ok_def by (simp add: v)
  moreover have "pins_ok X (view k')"
    using p assms(2) unfolding proto_ok_def pins_ok_def may_state_def v by simp
  ultimately have "proto_ok E X (view k')"
    using p unfolding proto_ok_def caps_ok_def servers_ok_def parked_ok_def members_ok_def running_ok_def by (simp add: v)
  moreover have "queues_ok k'"
    using kinvD(1) [OF assms(1)] by (rule queues_ok_frame) (simp_all add: v, simp_all add: k'_def)
  moreover have "ready_ok E X k'"
    using kinvD(2) [OF assms(1)] by (rule ready_ok_frame) (simp_all add: v, simp_all add: k'_def)
  ultimately show ?thesis
    by (simp add: kinv_def k'_def)
qed

lemma kinv_tables: "kinv E X k \<Longrightarrow> tbl_good (handle_table (spaces k sp))"
  unfolding kinv_def proto_ok_def pins_ok_def by (simp add: view_def)

lemma entry_index_none: "blocks t ! (e div 64) = None \<or> e div 64 \<notin> set bs \<Longrightarrow> entry_index t e bs = 1024"
proof (induction bs)
  case (Cons b bs)
  have "e div 64 = b" if "b * 64 \<le> e" "e < b * 64 + 64"
    using that by (simp add: div_nat_eqI)
  then show ?case
    using Cons by (auto simp: slot_defs)
qed (simp add: slot_defs)

lemma HandleEntryFree_none:
  assumes "HandleTableGet t i = None"
  shows "HandleEntryFree t i = t"
proof -
  have "blocks t ! (i div 64) = None \<or> i div 64 \<notin> set [0..<HANDLE_MAX_BLOCKS]"
    using assms by (auto simp: HandleTableGet_def slot_defs split: if_splits option.splits)
  then have "HandleEntryIndex t i = 1024"
    unfolding HandleEntryIndex_def by (rule entry_index_none)
  then show ?thesis
    using assms by (simp add: HandleEntryFree_def Let_def slot_defs)
qed

lemma tbl_good_free:
  assumes "tbl_good t"
  shows "tbl_good (HandleEntryFree t i)"
proof (cases "HandleTableGet t i")
  case None
  then show ?thesis
    using assms by (simp add: HandleEntryFree_none)
next
  case (Some e)
  then have i: "i < 1024"
    by (simp add: HandleTableGet_def slot_defs split: if_splits)
  have t: "tbl_ok t" "tbl_shape t"
    using assms by (simp_all add: tbl_good_def tbl_ok_def)
  have "HandleTableGet (HandleEntryFree t i) j = (if j = i then Some (zero_entry\<lparr>generation := (generation e + 1) AND HANDLE_GEN_MASK\<rparr>)
      else HandleTableGet t j)" for j
    unfolding HandleEntryFree_eq [OF Some i] by (subst Get_put_entry) (simp_all add: t Some)
  then show ?thesis
    using assms free_slot(1) [OF t(1) i Some] by (auto simp: tbl_good_def names_object_def)
qed

lemma test_BitmapZero:
  assumes "j < nbits" "nbits \<le> length ws * 32"
  shows "\<not> BitmapTest (BitmapZero ws nbits) j"
proof -
  have "fold (\<lambda>w ws. ws[w := 0]) xs ws ! i = (if i \<in> set xs then 0 else ws ! i)" if "i < length ws" for xs i and ws :: "u32 list"
    using that by (induction xs arbitrary: ws) (auto simp: nth_list_update)
  moreover have "j div 32 < length ws" "j div 32 < BITMAP_WORDS nbits"
    using assms by (auto simp: BITMAP_WORDS_def)
  ultimately show ?thesis
    by (simp add: BitmapTest_def BitmapZero_def)
qed

lemma tbl_good_destroy:
  assumes "tbl_good t"
  shows "tbl_good (HandleTableDestroy t)"
proof -
  have l: "length (blocks t) = 16" "length (slot_bitmap t) = 32"
    using assms by (simp_all add: tbl_good_def tbl_ok_def tbl_shape_def)
  have g: "HandleTableGet (HandleTableDestroy t) i = None" for i
    using l by (simp add: HandleTableGet_def HandleTableDestroy_def slot_defs)
  have "length (slot_bitmap (HandleTableDestroy t)) = 32" "\<not> BitmapTest (slot_bitmap (HandleTableDestroy t)) i" if "i < 1024" for i
    using l that test_BitmapZero [of i 1024 "slot_bitmap t"] by (simp_all add: HandleTableDestroy_def slot_defs)
  then show ?thesis
    using l g unfolding tbl_good_def tbl_ok_def tbl_shape_def slot_ok_def
    by (auto simp: HandleTableDestroy_def slot_defs)
qed

lemma kinv_table_free [simp]: "kinv E X k \<Longrightarrow> kinv E X (upd_space sp (\<lambda>x. x\<lparr>handle_table := HandleEntryFree (handle_table x) i\<rparr>) k)"
  "kinv E X k \<Longrightarrow> kinv E X (upd_space sp (\<lambda>x. x\<lparr>handle_table := HandleTableDestroy (handle_table x)\<rparr>) k)"
  by (rule kinv_table; simp add: tbl_good_free tbl_good_destroy kinv_tables)+

lemma keeps_HandleRelease [intro]: "keeps (HandleRelease sp i e)"
  unfolding keeps_def HandleRelease_def
  by (intro allI impI opt_all_if opt_all_bind [where P = "kinv {} _"] keepsD [OF keeps_release_object])
     (auto intro: kinv_table_free)

lemma keeps_release_handles: "keeps (release_handles sp is)"
proof (induction "is")
  case (Cons i "is")
  show ?case
    unfolding keeps_def
  proof (intro allI impI)
    fix X k
    assume k: "kinv {} X k"
    show "opt_all (kinv {} X) (release_handles sp (i # is) k)"
    proof (cases "HandleTableGet (handle_table (spaces k sp)) i")
      case None
      then show ?thesis
        using keepsD [OF Cons.IH k] by simp
    next
      case (Some e)
      show ?thesis
        unfolding release_handles.simps Some option.case
        by (intro opt_all_if opt_all_bind [where P = "kinv {} X"] keepsD [OF keeps_HandleRelease] keepsD [OF Cons.IH]
             keepsD [OF keeps_PortKill] keepsD [OF keeps_event(3)]) (simp_all add: k)
    qed
  qed
qed (simp add: keeps_def)

section \<open>Destroying a space\<close>

lemma keeps_destroy_tasks:
  assumes "kinv {} X k" "\<And>t. t \<in> set ts \<Longrightarrow> pinned X t = None \<and> t \<noteq> idle_task"
  shows "opt_all (kinv {} X) (destroy_tasks ts k)"
  using assms
proof (induction ts arbitrary: k)
  case (Cons t ts)
  have k: "kinv {} X (TaskRef t k)"
    using Cons.prems(1) by simp
  have pn: "pinned X t = None" and ni: "t \<noteq> idle_task"
    using Cons.prems(2) by simp_all
  show ?case
  proof (cases "t = 0")
    case True
    then show ?thesis
      unfolding destroy_tasks.simps Let_def
      by (intro opt_all_bind [where P = "kinv {} X"] opt_all_if Cons.IH keepsD [OF TaskUnref_keeps])
         (use Cons.prems k in \<open>simp_all add: TaskTerminate_def TaskDestroy_def SchedQueueDestroyTask_def\<close>)
  next
    case False
    let ?Z = "pin t TASK_STATE_ZOMBIE X"
    have a: "opt_all (kinv {} ?Z) (if state (tasks (TaskRef t k) t) \<noteq> TASK_STATE_ZOMBIE
        then TaskTerminate t (err_code ERR_DEAD) (TaskRef t k) else Some (TaskRef t k))"
      using TaskTerminate_keeps [OF k False pn _ ni] kinv_pin [OF k, of t TASK_STATE_ZOMBIE] by (simp add: state_view)
    have b: "opt_all (kinv {} ?Z) (if t \<noteq> current_task k' then TaskDestroy t k' else Some (SchedQueueDestroyTask t k'))"
      if "kinv {} ?Z k'" for k'
    proof -
      have "v_state (vt k' t) = TASK_STATE_ZOMBIE"
        using that by (rule kinv_pinned) simp
      then show ?thesis
        using TaskDestroy_keeps [OF that, of t] kinv_SchedQueueDestroyTask [OF that, of t] by (intro opt_all_if) simp_all
    qed
    have c: "opt_all (kinv {} X) (TaskUnref t k' \<bind> destroy_tasks ts)" if "kinv {} ?Z k'" for k'
      by (rule opt_all_bind [OF keepsD [OF TaskUnref_keeps that]])
         (rule Cons.IH, rule kinv_unpin [OF _ pn], use Cons.prems(2) in simp_all)
    show ?thesis
      unfolding destroy_tasks.simps Let_def by (rule opt_all_bind [OF a], rule opt_all_bind [OF b], assumption, rule c)
  qed
qed simp

lemma kinv_space_dies:
  assumes "kinv {} X k"
  shows "kinv {} (with_dying (SpaceQ sp) X) (upd_space sp (\<lambda>x. x\<lparr>torn_down := True, sp_ref_count := sp_ref_count x + 1\<rparr>) k)"
proof -
  let ?k = "upd_space sp (\<lambda>x. x\<lparr>torn_down := True, sp_ref_count := sp_ref_count x + 1\<rparr>) k" and ?Y = "with_dying (SpaceQ sp) X"
  have tv: "(v_frozen (view k))(sp := frozen (spaces k sp)) = v_frozen (view k)"
    "(v_tables (view k))(sp := handle_table (spaces k sp)) = v_tables (view k)"
    by (simp_all add: view_def fun_eq_iff)
  then have v: "view ?k = (view k)\<lparr>v_torn := (v_torn (view k))(sp := True)\<rparr>"
    by simp
  have p: "proto_ok {} ?Y (view k)"
    using kinv_with_dying [OF assms] by (simp add: kinv_def)
  have "q_live (view k) q \<Longrightarrow> q_live (view ?k) q \<or> q \<in> dying ?Y" for q
    unfolding v by (cases q) (simp_all add: with_dying_def)
  then have "live_ok ?Y (view ?k)"
    using p unfolding proto_ok_def live_ok_def by (simp add: v) blast
  then have "proto_ok {} ?Y (view ?k)"
    using p unfolding proto_ok_def caps_ok_def servers_ok_def parked_ok_def members_ok_def running_ok_def pins_ok_def may_state_def v by simp
  moreover have "queues_ok ?k"
    using kinvD(1) [OF assms] by (rule queues_ok_frame) (simp_all add: v)
  moreover have "ready_ok {} ?Y ?k"
    using kinvD(2) [OF kinv_with_dying [OF assms]] by (rule ready_ok_frame) (simp_all add: v tv)
  ultimately show ?thesis
    by (simp add: kinv_def)
qed

lemma SpaceDestroy_keeps:
  assumes "kinv {} X k" "\<And>t. t \<in> set (space_tasks k sp) \<Longrightarrow> pinned X t = None"
  shows "opt_all (kinv {} X) (SpaceDestroy sp k)"
  unfolding SpaceDestroy_def
  apply (rule opt_all_if)
  subgoal
    using assms(1) by simp
  apply (intro opt_all_let)
  apply (rule opt_all_bind [where P = "kinv {} (with_dying (SpaceQ sp) X)"])
  subgoal premises e for k1
  proof -
    have "idle_task \<notin> set (v_members (view k) sp)"
      using kinvD(3) [OF assms(1)] unfolding proto_ok_def members_ok_def by blast
    then have "idle_task \<notin> set (space_tasks k sp)"
      by (simp add: view_def)
    then have "\<And>t. t \<in> set (space_tasks k sp) \<Longrightarrow> pinned (with_dying (SpaceQ sp) X) t = None \<and> t \<noteq> idle_task"
      using assms(2) by auto
    then show ?thesis
      using keeps_destroy_tasks [OF kinv_space_dies [OF assms(1)], of "space_tasks k sp" sp]
      by (simp add: e(2)) (simp add: upd_space_def)
  qed
  apply (intro opt_all_let)
  subgoal premises e for k1 k2 k3
  proof -
    note w = drain_queue [OF wakes_TaskAbortWait [where err = ERR_DEAD] e(3), where q = "SpaceQ sp"]
    have "kinv {} X k3"
      unfolding e(4) using w(1) by (rule kinv_undying) (simp add: depends_wait w(2))
    then show ?thesis
      by (intro opt_all_bind [where P = "kinv {} X"] keepsD [OF keeps_IrqReleaseAll] keepsD [OF keeps_release_handles])
         (simp_all add: Let_def keepsD [OF keeps_SpaceUnref])
  qed
  done

end
