(* ===== verification/Links_Sched.thy ===== *)
theory Links_Sched
  imports Links_Space 
begin

text \<open>
  The scheduler and the invariant: whatever the running task has done, \<open>Schedule\<close> leaves the kernel with
  everybody filed where they belong and either no current task or one that runs.
\<close>

section \<open>Between two tasks\<close>

definition at_rest :: "Scope \<Rightarrow> Scope" where
  "at_rest X = X\<lparr>resting := True\<rparr>"

lemma at_rest_sel [simp]:
  "freezing (at_rest X) = freezing X" "dying (at_rest X) = dying X" "pinned (at_rest X) = pinned X" "outside (at_rest X) = outside X"
  "resting (at_rest X)" "at_cpu (at_rest X) = at_cpu X"
  by (simp_all add: at_rest_def)

lemma proto_at_rest:
  assumes "proto_ok E X v" "\<And>t. t \<noteq> 0 \<Longrightarrow> v_state (v_tasks v t) \<noteq> TASK_STATE_RUNNING"
  shows "proto_ok E (at_rest X) v"
proof -
  have "pins_ok (at_rest X) v"
    using assms unfolding proto_ok_def pins_ok_def may_state_def by simp
  then show ?thesis
    using assms(1) scope_pinned(2) [of "at_rest X" X] unfolding proto_ok_def live_ok_def by simp
qed

lemma proto_not_at_rest:
  assumes "proto_ok E (at_rest X) v"
  shows "proto_ok E X v"
proof -
  have "pins_ok (at_rest X) v"
    using assms by (simp add: proto_ok_def)
  then have "pins_ok X v"
    by (simp add: pins_ok_def may_state_def)
  then show ?thesis
    using assms(1) scope_pinned(2) [of "at_rest X" X] unfolding proto_ok_def live_ok_def by simp
qed

lemma kinv_at_rest:
  "kinv E X k \<Longrightarrow> (\<And>t. t \<noteq> 0 \<Longrightarrow> v_state (vt k t) \<noteq> TASK_STATE_RUNNING) \<Longrightarrow> kinv E (at_rest X) k"
  "kinv E (at_rest X) k \<Longrightarrow> kinv E X k"
  using scope_freezing(1) [of "at_rest X" X E] proto_at_rest [of E X "view k"] proto_not_at_rest [of E X "view k"]
  by (simp_all add: kinv_def)

lemma only_current_runs:
  assumes "kinv E X k" "current_task k \<noteq> 0 \<Longrightarrow> v_state (vt k (current_task k)) \<noteq> TASK_STATE_RUNNING" "t \<noteq> 0"
  shows "v_state (vt k t) \<noteq> TASK_STATE_RUNNING"
proof
  assume "v_state (vt k t) = TASK_STATE_RUNNING"
  then have "t = v_current (view k)"
    using kinvD(3) [OF assms(1)] assms(3) unfolding proto_ok_def running_ok_def by blast
  then show False
    using \<open>v_state (vt k t) = TASK_STATE_RUNNING\<close> assms(2,3) by (simp add: view_def)
qed

lemma running_not_queued:
  assumes "queues_ok k" "v_state (vt k t) = TASK_STATE_RUNNING"
  shows "node (tasks k t) = None"
proof -
  have "nstate_ok k"
    using assms(1) by (simp add: queues_ok_def)
  then show ?thesis
    using assms(2) unfolding nstate_ok_def state_view
    by (cases "node (tasks k t)"; cases "the (node (tasks k t))") (fastforce, fastforce, force, force)
qed

section \<open>Putting the running task back\<close>

lemma stop_running:
  assumes "kinv {c} X k" "c \<noteq> 0" "state_ok c (vt k c)" "v_state (vt k c) = TASK_STATE_RUNNING" "pinned X c = None"
  defines "k1 \<equiv> upd_task c (\<lambda>x. x\<lparr>state := TASK_STATE_READY\<rparr>) k"
  shows "sched_ok {c} X k1" "proto_ok {} X (view k1)" "v_state (vt k1 c) = TASK_STATE_READY"
    "t \<noteq> 0 \<Longrightarrow> v_state (vt k1 t) \<noteq> TASK_STATE_RUNNING"
proof -
  have v: "view k1 = v_upd c (\<lambda>x. x\<lparr>v_state := TASK_STATE_READY\<rparr>) (view k)"
    unfolding k1_def by (rule view_upd_task) simp
  show "v_state (vt k1 c) = TASK_STATE_READY"
    by (simp add: v)
  have nd: "c \<notin> v_doomed (view k)"
    using kinvD(3) [OF assms(1)] assms(4) by (auto simp: proto_ok_def pins_ok_def may_state_def)
  have n: "node (tasks k c) = None"
    using kinvD(1) [OF assms(1)] assms(4) by (rule running_not_queued)
  show p: "proto_ok {} X (view k1)"
    unfolding v using kinvD(3) [OF assms(1)]
    by (rule proto_change_gen)
       (use assms(2-5) nd in \<open>auto simp: same_ties_def state_ok_def may_state_def dead_def unlinked_view_def depends_on_def\<close>)
  have "queues_ok k1"
    by (rule queues_ok_frame [OF kinvD(1) [OF assms(1)]]) (simp_all add: k1_def, use n v [unfolded k1_def] in auto)
  moreover have "ready_ok (insert c {c}) X k1"
    by (rule ready_ok_change [OF kinvD(2) [OF assms(1)]]) (simp_all add: v, simp_all add: k1_def is_queued_upd_task node_upd_task)
  ultimately show "sched_ok {c} X k1"
    by (simp add: sched_ok_def)
  show "v_state (vt k1 t) \<noteq> TASK_STATE_RUNNING" if "t \<noteq> 0"
  proof
    assume t: "v_state (vt k1 t) = TASK_STATE_RUNNING"
    have "c = v_current (view k)"
      using kinvD(3) [OF assms(1)] assms(2,4) unfolding proto_ok_def running_ok_def by blast
    moreover have "t = v_current (view k1)"
      using p t that unfolding proto_ok_def running_ok_def by blast
    ultimately show False
      using t by (simp add: v)
  qed
qed

lemma requeue_running:
  assumes "kinv {c} X k" "c \<noteq> 0" "state_ok c (vt k c)" "v_state (vt k c) = TASK_STATE_RUNNING" "pinned X c = None"
    and "links k2 = links (upd_task c (\<lambda>x. x\<lparr>state := TASK_STATE_READY\<rparr>) k)"
  shows "kinv {} (at_rest X) (SchedEnqueue c front k2)"
proof -
  note s = stop_running [OF assms(1-5)]
  have "sched_ok {c} X k2" and v: "view k2 = view (upd_task c (\<lambda>x. x\<lparr>state := TASK_STATE_READY\<rparr>) k)"
    using s(1) sched_ok_links [OF assms(6)] linksD(1) [OF assms(6)] by simp_all
  then have q: "queues_ok k2" "ready_ok {c} X k2" "nstate_ok k2"
    by (simp_all add: sched_ok_def queues_ok_def)
  have "state (tasks k2 c) = TASK_STATE_READY"
    using s(3) by (simp add: state_view v)
  then have "queues_ok (SchedEnqueue c front k2)"
    using queues_ok_SchedEnqueue [OF q(1), of c front] kinv_not_idle [OF assms(1), of c] assms(4) by simp
  moreover have "ready_ok {} (at_rest X) (SchedEnqueue c front k2)"
    using ready_ok_SchedEnqueue [OF q(2,3)] scope_freezing(1) [of "at_rest X" X "{}"] by simp
  moreover have "proto_ok {} (at_rest X) (view k2)"
    using s(2,4) unfolding v by (rule proto_at_rest)
  ultimately show ?thesis
    by (simp add: kinv_def)
qed


section \<open>Reaping\<close>

lemma kinv_doomed:
  assumes "kinv E X k" "\<And>t. t \<in> set l \<Longrightarrow> t \<noteq> 0 \<and> v_state (vt k t) = TASK_STATE_ZOMBIE"
  shows "kinv E X (k\<lparr>task_destroy_queue := l\<rparr>)"
proof -
  define k' where "k' = k\<lparr>task_destroy_queue := l\<rparr>"
  have v: "view k' = (view k)\<lparr>v_doomed := set l\<rparr>"
    by (simp add: k'_def)
  have p: "proto_ok E X (view k)"
    using assms(1) by (simp add: kinv_def)
  have "pins_ok X (view k)"
    using p by (simp add: proto_ok_def)
  then have "pins_ok X (view k')"
    using assms(2) by (simp add: pins_ok_def may_state_def v)
  moreover have "q_live (view k') q = q_live (view k) q" for q
    by (cases q) (simp_all add: v)
  then have "live_ok X (view k')"
    using p unfolding proto_ok_def live_ok_def by (simp add: v)
  ultimately have "proto_ok E X (view k')"
    using p unfolding proto_ok_def caps_ok_def servers_ok_def parked_ok_def members_ok_def running_ok_def by (simp add: v)
  moreover have "queues_ok k'"
    using kinvD(1) [OF assms(1)] by (rule queues_ok_frame) (simp_all add: v, simp_all add: k'_def)
  moreover have "ready_ok E X k'"
    using kinvD(2) [OF assms(1)] by (rule ready_ok_frame) (simp_all add: v, simp_all add: k'_def)
  ultimately show ?thesis
    by (simp add: kinv_def k'_def)
qed

definition pin_all :: "TaskPtr set \<Rightarrow> TaskState \<Rightarrow> Scope \<Rightarrow> Scope" where
  "pin_all ts s X = X\<lparr>pinned := (\<lambda>t. if t \<in> ts then Some s else pinned X t)\<rparr>"

lemma pin_all_sel [simp]:
  "freezing (pin_all ts s X) = freezing X" "dying (pin_all ts s X) = dying X" "outside (pin_all ts s X) = outside X"
  "resting (pin_all ts s X) = resting X" "at_cpu (pin_all ts s X) = at_cpu X"
  "pinned (pin_all ts s X) t = (if t \<in> ts then Some s else pinned X t)"
  by (simp_all add: pin_all_def)

lemma kinv_pin_all:
  assumes "\<And>t. t \<in> ts \<Longrightarrow> pinned X t = None \<or> pinned X t = Some s" "s \<noteq> TASK_STATE_BLOCKED"
  shows "kinv E X k \<Longrightarrow> (\<And>t. t \<in> ts \<Longrightarrow> v_state (vt k t) = s) \<Longrightarrow> kinv E (pin_all ts s X) k"
    "kinv E (pin_all ts s X) k \<Longrightarrow> kinv E X k"
proof -
  have "pins_ok X (view k) \<Longrightarrow> (\<And>t. t \<in> ts \<Longrightarrow> v_state (vt k t) = s) \<Longrightarrow> pins_ok (pin_all ts s X) (view k)"
    using assms(2) by (simp add: pins_ok_def may_state_def)
  moreover have "may_state X (view k) t (v_state (vt k t))" if "may_state (pin_all ts s X) (view k) t (v_state (vt k t))" for t
    using that assms(1) [of t] by (cases "t \<in> ts") (auto simp: may_state_def)
  then have "pins_ok (pin_all ts s X) (view k) \<Longrightarrow> pins_ok X (view k)"
    by (simp add: pins_ok_def)
  ultimately show "kinv E X k \<Longrightarrow> (\<And>t. t \<in> ts \<Longrightarrow> v_state (vt k t) = s) \<Longrightarrow> kinv E (pin_all ts s X) k"
    "kinv E (pin_all ts s X) k \<Longrightarrow> kinv E X k"
    using scope_freezing(1) [of "pin_all ts s X" X] scope_pinned(2) [of "pin_all ts s X" X]
    by (simp_all add: kinv_def proto_ok_def live_ok_def)
qed

lemma reap_loop_keeps:
  assumes "kinv {} X k" "\<And>t. t \<in> set ts \<union> set ds \<Longrightarrow> t \<noteq> 0 \<and> pinned X t = Some TASK_STATE_ZOMBIE"
  shows "opt_all (kinv {} X) (reap_loop ts ds k)"
  using assms
proof (induction ts arbitrary: ds k)
  case Nil
  have "t \<noteq> 0 \<and> v_state (vt k t) = TASK_STATE_ZOMBIE" if "t \<in> set (task_destroy_queue k @ ds)" for t
  proof (cases "t \<in> set ds")
    case True
    then show ?thesis
      using Nil(2) kinv_pinned [OF Nil(1)] by simp
  next
    case False
    then have "t \<in> v_doomed (view k)"
      using that by (simp add: view_def)
    then show ?thesis
      using kinvD(3) [OF Nil(1)] by (auto simp: proto_ok_def pins_ok_def may_state_def)
  qed
  then show ?case
    using kinv_doomed [OF Nil(1), of "task_destroy_queue k @ ds"] by simp
next
  case (Cons t ts)
  let ?k = "k\<lparr>task_destroy_queue := remove1 t (task_destroy_queue k)\<rparr>"
  have "s \<noteq> 0 \<and> v_state (vt k s) = TASK_STATE_ZOMBIE" if "s \<in> set (remove1 t (task_destroy_queue k))" for s
  proof -
    have "s \<in> v_doomed (view k)"
      using that set_remove1_subset [of t "task_destroy_queue k"] by (auto simp: view_def)
    then show ?thesis
      using kinvD(3) [OF Cons.prems(1)] by (auto simp: proto_ok_def pins_ok_def may_state_def)
  qed
  then have k: "kinv {} X ?k"
    by (rule kinv_doomed [OF Cons.prems(1)])
  have "v_state (vt ?k t) = TASK_STATE_ZOMBIE"
    using Cons.prems(2) by (intro kinv_pinned [OF k]) simp
  then have d: "opt_all (kinv {} X) (TaskDestroy t ?k)"
    by (intro TaskDestroy_keeps [OF k]) simp
  show ?case
    unfolding reap_loop.simps Let_def
    by (intro opt_all_if opt_all_bind [OF d] Cons.IH k) (use Cons.prems(2) in auto)
qed

lemma keeps_reap [intro]: "keeps SchedConsumeDestroyQueue"
  unfolding keeps_def SchedConsumeDestroyQueue_def
proof (intro allI impI)
  fix X k
  assume k: "kinv {} X k"
  let ?ts = "set (task_destroy_queue k)"
  let ?Y = "pin_all ?ts TASK_STATE_ZOMBIE X"
  have z: "t \<noteq> 0 \<and> v_state (vt k t) = TASK_STATE_ZOMBIE \<and> (pinned X t = None \<or> pinned X t = Some TASK_STATE_ZOMBIE)" if "t \<in> ?ts" for t
  proof -
    have "may_state X (view k) t (v_state (vt k t))" "t \<in> v_doomed (view k)"
      using k that by (simp_all add: kinv_def proto_ok_def pins_ok_def) (simp add: view_def)
    then show ?thesis
      by (cases "pinned X t") (auto simp: may_state_def)
  qed
  have "kinv {} ?Y k"
    by (rule kinv_pin_all(1) [OF _ _ k]) (use z in auto)
  then have "opt_all (kinv {} ?Y) (reap_loop (task_destroy_queue k) [] k)"
    by (rule reap_loop_keeps) (use z in auto)
  then show "opt_all (kinv {} X) (reap_loop (task_destroy_queue k) [] k)"
    by (rule opt_all_mono) (rule kinv_pin_all(2), use z in auto)
qed

lemma keeps_SchedDoHousekeeping [intro]: "keeps SchedDoHousekeeping"
  unfolding keeps_def SchedDoHousekeeping_def
  by (intro allI impI opt_all_bind [where P = "kinv {} _"] keepsD [OF keeps_reap]) (auto intro: kinv_SchedWakeSleepers)

section \<open>Picking the next task\<close>

lemma pick_level_props:
  assumes "queues_ok k" "\<forall>l \<in> set ls. l < 8"
  shows "pick_level ls k = (case filter (\<lambda>l. node_q k (RunQ l) \<noteq> []) ls of [] \<Rightarrow> (idle_task, k)
    | l # _ \<Rightarrow> (hd (node_q k (RunQ l)), SchedRemoveRunQueue (hd (node_q k (RunQ l))) k))"
  using assms(2)
proof (induction ls)
  case (Cons l ls)
  have ok: "nodes_ok k" "run_ok k"
    using assms(1) by (simp_all add: queues_ok_def)
  have b: "ready_mask k AND push_bit l 1 \<noteq> 0 \<longleftrightarrow> node_q k (RunQ l) \<noteq> []"
    using ok(2) Cons.prems by (simp add: run_ok_def and_exp_eq_0_iff_not_bit)
  show ?case
  proof (cases "node_q k (RunQ l)")
    case Nil
    then show ?thesis
      using b Cons by simp
  next
    case (Cons t ts)
    have n: "node (tasks k t) = Some (RunQ l)"
      using ok(1) Cons unfolding nodes_ok_def by (metis list.set_intros(1))
    then have q: "queued_prio (tasks k t) = l"
      using ok(2) by (simp add: run_ok_def)
    show ?thesis
      using b Cons n q by (simp add: SchedRemoveRunQueue_def Let_def)
  qed
qed simp


lemma SchedPickNext_props:
  assumes "kinv {} X k"
  obtains (idle) "SchedPickNext k = (idle_task, k)"
  | (task) t where "SchedPickNext k = (t, SchedRemoveRunQueue t k)" "is_queued t k"
proof -
  let ?f = "filter (\<lambda>l. node_q k (RunQ l) \<noteq> []) (rev [0..<8])"
  have q: "queues_ok k"
    using assms by (simp add: kinv_def)
  have p: "SchedPickNext k = (case ?f of [] \<Rightarrow> (idle_task, k)
    | l # _ \<Rightarrow> (hd (node_q k (RunQ l)), SchedRemoveRunQueue (hd (node_q k (RunQ l))) k))"
    unfolding SchedPickNext_def using pick_level_props [OF q, of "rev [0..<8]"] by (simp add: const_defs)
  show ?thesis
  proof (cases ?f)
    case Nil
    then show ?thesis
      using p idle by simp
  next
    case (Cons l ls)
    then have "node_q k (RunQ l) \<noteq> []"
      by (metis (mono_tags, lifting) filter_eq_ConsD)
    then have "hd (node_q k (RunQ l)) \<in> set (node_q k (RunQ l))"
      by simp
    then have "is_queued (hd (node_q k (RunQ l))) k"
      using q by (auto simp: queues_ok_def nodes_ok_def is_queued_def)
    then show ?thesis
      using p Cons task by simp
  qed
qed

section \<open>Switching\<close>

lemma sched_ok_current [simp]: "sched_ok E X (k\<lparr>current_task := c\<rparr>) = sched_ok E X k"
  by (simp add: sched_ok_def queues_ok_def queue_defs ready_ok_def must_run_def must_not_run_def member_of_def is_frozen_def is_queued_def)

lemma proto_start:
  assumes p: "proto_ok {} (at_rest X) v" and n: "n \<noteq> 0" "n \<noteq> idle_task" "v_state (v_tasks v n) = TASK_STATE_READY" "pinned X n = None"
    and r: "\<not> v_susp (v_tasks v n)" "v_owner (v_tasks v n) \<noteq> 0 \<and> n \<in> set (v_members v (v_owner (v_tasks v n))) \<longrightarrow> \<not> v_frozen v (v_owner (v_tasks v n))"
    and X: "\<not> resting X" "at_cpu X = None"
  shows "proto_ok {} X (v_upd n (\<lambda>x. x\<lparr>v_state := TASK_STATE_RUNNING\<rparr>) (v\<lparr>v_current := n\<rparr>))"
proof -
  define v' where "v' = v_upd n (\<lambda>x. x\<lparr>v_state := TASK_STATE_RUNNING\<rparr>) (v\<lparr>v_current := n\<rparr>)"
  have pins: "pins_ok (at_rest X) v" and run: "running_ok {} v" and live: "live_ok X v" and mem: "members_ok X v"
    using p scope_pinned(2) [of "at_rest X" X] by (simp_all add: proto_ok_def live_ok_def)
  have may: "may_state (at_rest X) v t (v_state (v_tasks v t))" for t
    using pins by (simp add: pins_ok_def)
  have sel: "v_cap (v_tasks v' s) = v_cap (v_tasks v s)" "v_holder (v_tasks v' s) = v_holder (v_tasks v s)"
    "v_serving (v_tasks v' s) = v_serving (v_tasks v s)" "v_held (v_tasks v' s) = v_held (v_tasks v s)"
    "v_slot (v_tasks v' s) = v_slot (v_tasks v s)" "v_owner (v_tasks v' s) = v_owner (v_tasks v s)"
    "v_susp (v_tasks v' s) = v_susp (v_tasks v s)" "depends_on (v_tasks v' s) = depends_on (v_tasks v s)"
    "v_state (v_tasks v' s) = (if s = n then TASK_STATE_RUNNING else v_state (v_tasks v s))" for s
    by (simp_all add: v'_def depends_on_def)
  have other: "v_servers v' = v_servers v" "v_parked v' = v_parked v" "v_members v' = v_members v" "v_frozen v' = v_frozen v"
    "v_current v' = n" "v_doomed v' = v_doomed v" "v_palive v' = v_palive v" "v_ealive v' = v_ealive v" "v_torn v' = v_torn v"
    "v_tables v' = v_tables v"
    by (simp_all add: v'_def)
  have "caps_ok v'" "servers_ok v'" "parked_ok v'"
    using p unfolding proto_ok_def caps_ok_def servers_ok_def parked_ok_def sel other by simp_all
  moreover have "members_ok X v'"
    using mem unfolding members_ok_def sel other .
  moreover have "running_ok {} v'"
    unfolding running_ok_def sel other
  proof (intro allI impI)
    fix t
    assume t: "t \<noteq> 0 \<and> (if t = n then TASK_STATE_RUNNING else v_state (v_tasks v t)) = TASK_STATE_RUNNING"
    then have "t = n"
      using may [of t] by (auto simp: may_state_def split: if_splits)
    then show "t = n \<and> (t \<notin> {} \<longrightarrow> \<not> v_susp (v_tasks v t) \<and> (v_owner (v_tasks v t) \<noteq> 0 \<and> t \<in> set (v_members v (v_owner (v_tasks v t)))
        \<longrightarrow> \<not> v_frozen v (v_owner (v_tasks v t))))"
      using r by simp
  qed
  moreover have "q_live v q \<Longrightarrow> q_live v' q" for q
    by (cases q) (auto simp: sel other dead_def)
  then have "live_ok X v'"
    using live unfolding live_ok_def sel by blast
  moreover have "pins_ok X v'"
    using pins may [of n] n X unfolding pins_ok_def other by (auto simp: may_state_def sel other)
  moreover have "state_ok t (v_tasks v' t)" if "t \<noteq> 0" for t
  proof -
    have "state_ok t (v_tasks v t)"
      using p that by (simp add: proto_ok_def)
    then show ?thesis
      using n(3) by (cases "t = n") (simp_all add: v'_def state_ok_def unlinked_view_def)
  qed
  moreover have "null_view (v_tasks v' 0)"
    using proto_null [OF p] n(1) by (simp add: v'_def)
  ultimately show ?thesis
    unfolding v'_def [symmetric] by (simp add: proto_ok_def)
qed

lemma switch_to:
  assumes "sched_ok {n} X k" "proto_ok {} (at_rest X) (view k)"
    and n: "n \<noteq> 0" "n \<noteq> idle_task" "v_state (vt k n) = TASK_STATE_READY" "node (tasks k n) = None" "\<not> v_susp (vt k n)"
      "member_of n k \<Longrightarrow> \<not> is_frozen n k" "pinned X n = None"
    and X: "\<not> resting X" "at_cpu X = None"
  defines "k' \<equiv> upd_task n (\<lambda>x. x\<lparr>state := TASK_STATE_RUNNING\<rparr>) (k\<lparr>current_task := n, on_idle_stack := False\<rparr>)"
  shows "kinv {} X k'" "current_task k' = n" "v_state (vt k' n) = TASK_STATE_RUNNING"
proof -
  have v: "view k' = v_upd n (\<lambda>x. x\<lparr>v_state := TASK_STATE_RUNNING\<rparr>) ((view k)\<lparr>v_current := n\<rparr>)"
    unfolding k'_def by (subst view_upd_task [where g = "\<lambda>x. x\<lparr>v_state := TASK_STATE_RUNNING\<rparr>"]) simp_all
  show "current_task k' = n" "v_state (vt k' n) = TASK_STATE_RUNNING"
    by (simp add: k'_def upd_task_def) (simp add: v)
  have m: "v_owner (vt k n) \<noteq> 0 \<and> n \<in> set (v_members (view k) (v_owner (vt k n))) \<longrightarrow> \<not> v_frozen (view k) (v_owner (vt k n))"
  proof (intro impI notI, elim conjE)
    assume "v_owner (vt k n) \<noteq> 0" "n \<in> set (v_members (view k) (v_owner (vt k n)))" "v_frozen (view k) (v_owner (vt k n))"
    then have "member_of n k" "is_frozen n k"
      using n(1) by (simp_all add: member_of_def is_frozen_def view_def task_view_def)
    then show False
      using n(6) by blast
  qed
  have "proto_ok {} X (view k')"
    unfolding v by (rule proto_start [OF assms(2) n(1-3,7,5) m X])
  moreover have "sched_ok {n} X (k\<lparr>current_task := n, on_idle_stack := False\<rparr>)"
    using assms(1) by simp
  then have "sched_ok {} X k'"
    unfolding k'_def by (rule sched_set_state) (simp_all add: n(4))
  ultimately show "kinv {} X k'"
    by (simp add: kinv_sched)
qed


lemma links_slice [link_frame]:
  "links (upd_task t (\<lambda>x. x\<lparr>slice_deadline := a, slice_remaining := b\<rparr>) k) = links k"
  "links (upd_task t (\<lambda>x. x\<lparr>slice_remaining := f x\<rparr>) k) = links k"
  by (rule links_upd_task; simp)+

lemma links_let: "(\<And>y. y = a \<Longrightarrow> links (f y) = l) \<Longrightarrow> links (Let a f) = l"
  by simp

lemma links_let_pair: "(\<And>x y. x = fst a \<Longrightarrow> y = snd a \<Longrightarrow> links (f x y) = l) \<Longrightarrow> links (Let a (\<lambda>(x, y). f x y)) = l"
  by (simp add: case_prod_unfold)

lemma links_SchedSwitchNext:
  assumes "n \<noteq> idle_task"
  shows "links (SchedSwitchNext n k)
    = links (upd_task n (\<lambda>x. x\<lparr>state := TASK_STATE_RUNNING\<rparr>) (k\<lparr>current_task := n, on_idle_stack := False\<rparr>))"
  unfolding SchedSwitchNext_def if_not_P [OF assms]
  apply (intro links_let_pair links_let)
  subgoal premises e for prev k1 k2 slice now k3 k4 k5
  proof -
    have "links k5 = links k2"
      by (simp add: e(6-8) link_frame)
    then show ?thesis
      by (simp add: e(2,3) Let_def link_frame)
  qed
  done

lemma current_SchedArmTimer [simp]: "current_task (SchedArmTimer k) = current_task k"
  using linksD(1) [OF links_SchedArmTimer [of k]] by (rule viewD)

section \<open>The kernel between system calls\<close>

definition X0 :: Scope where
  "X0 = \<lparr>freezing = {}, dying = {}, pinned = (\<lambda>_. None), outside = {}, resting = False, at_cpu = None\<rparr>"

lemma X0_sel [simp]:
  "freezing X0 = {}" "dying X0 = {}" "pinned X0 t = None" "outside X0 = {}" "\<not> resting X0" "at_cpu X0 = None"
  by (simp_all add: X0_def)

definition good :: "Kernel \<Rightarrow> bool" where
  "good k \<longleftrightarrow> kinv {} X0 k \<and> (current_task k \<noteq> 0 \<longrightarrow> state (tasks k (current_task k)) = TASK_STATE_RUNNING)"

text \<open>A kernel that \<open>Schedule\<close> may be called in.\<close>

definition schedulable :: "Kernel \<Rightarrow> bool" where
  "schedulable k \<longleftrightarrow> (let c = current_task k in
     if c \<noteq> 0 \<and> state (tasks k c) = TASK_STATE_RUNNING then kinv {c} X0 k \<and> state_ok c (vt k c) else kinv {} X0 k)"

lemma good_schedulable: "good k \<Longrightarrow> schedulable k"
  using kinv_mono [of "{}" X0 k] kinv_state [of "{}" X0 k] by (auto simp: good_def schedulable_def Let_def)

lemma blocked_schedulable: "kinv {} X0 k \<Longrightarrow> schedulable k"
  using kinv_mono [of "{}" X0 k] kinv_state [of "{}" X0 k] by (auto simp: schedulable_def Let_def)

lemma good_current: "current_task k = 0 \<Longrightarrow> kinv {} X0 k \<Longrightarrow> good k"
  by (simp add: good_def)

lemma switched_good:
  assumes "kinv {} (at_rest X0) k"
  shows "good (case SchedPickNext k of (n, k) \<Rightarrow> SchedSwitchNext n k)"
  using assms
proof (cases rule: SchedPickNext_props)
  case idle
  define k' where "k' = k\<lparr>current_task := 0\<rparr>"
  have v: "view k' = (view k)\<lparr>v_current := 0\<rparr>"
    by (simp add: k'_def)
  have p: "proto_ok {} (at_rest X0) (view k)"
    using assms by (simp add: kinv_def)
  have "v_state (vt k t) \<noteq> TASK_STATE_RUNNING" if "t \<noteq> 0" for t
    using p that by (auto simp: proto_ok_def pins_ok_def may_state_def)
  then have "running_ok {} (view k')"
    by (auto simp: running_ok_def v)
  moreover have "pins_ok X0 (view k)"
    using proto_not_at_rest [OF p] by (simp add: proto_ok_def)
  then have "pins_ok X0 (view k')"
    by (simp add: pins_ok_def may_state_def v)
  moreover have "q_live (view k') q = q_live (view k) q" for q
    by (cases q) (simp_all add: v)
  then have "live_ok X0 (view k')"
    using p unfolding proto_ok_def live_ok_def by (simp add: v)
  ultimately have "proto_ok {} X0 (view k')"
    using proto_not_at_rest [OF p] unfolding proto_ok_def caps_ok_def servers_ok_def parked_ok_def members_ok_def by (simp add: v)
  moreover have "sched_ok {} X0 k"
    using kinv_at_rest(2) [OF assms] by (simp add: kinv_sched)
  then have "sched_ok {} X0 k'"
    by (simp add: k'_def)
  ultimately have "kinv {} X0 k'"
    by (simp add: kinv_sched)
  then show ?thesis
    using idle by (simp add: SchedSwitchNext_def good_def flip: k'_def) (simp add: k'_def)
next
  case (task n)
  let ?k = "SchedRemoveRunQueue n k"
  have s: "sched_ok {} (at_rest X0) k" and q: "queues_ok k" and r: "ready_ok {} (at_rest X0) k"
    using assms by (simp_all add: kinv_sched sched_ok_def)
  have nz: "n \<noteq> 0" "n \<noteq> idle_task" "v_state (vt k n) = TASK_STATE_READY" "\<not> v_susp (vt k n)" "v_send (vt k n) = None"
    using q task(2) by (auto simp: queues_ok_def nstate_ok_def is_queued_def v_tasks_view task_view_def)
  have v: "view ?k = view k"
    using nz(5) by (simp add: v_upd_same)
  have nf: "\<not> is_frozen n ?k" if "member_of n ?k"
    using that r task(2) member_frozen_view [of ?k n k] v by (auto simp: ready_ok_def must_not_run_def)
  have "sched_ok {n} X0 ?k"
    using sched_SchedRemoveRunQueue(1) [OF s, of n] scope_freezing(2) [of "at_rest X0" X0 "{n}"] by simp
  then have "kinv {} X0 (upd_task n (\<lambda>x. x\<lparr>state := TASK_STATE_RUNNING\<rparr>) (?k\<lparr>current_task := n, on_idle_stack := False\<rparr>))"
    "v_state (vt (upd_task n (\<lambda>x. x\<lparr>state := TASK_STATE_RUNNING\<rparr>) (?k\<lparr>current_task := n, on_idle_stack := False\<rparr>)) n) = TASK_STATE_RUNNING"
    using switch_to [of n X0 ?k, OF _ _ nz(1,2)] kinvD(3) [OF assms] nz nf by (simp_all add: v node_SchedRemoveRunQueue del: view_SchedRemoveRunQueue)
  then have "kinv {} X0 (SchedSwitchNext n ?k)" "v_state (vt (SchedSwitchNext n ?k) n) = TASK_STATE_RUNNING"
    using links_SchedSwitchNext [OF nz(2), of ?k, THEN kinv_links] linksD(1) [OF links_SchedSwitchNext [OF nz(2), of ?k]] by simp_all
  moreover have "current_task (SchedSwitchNext n ?k) = n"
    using viewD(19) [OF linksD(1) [OF links_SchedSwitchNext [OF nz(2), of ?k]]] by (simp add: upd_task_def)
  ultimately show ?thesis
    using task(1) by (simp add: good_def state_view)
qed

lemma Schedule_good:
  assumes "schedulable k"
  shows "opt_all good (Schedule k)"
proof -
  have fin: "opt_all good (SchedDoHousekeeping k \<bind> (\<lambda>k. let (nxt, k) = SchedPickNext k in Some (SchedSwitchNext nxt k)))"
    if "kinv {} (at_rest X0) k" for k
    by (rule opt_all_bind [OF keepsD [OF keeps_SchedDoHousekeeping that]])
       (use switched_good in \<open>simp add: case_prod_unfold Let_def\<close>)
  let ?c = "current_task k"
  show ?thesis
    unfolding Schedule_def
    apply (intro opt_all_let)
    subgoal premises e for c k1
    proof (rule fin)
      show "kinv {} (at_rest X0) k1"
      proof (cases "?c \<noteq> 0 \<and> state (tasks k ?c) = TASK_STATE_RUNNING")
        case True
        then have i: "kinv {?c} X0 k" "?c \<noteq> 0" "state_ok ?c (vt k ?c)" "v_state (vt k ?c) = TASK_STATE_RUNNING"
          using assms by (simp_all add: schedulable_def Let_def state_view)
        note rq = requeue_running [OF i]
        show ?thesis
          using True unfolding e by (simp add: Let_def case_prod_unfold SchedAdd_def SchedAddFront_def) (intro conjI impI rq; simp add: link_frame)
      next
        case False
        then have "kinv {} X0 k"
          using assms by (simp add: schedulable_def Let_def)
        moreover have "v_state (vt k t) \<noteq> TASK_STATE_RUNNING" if "t \<noteq> 0" for t
          by (rule only_current_runs [OF calculation _ that]) (use False in \<open>simp add: state_view\<close>)
        ultimately show ?thesis
          using False kinv_at_rest(1) [of "{}" X0 k] unfolding e by auto
      qed
    qed
    done
qed

end
