(* ===== verification/Links_Block.thy ===== *)
theory Links_Block
  imports Links_Sched
begin

text \<open>
  Blocking the running task, the timer interrupt, and operations of the running task that do not block:
  each leaves the kernel good.
\<close>

section \<open>Operations that go on with the same task\<close>

definition XC :: "TaskPtr \<Rightarrow> Scope" where
  "XC c = X0\<lparr>pinned := (\<lambda>t. if t = c \<and> c \<noteq> 0 then Some TASK_STATE_RUNNING else None), at_cpu := Some c\<rparr>"

lemma XC_sel [simp]:
  "freezing (XC c) = {}" "dying (XC c) = {}" "outside (XC c) = {}" "\<not> resting (XC c)" "at_cpu (XC c) = Some c"
  "pinned (XC c) t = (if t = c \<and> c \<noteq> 0 then Some TASK_STATE_RUNNING else None)"
  by (simp_all add: XC_def)

lemma good_XC: "good k \<longleftrightarrow> kinv {} (XC (current_task k)) k"
proof -
  have "pins_ok (XC (current_task k)) (view k) \<longleftrightarrow> pins_ok X0 (view k)
     \<and> (current_task k \<noteq> 0 \<longrightarrow> v_state (vt k (current_task k)) = TASK_STATE_RUNNING)"
  proof -
    have "v_current (view k) = current_task k"
      by (simp add: view_def)
    then show ?thesis
      unfolding pins_ok_def may_state_def by auto
  qed
  then show ?thesis
    using scope_freezing(1) [of "XC (current_task k)" X0 "{}"] scope_pinned(2) [of "XC (current_task k)" X0]
    unfolding good_def kinv_def proto_ok_def live_ok_def by (auto simp: state_view)
qed

lemma XC_good: "kinv {} (XC c) k \<Longrightarrow> good k \<and> current_task k = c"
proof -
  assume k: "kinv {} (XC c) k"
  then have "current_task k = c"
    by (simp add: kinv_def proto_ok_def pins_ok_def) (simp add: view_def)
  then show ?thesis
    using k by (simp add: good_XC)
qed

lemma keeps_good: "keeps f \<Longrightarrow> good k \<Longrightarrow> opt_all (\<lambda>k'. good k' \<and> current_task k' = current_task k) (f k)"
  unfolding good_XC [of k] by (rule opt_all_mono [OF keepsD]) (auto dest: XC_good)

lemma good_links: "links k = links k' \<Longrightarrow> good k = good k'"
  using kinv_links [of k k' "{}" X0] viewD(1,19) [OF linksD(1), of k k'] by (simp add: good_def)

section \<open>The timer interrupt\<close>

lemma kinv_SchedTimerExpired:
  assumes "kinv {} X k"
  shows "kinv {} X (SchedTimerExpired k)"
proof -
  have "kinv {} X (SchedWakeSleepers (k\<lparr>in_tick := True\<rparr>))"
    using assms by (intro kinv_SchedWakeSleepers) simp
  then show ?thesis
    by (simp add: SchedTimerExpired_def Let_def case_prod_unfold)
qed

section \<open>Blocking\<close>

lemma sched_wake_deadline [simp]: "sched_ok E X (upd_task t (\<lambda>x. x\<lparr>wake_deadline := d\<rparr>) k) = sched_ok E X k"
proof -
  let ?k = "upd_task t (\<lambda>x. x\<lparr>wake_deadline := d\<rparr>) k"
  have v: "view ?k = view k"
    by (rule view_upd_task_same) simp
  have n: "nlinks ?k = nlinks k" and w: "wlinks ?k = wlinks k"
    by simp_all
  have "nstate_ok ?k = nstate_ok k"
    using nlinksD(3) [OF n] viewD [OF v] by (simp add: nstate_ok_def)
  then have "queues_ok ?k = queues_ok k"
    using nlinks_ok [OF n] wlinks_ok [OF w] wheel_ok_upd_task [of "\<lambda>x. x\<lparr>wake_deadline := d\<rparr>" t k] by (simp add: queues_ok_def)
  moreover have "ready_ok E X ?k = ready_ok E X k"
    using nlinksD(3) [OF n] must_run_view [of ?k _ k] must_not_run_view [of ?k _ k] v by (simp add: ready_ok_def is_queued_def)
  ultimately show ?thesis
    by (simp add: sched_ok_def)
qed

lemma view_wake_deadline [simp]: "view (upd_task t (\<lambda>x. x\<lparr>wake_deadline := d\<rparr>) k) = view k"
  by (rule view_upd_task_same) simp

lemma kinv_wake_deadline [simp]: "kinv E X (upd_task t (\<lambda>x. x\<lparr>wake_deadline := d\<rparr>) k) = kinv E X k"
  by (simp add: kinv_sched)

lemma timed_view: "timeout_linked (tasks k t) = v_timed (vt k t)"
  by (simp add: v_tasks_view task_view_def)

lemma sched_SchedWaitQueueAdd:
  assumes "sched_ok E X k" "v_wait (vt k t) = None"
  shows "sched_ok E X (SchedWaitQueueAdd q t k)"
proof -
  let ?k = "SchedWaitQueueAdd q t k"
  have ok: "queues_ok k" "ready_ok E X k" "waits_ok k"
    using assms(1) by (simp_all add: sched_ok_def queues_ok_def)
  have "waits_ok ?k"
    using waits_ok_SchedWaitQueueAdd [OF ok(3)] v_wait_unlinked [OF ok(3), of t] assms(2) by simp
  moreover have "nstate_ok ?k"
    by (rule nstate_ok_frame [of k]) (use ok(1) in \<open>simp_all add: queues_ok_def\<close>)
  ultimately have "queues_ok ?k"
    using ok(1) nlinks_ok [of ?k k] slinks_ok [of ?k k] by (simp add: queues_ok_def)
  moreover have "ready_ok E X ?k"
    using ok(2) by (rule ready_ok_frame) simp_all
  ultimately show ?thesis
    by (simp add: sched_ok_def)
qed

text \<open>Arming a timeout.\<close>

definition timeout_armed :: "TaskPtr \<Rightarrow> Duration \<Rightarrow> Kernel \<Rightarrow> Kernel" where
  "timeout_armed t timeout k =
     (if timeout \<noteq> TIMEOUT_INFINITE
      then let (dl, k) = ArchDeadlineFromMs timeout k
           in SchedInsertSleepQueue t (upd_task t (\<lambda>x. x\<lparr>wake_deadline := dl\<rparr>) k)
      else upd_task t (\<lambda>x. x\<lparr>wake_deadline := 0\<rparr>) k)"

lemma timeout_armed_props:
  assumes "sched_ok E X k" "\<not> v_timed (vt k t)"
  shows "sched_ok E X (timeout_armed t timeout k)"
    "view (timeout_armed t timeout k) = v_upd t (\<lambda>x. x\<lparr>v_timed := (timeout \<noteq> TIMEOUT_INFINITE)\<rparr>) (view k)"
    "nlinks (timeout_armed t timeout k) = nlinks k"
proof -
  have "v_upd t (\<lambda>x. x\<lparr>v_timed := False\<rparr>) (view k) = view k"
    using assms(2) by (intro v_upd_same) simp
  then show "view (timeout_armed t timeout k) = v_upd t (\<lambda>x. x\<lparr>v_timed := (timeout \<noteq> TIMEOUT_INFINITE)\<rparr>) (view k)"
    by (simp add: timeout_armed_def Let_def case_prod_unfold)
  let ?k = "upd_task t (\<lambda>x. x\<lparr>wake_deadline := fst (ArchDeadlineFromMs timeout k)\<rparr>) (snd (ArchDeadlineFromMs timeout k))"
  have "sched_ok E X ?k" "\<not> timeout_linked (tasks ?k t)"
    using assms by (simp_all add: timed_view)
  then show "sched_ok E X (timeout_armed t timeout k)"
    using assms(1) sched_ok_SchedInsertSleepQueue by (simp add: timeout_armed_def Let_def case_prod_unfold)
  show "nlinks (timeout_armed t timeout k) = nlinks k"
    using linksD_parts(2) [OF links_ArchDeadlineFromMs] by (simp add: timeout_armed_def Let_def case_prod_unfold)
qed

text \<open>The running task stops to wait.\<close>

lemma proto_block:
  assumes "proto_ok {} X v" "c \<noteq> 0" "v_state (v_tasks v c) = TASK_STATE_RUNNING" "pinned X c = None"
    and "same_ties (v_tasks v c) (f (v_tasks v c))" "v_state (f (v_tasks v c)) = TASK_STATE_BLOCKED" "state_ok c (f (v_tasks v c))"
    and "\<And>q. q \<in> depends_on (f (v_tasks v c)) \<Longrightarrow> q \<in> depends_on (v_tasks v c) \<or> q_live v q \<and> q \<noteq> JoinQ c"
  shows "proto_ok {} X (v_upd c f v)"
proof (rule proto_change_gen [where t = c and f = f, OF assms(1,5)])
  have "may_state X v c (v_state (v_tasks v c))"
    using assms(1) by (simp add: proto_ok_def pins_ok_def)
  then show "v_state (v_tasks v c) = TASK_STATE_BLOCKED \<or> may_state X v c (v_state (f (v_tasks v c)))"
    using assms(3,4,6) by (auto simp: may_state_def)
  fix q
  assume "q \<in> depends_on (f (v_tasks v c))"
  moreover have "q_live v q \<Longrightarrow> q \<noteq> JoinQ c \<Longrightarrow> q_live (v_upd c f v) q"
    by (cases q) simp_all
  ultimately show "q \<in> depends_on (v_tasks v c) \<or> q_live (v_upd c f v) q \<or> q \<in> dying X"
    using assms(8) [of q] by blast
qed (use assms(2,6,7) in \<open>simp_all add: dead_def\<close>)

lemma SchedBlockOn_good:
  assumes "good k" "current_task k \<noteq> 0" "q_live (view k) q" "q \<noteq> JoinQ (current_task k)"
    and "\<And>p. q = RecvQ p \<Longrightarrow> v_cap (vt k (current_task k)) = 0"
  shows "opt_all good (SchedBlockOn q timeout k)"
proof -
  let ?c = "current_task k"
  have i: "kinv {} X0 k" and st: "v_state (vt k ?c) = TASK_STATE_RUNNING"
    using assms(1,2) by (simp_all add: good_def state_view)
  have so: "state_ok ?c (vt k ?c)"
    using kinv_state [OF i assms(2)] by simp
  then have u: "unlinked_view (vt k ?c)" "v_ipc (vt k ?c) = IPC_NONE"
    using st by (simp_all add: state_ok_def)
  define k1 where "k1 = SchedWaitQueueAdd q ?c k"
  define k2 where "k2 = upd_task ?c (\<lambda>x. x\<lparr>state := TASK_STATE_BLOCKED\<rparr>) k1"
  define k3 where "k3 = timeout_armed ?c timeout k2"
  have v2: "view k2 = v_upd ?c (\<lambda>x. x\<lparr>v_wait := Some q, v_state := TASK_STATE_BLOCKED\<rparr>) (view k)"
    unfolding k2_def k1_def by (subst view_upd_task [where g = "\<lambda>x. x\<lparr>v_state := TASK_STATE_BLOCKED\<rparr>"]) simp_all
  have s1: "sched_ok {} X0 k1"
    unfolding k1_def using i u by (intro sched_SchedWaitQueueAdd) (simp_all add: kinv_sched unlinked_view_def)
  have n1: "node (tasks k1 ?c) = None"
    using running_not_queued [OF kinvD(1) [OF i] st] nlinksD(3) [of k1 k] by (simp add: k1_def)
  have s2: "sched_ok {} X0 k2"
    unfolding k2_def by (rule sched_set_state) (use n1 sched_ok_mono [OF s1] in simp_all)
  have t2: "\<not> v_timed (vt k2 ?c)"
    using u by (simp add: v2 unlinked_view_def)
  have v3: "view k3 = v_upd ?c (\<lambda>x. x\<lparr>v_wait := Some q, v_state := TASK_STATE_BLOCKED, v_timed := (timeout \<noteq> TIMEOUT_INFINITE)\<rparr>) (view k)"
    unfolding k3_def timeout_armed_props(2) [OF s2 t2] by (simp add: v2)
  have "proto_ok {} X0 (view k3)"
    unfolding v3
    by (rule proto_block [OF kinvD(3) [OF i] assms(2) st])
       (use u so assms(3-5) st in \<open>auto simp: same_ties_def state_ok_def waiting_def unlinked_view_def depends_on_def\<close>)
  then have "kinv {} X0 k3"
    using timeout_armed_props(1) [OF s2 t2] by (simp add: kinv_sched k3_def)
  then have "opt_all good (Schedule k3)"
    by (intro Schedule_good blocked_schedulable)
  moreover have "good (ArchSetInFrame ?c 0 (err_reg ERR_TIMEOUT) k)"
    using assms(1) good_links [OF links_ArchSetInFrame] by simp
  ultimately show ?thesis
    by (simp add: SchedBlockOn_def k3_def k2_def k1_def timeout_armed_def Let_def)
qed

end
