(* ===== verification/Links_Grant.thy ===== *)
theory Links_Grant
  imports Links_Block Handle_Kernel
begin

text \<open>
  Handles given to another space, and new handles: only handle tables change, and they stay consistent.
\<close>

section \<open>Tables\<close>

lemma tlookup_names:
  assumes "tbl_ok t"
  shows "(\<forall>i e. HandleTableGet t i = Some e \<longrightarrow> names_object e) \<longleftrightarrow> (\<forall>h e. tlookup t h = Some e \<longrightarrow> names_object e)"
proof (intro iffI allI impI)
  fix h e
  assume "\<forall>i e. HandleTableGet t i = Some e \<longrightarrow> names_object e" "tlookup t h = Some e"
  then show "names_object e"
    by (auto simp: tlookup_alt split: option.splits if_splits)
next
  fix i e
  assume a: "\<forall>h e. tlookup t h = Some e \<longrightarrow> names_object e" "HandleTableGet t i = Some e"
  have i: "i < 1024"
    using a(2) by (simp add: HandleTableGet_def slot_defs split: if_splits)
  then have "slot_ok t i"
    using assms by (simp add: tbl_ok_def slot_defs)
  then have g: "generation e \<le> HANDLE_GEN_MASK"
    using a(2) by (simp add: slot_ok_def)
  let ?h = "HANDLE_PACK (of_nat i) (generation e)"
  have "unat (HANDLE_INDEX ?h) = i" "HANDLE_GEN ?h = generation e"
    using HANDLE_INDEX_PACK [of "of_nat i" "generation e"] HANDLE_GEN_PACK [OF g] i
    by (simp_all add: unat_of_nat word_less_nat_alt)
  then have "he_type e \<noteq> HANDLE_FREE \<Longrightarrow> tlookup t ?h = Some e"
    using a(2) by (simp add: tlookup_alt)
  then show "names_object e"
    using a(1) by (cases "he_type e = HANDLE_FREE") (auto simp: names_object_def)
qed

lemma tbl_good_lookup: "tbl_good t \<longleftrightarrow> tbl_ok t \<and> (\<forall>h e. tlookup t h = Some e \<longrightarrow> names_object e)"
  using tlookup_names [of t] by (auto simp: tbl_good_def)

lemma tbl_good_insert:
  assumes "tbl_insert kz f t = (r, t')" "tbl_good t" "fills f" "\<And>d. names_object (f d)"
  shows "tbl_good t'"
proof -
  have t: "tbl_ok t" "\<And>h e. tlookup t h = Some e \<Longrightarrow> names_object e"
    using assms(2) by (auto simp: tbl_good_lookup)
  show ?thesis
    using assms(1) t(1) assms(3)
  proof (cases rule: tbl_insert_cases)
    case full
    then show ?thesis
      using t(2) by (simp add: tbl_good_lookup)
  next
    case (ok h g)
    then have "names_object e" if "tlookup t' h' = Some e" for h' e
      using that t(2) [of h'] assms(4) by (cases "h' = h") auto
    then show ?thesis
      using ok(2) by (simp add: tbl_good_lookup)
  qed
qed

section \<open>Only handle tables change\<close>

definition tables_only :: "Kernel \<Rightarrow> Kernel \<Rightarrow> bool" where
  "tables_only k k' \<longleftrightarrow> (\<exists>tb. view k' = (view k)\<lparr>v_tables := tb\<rparr> \<and> (\<forall>sp. tbl_good (tb sp)))
     \<and> nlinks k' = nlinks k \<and> wlinks k' = wlinks k \<and> slinks k' = slinks k"

lemma tables_only_refl: "kinv E X k \<Longrightarrow> tables_only k k"
  unfolding tables_only_def kinv_def proto_ok_def pins_ok_def by (intro conjI exI [of _ "v_tables (view k)"]) simp_all

lemma tables_only_links: "tables_only k k1 \<Longrightarrow> links k2 = links k1 \<Longrightarrow> tables_only k k2"
  using linksD_parts [of k2 k1] by (simp add: tables_only_def)

lemma tables_onlyD:
  assumes "tables_only k k'"
  shows "v_tasks (view k') = v_tasks (view k)" "v_servers (view k') = v_servers (view k)" "v_parked (view k') = v_parked (view k)"
    "v_palive (view k') = v_palive (view k)" "v_current (view k') = v_current (view k)" "kinv E X k \<Longrightarrow> kinv E X k'"
    "nlinks k' = nlinks k" "wlinks k' = wlinks k" "slinks k' = slinks k"
proof -
  obtain tb where v: "view k' = (view k)\<lparr>v_tables := tb\<rparr>" and tb: "\<And>sp. tbl_good (tb sp)"
    using assms unfolding tables_only_def by blast
  show l: "nlinks k' = nlinks k" "wlinks k' = wlinks k" "slinks k' = slinks k"
    using assms by (simp_all add: tables_only_def)
  show "v_tasks (view k') = v_tasks (view k)" "v_servers (view k') = v_servers (view k)" "v_parked (view k') = v_parked (view k)"
    "v_palive (view k') = v_palive (view k)" "v_current (view k') = v_current (view k)"
    by (simp_all add: v)
  assume k: "kinv E X k"
  then have p: "proto_ok E X (view k)"
    by (simp add: kinv_def)
  have "q_live (view k') q = q_live (view k) q" for q
    unfolding v by (cases q) simp_all
  then have "live_ok X (view k')"
    using p unfolding proto_ok_def live_ok_def by (simp add: v)
  moreover have "pins_ok X (view k)"
    using p by (simp add: proto_ok_def)
  then have "pins_ok X (view k')"
    using tb by (simp add: pins_ok_def may_state_def v)
  ultimately have "proto_ok E X (view k')"
    using p unfolding proto_ok_def caps_ok_def servers_ok_def parked_ok_def members_ok_def running_ok_def by (simp add: v)
  moreover have "queues_ok k'"
    by (rule queues_ok_frame [OF kinvD(1) [OF k] l]) (simp add: v)
  moreover have "ready_ok E X k'"
    by (rule ready_ok_frame [OF kinvD(2) [OF k] l(1)]) (simp_all add: v)
  ultimately show "kinv E X k'"
    by (simp add: kinv_def)
qed

lemma tables_only_set:
  assumes "kinv E X k" "tbl_good t"
  shows "tables_only k (set_table sp t k)"
proof -
  have "(v_torn (view k))(sp := torn_down (spaces k sp)) = v_torn (view k)" "(v_frozen (view k))(sp := frozen (spaces k sp)) = v_frozen (view k)"
    by (simp_all add: view_def fun_eq_iff)
  then have "view (set_table sp t k) = (view k)\<lparr>v_tables := (v_tables (view k))(sp := t)\<rparr>"
    by (simp add: set_table_def)
  moreover have "tbl_good (((v_tables (view k))(sp := t)) s)" for s
    using assms by (simp add: kinv_def proto_ok_def pins_ok_def)
  ultimately show ?thesis
    unfolding tables_only_def by (intro conjI exI [of _ "(v_tables (view k))(sp := t)"]) (simp_all add: set_table_def)
qed

lemma HandleCopyInto_tables:
  assumes "kinv E X k" "names_object src" "HandleCopyInto kz dst src prm mk k = (err, r, k')"
  shows "tables_only k k'"
proof (cases "he_type src = HANDLE_FREE")
  case True
  then show ?thesis
    using assms(3) tables_only_refl [OF assms(1)] by (simp add: HandleCopyInto_def)
next
  case False
  let ?e = "src\<lparr>perms := prm, marker := mk\<rparr>" and ?t = "handle_table (spaces k dst)"
  have t: "tbl_good ?t" "tbl_ok ?t"
    using kinv_tables [OF assms(1)] by (simp_all add: tbl_good_def)
  obtain r' t' where c: "tbl_copy kz ?e ?t = (r', t')"
    by fastforce
  note eq = HandleCopyInto_eq [OF t(2) False c]
  have "tbl_insert kz (copy_entry ?e) ?t = (r', t')"
    using c False by (simp add: tbl_copy_def)
  then have "tbl_good t'"
    by (rule tbl_good_insert [OF _ t(1) fills_copy_entry])
       (use False assms(2) in \<open>simp_all add: names_object_def copy_entry_def\<close>)
  then have "tables_only k (set_table dst t' k)"
    by (rule tables_only_set [OF assms(1)])
  then show ?thesis
    using eq assms(3) by (cases r') (auto intro: tables_only_links simp: link_frame)
qed

lemma lookup_names: "kinv E X k \<Longrightarrow> lookup_entry sp h k = Some e \<Longrightarrow> names_object e \<and> he_type e \<noteq> HANDLE_FREE"
  using kinv_tables [of E X k sp] unfolding lookup_entry_tlookup tbl_good_lookup
  by (auto simp: tlookup_alt split: option.splits if_splits)

lemma AllocateGrantSlot_tables:
  assumes "kinv E X k" "AllocateGrantSlot kz from to h k = (err, g, k')"
  shows "tables_only k k'"
proof (cases "h = NO_HANDLE \<or> lookup_entry from h k = None")
  case True
  then show ?thesis
    using assms(2) tables_only_refl [OF assms(1)] by (auto simp: AllocateGrantSlot_def split: if_splits)
next
  case False
  then obtain e where e: "lookup_entry from h k = Some e"
    by blast
  obtain a b c where c: "HandleCopyInto kz to e (perms e) (marker e) k = (a, b, c)"
    by (metis prod_cases3)
  have "tables_only k c"
    using HandleCopyInto_tables [OF assms(1) _ c] lookup_names [OF assms(1) e] by blast
  then show ?thesis
    using False e c assms(2) tables_only_refl [OF assms(1)] by (auto simp: AllocateGrantSlot_def split: if_splits)
qed

lemma GrantHandleAcross_tables:
  assumes "kinv E X k" "GrantHandleAcross kz from to h k = (err, g, k')"
  shows "tables_only k k'"
  using assms(2) tables_only_refl [OF assms(1)] AllocateGrantSlot_tables [OF assms(1)]
  by (auto simp: GrantHandleAcross_def Let_def split: if_splits)

lemma new_handle_tables:
  assumes "kinv E X k" "ty \<noteq> HANDLE_FREE" "ob \<noteq> 0" "ty = HANDLE_TASK \<Longrightarrow> ob \<noteq> idle_task" "new_handle kz ty ob k = (r, k')"
  shows "tables_only k k'"
proof -
  let ?sp = "CURRENT_SPACE k" and ?f = "\<lambda>d. d\<lparr>he_type := ty, he_obj := ob, perms := PERM_ALL\<rparr>"
  let ?t = "handle_table (spaces k ?sp)"
  have t: "tbl_good ?t" "tbl_ok ?t"
    using kinv_tables [OF assms(1)] by (simp_all add: tbl_good_def)
  have f: "fills ?f" "\<And>d. names_object (?f d)"
    using assms(2-4) by (simp_all add: fills_def names_object_def)
  obtain r' t' where i: "tbl_insert kz ?f ?t = (r', t')"
    by fastforce
  obtain slot u where ff: "HandleTableFindFree kz ?t = (slot, u)"
    by fastforce
  have "k' = set_table ?sp t' k"
    using ff t(2)
  proof (cases rule: find_free_cases)
    case none
    then show ?thesis
      using assms(5) i by (auto simp: new_handle_def tbl_insert_def ff set_table_def Let_def)
  next
    case (found j e)
    then show ?thesis
      using assms(5) i by (auto simp: new_handle_def tbl_insert_def ff set_table_def Let_def)
  qed
  then show ?thesis
    using tables_only_set [OF assms(1) tbl_good_insert [OF i t(1) f]] by simp
qed

end
