(* ===== verification/Links_Msg.thy ===== *)
theory Links_Msg
  imports Links_Grant
begin

text \<open>
  Messages and the invariant: a call that blocks as a sender or is handed to a waiting receiver, replies,
  held calls, and receiving.
\<close>

section \<open>A server takes a call\<close>

definition v_serve :: "TaskPtr \<Rightarrow> TaskPtr \<Rightarrow> PortPtr \<Rightarrow> View \<Rightarrow> View" where
  "v_serve s c p v = (v_upd c (\<lambda>x. x\<lparr>v_holder := s\<rparr>) (v_upd s (\<lambda>x. x\<lparr>v_cap := c, v_serving := p\<rparr>) v))
     \<lparr>v_servers := (v_servers v)(p := v_servers v p @ [s])\<rparr>"

lemma v_serve_sel:
  assumes "s \<noteq> c"
  shows "v_tasks (v_serve s c p v) t = (if t = c then (v_tasks v c)\<lparr>v_holder := s\<rparr>
       else if t = s then (v_tasks v s)\<lparr>v_cap := c, v_serving := p\<rparr> else v_tasks v t)"
    "v_servers (v_serve s c p v) = (v_servers v)(p := v_servers v p @ [s])"
    "v_parked (v_serve s c p v) = v_parked v" "v_members (v_serve s c p v) = v_members v"
    "v_frozen (v_serve s c p v) = v_frozen v" "v_current (v_serve s c p v) = v_current v"
    "v_doomed (v_serve s c p v) = v_doomed v" "v_palive (v_serve s c p v) = v_palive v"
    "v_ealive (v_serve s c p v) = v_ealive v" "v_torn (v_serve s c p v) = v_torn v" "v_tables (v_serve s c p v) = v_tables v"
  using assms by (simp_all add: v_serve_def)

lemma proto_serve:
  assumes "proto_ok E X v" "s \<noteq> 0" "c \<noteq> 0" "s \<noteq> c" "p \<noteq> 0" "v_cap (v_tasks v s) = 0" "v_serving (v_tasks v s) = 0"
    "v_holder (v_tasks v c) = 0" "v_palive v p" "s \<notin> E \<Longrightarrow> state_ok s ((v_tasks v s)\<lparr>v_cap := c, v_serving := p\<rparr>)"
  shows "proto_ok (insert c E) X (v_serve s c p v)"
proof -
  define w where "w = v_serve s c p v"
  note sel = v_serve_sel [OF assms(4), of p v, folded w_def]
  have field: "v_state (v_tasks w t) = v_state (v_tasks v t)" "v_held (v_tasks w t) = v_held (v_tasks v t)"
    "v_slot (v_tasks w t) = v_slot (v_tasks v t)" "v_owner (v_tasks w t) = v_owner (v_tasks v t)"
    "v_susp (v_tasks w t) = v_susp (v_tasks v t)" "v_wait (v_tasks w t) = v_wait (v_tasks v t)"
    "v_send (v_tasks w t) = v_send (v_tasks v t)"
    "v_cap (v_tasks w t) = (if t = s then c else v_cap (v_tasks v t))"
    "v_holder (v_tasks w t) = (if t = c then s else v_holder (v_tasks v t))"
    "v_serving (v_tasks w t) = (if t = s then p else v_serving (v_tasks v t))" for t
    using assms(4) by (simp_all add: sel(1))
  have caps: "v_cap (v_tasks v a) = b \<longleftrightarrow> v_holder (v_tasks v b) = a" if "a \<noteq> 0" "b \<noteq> 0" for a b
    using assms(1) that unfolding proto_ok_def caps_ok_def by blast
  have srv: "distinct (v_servers v q)" "t \<in> set (v_servers v q) \<longleftrightarrow> v_serving (v_tasks v t) = q" if "q \<noteq> 0" for q t
    using assms(1) that unfolding proto_ok_def servers_ok_def by blast+
  have "v_cap (v_tasks w a) = b \<longleftrightarrow> v_holder (v_tasks w b) = a" if "a \<noteq> 0" "b \<noteq> 0" for a b
    using caps [OF that] that assms(2,3,6,8) unfolding field by (cases "a = s"; cases "b = c") auto
  then have "caps_ok w"
    unfolding caps_ok_def by blast
  have "distinct (v_servers w q) \<and> (\<forall>t. t \<in> set (v_servers w q) \<longleftrightarrow> v_serving (v_tasks w t) = q)" if "q \<noteq> 0" for q
    using srv [OF that] assms(5,7) that unfolding field sel(2) by (cases "q = p") auto
  then have "servers_ok w"
    unfolding servers_ok_def by blast
  have "parked_ok w" "members_ok X w" "running_ok E w"
    using assms(1) unfolding proto_ok_def parked_ok_def members_ok_def running_ok_def field sel(3-6) by simp_all
  have "pins_ok X v"
    using assms(1) by (simp add: proto_ok_def)
  then have "pins_ok X w"
    by (simp add: pins_ok_def may_state_def field sel(3-11))
  have "q_live w q = q_live v q" for q
    by (cases q) (simp_all add: sel(3-11) field)
  moreover have "depends_on (v_tasks w t) \<subseteq> insert (RecvQ p) (depends_on (v_tasks v t))" for t
    by (auto simp: depends_on_def field)
  ultimately have "live_ok X w"
    using assms(1,9) unfolding proto_ok_def live_ok_def by (metis insertE q_live.simps(1) subsetD)
  moreover have "null_view (v_tasks w 0)"
    using proto_null [OF assms(1)] assms(2,3) by (simp add: sel(1))
  moreover note \<open>caps_ok w\<close> \<open>servers_ok w\<close> \<open>parked_ok w\<close> \<open>members_ok X w\<close> \<open>running_ok E w\<close> \<open>pins_ok X w\<close>
  ultimately show ?thesis
    using assms(1,10) unfolding w_def [symmetric] proto_ok_def running_ok_def by (auto simp: sel(1))
qed

lemma links_MsgBufCopy [link_frame]: "links (MsgBufCopy s d n k) = links k"
  by (simp add: MsgBufCopy_def Let_def link_frame)

lemma DeliverCallToReceiver_props:
  assumes "sched_ok E X k" "s \<noteq> c"
  shows "sched_ok E X (DeliverCallToReceiver c s c xlen g k)"
    "view (DeliverCallToReceiver c s c xlen g k) = v_serve s c (v_blocked (vt k c)) (view k)"
    "slinks (DeliverCallToReceiver c s c xlen g k) = slinks k"
proof -
  let ?k1 = "ArchSetInFrame s 3 g (ArchSetInFrame s 2 xlen (ArchSetInFrame s 1 (port_marker (tasks (ArchSetInFrame s 0 0 k) c)) (ArchSetInFrame s 0 0 k)))"
  define k2 where "k2 = (if xlen \<noteq> 0 then MsgBufCopy c s xlen ?k1 else ?k1)"
  have l: "links k2 = links k"
    by (simp add: k2_def link_frame)
  have b: "blocked_port (tasks k2 c) = v_blocked (vt k c)"
    using viewD(4) [OF linksD(1) [OF l], of c] by (simp add: v_tasks_view task_view_def)
  let ?p = "v_blocked (vt k c)"
  define k3 where "k3 = upd_task c (\<lambda>x. x\<lparr>reply_holder := s\<rparr>) (upd_task s (\<lambda>x. x\<lparr>reply_cap := c\<rparr>)
    ((upd_task s (\<lambda>x. x\<lparr>serving_port := ?p\<rparr>) k2)\<lparr>active_servers := (active_servers k2)(?p := active_servers k2 ?p @ [s])\<rparr>))"
  have a: "active_servers (upd_task s f k) = active_servers k" for f k
    by (simp add: upd_task_def)
  have eq: "DeliverCallToReceiver c s c xlen g k = TaskRecomputePriority s k3"
    by (simp add: DeliverCallToReceiver_def Let_def k3_def b [symmetric] a k2_def)
  have s3: "sched_ok E X k3"
    using assms(1) sched_ok_links [OF l] by (simp add: k3_def)
  have as: "active_servers k2 = v_servers (view k)"
    using linksD(1) [OF l] by (simp add: field_views)
  have v3: "view k3 = v_serve s c ?p (view k)"
    using assms(2) linksD(1) [OF l] by (simp add: k3_def as v_serve_def) (rule View.equality; simp add: v_upd_def fun_eq_iff)
  note q = sched_quiet [OF quiet_TaskRecomputePriority s3, of s]
  show "sched_ok E X (DeliverCallToReceiver c s c xlen g k)"
    "view (DeliverCallToReceiver c s c xlen g k) = v_serve s c ?p (view k)"
    unfolding eq using q by (simp_all add: v3)
  show "slinks (DeliverCallToReceiver c s c xlen g k) = slinks k"
    unfolding eq q(3) using linksD_parts(4) [OF l] by (simp add: k3_def)
qed

section \<open>Starting a call\<close>

text \<open>The view of a task that has called a port and whose call nobody has taken yet.\<close>

definition v_call :: "TaskPtr \<Rightarrow> PortPtr \<Rightarrow> PortPtr option \<Rightarrow> bool \<Rightarrow> TaskView \<Rightarrow> TaskView" where
  "v_call c p sq b x = x\<lparr>v_rc_task := c, v_rc_tid := v_tid x, v_ipc := IPC_WAITING, v_blocked := p, v_pending := c,
     v_send := sq, v_state := TASK_STATE_BLOCKED, v_timed := b\<rparr>"

lemma v_call_sel [simp]:
  "v_state (v_call c p sq b x) = TASK_STATE_BLOCKED" "v_cap (v_call c p sq b x) = v_cap x" "v_holder (v_call c p sq b x) = v_holder x"
  "v_serving (v_call c p sq b x) = v_serving x" "v_held (v_call c p sq b x) = v_held x" "v_slot (v_call c p sq b x) = v_slot x"
  "v_owner (v_call c p sq b x) = v_owner x" "v_susp (v_call c p sq b x) = v_susp x" "v_wait (v_call c p sq b x) = v_wait x"
  "v_send (v_call c p sq b x) = sq" "v_ipc (v_call c p sq b x) = IPC_WAITING" "v_blocked (v_call c p sq b x) = p"
  "v_pending (v_call c p sq b x) = c" "v_rc_task (v_call c p sq b x) = c" "v_rc_tid (v_call c p sq b x) = v_tid x"
  "v_tid (v_call c p sq b x) = v_tid x" "v_timed (v_call c p sq b x) = b"
  by (simp_all add: v_call_def)

lemma CallArmTimeout_eq: "CallArmTimeout c timeout k = timeout_armed c timeout k"
  by (simp add: CallArmTimeout_def timeout_armed_def)

lemma sched_queue_sender:
  assumes "sched_ok E X k" "node (tasks k t) = None" "p \<noteq> 0" "v_blocked (vt k t) = p"
  defines "k' \<equiv> upd_task t (\<lambda>x. x\<lparr>state := TASK_STATE_BLOCKED\<rparr>) (SchedWaitQueueAddTask p t k)"
  shows "sched_ok E X k'" "view k' = v_upd t (\<lambda>x. x\<lparr>v_send := Some p, v_state := TASK_STATE_BLOCKED\<rparr>) (view k)" "slinks k' = slinks k"
proof -
  have ok: "queues_ok k" "ready_ok E X k"
    using assms(1) by (simp_all add: sched_ok_def)
  show v: "view k' = v_upd t (\<lambda>x. x\<lparr>v_send := Some p, v_state := TASK_STATE_BLOCKED\<rparr>) (view k)"
    unfolding k'_def by (subst view_upd_task [where g = "\<lambda>x. x\<lparr>v_state := TASK_STATE_BLOCKED\<rparr>"]) simp_all
  show s: "slinks k' = slinks k"
    by (simp add: k'_def)
  have w: "wlinks k' = wlinks k" and n: "nlinks k' = nlinks (SchedWaitQueueAddTask p t k)"
    by (simp_all add: k'_def)
  have nd: "node (tasks k' u) = (if u = t then Some (SendQ p) else node (tasks k u))" for u
    using nlinksD(3) [OF n, of u] by (simp add: node_SchedWaitQueueAddTask)
  have st: "state (tasks k' u) = (if u = t then TASK_STATE_BLOCKED else state (tasks k u))"
    "suspended (tasks k' u) = suspended (tasks k u)" "blocked_port (tasks k' u) = blocked_port (tasks k u)" for u
    by (simp_all add: k'_def SchedWaitQueueAddTask_def upd_task_def)
  have "blocked_port (tasks k t) = p"
    using assms(4) by (simp add: v_tasks_view task_view_def)
  then have "nstate_ok k'"
    using ok(1) assms(3) unfolding queues_ok_def nstate_ok_def nd st by auto
  moreover have "nodes_ok k'" "run_ok k'"
    using nodes_run_ok_SchedWaitQueueAddTask [of k t p] ok(1) assms(2) nlinks_ok [OF n] by (simp_all add: queues_ok_def)
  ultimately have "queues_ok k'"
    using ok(1) wlinks_ok [OF w] slinks_ok [OF s] by (simp add: queues_ok_def)
  moreover have "ready_ok (insert t E) X k'"
    using ok(2) by (rule ready_ok_change) (simp_all add: v nd is_queued_def)
  then have "ready_ok E X k'"
    by (rule ready_ok_drop) (simp add: must_run_def st)
  ultimately show "sched_ok E X k'"
    by (simp add: sched_ok_def)
qed


lemma sched_upd_unqueued:
  assumes "sched_ok E X k" "node (tasks k t) = None" "view (upd_task t f k) = v_upd t g (view k)"
    and "\<And>x. node (f x) = node x" "\<And>x. queued_prio (f x) = queued_prio x" "\<And>x. ws_queue (f x) = ws_queue x"
    "\<And>x. ws_linked (f x) = ws_linked x" "\<And>x. timeout_linked (f x) = timeout_linked x" "\<And>x. sleep_slot (f x) = sleep_slot x"
    "\<And>x. wake_deadline (f x) = wake_deadline x"
    and "\<And>x. v_state (g x) = v_state x" "\<And>x. v_susp (g x) = v_susp x" "\<And>x. v_owner (g x) = v_owner x"
  shows "sched_ok E X (upd_task t f k)"
proof -
  have "queues_ok (upd_task t f k)"
    by (rule queues_ok_frame [of k]) (use assms(1,2) in \<open>auto simp: sched_ok_def assms(3-10)\<close>)
  moreover have "ready_ok E X (upd_task t f k)"
    by (rule ready_ok_frame [of E X k]) (use assms(1) in \<open>simp_all add: sched_ok_def assms(3-13)\<close>)
  ultimately show ?thesis
    by (simp add: sched_ok_def)
qed

lemma kinv_drop:
  assumes "kinv (insert t E) X k" "t \<noteq> 0 \<Longrightarrow> state_ok t (vt k t)" "v_state (vt k t) \<noteq> TASK_STATE_READY" "v_state (vt k t) \<noteq> TASK_STATE_RUNNING"
  shows "kinv E X k"
proof -
  have "ready_ok E X k"
    using kinvD(2) [OF assms(1)] by (rule ready_ok_drop) (use assms(3) in \<open>simp add: must_run_def state_view\<close>)
  moreover have p: "proto_ok (insert t E) X (view k)"
    using assms(1) by (simp add: kinv_def)
  have "running_ok (insert t E) (view k)"
    using p by (simp add: proto_ok_def)
  then have "running_ok E (view k)"
    unfolding running_ok_def using assms(4) by (metis insertE)
  moreover have "state_ok s (vt k s)" if "s \<noteq> 0" "s \<notin> E" for s
    using that p assms(2) by (cases "s = t") (simp_all add: proto_ok_def)
  ultimately show ?thesis
    using kinvD(1) [OF assms(1)] p by (simp add: kinv_def proto_ok_def)
qed

text \<open>\<open>SvcCall\<close> fills in the reply capability of the caller.\<close>

definition call_setup :: "Marker \<Rightarrow> Kernel \<Rightarrow> Kernel" where
  "call_setup m k = upd_task (current_task k) (\<lambda>x. x\<lparr>port_marker := m\<rparr>)
     (upd_task (current_task k) (\<lambda>x. x\<lparr>rc_caller_task := current_task k, rc_caller_tid := tid x\<rparr>) k)"

lemma call_setup_props:
  assumes "good k" "current_task k \<noteq> 0"
  defines "c \<equiv> current_task k"
  shows "good (call_setup m k)" "current_task (call_setup m k) = c" "wait_q (call_setup m k) = wait_q k"
    "view (call_setup m k) = v_upd c (\<lambda>x. x\<lparr>v_rc_task := c, v_rc_tid := v_tid x\<rparr>) (view k)"
proof -
  define k1 where "k1 = upd_task c (\<lambda>x. x\<lparr>rc_caller_task := c, rc_caller_tid := tid x\<rparr>) k"
  have "links (upd_task c (\<lambda>x. x\<lparr>port_marker := m\<rparr>) k1) = links k1"
    by (rule links_upd_task) simp_all
  then have l: "links (call_setup m k) = links k1"
    by (simp add: call_setup_def c_def k1_def)
  have v1: "view k1 = v_upd c (\<lambda>x. x\<lparr>v_rc_task := c, v_rc_tid := v_tid x\<rparr>) (view k)"
    unfolding k1_def by (rule view_upd_task) (simp add: task_view_def)
  have i: "kinv {} X0 k" and st: "v_state (vt k c) = TASK_STATE_RUNNING"
    using assms by (simp_all add: good_def state_view c_def)
  have so: "state_ok c (vt k c)"
    using kinv_state [OF i] assms(2) by (simp add: c_def)
  have "sched_ok {} X0 k1"
    unfolding k1_def
    by (rule sched_upd_unqueued [where g = "\<lambda>x. x\<lparr>v_rc_task := c, v_rc_tid := v_tid x\<rparr>"])
       (use i v1 [unfolded k1_def] running_not_queued [OF kinvD(1) [OF i] st] in \<open>simp_all add: kinv_sched\<close>)
  moreover have "proto_ok {} X0 (view k1)"
    unfolding v1 using kinvD(3) [OF i]
    by (rule proto_change) (use assms(2) st so in \<open>auto simp: same_ties_def c_def state_ok_def unlinked_view_def\<close>)
  ultimately have "kinv {} X0 (call_setup m k)"
    using kinv_links [OF l] by (simp add: kinv_sched)
  moreover show cur: "current_task (call_setup m k) = c" "wait_q (call_setup m k) = wait_q k"
    by (simp_all add: call_setup_def c_def upd_task_def)
  show v: "view (call_setup m k) = v_upd c (\<lambda>x. x\<lparr>v_rc_task := c, v_rc_tid := v_tid x\<rparr>) (view k)"
    using linksD(1) [OF l] v1 by simp
  ultimately show "good (call_setup m k)"
    using st cur by (simp add: good_def state_view)
qed

lemma CallBlockAsSender_good:
  assumes "good k" "current_task k \<noteq> 0" "p \<noteq> 0" "v_palive (view k) p"
  defines "c \<equiv> current_task k"
  shows "opt_all good (CallBlockAsSender c p c xlen g timeout (call_setup m k))"
proof -
  define k0 where "k0 = call_setup m k"
  have cs: "good k0" "current_task k0 = c" "view k0 = v_upd c (\<lambda>x. x\<lparr>v_rc_task := c, v_rc_tid := v_tid x\<rparr>) (view k)"
    using call_setup_props [OF assms(1,2), of m] by (simp_all add: k0_def c_def)
  have i: "kinv {} X0 k" and st: "v_state (vt k c) = TASK_STATE_RUNNING" and cz: "c \<noteq> 0"
    using assms(1,2) by (simp_all add: good_def state_view c_def)
  have so: "state_ok c (vt k c)"
    using kinv_state [OF i cz] by simp
  then have u: "unlinked_view (vt k c)" "v_ipc (vt k c) = IPC_NONE"
    using st by (simp_all add: state_ok_def)
  have s0: "sched_ok {} X0 k0" and n0: "node (tasks k0 c) = None"
    using cs running_not_queued [of k0 c] st by (simp_all add: good_def kinv_sched sched_ok_def)
  let ?f1 = "\<lambda>x. x\<lparr>ipc_state := IPC_WAITING, blocked_port := p, pending_reply_cap := c, msg_xfer_len := xlen, pending_grant_handle := g\<rparr>"
  define k1 where "k1 = upd_task c ?f1 k0"
  have v1: "view k1 = v_upd c (\<lambda>x. x\<lparr>v_ipc := IPC_WAITING, v_blocked := p, v_pending := c\<rparr>) (view k0)"
    unfolding k1_def by (rule view_upd_task) simp
  have s1: "sched_ok {} X0 k1"
    unfolding k1_def by (rule sched_upd_unqueued [OF s0 n0 v1 [unfolded k1_def]]) simp_all
  define k2 where "k2 = upd_task c (\<lambda>x. x\<lparr>state := TASK_STATE_BLOCKED\<rparr>) (SchedWaitQueueAddTask p c k1)"
  have n1: "node (tasks k1 c) = None"
    using n0 by (simp add: k1_def upd_task_def)
  note q = sched_queue_sender [OF s1 n1 assms(3), folded k2_def]
  have b1: "v_blocked (vt k1 c) = p"
    by (simp add: v1)
  have t2: "\<not> v_timed (vt k2 c)"
    using u by (simp add: q(2) [OF b1] v1 cs(3) unlinked_view_def)
  define k3 where "k3 = CallArmTimeout c timeout k2"
  note a = timeout_armed_props [OF q(1) [OF b1] t2, of timeout, folded CallArmTimeout_eq, folded k3_def]
  have v3: "view k3 = v_upd c (v_call c p (Some p) (timeout \<noteq> TIMEOUT_INFINITE)) (view k)"
    unfolding a(2) q(2) [OF b1] v1 cs(3) by (simp add: v_call_def [abs_def])
  have "proto_ok {} X0 (view k3)"
    unfolding v3
    by (rule proto_block [OF kinvD(3) [OF i] cz st])
       (use u so assms(3,4) cz st in \<open>auto simp: same_ties_def state_ok_def calling_def unlinked_view_def depends_on_def\<close>)
  then have "kinv {} X0 k3"
    using a(1) by (simp add: kinv_sched)
  then have k4: "kinv {} X0 (PortBoostServers p k3)"
    by (rule kinv_quiet [OF quiet_PortBoostServers])
  have "opt_all (kinv {} X0) (if PortHasPending p (PortBoostServers p k3) then ObserverNotify (ObsPort p) (PortBoostServers p k3) else Some (PortBoostServers p k3))"
    using k4 keepsD [OF keeps_event(5) k4] by simp
  then show ?thesis
    unfolding CallBlockAsSender_def Let_def k0_def [symmetric] k1_def [symmetric] k2_def [symmetric] k3_def [symmetric]
    by (rule opt_all_bind) (intro Schedule_good blocked_schedulable)
qed


lemma v_call_set:
  "v_rc_task x = c \<Longrightarrow> v_rc_tid x = v_tid x \<Longrightarrow>
     x\<lparr>v_ipc := IPC_WAITING, v_blocked := p, v_pending := c, v_state := TASK_STATE_BLOCKED, v_timed := b\<rparr> = v_call c p (v_send x) b x"
  by (cases x) (simp add: v_call_def)

text \<open>The receiver and the caller change places.\<close>

lemma handoff_props:
  fixes xlen :: u32 and g :: Handle and timeout :: Duration
  assumes "kinv {} X0 k" "c \<noteq> 0" "v_state (vt k c) = TASK_STATE_RUNNING" "v_rc_task (vt k c) = c" "v_rc_tid (vt k c) = v_tid (vt k c)"
    and "v_wait (vt k rx) = Some (RecvQ p)" "p \<noteq> 0"
  defines "k1 \<equiv> upd_task c (\<lambda>x. x\<lparr>ipc_state := IPC_WAITING, blocked_port := p, pending_reply_cap := c, state := TASK_STATE_BLOCKED\<rparr>)
                  (wait_remove rx k)"
  defines "k2 \<equiv> DeliverCallToReceiver c rx c xlen g (CallArmTimeout c timeout k1)"
  shows "kinv {rx} X0 k2" "v_state (vt k2 rx) = TASK_STATE_BLOCKED" "stopped (vt k2 rx)" "rx \<noteq> 0" "rx \<noteq> c"
    "\<And>t. t \<noteq> 0 \<Longrightarrow> v_state (vt k2 t) \<noteq> TASK_STATE_RUNNING"
proof -
  let ?b = "timeout \<noteq> TIMEOUT_INFINITE"
  have p: "v_palive (view k) p"
  proof -
    have "rx \<noteq> 0"
      using wait_remove_props(1) [OF assms(1,6)] by simp
    moreover have "RecvQ p \<in> depends_on (vt k rx)"
      using assms(6) by (simp add: depends_on_def)
    ultimately have "q_live (view k) (RecvQ p) \<or> RecvQ p \<in> dying X0"
      using kinvD(3) [OF assms(1)] unfolding proto_ok_def live_ok_def by blast
    then show ?thesis
      by simp
  qed
  have w: "rx \<noteq> 0" "kinv {rx} X0 (wait_remove rx k)" "stopped (vt (wait_remove rx k) rx)"
    using wait_remove_props [OF assms(1,6)] by simp_all
  then show "rx \<noteq> 0"
    by simp
  have so: "state_ok c (vt k c)" "state_ok rx (vt k rx)"
    using kinv_state [OF assms(1)] assms(2) w(1) by simp_all
  then have u: "unlinked_view (vt k c)" "v_ipc (vt k c) = IPC_NONE" "v_serving (vt k c) \<noteq> 0 \<Longrightarrow> v_cap (vt k c) \<noteq> 0"
    using assms(3) by (simp_all add: state_ok_def)
  have rx: "v_state (vt k rx) = TASK_STATE_BLOCKED" "v_cap (vt k rx) = 0" "v_serving (vt k rx) = 0"
    using state_ok_wait [OF so(2) assms(6)] so(2) assms(6) by (auto simp: state_ok_def)
  show ne: "rx \<noteq> c"
    using rx(1) assms(3) by auto
  let ?k0 = "wait_remove rx k"
  have s0: "sched_ok {rx} X0 ?k0" and n0: "node (tasks ?k0 c) = None"
    using w(2) running_not_queued [OF kinvD(1) [OF assms(1)] assms(3)] nlinksD(3) [of ?k0 k c] by (simp_all add: kinv_sched)
  let ?f = "\<lambda>x. x\<lparr>ipc_state := IPC_WAITING, blocked_port := p, pending_reply_cap := c\<rparr>"
  let ?ka = "upd_task c ?f ?k0"
  have va: "view ?ka = v_upd c (\<lambda>x. x\<lparr>v_ipc := IPC_WAITING, v_blocked := p, v_pending := c\<rparr>) (view ?k0)"
    by (rule view_upd_task) simp
  have sa: "sched_ok {rx} X0 ?ka"
    by (rule sched_upd_unqueued [OF s0 n0 va]) simp_all
  have na: "node (tasks ?ka c) = None"
    using n0 by (simp add: upd_task_def)
  have k1: "k1 = upd_task c (\<lambda>x. x\<lparr>state := TASK_STATE_BLOCKED\<rparr>) ?ka"
    by (simp add: k1_def upd_task_def)
  have s1: "sched_ok {rx} X0 k1"
    unfolding k1 by (rule sched_set_state) (use na sched_ok_mono [OF sa] in auto)
  have v1: "view k1 = v_upd c (\<lambda>x. x\<lparr>v_ipc := IPC_WAITING, v_blocked := p, v_pending := c, v_state := TASK_STATE_BLOCKED\<rparr>) (view ?k0)"
    unfolding k1 by (subst view_upd_task [where g = "\<lambda>x. x\<lparr>v_state := TASK_STATE_BLOCKED\<rparr>"]) (simp_all add: va)
  have t1: "\<not> v_timed (vt k1 c)"
    using u(1) ne by (simp add: v1 unlinked_view_def)
  define ka where "ka = CallArmTimeout c timeout k1"
  note a = timeout_armed_props [OF s1 t1, of timeout, folded CallArmTimeout_eq, folded ka_def]
  have "view ka = v_upd c (\<lambda>x. x\<lparr>v_ipc := IPC_WAITING, v_blocked := p, v_pending := c, v_state := TASK_STATE_BLOCKED, v_timed := ?b\<rparr>) (view ?k0)"
    unfolding a(2) v1 by simp
  moreover have "vt ?k0 c = vt k c"
    using ne by simp
  ultimately have v: "view ka = v_upd c (v_call c p None ?b) (view ?k0)"
    using v_call_set [where x = "vt ?k0 c" and c = c and p = p and b = ?b] assms(4,5) u(1) by (simp add: unlinked_view_def del: view_wait_remove) (rule v_upd_cong, simp)
  have "may_state X0 (view ?k0) c (v_state (vt ?k0 c))"
    using kinvD(3) [OF w(2)] by (simp add: proto_ok_def pins_ok_def del: view_wait_remove)
  then have may: "may_state X0 (view ?k0) c TASK_STATE_BLOCKED"
    using assms(3) ne by (auto simp: may_state_def)
  have pa: "proto_ok {rx, c} X0 (view ka)"
    unfolding v using kinvD(3) [OF w(2)]
    by (rule proto_change_gen)
       (use assms(2) u ne may in \<open>auto simp: same_ties_def dead_def depends_on_def unlinked_view_def\<close>)
  have ca: "vt ka c = v_call c p None ?b (vt k c)" "vt ka rx = (vt k rx)\<lparr>v_wait := None\<rparr>"
    using ne by (simp_all add: v)
  have k2: "k2 = DeliverCallToReceiver c rx c xlen g ka"
    by (simp add: k2_def ka_def)
  have v2: "view k2 = v_serve rx c p (view ka)"
    using DeliverCallToReceiver_props(2) [OF a(1) ne, of xlen g] by (simp add: k2 ca)
  have p2: "proto_ok (insert c {rx, c}) X0 (view k2)"
    unfolding v2
    by (rule proto_serve [OF pa w(1) assms(2) ne assms(7)])
       (use rx u p ne in \<open>auto simp: ca unlinked_view_def v\<close>)
  have i2: "kinv {c, rx} X0 k2"
  proof -
    have "insert c {rx, c} = {c, rx}"
      by blast
    moreover have "sched_ok {c, rx} X0 k2"
      using sched_ok_mono [OF DeliverCallToReceiver_props(1) [OF a(1) ne, of xlen g], of "{c, rx}"] by (simp add: k2)
    ultimately show ?thesis
      using p2 by (simp add: kinv_sched)
  qed
  have c2: "vt k2 c = (v_call c p None ?b (vt k c))\<lparr>v_holder := rx\<rparr>" "vt k2 rx = (vt k rx)\<lparr>v_wait := None, v_cap := c, v_serving := p\<rparr>"
    unfolding v2 v_serve_sel(1) [OF ne] using ne by (simp_all add: ca)
  show "kinv {rx} X0 k2"
    by (rule kinv_drop [OF i2])
       (use u assms(2,7) w(1) in \<open>simp_all add: c2 state_ok_def calling_def unlinked_view_def\<close>)
  show "v_state (vt k2 rx) = TASK_STATE_BLOCKED" "stopped (vt k2 rx)"
    using rx w(3) assms(2) by (simp_all add: c2 stopped_def)
  show "v_state (vt k2 t) \<noteq> TASK_STATE_RUNNING" if "t \<noteq> 0" for t
  proof
    assume "v_state (vt k2 t) = TASK_STATE_RUNNING"
    then have t: "t \<noteq> c" "v_state (vt k t) = TASK_STATE_RUNNING"
      by (auto simp: v2 v_serve_sel(1) [OF ne] v c2 split: if_splits)
    then show False
      using kinv_running [OF assms(1) that] kinv_running [OF assms(1,2,3)] by simp
  qed
qed


lemma switch_good:
  assumes "kinv {n} X0 k" "stopped (vt k n)" "n \<noteq> 0" "\<And>t. t \<noteq> 0 \<Longrightarrow> v_state (vt k t) \<noteq> TASK_STATE_RUNNING"
    and "\<not> suspended (tasks (SchedUnblock n k) n)" "\<not> is_frozen n (SchedUnblock n k)"
  shows "good (SchedSwitchNext n (SchedUnblock n k))"
proof -
  let ?k = "SchedUnblock n k"
  have q: "queues_ok k" "ready_ok {n} X0 k" "nstate_ok k"
    using assms(1) by (simp_all add: kinv_def queues_ok_def)
  have st: "v_state (vt k n) = TASK_STATE_BLOCKED" "v_send (vt k n) = None"
    using assms(2) by (simp_all add: stopped_def)
  have v: "view ?k = v_upd n v_woken (view k)"
    by (rule view_SchedUnblock [OF q(1)])
  have "sched_ok {n} X0 ?k"
    using queues_ok_SchedUnblock [OF q(1) st(2)] ready_ok_SchedUnblock [OF q(1,2), of n] by (simp add: sched_ok_def)
  moreover have "proto_ok {} X0 (view ?k)"
    unfolding v by (rule proto_woken) (use assms(1,2) in \<open>simp_all add: kinv_def stopped_def\<close>)
  then have "proto_ok {} (at_rest X0) (view ?k)"
    by (rule proto_at_rest) (use assms(4) in \<open>simp add: v\<close>)
  moreover have ni: "n \<noteq> idle_task"
    using kinv_not_idle [OF assms(1), of n] st by simp
  moreover have "node (tasks ?k n) = None"
    using node_send_view [OF q(3), of n] st nlinksD(3) [OF SchedUnblock_frame, of n k n] by simp
  moreover have "\<not> v_susp (vt ?k n)" "v_state (vt ?k n) = TASK_STATE_READY"
    using assms(5) by (simp_all add: v_tasks_view task_view_def SchedUnblock_def Let_def upd_task_def)
  moreover note assms(3,6)
  ultimately have "kinv {} X0 (upd_task n (\<lambda>x. x\<lparr>state := TASK_STATE_RUNNING\<rparr>) (?k\<lparr>current_task := n, on_idle_stack := False\<rparr>))"
    "v_state (vt (upd_task n (\<lambda>x. x\<lparr>state := TASK_STATE_RUNNING\<rparr>) (?k\<lparr>current_task := n, on_idle_stack := False\<rparr>)) n) = TASK_STATE_RUNNING"
    using switch_to [of n X0 ?k] by simp_all
  then have "kinv {} X0 (SchedSwitchNext n ?k)" "v_state (vt (SchedSwitchNext n ?k) n) = TASK_STATE_RUNNING"
    using links_SchedSwitchNext [OF ni, of ?k, THEN kinv_links] linksD(1) [OF links_SchedSwitchNext [OF ni, of ?k]] by simp_all
  moreover have "current_task (SchedSwitchNext n ?k) = n"
    using viewD(19) [OF linksD(1) [OF links_SchedSwitchNext [OF ni, of ?k]]] by (simp add: upd_task_def)
  ultimately show ?thesis
    by (simp add: good_def state_view)
qed

lemma tables_only_current: "tables_only k k' \<Longrightarrow> current_task k' = current_task k"
  using tables_onlyD(5) [of k k'] by (simp add: view_def)

lemma tables_only_good: "tables_only k k' \<Longrightarrow> good k \<Longrightarrow> good k'"
  using tables_onlyD(1) [of k k'] tables_onlyD(6) [of k k' "{}" X0] tables_only_current [of k k'] by (simp add: good_def state_view)

lemma CallHandoffToReceiver_good:
  assumes "good k" "current_task k \<noteq> 0" "p \<noteq> 0"
  defines "c \<equiv> current_task k"
  shows "opt_all (\<lambda>r. good (snd r)) (CallHandoffToReceiver kz c p c xlen g timeout (call_setup m k))"
proof -
  define k0 where "k0 = call_setup m k"
  have cs: "good k0" "current_task k0 = c" "view k0 = v_upd c (\<lambda>x. x\<lparr>v_rc_task := c, v_rc_tid := v_tid x\<rparr>) (view k)"
    using call_setup_props [OF assms(1,2), of m] by (simp_all add: k0_def c_def)
  have cz: "c \<noteq> 0" and st: "v_state (vt k c) = TASK_STATE_RUNNING"
    using assms(1,2) by (simp_all add: good_def state_view c_def)
  have i0: "kinv {} X0 k0"
    using cs(1) by (simp add: good_def)
  show ?thesis
  proof (cases "wait_q k0 (RecvQ p)")
    case Nil
    then show ?thesis
      by (simp add: CallHandoffToReceiver_def k0_def)
  next
    case (Cons rx rest)
    obtain err gr k1 where al: "AllocateGrantSlot kz (owner (tasks k0 c)) (owner (tasks k0 rx)) g k0 = (err, gr, k1)"
      by (metis prod_cases3)
    have to: "tables_only k0 k1"
      using i0 al by (rule AllocateGrantSlot_tables)
    have i1: "kinv {} X0 k1" and vt1: "v_tasks (view k1) = v_tasks (view k0)"
      using tables_onlyD [OF to] i0 by simp_all
    have fail: "good (ArchSetInFrame c 0 (err_reg err) k1)"
      using tables_only_good [OF to cs(1)] good_links [OF links_ArchSetInFrame] by simp
    have "v_wait (vt k0 rx) = Some (RecvQ p)"
      using Cons waiters_of [OF kinvD(1) [OF i0], of rx "RecvQ p"] by simp
    then have rx: "v_wait (vt k1 rx) = Some (RecvQ p)"
      by (simp add: vt1)
    define k2 where "k2 = DeliverCallToReceiver c rx c xlen gr (CallArmTimeout c timeout
      (upd_task c (\<lambda>x. x\<lparr>ipc_state := IPC_WAITING, blocked_port := p, pending_reply_cap := c, state := TASK_STATE_BLOCKED\<rparr>) (wait_remove rx k1)))"
    have c1: "v_state (vt k1 c) = TASK_STATE_RUNNING" "v_rc_task (vt k1 c) = c" "v_rc_tid (vt k1 c) = v_tid (vt k1 c)"
      using st by (simp_all add: vt1 cs(3))
    note h = handoff_props(1-3,6) [OF i1 cz c1 rx assms(3), where xlen = xlen and g = gr and timeout = timeout, folded k2_def]
      handoff_props(4) [OF i1 cz c1 rx assms(3)]
    have a: "opt_all good (Schedule (SchedAdd rx (SchedUnblock rx k2)))"
      by (intro Schedule_good blocked_schedulable kinv_unblock_add) (use h in \<open>simp_all add: stopped_def\<close>)
    have b: "good (SchedSwitchNext rx (SchedUnblock rx k2))" if "\<not> suspended (tasks (SchedUnblock rx k2) rx)"
      "\<not> (owner (tasks (SchedUnblock rx k2) rx) \<noteq> NULL \<and> frozen (spaces (SchedUnblock rx k2) (owner (tasks (SchedUnblock rx k2) rx))))"
      by (rule switch_good [OF h(1,3,5,4)]) (use that in \<open>simp_all add: is_frozen_def\<close>)
    have fin: "opt_all (\<lambda>r. good (snd r)) (do {
        k \<leftarrow> (if suspended (tasks (SchedUnblock rx k2) rx) \<or> (owner (tasks (SchedUnblock rx k2) rx) \<noteq> NULL
                  \<and> frozen (spaces (SchedUnblock rx k2) (owner (tasks (SchedUnblock rx k2) rx)))) \<or> SchedAnyCpuTakers rx (SchedUnblock rx k2)
              then Schedule (SchedAdd rx (SchedUnblock rx k2)) else Some (SchedSwitchNext rx (SchedUnblock rx k2)));
        Some (True, k) })"
      by (rule opt_all_bind [where P = good]) (use a b in auto)
    show ?thesis
      unfolding k0_def [symmetric] CallHandoffToReceiver_def Cons list.case al Let_def prod.case k2_def [symmetric]
      by (intro opt_all_if fin) (simp_all add: fail)
  qed
qed


section \<open>Replies\<close>

lemma WheelBucketMin_upd: "(\<And>x. wake_deadline (f x) = wake_deadline x) \<Longrightarrow> WheelBucketMin s (upd_task t f k) = WheelBucketMin s k"
proof -
  assume "\<And>x. wake_deadline (f x) = wake_deadline x"
  then have "wake_deadline (tasks (upd_task t f k) u) = wake_deadline (tasks k u)" for u
    by (simp add: upd_task_def)
  moreover have "sleep_wheel (upd_task t f k) = sleep_wheel k"
    by (simp add: upd_task_def)
  ultimately show ?thesis
    by (simp only: WheelBucketMin_def)
qed

lemma reply_swap:
  fixes x :: TaskObject
  shows "x\<lparr>pending_reply_cap := a, reply_holder := b, timeout_linked := d\<rparr> = x\<lparr>timeout_linked := d, pending_reply_cap := a, reply_holder := b\<rparr>"
    "x\<lparr>pending_reply_cap := a, reply_holder := b, sleep_slot := i\<rparr> = x\<lparr>sleep_slot := i, pending_reply_cap := a, reply_holder := b\<rparr>"
    "x\<lparr>reply_holder := b, pending_reply_cap := a\<rparr> = x\<lparr>pending_reply_cap := a, reply_holder := b\<rparr>"
    "x\<lparr>pending_reply_cap := a, reply_holder := b, wake_deadline := w, ipc_state := ip, blocked_port := bp, state := st\<rparr>
       = x\<lparr>wake_deadline := w, ipc_state := ip, blocked_port := bp, pending_reply_cap := a, reply_holder := b, state := st\<rparr>"
  by (cases x; simp)+

lemma SchedRemoveSleepQueue_upd:
  "SchedRemoveSleepQueue t (upd_task t (\<lambda>x. x\<lparr>pending_reply_cap := a, reply_holder := b\<rparr>) k)
   = upd_task t (\<lambda>x. x\<lparr>pending_reply_cap := a, reply_holder := b\<rparr>) (SchedRemoveSleepQueue t k)"
proof -
  let ?u = "upd_task t (\<lambda>x. x\<lparr>pending_reply_cap := a, reply_holder := b\<rparr>)"
  have r: "wheel_remove t s (?u k) = ?u (wheel_remove t s k)" for s k
    by (simp add: wheel_remove_def upd_task_def reply_swap)
  have f: "sleep_wheel (?u k) = sleep_wheel k" "wheel_min (?u k) = wheel_min k" "wheel_occ (?u k) = wheel_occ k"
    "sleep_slot (tasks (?u k) t) = sleep_slot (tasks k t)" "timeout_linked (tasks (?u k) t) = timeout_linked (tasks k t)"
    "wake_deadline (tasks (?u k) t) = wake_deadline (tasks k t)" "WheelBucketMin s (?u k) = WheelBucketMin s k"
    "(?u k)\<lparr>wheel_occ := oc\<rparr> = ?u (k\<lparr>wheel_occ := oc\<rparr>)" "(?u k)\<lparr>wheel_min := mn\<rparr> = ?u (k\<lparr>wheel_min := mn\<rparr>)"
    "upd_task t (\<lambda>x. x\<lparr>sleep_slot := i\<rparr>) (?u k) = ?u (upd_task t (\<lambda>x. x\<lparr>sleep_slot := i\<rparr>) k)" for s k oc mn i
    by (simp_all add: WheelBucketMin_upd) (simp_all add: upd_task_def reply_swap)
  show ?thesis
    by (simp add: SchedRemoveSleepQueue_def Let_def f r)
qed

lemma reply_wake_eq:
  assumes "\<not> ws_linked (tasks k t)"
  shows "reply_wake t k = SchedAdd t (SchedUnblock t (upd_task t (\<lambda>x. x\<lparr>pending_reply_cap := 0, reply_holder := 0\<rparr>) k))"
proof -
  have "\<not> ws_linked (tasks (upd_task t (\<lambda>x. x\<lparr>pending_reply_cap := 0, reply_holder := 0\<rparr>) k) t)"
    using assms by (simp add: upd_task_def)
  then show ?thesis
    by (simp add: reply_wake_def SchedUnblock_def Let_def SchedRemoveSleepQueue_upd) (simp add: upd_task_def reply_swap)
qed

text \<open>A caller whose reply is about to be delivered.\<close>

definition replying :: "Scope \<Rightarrow> TaskPtr \<Rightarrow> Kernel \<Rightarrow> bool" where
  "replying X t k \<longleftrightarrow> sched_ok {t} X k \<and> proto_ok {t} X (v_upd t (\<lambda>x. x\<lparr>v_pending := 0, v_holder := 0\<rparr>) (view k))
     \<and> stopped ((vt k t)\<lparr>v_holder := 0\<rparr>) \<and> v_wait (vt k t) = None"

lemma replying_links: "links k = links k' \<Longrightarrow> replying X t k = replying X t k'"
  using sched_ok_links [of k k'] linksD(1) [of k k'] by (simp add: replying_def)

lemma replying_tables:
  assumes "replying X t k" "tables_only k k'"
  shows "replying X t k'"
proof -
  obtain tb where v: "view k' = (view k)\<lparr>v_tables := tb\<rparr>" and tb: "\<And>sp. tbl_good (tb sp)"
    using assms(2) unfolding tables_only_def by blast
  let ?g = "\<lambda>x. x\<lparr>v_pending := 0, v_holder := 0\<rparr>"
  define w where "w = v_upd t ?g (view k)"
  have w': "v_upd t ?g (view k') = w\<lparr>v_tables := tb\<rparr>"
    by (simp add: v v_upd_def w_def)
  have p: "proto_ok {t} X w"
    using assms(1) by (simp add: replying_def w_def)
  have "q_live (w\<lparr>v_tables := tb\<rparr>) q = q_live w q" for q
    by (cases q) simp_all
  then have "live_ok X (w\<lparr>v_tables := tb\<rparr>)"
    using p unfolding proto_ok_def live_ok_def by simp
  moreover have "pins_ok X w"
    using p by (simp add: proto_ok_def)
  then have "pins_ok X (w\<lparr>v_tables := tb\<rparr>)"
    using tb by (simp add: pins_ok_def may_state_def)
  ultimately have "proto_ok {t} X (w\<lparr>v_tables := tb\<rparr>)"
    using p unfolding proto_ok_def caps_ok_def servers_ok_def parked_ok_def members_ok_def running_ok_def by simp
  moreover have "sched_ok {t} X k"
    using assms(1) by (simp add: replying_def)
  then have "queues_ok k'" "ready_ok {t} X k'"
    using queues_ok_frame [of k k'] ready_ok_frame [of "{t}" X k k'] tables_onlyD(7-9) [OF assms(2)] by (simp_all add: sched_ok_def v)
  ultimately show ?thesis
    using assms(1) tables_onlyD(1) [OF assms(2)] by (simp add: replying_def w' sched_ok_def)
qed

lemma reply_wake_kinv:
  assumes "replying X t k"
  shows "kinv {} X (reply_wake t k)"
proof -
  let ?f = "\<lambda>x. x\<lparr>pending_reply_cap := 0, reply_holder := 0\<rparr>" and ?g = "\<lambda>x. x\<lparr>v_pending := 0, v_holder := 0\<rparr>"
  have s: "sched_ok {t} X k" and st: "stopped ((vt k t)\<lparr>v_holder := 0\<rparr>)"
    using assms by (simp_all add: replying_def)
  then have "waits_ok k"
    by (simp add: sched_ok_def queues_ok_def)
  then have nl: "\<not> ws_linked (tasks k t)"
    using v_wait_unlinked [of k t] assms by (simp add: replying_def)
  have "upd_task t ?f k = upd_task t (\<lambda>x. x\<lparr>pending_reply_cap := 0\<rparr>) (upd_task t (\<lambda>x. x\<lparr>reply_holder := 0\<rparr>) k)"
    by (simp add: upd_task_def reply_swap)
  then have "sched_ok {t} X (upd_task t ?f k)" "view (upd_task t ?f k) = v_upd t ?g (view k)"
    using s by (simp, subst view_upd_task [where g = ?g], simp_all)
  then have "kinv {t} X (upd_task t ?f k)" "view (upd_task t ?f k) = v_upd t ?g (view k)"
    using assms by (simp_all add: kinv_sched replying_def)
  then show ?thesis
    unfolding reply_wake_eq [OF nl] by (intro kinv_unblock_add) (use st in \<open>simp_all add: stopped_def\<close>)
qed

lemma reply_to_keeps:
  assumes "replying X t k"
  shows "opt_all (\<lambda>r. kinv {} X (snd r)) (reply_to kz t xlen ge g k)"
proof -
  have r: "kinv {} X (reply_wake t k')" if "links k' = links k" for k'
    using reply_wake_kinv assms replying_links [OF that] by blast
  then show ?thesis
    by (simp add: reply_to_def ret_err_def ReplyFailCaller_def ReplyDeliverToCaller_def Let_def link_frame)
qed

text \<open>The caller a server is about to answer.\<close>

lemma replying_served:
  assumes "kinv {} X k" "s \<noteq> 0" "v_cap (vt k s) \<noteq> 0" "v_state (vt k s) \<noteq> TASK_STATE_BLOCKED"
  shows "replying X (v_cap (vt k s)) (TaskClearReplyCap s k)"
proof -
  let ?c = "v_cap (vt k s)"
  note c = cap_caller [OF assms(1,2) refl assms(3)]
  have h: "v_holder (vt k ?c) = s" "calling ?c (vt k ?c)" "v_state (vt k ?c) = TASK_STATE_BLOCKED" "v_send (vt k ?c) = None"
    "v_held (vt k ?c) = 0" "v_serving (vt k ?c) \<noteq> 0 \<Longrightarrow> v_cap (vt k ?c) \<noteq> 0"
    using c by simp_all
  have ne: "?c \<noteq> s"
    using h(3) assms(4) by auto
  have sc: "sched_ok {} X k"
    using assms(1) by (simp add: kinv_sched)
  note t = TaskClearReplyCap_props [OF sc, of s]
  have "proto_ok {?c} X (v_upd ?c (\<lambda>x. x\<lparr>v_holder := 0\<rparr>) (v_clear s (view k)))"
    by (rule proto_release [OF kinvD(3) [OF assms(1)] assms(3) h(1) assms(2)])
  then have "proto_ok {?c} X (v_upd ?c (\<lambda>x. x\<lparr>v_pending := 0\<rparr>) (v_upd ?c (\<lambda>x. x\<lparr>v_holder := 0\<rparr>) (v_clear s (view k))))"
    by (rule proto_change) (use assms(3) in \<open>auto simp: same_ties_def\<close>)
  moreover have "(\<lambda>x :: TaskView. x\<lparr>v_holder := 0, v_pending := 0\<rparr>) = (\<lambda>x. x\<lparr>v_pending := 0, v_holder := 0\<rparr>)"
    by (rule ext) (rule TaskView.equality; simp)
  ultimately have "proto_ok {?c} X (v_upd ?c (\<lambda>x. x\<lparr>v_pending := 0, v_holder := 0\<rparr>) (view (TaskClearReplyCap s k)))"
    by (simp add: t(2))
  moreover have "sched_ok {?c} X (TaskClearReplyCap s k)"
    using sched_ok_mono [OF t(1)] by blast
  ultimately show ?thesis
    using h ne by (simp add: replying_def t(2) stopped_def calling_def)
qed

end
