(* ===== verification/Msg_Correct.thy ===== *)
theory Msg_Correct
  imports Handle_Correct Kexample
begin

text \<open>
  Properties of single message operations: the packing of tickets and the copying of message buffers.
\<close>

section \<open>Tickets\<close>

lemma bit_TICKET_PACK:
  assumes "s < 2 ^ 6" "g < 2 ^ 15"
  shows "bit (TICKET_PACK i s g) n \<longleftrightarrow>
    (if n < 10 then bit i n else if n < 16 then bit s (n - 10) else n < 31 \<and> bit g (n - 16))"
  using word_high_bit [of s 6 "n - 10"] word_high_bit [of g 15 "n - 16"] assms
  by (cases "n < 31") (auto simp: TICKET_PACK_def HANDLE_INDEX_MASK_mask bit_simps)

lemma mask_6_15: "(0x3F :: u32) = mask 6" "(0x7FFF :: u32) = mask 15"
  by (simp_all add: mask_eq_exp_minus_1)

lemma ticket_fields:
  assumes "i < 2 ^ 10" "s < 2 ^ 6" "g < 2 ^ 15"
  shows "TICKET_INDEX (TICKET_PACK i s g) = i" "TICKET_SLOT (TICKET_PACK i s g) = s"
    "TICKET_GEN (TICKET_PACK i s g) = g" "\<not> bit (TICKET_PACK i s g) 31"
proof -
  have h: "bit i n \<Longrightarrow> n < 10" "bit s n \<Longrightarrow> n < 6" "bit g n \<Longrightarrow> n < 15" for n
    using word_high_bit [OF assms(1), of n] word_high_bit [OF assms(2), of n] word_high_bit [OF assms(3), of n]
    by (auto simp: not_less [symmetric])
  note b = bit_TICKET_PACK [OF assms(2,3)]
  show "TICKET_INDEX (TICKET_PACK i s g) = i"
    by (intro bit_word_eqI) (auto dest: h(1) simp: TICKET_INDEX_def HANDLE_INDEX_MASK_mask b bit_simps not_less)
  show "TICKET_SLOT (TICKET_PACK i s g) = s"
    by (intro bit_word_eqI) (auto dest: h(2) simp: TICKET_SLOT_def mask_6_15 b bit_simps not_less)
  show "TICKET_GEN (TICKET_PACK i s g) = g"
    by (intro bit_word_eqI) (auto dest: h(3) simp: TICKET_GEN_def mask_6_15 b bit_simps not_less)
  show "\<not> bit (TICKET_PACK i s g) 31"
    by (simp add: b)
qed

text \<open>
  C15: Tickets and handles carry what they were made from. For a slot of a handle table, a slot of the
  table of held calls and a 15-bit ticket generation, the index, slot and generation read back from the
  packed ticket are the ones put in; for a slot and a 21-bit handle generation, the index and generation
  read back from the packed handle are the ones put in. Both have a clear top bit, so neither is ever
  mistaken for an error code, and every 32-bit value is put together again from the index and generation
  read from it.
\<close>

theorem ticket_round_trip:
  assumes "i < 2 ^ 10" "s < 2 ^ 6" "tg < 2 ^ 15" "g < 2 ^ 21"
  shows "TICKET_INDEX (TICKET_PACK i s tg) = i \<and> TICKET_SLOT (TICKET_PACK i s tg) = s
    \<and> TICKET_GEN (TICKET_PACK i s tg) = tg \<and> \<not> bit (TICKET_PACK i s tg) 31
    \<and> HANDLE_INDEX (HANDLE_PACK i g) = i \<and> HANDLE_GEN (HANDLE_PACK i g) = g \<and> \<not> bit (HANDLE_PACK i g) 31
    \<and> (\<forall>h. HANDLE_PACK (HANDLE_INDEX h) (HANDLE_GEN h) = h)"
proof -
  have "g \<le> HANDLE_GEN_MASK"
    using assms(4) by (simp add: HANDLE_GEN_MASK_def word_less_nat_alt word_le_nat_alt)
  then show ?thesis
    using ticket_fields [OF assms(1-3)] HANDLE_INDEX_PACK [of i g] HANDLE_GEN_PACK [of g i] HANDLE_PACK_positive [of g i]
      assms(1) HANDLE_split
    by simp
qed

theorem ticket_round_trip_witness:
  "TICKET_SLOT (TICKET_PACK 1023 63 0x7FFF) = 63 \<and> TICKET_GEN (TICKET_PACK 1023 63 0x7FFF) = 0x7FFF
   \<and> HANDLE_GEN (HANDLE_PACK 1023 0x1FFFFF) = 0x1FFFFF"
  using ticket_round_trip [of 1023 63 "0x7FFF" "0x1FFFFF"] by simp

section \<open>Message buffers\<close>

lemma copy_bytes_Suc:
  "copy_bytes src dst (Suc n) m = (copy_bytes src dst n m)(dst + of_nat n := copy_bytes src dst n m (src + of_nat n))"
  by (simp add: copy_bytes_def)

lemma copy_bytes_apart:
  assumes "\<forall>i < n. \<forall>j < n. src + of_nat i \<noteq> dst + of_nat j" "n \<le> 2 ^ 32"
  shows "copy_bytes src dst n m a
    = (if unat (a - dst) < n then m (src + (a - dst)) else m a)"
  using assms
proof (induction n arbitrary: a)
  case 0
  then show ?case by (simp add: copy_bytes_def)
next
  case (Suc n)
  have IH: "copy_bytes src dst n m a = (if unat (a - dst) < n then m (src + (a - dst)) else m a)" for a
    using Suc by simp
  have ns: "\<not> unat (src + of_nat n - dst) < n"
  proof
    assume l: "unat (src + of_nat n - dst) < n"
    have "src + of_nat n = dst + of_nat (unat (src + of_nat n - dst))"
      by simp
    then show False
      using Suc.prems(1) l by (metis lessI less_Suc_eq)
  qed
  have n: "unat (of_nat n :: u32) = n"
    using Suc.prems(2) by (simp add: unat_of_nat take_bit_nat_eq_self)
  have e: "unat (a - dst) = n \<longleftrightarrow> a = dst + of_nat n"
  proof
    assume "unat (a - dst) = n"
    then have "a - dst = of_nat n"
      by auto
    then show "a = dst + of_nat n"
      by (simp add: algebra_simps)
  qed (simp add: n)
  show ?case
    using IH ns e n by (auto simp: copy_bytes_Suc less_Suc_eq)
qed

text \<open>
  C16: Copying a message moves exactly its bytes. When the buffers of the two tasks do not overlap,
  \<open>MsgBufCopy\<close> of \<open>len\<close> bytes leaves the first \<open>len\<close> bytes of the destination equal to the source's and
  every other byte of memory, the rest of the destination buffer included, as it was; a length above the
  size of a buffer, or a task without a buffer, copies nothing.
\<close>

theorem MsgBufCopy_exact:
  assumes "\<forall>i < 512. \<forall>j < 512. msg_buf_phys_addr (tasks k src) + of_nat i \<noteq> msg_buf_phys_addr (tasks k dst) + of_nat j"
  shows "MsgBufCopy src dst len k = k\<lparr>msg_mem := (\<lambda>a.
      if len \<le> MSG_BUF_SIZE \<and> msg_buf_phys_addr (tasks k src) \<noteq> 0 \<and> msg_buf_phys_addr (tasks k dst) \<noteq> 0
         \<and> a - msg_buf_phys_addr (tasks k dst) < len
      then msg_mem k (msg_buf_phys_addr (tasks k src) + (a - msg_buf_phys_addr (tasks k dst)))
      else msg_mem k a)\<rparr>"
proof (cases "len \<le> MSG_BUF_SIZE")
  case True
  then have l: "unat len \<le> 512"
    by (simp add: const_defs word_le_nat_alt)
  have c: "copy_bytes (msg_buf_phys_addr (tasks k src)) (msg_buf_phys_addr (tasks k dst)) (unat len) (msg_mem k)
    = (\<lambda>a. if unat (a - msg_buf_phys_addr (tasks k dst)) < unat len
           then msg_mem k (msg_buf_phys_addr (tasks k src) + (a - msg_buf_phys_addr (tasks k dst))) else msg_mem k a)"
    by (rule ext, rule copy_bytes_apart) (use assms l in auto)
  show ?thesis
    using True by (simp add: MsgBufCopy_def Let_def c word_less_nat_alt [symmetric] not_less)
next
  case False
  then show ?thesis
    by (auto simp: MsgBufCopy_def Let_def)
qed

definition ex_buffers :: Kernel where
  "ex_buffers = (upd_task 0x100 (\<lambda>x. x\<lparr>msg_buf_phys_addr := 0x8000\<rparr>) (upd_task 0x200 (\<lambda>x. x\<lparr>msg_buf_phys_addr := 0x9000\<rparr>) ex_kernel))
     \<lparr>msg_mem := (\<lambda>a. ucast a)\<rparr>"

theorem MsgBufCopy_exact_witness:
  "msg_mem (MsgBufCopy 0x100 0x200 16 ex_buffers) 0x900F = 0x0F
   \<and> msg_mem (MsgBufCopy 0x100 0x200 16 ex_buffers) 0x9017 = 0x17"
proof -
  have a: "msg_buf_phys_addr (tasks ex_buffers 0x100) = 0x8000" "msg_buf_phys_addr (tasks ex_buffers 0x200) = 0x9000"
    "msg_mem ex_buffers = (\<lambda>a. ucast a)"
    by (simp_all add: ex_buffers_def upd_task_def)
  have "(0x8000 :: u32) + of_nat i \<noteq> 0x9000 + of_nat j" if "i < 512" "j < 512" for i j
  proof -
    have "unat ((0x8000 :: u32) + of_nat i) = 0x8000 + i" "unat ((0x9000 :: u32) + of_nat j) = 0x9000 + j"
      using that by (simp_all add: unat_word_ariths unat_of_nat)
    then show ?thesis
      using that by (auto dest: arg_cong [where f = unat])
  qed
  then show ?thesis
    using MsgBufCopy_exact [of ex_buffers "0x100" "0x200" 16] by (simp add: a const_defs)
qed

end
