(* ===== verification/Links_Recv.thy ===== *)
theory Links_Recv
  imports Links_Msg Msg_Correct
begin

text \<open>Answering the call being served or a held one, receiving, and holding a call.\<close>

section \<open>Answering\<close>

definition stays :: "TaskPtr \<Rightarrow> Kernel \<Rightarrow> bool" where
  "stays c k \<longleftrightarrow> kinv {} (XC c) k"

lemma staysD: "stays c k \<Longrightarrow> good k" "stays c k \<Longrightarrow> current_task k = c"
  using XC_good [of c k] by (simp_all add: stays_def)

lemma good_stays: "good k \<Longrightarrow> stays (current_task k) k"
  by (simp add: good_XC stays_def)

lemma stays_running: "stays c k \<Longrightarrow> c \<noteq> 0 \<Longrightarrow> v_state (vt k c) = TASK_STATE_RUNNING"
  unfolding stays_def by (rule kinv_pinned) auto

lemma stays_links: "links k = links k' \<Longrightarrow> stays c k = stays c k'"
  unfolding stays_def by (rule kinv_links)

lemma stays_ret [simp]:
  "stays c k \<Longrightarrow> opt_all (stays c) (ret_err e k)" "stays c k \<Longrightarrow> opt_all (stays c) (ret_ok_val v k)"
  by (simp_all add: ret_err_def ret_ok_val_def stays_def)

lemma stays_keeps: "keeps f \<Longrightarrow> stays c k \<Longrightarrow> opt_all (stays c) (f k)"
  unfolding stays_def by (rule keepsD)

lemma stays_tables: "stays c k \<Longrightarrow> tables_only k k' \<Longrightarrow> stays c k'"
  unfolding stays_def by (rule tables_onlyD(6))

lemma reply_current_stays:
  assumes "stays c k" "c \<noteq> 0"
  shows "opt_all (\<lambda>r. stays c (snd r)) (reply_current kz xlen g recv k)"
proof -
  have cur: "current_task k = c" and st: "v_state (vt k c) = TASK_STATE_RUNNING"
    using staysD(2) [OF assms(1)] stays_running [OF assms] by simp_all
  have i: "kinv {} (XC c) k"
    using assms(1) by (simp add: stays_def)
  have rc: "reply_cap (tasks k c) = v_cap (vt k c)"
    by (simp add: v_tasks_view task_view_def)
  show ?thesis
  proof (cases "v_cap (vt k c) = 0")
    case True
    then show ?thesis
      using assms(1) by (simp add: reply_current_def cur rc Let_def ret_err_def stays_def)
  next
    case False
    note w = cap_caller(6,7) [OF i assms(2) refl False, simplified]
    obtain ge gr k1 where gr: "GrantHandleAcross kz (CURRENT_SPACE k) (owner (tasks k (v_cap (vt k c)))) g k = (ge, gr, k1)"
      by (metis prod_cases3)
    have to: "tables_only k k1"
      using i gr by (rule GrantHandleAcross_tables)
    have "kinv {} (XC c) k1" "vt k1 c = vt k c"
      using stays_tables [OF assms(1) to] tables_onlyD(1) [OF to] by (simp_all add: stays_def)
    then have "replying (XC c) (v_cap (vt k c)) (TaskClearReplyCap c k1)"
      using replying_served [of "XC c" k1 c] assms(2) False st by simp
    from reply_to_keeps [OF this] show ?thesis
      using False w gr by (simp add: reply_current_def cur rc Let_def stays_def)
  qed
qed

lemma state_ok_held: "state_ok t x \<Longrightarrow> v_held x \<noteq> 0 \<Longrightarrow> calling t x \<and> v_state x = TASK_STATE_BLOCKED"
  by (cases "v_state x") (auto simp: state_ok_def unlinked_view_def waiting_def)

lemma TICKET_SLOT_bound: "unat (TICKET_SLOT t) < 64"
proof -
  have "TICKET_SLOT t = drop_bit 10 t AND mask 6"
    by (simp add: TICKET_SLOT_def mask_eq_exp_minus_1)
  then show ?thesis
    using unat_and_mask [of "drop_bit 10 t" 6] by simp
qed

lemma PortTakeHeld_replying:
  assumes "stays c k" "PortTakeHeld c ticket k = Inr (t, k')"
  shows "replying (XC c) t k'" "kinv {t} (XC c) k'"
proof -
  have i: "kinv {} (XC c) k"
    using assms(1) by (simp add: stays_def)
  let ?tb = "space_table_of (owner (tasks k c)) k" and ?i = "unat (TICKET_SLOT ticket)"
  obtain e hs where e: "HandleTableGet ?tb (unat (TICKET_INDEX ticket)) = Some e" "he_type e = HANDLE_PORT"
    and hs: "held (ports k (he_obj e)) = Some hs" "hc_caller (hs ! ?i) = t" "t \<noteq> 0"
    and k': "k' = upd_task t (\<lambda>x. x\<lparr>held_port := NULL\<rparr>) (clear_held (he_obj e) ?i k)"
    using assms(2) by (auto simp: PortTakeHeld_def Let_def split: option.splits if_splits)
  let ?p = "he_obj e"
  have "names_object e"
    using kinv_tables [OF i, of "owner (tasks k c)"] e(1) unfolding tbl_good_def space_table_of_def by blast
  then have p: "?p \<noteq> 0"
    using e(2) by (simp add: names_object_def)
  have l: "kinv {t} (XC c) k'" "stopped (vt k' t)" "view k' = v_unpark t (view k)"
    unfolding k' by (rule held_leaves [OF i p TICKET_SLOT_bound hs]; simp)+
  have pk: "v_parked (view k) ?p = Some hs"
    using hs(1) by (simp add: view_def)
  have h: "v_held (vt k t) = ?p"
    using kinvD(3) [OF i] p hs(2,3) pk TICKET_SLOT_bound [of ticket] unfolding proto_ok_def parked_ok_def by metis
  have s: "state_ok t (vt k t)"
    using kinv_state [OF i hs(3)] by simp
  have ca: "calling t (vt k t)" "v_wait (vt k t) = None"
    using state_ok_held [OF s] h p by (simp_all add: calling_def)
  have v: "vt k' t = (vt k t)\<lparr>v_held := 0\<rparr>"
    unfolding l(3) by (simp add: v_unpark_def Let_def)
  show k'i: "kinv {t} (XC c) k'"
    using l(1) .
  have "proto_ok {t} (XC c) (v_upd t (\<lambda>x. x\<lparr>v_pending := 0, v_holder := 0\<rparr>) (view k'))"
    using kinvD(3) [OF k'i] by (rule proto_change) (use hs(3) l(2) in \<open>auto simp: same_ties_def stopped_def\<close>)
  then show "replying (XC c) t k'"
    using k'i l(2) ca(2) v by (simp add: replying_def kinv_sched stopped_def)
qed

lemma reply_held_stays:
  assumes "stays c k" "c \<noteq> 0"
  shows "opt_all (stays c) (reply_held kz xlen g ticket k)"
proof (cases "xlen > MSG_BUF_SIZE")
  case True
  then show ?thesis
    using assms(1) by (simp add: reply_held_def)
next
  case False
  have cur: "current_task k = c"
    using staysD(2) [OF assms(1)] .
  show ?thesis
  proof (cases "PortTakeHeld c ticket k")
    case (Inl e)
    then show ?thesis
      using assms(1) False by (simp add: reply_held_def cur)
  next
    case (Inr r)
    obtain t k1 where r: "r = (t, k1)"
      by fastforce
    have rp: "replying (XC c) t k1" "kinv {t} (XC c) k1"
      using PortTakeHeld_replying [OF assms(1)] Inr r by simp_all
    obtain ge gr k2 where gr: "GrantHandleAcross kz (CURRENT_SPACE k1) (owner (tasks k1 t)) g k1 = (ge, gr, k2)"
      by (metis prod_cases3)
    have "tables_only k1 k2"
      by (rule GrantHandleAcross_tables [OF rp(2) gr])
    then have "replying (XC c) t k2"
      by (rule replying_tables [OF rp(1)])
    from reply_to_keeps [OF this, of kz xlen ge gr] have "opt_all (stays c) (reply_to kz t xlen ge gr k2 \<bind>
        (\<lambda>(ok, k). if ok then ret_err ZUZU_OK k else Some k))"
      by (rule opt_all_bind) (auto simp: stays_def [symmetric])
    then show ?thesis
      using False Inr r gr by (simp add: reply_held_def cur Let_def)
  qed
qed

section \<open>Receiving\<close>

text \<open>A sender leaves the queue and its call is served by the receiver.\<close>

lemma take_sender:
  assumes "kinv {} (XC c) k" "c \<noteq> 0" "v_cap (vt k c) = 0" "v_send (vt k t) = Some p" "v_palive (view k) p"
  defines "k1 \<equiv> upd_task t (\<lambda>x. x\<lparr>pending_grant_handle := NO_HANDLE\<rparr>) (node_remove t k)"
  shows "kinv {} (XC c) (DeliverCallToReceiver t c (pending_reply_cap (tasks k1 t)) xlen g k1)"
proof -
  have st: "v_state (vt k c) = TASK_STATE_RUNNING"
    using stays_running [of c k] assms(1,2) by (simp add: stays_def)
  have so: "state_ok c (vt k c)" "state_ok t (vt k t)" and tz: "t \<noteq> 0"
    using kinv_state [OF assms(1,2)] sender_leaves(1) [OF assms(1,4)] kinv_state [OF assms(1), of t] by simp_all
  note ca = state_ok_send [OF so(2) assms(4)]
  have ne: "c \<noteq> t"
    using st ca(2) by auto
  have l: "links k1 = links (node_remove t k)"
    unfolding k1_def by (rule links_upd_task) simp_all
  have i1: "kinv {t} (XC c) k1"
    using sender_leaves(2) [OF assms(1,4)] kinv_links [OF l] by simp
  have v1: "view k1 = v_upd t (\<lambda>x. x\<lparr>v_send := None\<rparr>) (view k)"
    using linksD(1) [OF l] by simp
  have "pending_reply_cap (tasks k1 t) = v_pending (vt k1 t)"
    by (simp add: v_tasks_view task_view_def)
  also have "\<dots> = t"
    using ca(1) by (simp add: v1 calling_def)
  finally have pe: "pending_reply_cap (tasks k1 t) = t" .
  have p: "v_blocked (vt k t) = p" "p \<noteq> 0" "v_holder (vt k t) = 0" "v_held (vt k t) = 0" "v_ipc (vt k t) = IPC_WAITING"
    using ca(1) assms(4) by (auto simp: calling_def)
  let ?k2 = "DeliverCallToReceiver t c t xlen g k1"
  have s1: "sched_ok {t} (XC c) k1" and p1: "proto_ok {t} (XC c) (view k1)"
    using i1 by (simp_all add: kinv_sched)
  note d = DeliverCallToReceiver_props [OF s1 ne, of xlen g]
  have w: "view ?k2 = v_serve c t p (view k1)"
    using d(2) p(1) by (simp add: v1)
  have "proto_ok (insert t {t}) (XC c) (v_serve c t p (view k1))"
    by (rule proto_serve [OF p1 assms(2) tz ne p(2)])
       (use so(1) st ne tz assms(3,5) p in \<open>auto simp: v1 state_ok_def unlinked_view_def\<close>)
  then have "kinv {t} (XC c) ?k2"
    using d(1) by (simp add: kinv_sched w)
  then have "kinv {} (XC c) ?k2"
    by (rule kinv_drop) (use ca so(2) assms(2,4) p ne in \<open>simp_all add: w v_serve_sel v1\<close>,
        auto simp: state_ok_def calling_def)
  then show ?thesis
    by (simp add: pe)
qed

lemma receive_loop_props:
  assumes "kinv {} (XC c) k" "c \<noteq> 0" "v_cap (vt k c) = 0" "distinct ts" "\<forall>t \<in> set ts. v_send (vt k t) = Some p"
    and "v_palive (view k) p"
  shows "kinv {} (XC c) (snd (receive_loop kz p ts k))
    \<and> (\<not> fst (receive_loop kz p ts k) \<longrightarrow> v_cap (vt (snd (receive_loop kz p ts k)) c) = 0
        \<and> v_palive (view (snd (receive_loop kz p ts k))) p)"
  using assms
proof (induction ts arbitrary: k kz)
  case (Cons t ts)
  have cur: "current_task k = c"
    using XC_good [OF Cons.prems(1)] by simp
  obtain rc g k1 where al: "AllocateGrantSlot (kz 0) (owner (tasks k t)) (owner (tasks k c)) (pending_grant_handle (tasks k t)) k = (rc, g, k1)"
    by (metis prod_cases3)
  have to: "tables_only k k1"
    using Cons.prems(1) al by (rule AllocateGrantSlot_tables)
  note d = tables_onlyD [OF to]
  have i1: "kinv {} (XC c) k1" and p1: "v_cap (vt k1 c) = 0" "v_send (vt k1 t) = Some p" "v_palive (view k1) p"
    using d Cons.prems by simp_all
  show ?case
  proof (cases "rc = ZUZU_OK")
    case True
    have "kinv {} (XC c) (DeliverCallToReceiver t c (pending_reply_cap (tasks k2 t)) (msg_xfer_len (tasks k2 t)) g k2)"
      if "k2 = upd_task t (\<lambda>x. x\<lparr>pending_grant_handle := NO_HANDLE\<rparr>) (node_remove t k1)" for k2
      unfolding that by (rule take_sender [OF i1 Cons.prems(2) p1])
    then show ?thesis
      using True by (simp add: cur al Let_def kinv_quiet [OF quiet_PortBoostServers])
  next
    case False
    let ?k = "TaskAbortWait t rc (node_remove t k1)"
    have r: "kinv {t} (XC c) (node_remove t k1)" "stopped (vt (node_remove t k1) t)"
      using sender_leaves [OF i1 p1(2)] by simp_all
    note w = wakesD [OF wakes_TaskAbortWait [of rc] r]
    have ct: "c \<noteq> t"
      using r(2) kinv_pinned [OF i1, of c TASK_STATE_RUNNING] Cons.prems(2) by (auto simp: stopped_def)
    have "vt ?k s = vt k s" if "s \<noteq> t" for s
      using w(2) [OF that] that d(1) by simp
    moreover have "v_palive (view ?k) p"
      using r(1) view_TaskAbortWait [of "node_remove t k1" t rc] p1(3) by (simp add: kinv_def)
    moreover have "\<forall>s \<in> set ts. s \<noteq> t"
      using Cons.prems(4) by auto
    ultimately have "v_cap (vt ?k c) = 0" "distinct ts" "\<forall>s \<in> set ts. v_send (vt ?k s) = Some p" "v_palive (view ?k) p"
      using Cons.prems(3,4,5) ct by simp_all
    from Cons.IH [OF w(1) Cons.prems(2) this, of "\<lambda>n. kz (Suc n)"] show ?thesis
      using False by (simp add: cur al Let_def)
  qed
qed simp

lemma PortReceive_good:
  assumes "stays c k" "c \<noteq> 0" "p \<noteq> 0"
  shows "opt_all good (PortReceive kz p timeout k)"
proof -
  have i: "kinv {} (XC c) k" and g: "good k" and cur: "current_task k = c"
    using assms(1) staysD [OF assms(1)] by (simp_all add: stays_def)
  have set: "good (ArchSetInFrame t r v k)" for t r v
    using g good_links [OF links_ArchSetInFrame] by simp
  show ?thesis
  proof (cases "\<not> port_alive (ports k p) \<or> reply_cap (tasks k c) \<noteq> 0")
    case True
    then show ?thesis
      using set by (auto simp: PortReceive_def cur Let_def)
  next
    case False
    then have pa: "v_palive (view k) p" and cap: "v_cap (vt k c) = 0"
      by (simp_all add: view_def task_view_def)
    obtain got k1 where l: "receive_loop kz p (node_q k (SendQ p)) k = (got, k1)"
      by fastforce
    have s: "\<forall>t \<in> set (node_q k (SendQ p)). v_send (vt k t) = Some p"
      using senders_of [OF kinvD(1) [OF i]] by simp
    have r: "kinv {} (XC c) k1" "\<not> got \<Longrightarrow> v_cap (vt k1 c) = 0 \<and> v_palive (view k1) p"
      using receive_loop_props [OF i assms(2) cap distinct_senders [OF kinvD(1) [OF i]] s pa, where kz = kz] l by auto
    have g1: "good k1" "current_task k1 = c"
      using XC_good [OF r(1)] by simp_all
    have "opt_all good (ObserverNotify (ObsPort p) k1)"
      using keeps_good [OF keeps_event(5) g1(1)] by (rule opt_all_mono) simp
    moreover have "opt_all good (SchedBlockOn (RecvQ p) timeout k1)" if "\<not> got"
      by (rule SchedBlockOn_good) (use g1 assms(2) r(2) that in auto)
    ultimately show ?thesis
      using False l g1 by (simp add: PortReceive_def cur Let_def)
  qed
qed

section \<open>Holding a call\<close>

lemma free_held_eq: "free_held hs n = n + length (takeWhile (\<lambda>h. hc_caller h \<noteq> 0) hs)"
  by (induction hs arbitrary: n) auto

lemma free_held_free: "free_held hs 0 < length hs \<Longrightarrow> hc_caller (hs ! free_held hs 0) = 0"
  using nth_length_takeWhile [of "\<lambda>h. hc_caller h \<noteq> 0" hs] by (simp add: free_held_eq)

lemma free_held_bound: "free_held hs 0 \<le> length hs"
  by (simp add: free_held_eq length_takeWhile_le)

text \<open>A waiting caller that no server holds is filed under a free slot of a port.\<close>

definition v_park :: "TaskPtr \<Rightarrow> PortPtr \<Rightarrow> nat \<Rightarrow> HeldCall list \<Rightarrow> View \<Rightarrow> View" where
  "v_park c p i hs v = (v_upd c (\<lambda>x. x\<lparr>v_held := p, v_slot := i\<rparr>) v)\<lparr>v_parked := (v_parked v)(p := Some hs)\<rparr>"

lemma proto_park:
  assumes "proto_ok E X v" "c \<noteq> 0" "c \<in> E" "p \<noteq> 0" "v_palive v p" "v_held (v_tasks v c) = 0" "i < 64"
    and "case v_parked v p of Some gs \<Rightarrow> hc_caller (gs ! i) = 0 \<and> hs = gs[i := h]
         | None \<Rightarrow> hs = (replicate 64 NO_HELD)[i := h]"
    and "hc_caller h = c"
  shows "proto_ok E X (v_park c p i hs v)"
proof -
  define w where "w = v_park c p i hs v"
  have sel: "v_servers w = v_servers v" "v_frozen w = v_frozen v" "v_members w = v_members v" "v_current w = v_current v"
    "v_doomed w = v_doomed v" "v_palive w = v_palive v" "v_ealive w = v_ealive v" "v_torn w = v_torn v" "v_tables w = v_tables v"
    "v_parked w = (v_parked v)(p := Some hs)"
    by (simp_all add: w_def v_park_def)
  have vt: "v_tasks w s = (if s = c then (v_tasks v c)\<lparr>v_held := p, v_slot := i\<rparr> else v_tasks v s)" for s
    by (simp add: w_def v_park_def)
  have field: "v_state (v_tasks w t) = v_state (v_tasks v t)" "v_owner (v_tasks w t) = v_owner (v_tasks v t)"
    "v_susp (v_tasks w t) = v_susp (v_tasks v t)" "v_wait (v_tasks w t) = v_wait (v_tasks v t)"
    "v_send (v_tasks w t) = v_send (v_tasks v t)" "v_cap (v_tasks w t) = v_cap (v_tasks v t)"
    "v_holder (v_tasks w t) = v_holder (v_tasks v t)" "v_serving (v_tasks w t) = v_serving (v_tasks v t)" for t
    by (simp_all add: vt)
  have tab: "length gs = 64 \<and> (\<forall>i < 64. hc_caller (gs ! i) \<noteq> 0 \<longrightarrow> v_held (v_tasks v (hc_caller (gs ! i))) = q
              \<and> v_slot (v_tasks v (hc_caller (gs ! i))) = i)" if "q \<noteq> 0" "v_parked v q = Some gs" for q gs
    using assms(1) that unfolding proto_ok_def parked_ok_def by blast
  have bk: "\<exists>hs. v_parked v (v_held (v_tasks v t)) = Some hs \<and> v_slot (v_tasks v t) < 64
             \<and> hc_caller (hs ! v_slot (v_tasks v t)) = t" if "t \<noteq> 0" "v_held (v_tasks v t) \<noteq> 0" for t
    using assms(1) that unfolding proto_ok_def parked_ok_def by blast
  have hs: "length hs = 64 \<and> hs ! i = h" "\<And>j. j < 64 \<Longrightarrow> j \<noteq> i \<Longrightarrow> hc_caller (hs ! j) = (case v_parked v p of Some gs \<Rightarrow> hc_caller (gs ! j) | None \<Rightarrow> 0)"
    using assms(7,8) tab [OF assms(4)] by (auto simp: NO_HELD_def split: option.splits)
  have "parked_ok w"
    unfolding parked_ok_def
  proof (intro conjI allI impI)
    fix q gs
    assume q: "q \<noteq> 0 \<and> v_parked w q = Some gs"
    show "length gs = 64"
      using q tab [of q gs] hs(1) by (auto simp: sel(10) split: if_splits)
    fix j
    assume j: "j < 64" "hc_caller (gs ! j) \<noteq> 0"
    have "hc_caller (gs ! j) = c \<and> q = p \<and> j = i \<or> hc_caller (gs ! j) \<noteq> c \<and> v_held (v_tasks v (hc_caller (gs ! j))) = q
      \<and> v_slot (v_tasks v (hc_caller (gs ! j))) = j"
    proof (cases "q = p \<and> j = i")
      case True
      then show ?thesis
        using q hs(1) assms(9) by (auto simp: sel(10))
    next
      case False
      obtain gs' where gs': "v_parked v q = Some gs'" "hc_caller (gs ! j) = hc_caller (gs' ! j)"
        using q False hs(2) [OF j(1)] j(2) by (auto simp: sel(10) split: if_splits option.splits)
      then have "v_held (v_tasks v (hc_caller (gs ! j))) = q" "v_slot (v_tasks v (hc_caller (gs ! j))) = j"
        using tab [of q gs'] q j by simp_all
      then show ?thesis
        using assms(6) q by auto
    qed
    then show "v_held (v_tasks w (hc_caller (gs ! j))) = q" "v_slot (v_tasks w (hc_caller (gs ! j))) = j"
      by (auto simp: vt)
  next
    fix t
    assume t: "t \<noteq> 0 \<and> v_held (v_tasks w t) \<noteq> 0"
    show "\<exists>hs. v_parked w (v_held (v_tasks w t)) = Some hs \<and> v_slot (v_tasks w t) < 64 \<and> hc_caller (hs ! v_slot (v_tasks w t)) = t"
    proof (cases "t = c")
      case True
      then show ?thesis
        using assms(7,9) hs(1) by (simp add: vt sel(10))
    next
      case False
      then obtain gs where gs: "v_parked v (v_held (v_tasks v t)) = Some gs" "v_slot (v_tasks v t) < 64" "hc_caller (gs ! v_slot (v_tasks v t)) = t"
        using bk [of t] t by (auto simp: vt)
      have "v_slot (v_tasks v t) \<noteq> i" if "v_held (v_tasks v t) = p"
        using gs that assms(8) t by auto
      then show ?thesis
        using gs False hs by (auto simp: vt sel(10))
    qed
  qed
  moreover have "caps_ok w" "servers_ok w" "members_ok X w" "running_ok E w"
    using assms(1) unfolding proto_ok_def caps_ok_def servers_ok_def members_ok_def running_ok_def field sel by simp_all
  moreover have "pins_ok X v"
    using assms(1) by (simp add: proto_ok_def)
  then have "pins_ok X w"
    by (simp add: pins_ok_def may_state_def field sel)
  moreover have "q_live w q = q_live v q" for q
    by (cases q) (simp_all add: sel field)
  moreover have "depends_on (v_tasks w t) \<subseteq> insert (RecvQ p) (depends_on (v_tasks v t))" for t
    by (auto simp: depends_on_def vt)
  ultimately have l: "live_ok X w"
    using assms(1,5) unfolding proto_ok_def live_ok_def by (metis insertE q_live.simps(1) subsetD)
  show ?thesis
    using assms(1-3) \<open>parked_ok w\<close> \<open>caps_ok w\<close> \<open>servers_ok w\<close> \<open>members_ok X w\<close> \<open>running_ok E w\<close> \<open>pins_ok X w\<close> l
    unfolding w_def [symmetric] proto_ok_def by (simp add: vt)
qed

text \<open>The state after the call of \<open>c\<close> on port \<open>p\<close> has been filed under slot \<open>i\<close> and its server \<open>s\<close> released.\<close>

definition hold_in :: "TaskPtr \<Rightarrow> TaskPtr \<Rightarrow> PortPtr \<Rightarrow> nat \<Rightarrow> HeldCall list \<Rightarrow> Kernel \<Rightarrow> Kernel" where
  "hold_in s c p i hs k = TaskClearReplyCap s (upd_task c (\<lambda>x. x\<lparr>reply_holder := 0, held_port := p, held_slot := i\<rparr>)
     (upd_port p (\<lambda>x. x\<lparr>held := Some hs\<rparr>) k))"

lemma hold_in_props:
  assumes "kinv {} X k" "s \<noteq> 0" "v_cap (vt k s) = c" "c \<noteq> 0" "v_serving (vt k s) = p" "p \<noteq> 0" "v_state (vt k s) \<noteq> TASK_STATE_BLOCKED"
    and "dying X = {}" "i < 64" "hc_caller h = c"
    and "case held (ports k p) of Some gs \<Rightarrow> hc_caller (gs ! i) = 0 \<and> hs = gs[i := h] | None \<Rightarrow> hs = (replicate 64 NO_HELD)[i := h]"
  shows "kinv {} X (hold_in s c p i hs k)"
    "view (hold_in s c p i hs k) = v_park c p i hs (v_upd c (\<lambda>x. x\<lparr>v_holder := 0\<rparr>) (v_clear s (view k)))"
proof -
  note cc = cap_caller [OF assms(1-4)]
  have c: "v_holder (vt k c) = s" "calling c (vt k c)" "v_state (vt k c) = TASK_STATE_BLOCKED" "v_send (vt k c) = None" "v_held (vt k c) = 0"
    using cc by simp_all
  have ne: "s \<noteq> c"
    using c(3) assms(7) by auto
  let ?g = "\<lambda>x. x\<lparr>v_holder := 0, v_held := p, v_slot := i\<rparr>"
  define k1 where "k1 = upd_port p (\<lambda>x. x\<lparr>held := Some hs\<rparr>) k"
  define k2 where "k2 = upd_task c (\<lambda>x. x\<lparr>reply_holder := 0, held_port := p, held_slot := i\<rparr>) k1"
  have s1: "sched_ok {} X k1" and p1: "proto_ok {} X (view k)"
    using assms(1) by (simp_all add: k1_def kinv_sched)
  have pal: "(v_palive (view k))(p := port_alive (ports k p)) = v_palive (view k)"
    by (simp add: view_def fun_eq_iff)
  have v1: "view k1 = (view k)\<lparr>v_parked := (v_parked (view k))(p := Some hs)\<rparr>"
    by (simp add: k1_def pal)
  note t = upd_task_ties [where f = "\<lambda>x. x\<lparr>reply_holder := 0, held_port := p, held_slot := i\<rparr>" and g = ?g and t = c and k = k1, simplified, folded k2_def]
  have s2: "sched_ok {} X k2"
    using s1 t(1,2) by (simp add: sched_ok_def)
  have v2: "view k2 = v_upd c ?g (view k1)"
    by (rule t(3))
  note cl = TaskClearReplyCap_props [OF s2, of s]
  have eq: "hold_in s c p i hs k = TaskClearReplyCap s k2"
    by (simp add: hold_in_def k1_def k2_def)
  let ?v = "v_upd c (\<lambda>x. x\<lparr>v_holder := 0\<rparr>) (v_clear s (view k))"
  have gg: "(x :: TaskView)\<lparr>v_holder := 0, v_held := p, v_slot := i\<rparr> = x\<lparr>v_held := p, v_slot := i, v_holder := 0\<rparr>" for x
    by (rule TaskView.equality) simp_all
  show v: "view (hold_in s c p i hs k) = v_park c p i hs ?v"
    unfolding eq cl(2) v2 v1
    by (rule View.equality) (use ne in \<open>auto simp: v_clear_def v_park_def Let_def fun_eq_iff v_upd_def\<close>)
  have "proto_ok {c} X ?v"
    by (rule proto_release [OF p1 assms(4) c(1) assms(2)])
  moreover have "RecvQ p \<in> depends_on (vt k s)"
    using assms(5,6) by (simp add: depends_on_def)
  then have "v_palive (view k) p"
    using p1 assms(2,8) unfolding proto_ok_def live_ok_def by (metis empty_iff q_live.simps(1))
  moreover have "v_parked (view k) p = held (ports k p)"
    by (simp add: view_def)
  ultimately have "proto_ok {c} X (v_park c p i hs ?v)"
    by (intro proto_park [where h = h]) (use assms(4,6,9-11) c(5) ne in auto)
  then have "kinv {c} X (hold_in s c p i hs k)"
    using sched_ok_mono [OF cl(1)] by (simp add: kinv_sched v) (simp add: eq)
  then show "kinv {} X (hold_in s c p i hs k)"
    by (rule kinv_drop)
       (use c kinv_state [OF assms(1,4)] assms(6) ne in \<open>auto simp: v v_park_def state_ok_def calling_def\<close>)
qed

lemma PortHoldCurrent_cases:
  assumes "stays c k" "c \<noteq> 0" "PortHoldCurrent kz c k = (e, t, k')"
  obtains (none) "e \<noteq> ZUZU_OK" "k' = k"
  | (hold) i gen hs where "e = ZUZU_OK" "v_cap (vt k c) \<noteq> 0" "v_serving (vt k c) \<noteq> 0" "i < 64" "1 \<le> unat gen" "unat gen < 2 ^ 15"
      "hc_caller (hs ! i) = v_cap (vt k c)" "hc_caller_tid (hs ! i) = v_tid (vt k (v_cap (vt k c)))" "hc_gen (hs ! i) = gen"
      "length hs = 64" "case held (ports k (v_serving (vt k c))) of Some gs \<Rightarrow> hc_caller (gs ! i) = 0 \<and> hs = gs[i := hs ! i]
         | None \<Rightarrow> hs = (replicate 64 NO_HELD)[i := hs ! i]"
      "t = TICKET_PACK (HANDLE_INDEX (serving_handle (tasks k c))) (of_nat i) (ucast gen)"
      "k' = hold_in c (v_cap (vt k c)) (v_serving (vt k c)) i hs k"
proof -
  let ?c = "v_cap (vt k c)" and ?p = "v_serving (vt k c)"
  have i: "kinv {} (XC c) k"
    using assms(1) by (simp add: stays_def)
  have f: "reply_cap (tasks k c) = ?c" "serving_port (tasks k c) = ?p"
    by (simp_all add: v_tasks_view task_view_def)
  show ?thesis
  proof (cases "?c = 0 \<or> ?p = 0")
    case True
    then show ?thesis
      using assms(3) f by (intro none) (auto simp: PortHoldCurrent_def Let_def)
  next
    case False
    note cc = cap_caller [OF i assms(2) refl]
    have rc: "rc_caller_task (tasks k ?c) = ?c" and ca: "calling ?c (vt k ?c)" and w: "waiting_caller ?c k"
      and st: "v_state (vt k ?c) = TASK_STATE_BLOCKED"
      using cc False by simp_all
    have ok: "tid (tasks k ?c) = rc_caller_tid (tasks k ?c)" "ipc_state (tasks k ?c) = IPC_WAITING"
      using w False by (simp_all add: waiting_caller_def Let_def rc)
    have ne: "c \<noteq> ?c"
      using st stays_running [OF assms(1,2)] by auto
    define hs where "hs = (case held (ports k ?p) of Some hs \<Rightarrow> hs | None \<Rightarrow> replicate 64 NO_HELD)"
    have len: "length hs = 64"
      using kinvD(3) [OF i] False unfolding hs_def proto_ok_def parked_ok_def by (auto simp: view_def split: option.splits)
    define slot where "slot = free_held hs 0"
    define gen where "gen = (let g = (hc_gen (hs ! slot) + 1) AND 0x7FFF in if g = 0 then 1 else g)"
    let ?h = "\<lparr>hc_caller = ?c, hc_caller_tid = tid (tasks k ?c), hc_gen = gen\<rparr>"
    have m: "(0x7FFF :: u16) = mask 15"
      by (simp add: mask_eq_exp_minus_1)
    have "unat ((hc_gen (hs ! slot) + 1) AND 0x7FFF) < 2 ^ 15"
      unfolding m by (simp add: unat_and_mask)
    then have g: "1 \<le> unat gen" "unat gen < 2 ^ 15"
      by (auto simp: gen_def Let_def Suc_le_eq unat_gt_0)
    have dsc: "\<not> (held (ports k ?p) = None \<and> slot = 64)"
      by (auto simp: slot_def hs_def NO_HELD_def free_held_eq)
    have fold: "PortHoldCurrent kz c k =
      (if held (ports k ?p) = None \<and> \<not> kz then (ERR_NOMEM, 0, k)
       else if slot = 64 then (ERR_NOMEM, 0, k)
       else (ZUZU_OK, TICKET_PACK (HANDLE_INDEX (serving_handle (tasks k c))) (of_nat slot) (ucast gen),
             hold_in c ?c ?p slot (hs[slot := ?h]) k))"
    proof -
      have t: "tasks (upd_port q g k) = tasks k" for q g k
        by (simp add: upd_port_def)
      have h: "held (ports (upd_port q (\<lambda>x. x\<lparr>held := z\<rparr>) k) q) = z" for q z k
        by (simp add: upd_port_def)
      have u: "upd_port q (\<lambda>x. x\<lparr>held := y\<rparr>) (upd_port q (\<lambda>x. x\<lparr>held := z\<rparr>) k) = upd_port q (\<lambda>x. x\<lparr>held := y\<rparr>) k" for q y z k
        by (simp add: upd_port_def)
      have sh: "serving_handle (tasks (upd_task ?c (\<lambda>x. x\<lparr>reply_holder := 0, held_port := b, held_slot := d\<rparr>) k1) c) = serving_handle (tasks k1 c)" for b d k1
        using ne by (simp add: upd_task_def)
      note d = PortHoldCurrent_def hold_in_def Let_def f rc ok t h u sh slot_def gen_def hs_def PORT_HELD_SLOTS_def
      show ?thesis
      proof (cases "held (ports k ?p)")
        case None
        then show ?thesis
          using False dsc by (simp add: d if_distrib [of "\<lambda>x. hc_gen x"])
      next
        case (Some gs)
        then show ?thesis
          using False by (simp add: d)
      qed
    qed
    show ?thesis
    proof (cases "e = ZUZU_OK")
      case False
      then show ?thesis
        using assms(3) fold by (intro none) (auto split: if_splits)
    next
      case True
      then have s: "slot \<noteq> 64" "t = TICKET_PACK (HANDLE_INDEX (serving_handle (tasks k c))) (of_nat slot) (ucast gen)"
        "k' = hold_in c ?c ?p slot (hs[slot := ?h]) k"
        using assms(3) fold by (auto split: if_splits)
      have sl: "slot < 64"
        using s(1) free_held_bound [of hs] len by (simp add: slot_def)
      have fr: "hc_caller (hs ! slot) = 0"
        using free_held_free [of hs] sl len by (simp add: slot_def)
      show ?thesis
        by (rule hold [of slot gen "hs[slot := ?h]"])
           (use True False sl g len fr s in \<open>auto simp: hs_def v_tasks_view task_view_def NO_HELD_def split: option.splits\<close>)
    qed
  qed
qed

lemma PortHoldCurrent_stays:
  assumes "stays c k" "c \<noteq> 0"
  shows "stays c (snd (snd (PortHoldCurrent kz c k)))"
proof -
  obtain e t k' where r: "PortHoldCurrent kz c k = (e, t, k')"
    by (metis prod_cases3)
  from assms r show ?thesis
  proof (cases rule: PortHoldCurrent_cases)
    case none
    then show ?thesis
      using r assms(1) by simp
  next
    case (hold i gen hs)
    have "kinv {} (XC c) k'"
      unfolding hold(13)
      by (rule hold_in_props [where h = "hs ! i"])
         (use assms hold stays_running [OF assms] in \<open>simp_all add: stays_def\<close>)
    then show ?thesis
      using r by (simp add: stays_def)
  qed
qed

text \<open>The ticket of a held call redeems it, while the handle it was received on names the port it came from.\<close>

lemma hold_redeems:
  assumes "stays c k" "c \<noteq> 0" "PortHoldCurrent kz c k = (ZUZU_OK, t, k')"
    and "HandleTableGet (space_table_of (owner (tasks k c)) k) (unat (HANDLE_INDEX (serving_handle (tasks k c)))) = Some e"
    and "he_type e = HANDLE_PORT" "he_obj e = serving_port (tasks k c)" "perms e AND PERM_WAIT \<noteq> 0"
  shows "\<exists>k''. PortTakeHeld c t k' = Inr (reply_cap (tasks k c), k'')"
  using assms(1-3)
proof (cases rule: PortHoldCurrent_cases)
  case (hold i gen hs)
  let ?c = "v_cap (vt k c)" and ?p = "v_serving (vt k c)"
  have i: "kinv {} (XC c) k"
    using assms(1) by (simp add: stays_def)
  have f: "reply_cap (tasks k c) = ?c" "serving_port (tasks k c) = ?p"
    by (simp_all add: v_tasks_view task_view_def)
  note cc = cap_caller [OF i assms(2) refl hold(2)]
  have ca: "calling ?c (vt k ?c)" and ne: "c \<noteq> ?c"
    using cc stays_running [OF assms(1,2)] by auto
  have v: "view k' = v_park ?c ?p i hs (v_upd ?c (\<lambda>x. x\<lparr>v_holder := 0\<rparr>) (v_clear c (view k)))"
    unfolding hold(13)
    by (rule hold_in_props [OF i assms(2) refl hold(2) refl hold(3), where h = "hs ! i"])
       (use hold stays_running [OF assms(1,2)] in simp_all)
  have "HANDLE_INDEX h < 2 ^ 10" for h
    using HANDLE_INDEX_bound [of h] by (simp add: word_less_nat_alt)
  moreover have "unat (ucast gen :: u32) = unat gen"
    using hold(6) by (simp add: unsigned_ucast_eq take_bit_nat_eq_self)
  then have "(of_nat i :: u32) < 2 ^ 6" "(ucast gen :: u32) < 2 ^ 15"
    using hold(4,6) by (simp_all add: word_less_nat_alt unat_of_nat)
  ultimately have tk: "TICKET_INDEX t = HANDLE_INDEX (serving_handle (tasks k c))" "TICKET_SLOT t = of_nat i" "TICKET_GEN t = ucast gen"
    unfolding hold(12) by (simp_all add: ticket_fields)
  have "v_tables (view k') = v_tables (view k)" "v_owner (vt k' c) = v_owner (vt k c)" "v_parked (view k') ?p = Some hs"
    "v_tid (vt k' ?c) = v_tid (vt k ?c)" "v_ipc (vt k' ?c) = v_ipc (vt k ?c)"
    using ne by (simp_all add: v v_park_def)
  then have w: "space_table_of (owner (tasks k' c)) k' = space_table_of (owner (tasks k c)) k" "held (ports k' ?p) = Some hs"
    "tid (tasks k' ?c) = v_tid (vt k ?c)" "ipc_state (tasks k' ?c) = IPC_WAITING"
    using ca by (simp_all add: view_def task_view_def space_table_of_def fun_eq_iff calling_def)
  have "unat (of_nat i :: u32) = i"
    using hold(4) by (simp add: unat_of_nat)
  then show ?thesis
    using assms(4-7) hold(2-10) w by (simp add: PortTakeHeld_def tk f Let_def)
qed simp

end
