(* ===== verification/Links_Svc.thy ===== *)
theory Links_Svc
  imports Links_Recv
begin

text \<open>The system calls that send, receive, wait, signal, sleep and end a task leave the kernel good.\<close>

section \<open>Contracts\<close>

text \<open>A handler that is entered with a running task and leaves the kernel good.\<close>

definition svc_ok :: "(Kernel \<Rightarrow> Kernel option) \<Rightarrow> bool" where
  "svc_ok f \<longleftrightarrow> (\<forall>k. good k \<and> current_task k \<noteq> 0 \<longrightarrow> opt_all good (f k))"

lemma svc_okI: "(\<And>k. good k \<Longrightarrow> current_task k \<noteq> 0 \<Longrightarrow> opt_all good (f k)) \<Longrightarrow> svc_ok f"
  by (simp add: svc_ok_def)

lemma svc_okD: "svc_ok f \<Longrightarrow> good k \<Longrightarrow> current_task k \<noteq> 0 \<Longrightarrow> opt_all good (f k)"
  by (simp add: svc_ok_def)

lemma good_set_frame [simp]: "good (ArchSetInFrame t r v k) = good k"
  by (rule good_links [OF links_ArchSetInFrame])

lemma current_upd [simp]: "current_task (upd_task t f k) = current_task k"
  by (simp add: upd_task_def)

lemma good_ret [simp]: "good k \<Longrightarrow> opt_all good (ret_err e k)" "good k \<Longrightarrow> opt_all good (ret_ok_val v k)"
    "good k \<Longrightarrow> opt_all good (ret_handle h k)"
  by (simp_all add: ret_err_def ret_ok_val_def ret_handle_def)

lemma good_keeps_ret: "keeps f \<Longrightarrow> good k \<Longrightarrow> opt_all good (f k \<bind> ret_err e)"
  by (rule opt_all_bind [OF keeps_good]) auto

lemma good_lookup:
  assumes "good k" "lookup_entry sp h k = Some e"
  shows "he_type e \<noteq> HANDLE_MEM \<Longrightarrow> he_obj e \<noteq> 0" "he_type e = HANDLE_TASK \<Longrightarrow> he_obj e \<noteq> idle_task"
  using lookup_names [of "{}" X0 k sp h e] assms by (simp_all add: good_def names_object_def)

section \<open>Messages\<close>

lemma SvcCall_ok: "svc_ok (SvcCall kz)"
proof (rule svc_okI)
  fix k
  assume g: "good k" "current_task k \<noteq> 0"
  let ?c = "current_task k"
  have hand: "opt_all good (map_option snd (CallHandoffToReceiver kz ?c p ?c xlen gr timeout (call_setup m k)))"
    if "p \<noteq> 0" for m p xlen gr timeout
    using CallHandoffToReceiver_good [OF g that, of kz xlen gr timeout m] by (simp add: opt_all_map)
  have block: "opt_all good (CallBlockAsSender ?c p ?c xlen gr timeout (call_setup m k))"
    if "p \<noteq> 0" "port_alive (ports k p)" for m p xlen gr timeout
    by (rule CallBlockAsSender_good [OF g that(1)]) (use that(2) in \<open>simp add: view_def\<close>)
  have v: "p \<noteq> 0 \<and> port_alive (ports k p)" if "ValidateCallPort sp h k = Inr e" "p = he_obj e" for sp h e p
    using that by (auto simp: ValidateCallPort_def split: option.splits if_splits)
  show "opt_all good (SvcCall kz k)"
    unfolding SvcCall_def Let_def
    by (auto split: sum.split intro!: hand [unfolded call_setup_def] block [unfolded call_setup_def] simp: g(1) v)
qed

lemma stays_serving [simp]: "stays c (upd_task t (\<lambda>x. x\<lparr>serving_handle := h\<rparr>) k) = stays c k"
  by (rule stays_links, rule links_upd_task) simp_all

lemma SvcReply_ok: "svc_ok (SvcReply kz kzr)"
proof (rule svc_okI)
  fix k
  assume g: "good k" "current_task k \<noteq> 0"
  let ?c = "current_task k"
  have st: "stays ?c k"
    using good_stays [OF g(1)] .
  have h: "opt_all good (reply_held kz xlen gr ticket k)" for xlen gr ticket
    using reply_held_stays [OF st g(2)] by (rule opt_all_mono) (rule staysD)
  have r: "opt_all good (do {
           (go, k) \<leftarrow> reply_current kz xlen gr recv k;
           if \<not> go then Some k
           else if recv = NO_HANDLE then ret_err ZUZU_OK k
           else PortReceive kzr p timeout (upd_task ?c (\<lambda>x. x\<lparr>serving_handle := recv\<rparr>) k) })"
    if "recv \<noteq> NO_HANDLE \<Longrightarrow> p \<noteq> 0" for xlen gr recv p timeout
    by (rule opt_all_bind [OF reply_current_stays [OF st g(2)]])
       (use g that in \<open>auto intro!: PortReceive_good [of ?c] good_ret(1) simp: staysD(1) [of ?c]\<close>)
  have p: "he_obj (the (lookup_entry (CURRENT_SPACE k) recv k)) \<noteq> 0"
    if "\<not> (recv \<noteq> NO_HANDLE \<and> lookup_entry (CURRENT_SPACE k) recv k = None)"
      "\<not> (recv \<noteq> NO_HANDLE \<and> he_type (the (lookup_entry (CURRENT_SPACE k) recv k)) \<noteq> HANDLE_PORT)" "recv \<noteq> NO_HANDLE" for recv
    using good_lookup(1) [OF g(1)] that by auto
  show "opt_all good (SvcReply kz kzr k)"
    unfolding SvcReply_def Let_def by (intro opt_all_if h r p) (simp_all add: g(1))
qed

lemma SvcHold_ok: "svc_ok (SvcHold kz)"
proof (rule svc_okI)
  fix k
  assume g: "good k" "current_task k \<noteq> 0"
  have "good (snd (snd (PortHoldCurrent kz (current_task k) k)))"
    using staysD(1) [OF PortHoldCurrent_stays [OF good_stays [OF g(1)] g(2)]] .
  then show "opt_all good (SvcHold kz k)"
    by (simp add: SvcHold_def Let_def case_prod_unfold)
qed

section \<open>Waiting\<close>

lemma good_wait_mask [simp]: "good (upd_task t (\<lambda>x. x\<lparr>wait_mask := m, wait_all := a\<rparr>) k) = good k"
  by (rule good_links, rule links_upd_task) simp_all

lemma good_event [simp]: "(\<And>x. ev_alive (f x) = ev_alive x) \<Longrightarrow> good (upd_event ev f k) = good k"
  by (rule good_links) (simp add: link_frame)

lemma EventWait_good:
  assumes "good k" "current_task k \<noteq> 0"
  shows "opt_all good (EventWait ev timeout msk waitall k)"
proof -
  have n: "opt_all good (EventNotifyParents ev k')" if "good k'" for k'
    using keeps_good [OF keeps_event(5) that] that by (auto simp: EventNotifyParents_def intro: opt_all_mono)
  have b: "opt_all good (SchedBlockOn (EventQ ev) timeout (upd_task (current_task k) (\<lambda>x. x\<lparr>wait_mask := m, wait_all := waitall\<rparr>) k))"
    if "ev_alive (events k ev)" for m
  proof (rule SchedBlockOn_good)
    have v: "view (upd_task (current_task k) (\<lambda>x. x\<lparr>wait_mask := m, wait_all := waitall\<rparr>) k) = view k"
      by (rule view_upd_task_same) simp
    show "q_live (view (upd_task (current_task k) (\<lambda>x. x\<lparr>wait_mask := m, wait_all := waitall\<rparr>) k)) (EventQ ev)"
      unfolding v using that by (simp add: view_def)
  qed (use assms in simp_all)
  show ?thesis
    unfolding EventWait_def Let_def
    by (intro opt_all_if b opt_all_bind [OF n]) (use assms in auto)
qed

lemma TaskWaitExit_good:
  assumes "good k" "current_task k \<noteq> 0"
  shows "opt_all good (TaskWaitExit t timeout k)"
proof -
  have "opt_all good (SchedBlockOn (JoinQ t) timeout k)"
    if "t \<noteq> current_task k" "state (tasks k t) \<noteq> TASK_STATE_ZOMBIE" "state (tasks k t) \<noteq> TASK_STATE_FAULTED"
    by (rule SchedBlockOn_good [OF assms]) (use that in \<open>auto simp: view_def task_view_def dead_def\<close>)
  then show ?thesis
    using assms(1) by (simp add: TaskWaitExit_def Let_def SetExitResult_def)
qed

lemma SpaceWaitHollow_good:
  assumes "good k" "current_task k \<noteq> 0"
  shows "opt_all good (SpaceWaitHollow sp timeout k)"
proof -
  have "opt_all good (SchedBlockOn (SpaceQ sp) timeout k)" if "\<not> torn_down (spaces k sp)"
    by (rule SchedBlockOn_good [OF assms]) (use that in \<open>auto simp: view_def\<close>)
  then show ?thesis
    using assms(1) by (simp add: SpaceWaitHollow_def Let_def)
qed

lemma SvcWaitOn_ok: "svc_ok (SvcWaitOn kzr)"
proof (rule svc_okI)
  fix k
  assume g: "good k" "current_task k \<noteq> 0"
  have st: "stays (current_task k) k"
    using good_stays [OF g(1)] .
  show "opt_all good (SvcWaitOn kzr k)"
    unfolding SvcWaitOn_def Let_def
    by (auto split: option.split HandleType.split intro!: EventWait_good TaskWaitExit_good SpaceWaitHollow_good
          PortReceive_good [of "current_task k"] simp: g st dest: good_lookup(1) [OF g(1)])
qed

section \<open>Signalling, sleeping and quitting\<close>

lemma SvcSignal_ok: "svc_ok SvcSignal"
proof (rule svc_okI)
  fix k
  assume g: "good k" "current_task k \<noteq> 0"
  show "opt_all good (SvcSignal k)"
    unfolding SvcSignal_def Let_def
    by (auto split: option.split intro!: opt_all_bind [OF keeps_good [OF keeps_event(1) g(1)]] simp: g)
qed

lemma SvcYield_ok: "svc_ok SvcYield"
proof (rule svc_okI)
  fix k
  assume g: "good k"
  have "good (upd_task t (\<lambda>x. x\<lparr>slice_deadline := 0\<rparr>) k') = good k'" for t k'
    by (rule good_links, rule links_upd_task) simp_all
  then show "opt_all good (SvcYield k)"
    using g by (simp add: SvcYield_def Let_def Schedule_good good_schedulable)
qed

lemma SvcSleep_ok: "svc_ok SvcSleep"
proof (rule svc_okI)
  fix k
  assume g: "good k" "current_task k \<noteq> 0"
  let ?c = "current_task k"
  have i: "kinv {} X0 k" and st: "v_state (vt k ?c) = TASK_STATE_RUNNING"
    using g by (simp_all add: good_def state_view)
  have so: "state_ok ?c (vt k ?c)"
    using kinv_state [OF i g(2)] by simp
  then have u: "unlinked_view (vt k ?c)" "v_ipc (vt k ?c) = IPC_NONE"
    using st by (simp_all add: state_ok_def)
  obtain dl k0 where dl: "ArchDeadlineFromMs (arg 0 k) k = (dl, k0)"
    by fastforce
  have l0: "links k0 = links k"
    using links_ArchDeadlineFromMs [of "arg 0 k" k] dl by simp
  define k1 where "k1 = upd_task ?c (\<lambda>x. x\<lparr>wake_deadline := dl\<rparr>) k0"
  define k2 where "k2 = upd_task ?c (\<lambda>x. x\<lparr>state := TASK_STATE_BLOCKED\<rparr>) k1"
  have v1: "view k1 = view k"
    using linksD(1) [OF l0] by (simp add: k1_def)
  have s1: "sched_ok {} X0 k1"
    using i sched_ok_links [OF l0] by (simp add: k1_def kinv_sched)
  have n1: "node (tasks k1 ?c) = None"
    using running_not_queued [OF kinvD(1) [OF i] st] linksD(7) [OF l0, of ?c] by (simp add: k1_def upd_task_def)
  have s2: "sched_ok {} X0 k2"
    unfolding k2_def by (rule sched_set_state) (use n1 sched_ok_mono [OF s1] in simp_all)
  have v2: "view k2 = v_upd ?c (\<lambda>x. x\<lparr>v_state := TASK_STATE_BLOCKED\<rparr>) (view k)"
    unfolding k2_def v1 [symmetric] by (rule view_upd_task) simp
  have t2: "\<not> timeout_linked (tasks k2 ?c)"
    using u by (simp add: timed_view v2 unlinked_view_def)
  have s3: "sched_ok {} X0 (SchedInsertSleepQueue ?c k2)"
    using sched_ok_SchedInsertSleepQueue [OF s2 t2] .
  have v3: "view (SchedInsertSleepQueue ?c k2) = v_upd ?c (\<lambda>x. x\<lparr>v_state := TASK_STATE_BLOCKED, v_timed := True\<rparr>) (view k)"
    by (simp add: v2)
  have "proto_ok {} X0 (v_upd ?c (\<lambda>x. x\<lparr>v_state := TASK_STATE_BLOCKED, v_timed := True\<rparr>) (view k))"
    by (rule proto_block [OF kinvD(3) [OF i] g(2) st])
       (use u so st in \<open>auto simp: same_ties_def state_ok_def waiting_def unlinked_view_def depends_on_def\<close>)
  then have "kinv {} X0 (SchedInsertSleepQueue ?c k2)"
    using s3 unfolding kinv_sched v3 by simp
  then show "opt_all good (SvcSleep k)"
    by (simp add: SvcSleep_def Let_def dl Schedule_good blocked_schedulable flip: k1_def k2_def)
qed

lemma good_not_idle: "good k \<Longrightarrow> current_task k \<noteq> 0 \<Longrightarrow> current_task k \<noteq> idle_task"
  using kinv_not_idle [of "{}" X0 k "current_task k"] by (auto simp: good_def state_view)

lemma SvcQuit_ok: "svc_ok SvcQuit"
proof (rule svc_okI)
  fix k
  assume g: "good k" "current_task k \<noteq> 0"
  have "opt_all (kinv {} X0) (TaskTerminate (current_task k) st k)" for st
    by (rule TaskTerminate_kinv) (use g good_not_idle [OF g] in \<open>simp_all add: good_def state_view\<close>)
  then show "opt_all good (SvcQuit k)"
    unfolding SvcQuit_def by (rule opt_all_bind) (intro Schedule_good blocked_schedulable)
qed

end
