(* ===== verification/Links_Manage.thy ===== *)
theory Links_Manage
  imports Links_Svc
begin

text \<open>The verbs of \<open>ManageTask\<close> leave the kernel good.\<close>

section \<open>Priorities\<close>

lemma links_TaskSyncTcbPrio [link_frame]: "links (TaskSyncTcbPrio t k) = links k"
  by (simp add: TaskSyncTcbPrio_def Let_def link_frame)

lemma current_TaskSyncTcbPrio [simp]: "current_task (TaskSyncTcbPrio t k) = current_task k"
  by (simp add: TaskSyncTcbPrio_def Let_def)

lemma good_quiet:
  assumes "quiet f" "good k"
  shows "good (f k)"
  using assms kinv_quiet [OF assms(1), of "{}" X0 k] sched_quiet(2) [OF assms(1), of "{}" X0 k]
    viewD(1,19) [of "f k" k] by (simp add: good_def kinv_sched)

lemma good_recompute: "good k \<Longrightarrow> good (TaskRecomputePriority t k)"
  by (rule good_quiet [OF quiet_TaskRecomputePriority])

lemma good_set_prio [simp]: "good k \<Longrightarrow> good (set_base_prio t v k)" "good k \<Longrightarrow> good (set_max_prio t v k)"
proof -
  assume g: "good k"
  have b: "links (upd_task t (\<lambda>x. x\<lparr>base_prio := p\<rparr>) k') = links k'"
    and m: "links (upd_task t (\<lambda>x. x\<lparr>max_prio := p\<rparr>) k') = links k'" for p k'
    by (rule links_upd_task; simp)+
  show "good (set_base_prio t v k)" "good (set_max_prio t v k)"
    unfolding set_base_prio_def set_max_prio_def Let_def
    by (simp_all add: g good_links [OF links_TaskSyncTcbPrio] good_recompute good_links [OF b] good_links [OF m])
qed

lemma good_frames [simp]:
  "good (upd_task t (\<lambda>x. x\<lparr>time_slice_us := s\<rparr>) k) = good k" "good (upd_task t (\<lambda>x. x\<lparr>trap_frame := f\<rparr>) k) = good k"
  by (rule good_links, rule links_upd_task; simp)+

section \<open>Starting and resuming\<close>

lemma not_linked_state:
  assumes "queues_ok k" "v_state (vt k t) \<noteq> TASK_STATE_READY" "v_state (vt k t) \<noteq> TASK_STATE_BLOCKED"
  shows "node (tasks k t) = None"
proof -
  have "nstate_ok k"
    using assms(1) by (simp add: queues_ok_def)
  then show ?thesis
    using assms(2,3) unfolding nstate_ok_def state_view
    by (cases "node (tasks k t)"; cases "the (node (tasks k t))") (fastforce, fastforce, force, force)
qed

lemma make_ready:
  assumes k: "kinv {} X k" and t: "t \<noteq> 0" "v_state (vt k t) = TASK_STATE_FROZEN \<or> v_state (vt k t) = TASK_STATE_FAULTED"
    and pin: "pinned X t = None"
    and v: "view k' = v_upd t (\<lambda>x. x\<lparr>v_state := TASK_STATE_READY\<rparr>) (view k)"
    and l: "nlinks k' = nlinks k" "wlinks k' = wlinks k" "slinks k' = slinks k"
  shows "kinv {} X (SchedAdd t k')"
proof -
  have nd: "t \<notin> v_doomed (view k)" and ni: "t \<noteq> idle_task"
    using kinvD(3) [OF k] t(2) kinv_not_idle [OF k, of t] by (auto simp: proto_ok_def pins_ok_def may_state_def)
  have so: "state_ok t (vt k t)"
    using kinv_state [OF k t(1)] by simp
  have n: "node (tasks k t) = None"
    using not_linked_state [OF kinvD(1) [OF k], of t] t(2) by auto
  have p: "proto_ok {} X (view k')"
    unfolding v using kinvD(3) [OF k]
    by (rule proto_change_gen)
       (use t so nd ni pin in \<open>auto simp: same_ties_def state_ok_def may_state_def dead_def unlinked_view_def depends_on_def\<close>)
  have q: "queues_ok k'"
    by (rule queues_ok_frame [OF kinvD(1) [OF k] l]) (use n v in auto)
  have nn: "node (tasks k' s) = node (tasks k s)" for s
    using nlinksD(3) [OF l(1)] .
  have "ready_ok (insert t {}) X k'"
    by (rule ready_ok_change [OF kinvD(2) [OF k]]) (simp_all add: v nn is_queued_def)
  then have r: "ready_ok {} X (SchedAdd t k')"
    unfolding SchedAdd_def using q by (intro ready_ok_SchedEnqueue) (simp_all add: queues_ok_def)
  have "state (tasks k' t) = TASK_STATE_READY"
    by (simp add: state_view v)
  then have "queues_ok (SchedAdd t k')"
    unfolding SchedAdd_def using q ni by (intro queues_ok_SchedEnqueue) simp_all
  then show ?thesis
    using r p by (simp add: kinv_def SchedAdd_def)
qed

lemma good_make_ready:
  assumes "good k" "t \<noteq> 0" "v_state (vt k t) = TASK_STATE_FROZEN \<or> v_state (vt k t) = TASK_STATE_FAULTED"
    and "view k' = v_upd t (\<lambda>x. x\<lparr>v_state := TASK_STATE_READY\<rparr>) (view k)"
    and "nlinks k' = nlinks k" "wlinks k' = wlinks k" "slinks k' = slinks k"
  shows "good (SchedAdd t k')"
proof -
  have "kinv {} (XC (current_task k)) (SchedAdd t k')"
    by (rule make_ready [OF _ assms(2-3) _ assms(4-)])
       (use assms(1,3) in \<open>auto simp: good_XC [symmetric], auto simp: good_def state_view\<close>)
  then show ?thesis
    by (simp add: XC_good)
qed

lemma MngTaskStart_good:
  assumes "good k" "t \<noteq> 0"
  shows "opt_all good (MngTaskStart ua t k)"
proof -
  have "good (SchedAdd t (upd_task t (\<lambda>x. x\<lparr>trap_frame := f, state := TASK_STATE_READY\<rparr>) k))"
    if "state (tasks k t) = TASK_STATE_FROZEN" for f
    by (rule good_make_ready [OF assms]) (use that in \<open>simp_all add: state_view, intro view_upd_task, simp\<close>)
  then show ?thesis
    using assms(1) by (simp add: MngTaskStart_def Let_def split: option.split)
qed

lemma SpaceUnfreeze_good:
  assumes "good k"
  shows "good (SpaceUnfreeze sp k)" "sp \<noteq> 0 \<Longrightarrow> vt (SpaceUnfreeze sp k) t = vt k t"
    "current_task (SpaceUnfreeze sp k) = current_task k"
proof -
  have k: "kinv {} (XC (current_task k)) k"
    using assms by (simp add: good_XC)
  have "kinv {} (XC (current_task k)) (SpaceUnfreeze sp k)"
    by (rule SpaceUnfreeze_props(1) [OF k]) simp
  then show "good (SpaceUnfreeze sp k)" "current_task (SpaceUnfreeze sp k) = current_task k"
    by (simp_all add: XC_good)
  show "vt (SpaceUnfreeze sp k) t = vt k t" if "sp \<noteq> 0"
    using SpaceUnfreeze_props(2) [OF k _ that] by simp
qed

lemma SpaceUnfreeze_null [simp]: "SpaceUnfreeze 0 k = k"
  by (simp add: SpaceUnfreeze_def)

lemma vt_SpaceUnfreeze: "good k \<Longrightarrow> vt (SpaceUnfreeze sp k) t = vt k t"
  using SpaceUnfreeze_good(2) [of k sp t] by (cases "sp = 0") simp_all

lemma resume_good:
  assumes "good k" "t \<noteq> 0" "t \<noteq> idle_task"
  defines "k' \<equiv> upd_task t (\<lambda>x. x\<lparr>suspended := False\<rparr>) k"
  shows "good (if state (tasks k' t) = TASK_STATE_READY \<and> node (tasks k' t) = None then SchedAdd t k' else k')"
proof -
  let ?X = "XC (current_task k)"
  have k: "kinv {} ?X k"
    using assms(1) by (simp add: good_XC)
  have e: "k' = upd_task t (\<lambda>x. x\<lparr>exit_status := exit_status (tasks k t), suspended := False\<rparr>) k"
    by (simp add: k'_def upd_task_def)
  have "sched_ok {} ?X k"
    using k by (simp add: kinv_sched)
  note s = sched_end_suspend [OF this, of t "exit_status (tasks k t)", folded e]
  have q: "queues_ok k'" "ready_ok (insert t {}) ?X k'" "nstate_ok k'"
    using s(1) by (simp_all add: sched_ok_def queues_ok_def)
  have p: "proto_ok {} ?X (view k')"
    unfolding s(2) using kinvD(3) [OF k]
    by (rule proto_change_gen)
       (use assms(2) kinv_state [OF k assms(2)] in \<open>auto simp: same_ties_def state_ok_def dead_def unlinked_view_def depends_on_def waiting_def calling_def split: TaskState.splits\<close>)
  have a: "queues_ok (SchedAdd t k')" if "state (tasks k' t) = TASK_STATE_READY"
    unfolding SchedAdd_def using q(1) that assms(3) by (intro queues_ok_SchedEnqueue) simp_all
  have b: "ready_ok {} ?X (SchedAdd t k')"
    unfolding SchedAdd_def using q(2,3) by (rule ready_ok_SchedEnqueue)
  have c: "ready_ok {} ?X k'" if "\<not> (state (tasks k' t) = TASK_STATE_READY \<and> node (tasks k' t) = None)"
    using q(2) by (rule ready_ok_drop) (use that queued_state [OF q(1), of t] in \<open>auto simp: must_run_def\<close>)
  have "kinv {} ?X (if state (tasks k' t) = TASK_STATE_READY \<and> node (tasks k' t) = None then SchedAdd t k' else k')"
    using a b c q(1) p by (auto simp: kinv_def SchedAdd_def)
  then show ?thesis
    by (rule XC_good [THEN conjunct1])
qed

lemma MngTaskResume_good:
  assumes "good k" "t \<noteq> 0" "t \<noteq> idle_task"
  shows "opt_all good (MngTaskResume t k)"
proof -
  let ?k = "SpaceUnfreeze (owner (tasks k t)) k"
  have "good (SchedAdd t (upd_task t (\<lambda>x. x\<lparr>state := TASK_STATE_READY\<rparr>) ?k))"
    if "state (tasks k t) = TASK_STATE_FAULTED"
    by (rule good_make_ready [OF SpaceUnfreeze_good(1) [OF assms(1)] assms(2)])
       (use that in \<open>simp_all add: vt_SpaceUnfreeze [OF assms(1)] state_view, intro view_upd_task, simp\<close>)
  then show ?thesis
    using resume_good [OF assms] assms(1) by (simp add: MngTaskResume_def Let_def)
qed

section \<open>Killing and suspending\<close>

lemma MngTaskKill_good:
  assumes "good k" "t \<noteq> idle_task"
  shows "opt_all good (MngTaskKill t k)"
proof -
  have "opt_all good (TaskTerminate t st k')"
    if "t \<noteq> current_task k" "good k'" "current_task k' = current_task k" "v_state (vt k' t) \<noteq> TASK_STATE_ZOMBIE" for st k'
  proof -
    have "opt_all (kinv {} (XC (current_task k))) (TaskTerminate t st k')"
      by (rule TaskTerminate_kinv) (use that assms(2) in \<open>auto simp: good_XC\<close>)
    then show ?thesis
      by (rule opt_all_mono) (simp add: XC_good)
  qed
  note T = this
  show ?thesis
    unfolding MngTaskKill_def
    by (intro opt_all_if opt_all_bind [where P = good] T)
       (use assms in \<open>auto simp: SpaceUnfreeze_good vt_SpaceUnfreeze state_view\<close>)
qed

lemma remove_upd_commute:
  assumes "\<And>x. node (f x) = node x" "\<And>x. queued_prio (f x) = queued_prio x" "\<And>x. f (x\<lparr>node := None\<rparr>) = (f x)\<lparr>node := None\<rparr>"
  shows "SchedRemoveRunQueue t (upd_task t f k) = upd_task t f (SchedRemoveRunQueue t k)"
  by (cases "node (tasks k t)") (simp_all add: SchedRemoveRunQueue_def node_remove_def upd_task_def Let_def assms)

lemma suspend_sched:
  assumes "sched_ok {t} X k" "\<not> is_queued t k"
  defines "k' \<equiv> upd_task t (\<lambda>x. x\<lparr>suspended := True\<rparr>) k"
  shows "sched_ok {} X k'" "view k' = v_upd t (\<lambda>x. x\<lparr>v_susp := True\<rparr>) (view k)"
proof -
  show v: "view k' = v_upd t (\<lambda>x. x\<lparr>v_susp := True\<rparr>) (view k)"
    unfolding k'_def by (rule view_upd_task) simp
  have "nstate_ok k'"
    using assms(1,2) unfolding sched_ok_def queues_ok_def nstate_ok_def k'_def is_queued_def by (auto simp: upd_task_def)
  then have "queues_ok k'"
    using assms(1) nlinks_ok [of k' k] wlinks_ok [of k' k] slinks_ok [of k' k] by (simp add: sched_ok_def queues_ok_def k'_def)
  moreover have "ready_ok (insert t {t}) X k'"
    by (rule ready_ok_change [of "{t}" X k]) (use assms(1) in \<open>simp_all add: sched_ok_def v\<close>, simp_all add: k'_def is_queued_upd_task node_upd_task)
  then have "ready_ok {} X k'"
    by (intro ready_ok_drop [of t "{}" X k']) (simp_all add: must_run_def, simp add: k'_def upd_task_def)
  ultimately show "sched_ok {} X k'"
    by (simp add: sched_ok_def)
qed

lemma state_ok_susp: "state_ok t (x\<lparr>v_susp := b\<rparr>) = state_ok t x"
  by (simp add: state_ok_def unlinked_view_def waiting_def calling_def split: TaskState.split)

lemma proto_suspend:
  assumes "proto_ok {} X v" "t \<noteq> 0" "v_state (v_tasks v t) = TASK_STATE_RUNNING \<longrightarrow> t \<in> F"
  shows "proto_ok F X (v_upd t (\<lambda>x. x\<lparr>v_susp := True\<rparr>) v)"
  using assms(1)
proof (rule proto_change_gen)
  show "state_ok t ((v_tasks v t)\<lparr>v_susp := True\<rparr>)"
    using assms(1,2) state_ok_susp by (simp add: proto_ok_def)
qed (use assms(2,3) in \<open>auto simp: same_ties_def depends_on_def\<close>)

lemma suspend_good:
  assumes "good k" "t \<noteq> 0" "t \<noteq> idle_task"
  defines "r \<equiv> if state (tasks k t) = TASK_STATE_READY then SchedRemoveRunQueue t k else k"
  defines "k' \<equiv> upd_task t (\<lambda>x. x\<lparr>suspended := True\<rparr>) r"
  shows "if t = current_task k then schedulable k' else good k'"
proof -
  have k: "kinv {} X0 k" and sc: "sched_ok {} X0 k" and q: "queues_ok k"
    using assms(1) by (simp_all add: good_def kinv_sched sched_ok_def)
  have so: "state_ok t (vt k t)"
    using kinv_state [OF k assms(2)] by simp
  have sr: "sched_ok {t} X0 r" and nq: "\<not> is_queued t r"
    using sched_SchedRemoveRunQueue [OF sc, of t] sched_ok_mono [OF sc, of "{t}"] queued_state [OF q, of t]
    by (auto simp: r_def)
  have v: "view r = view k"
    using so by (auto simp: r_def state_view state_ok_def unlinked_view_def intro!: v_upd_same)
  note s = suspend_sched [OF sr nq, folded k'_def, unfolded v]
  have c: "current_task k' = current_task k"
    using viewD(19) [OF v] by (simp add: k'_def)
  show ?thesis
  proof (cases "t = current_task k")
    case True
    have "v_state (vt k t) = TASK_STATE_RUNNING"
      using assms(1,2) True by (simp add: good_def state_view)
    moreover have "kinv {t} X0 k'"
      unfolding kinv_sched s(2) using proto_suspend [OF kinvD(3) [OF k] assms(2), of "{t}"] sched_ok_mono [OF s(1)] by simp
    ultimately show ?thesis
      using True so c assms(2) by (simp add: schedulable_def Let_def state_view s(2) state_ok_def unlinked_view_def)
  next
    case False
    have kx: "kinv {} (XC (current_task k)) k"
      using assms(1) by (simp add: good_XC)
    have "v_state (vt k t) \<noteq> TASK_STATE_RUNNING"
      using kinvD(3) [OF k] assms(2) False viewD(19) [of k k] by (auto simp: proto_ok_def running_ok_def view_def)
    then have "proto_ok {} (XC (current_task k)) (view k')"
      unfolding s(2) by (intro proto_suspend [OF kinvD(3) [OF kx] assms(2)]) simp
    moreover have "sched_ok {} (XC (current_task k)) k'"
      using s(1) scope_freezing(1) [of "XC (current_task k)" X0 "{}"] by (simp add: sched_ok_def)
    ultimately show ?thesis
      using False by (simp add: kinv_sched XC_good [of "current_task k" k'])
  qed
qed

lemma MngTaskSuspend_good:
  assumes "good k" "t \<noteq> 0" "t \<noteq> idle_task"
  shows "opt_all good (MngTaskSuspend t k)"
proof -
  let ?k = "ArchSetInFrame (current_task k) 0 (err_reg ZUZU_OK) k"
  let ?r = "\<lambda>k. if state (tasks k t) = TASK_STATE_READY then SchedRemoveRunQueue t k else k"
  let ?s = "upd_task t (\<lambda>x. x\<lparr>suspended := True\<rparr>)"
  have e: "(if state (tasks (?s ?k) t) = TASK_STATE_READY then SchedRemoveRunQueue t (?s ?k) else ?s ?k) = ?s (?r ?k)"
    using remove_upd_commute [of "\<lambda>x. x\<lparr>suspended := True\<rparr>" t ?k] by (simp add: upd_task_def)
  have g: "good ?k"
    using assms(1) by simp
  have c: "current_task (?s (?r ?k)) = current_task ?k"
    by (simp add: SchedRemoveRunQueue_def node_remove_def Let_def split: option.split)
  have "if t = current_task (?s (?r ?k)) then opt_all good (Schedule (?s (?r ?k))) else good (?s (?r ?k))"
    using suspend_good [OF g assms(2,3)] Schedule_good unfolding c by auto
  then show ?thesis
    unfolding MngTaskSuspend_def Let_def e using g assms(1) by (auto split: if_splits)
qed

section \<open>ManageTask\<close>

lemma SvcManageTask_ok: "svc_ok (SvcManageTask ua)"
proof (rule svc_okI)
  fix k
  assume g: "good k" "current_task k \<noteq> 0"
  have self: "opt_all good (manage_self verb k)" for verb
    using g(1) by (simp add: manage_self_def Let_def split: option.split ManageTaskVerb.split)
  have t: "he_type e = HANDLE_TASK \<Longrightarrow> he_obj e \<noteq> 0" "he_type e = HANDLE_TASK \<Longrightarrow> he_obj e \<noteq> idle_task" if "lookup_entry (CURRENT_SPACE k) h k = Some e" for h e
    using good_lookup [OF g(1) that] by auto
  have regs: "opt_all good (snd (MngTaskGetRegs ua t k))" "opt_all good (MngTaskSetRegs ua t k)" for t
    using g(1) by (simp_all add: MngTaskGetRegs_def MngTaskSetRegs_def split: option.split)
  show "opt_all good (SvcManageTask ua k)"
    unfolding SvcManageTask_def Let_def
    using t by (auto split: option.split ManageTaskVerb.split intro!: self regs MngTaskStart_good MngTaskKill_good MngTaskSuspend_good
          MngTaskResume_good good_ret(1) simp: g(1))
qed

end
