(* ===== verification/Links_Object.thy ===== *)
theory Links_Object
  imports Links_Manage
begin

text \<open>
  New ports, events and tasks, the verbs of \<open>ManageHandle\<close>, \<open>Bind\<close>, interrupts and faults: each leaves the
  kernel good. A new object is in memory that the slab cache hands out, which nothing in use points to.
\<close>

section \<open>Ports and events\<close>

lemma no_dependents:
  assumes "live_ok X v" "dying X = {}" "\<not> q_live v q" "t \<noteq> 0"
  shows "q \<notin> depends_on (v_tasks v t)"
  using assms unfolding live_ok_def by blast

lemma dead_port_unused:
  assumes "kinv {} X k" "dying X = {}" "p \<noteq> 0" "\<not> port_alive (ports k p)"
  shows "v_send (vt k t) \<noteq> Some p" "v_wait (vt k t) \<noteq> Some (RecvQ p)" "v_serving (vt k t) \<noteq> p" "v_held (vt k t) \<noteq> p"
proof -
  have pr: "proto_ok {} X (view k)"
    using assms(1) by (simp add: kinv_def)
  then have l: "live_ok X (view k)" and n: "null_view (vt k 0)"
    by (simp_all add: proto_ok_def)
  have "\<not> q_live (view k) (RecvQ p)"
    using assms(4) by (simp add: view_def)
  then have "RecvQ p \<notin> depends_on (vt k t)" if "t \<noteq> 0"
    using no_dependents [OF l assms(2)] that by blast
  then show "v_send (vt k t) \<noteq> Some p" "v_wait (vt k t) \<noteq> Some (RecvQ p)" "v_serving (vt k t) \<noteq> p" "v_held (vt k t) \<noteq> p"
    using n assms(3) by (cases "t = 0"; auto simp: depends_on_def null_view_def unlinked_view_def)+
qed

lemma dead_queue_empty:
  assumes "queues_ok k" "\<And>t. v_wait (vt k t) \<noteq> Some q"
  shows "wait_q k q = []"
proof -
  have "waits_ok k"
    using assms(1) by (simp add: queues_ok_def)
  then have "t \<notin> set (wait_q k q)" for t
    using assms(2) [of t] by (auto simp: waits_ok_def v_tasks_view task_view_def)
  then show ?thesis
    by (cases "wait_q k q") auto
qed

lemma PortCreate_kinv:
  assumes "kinv {} X k" "dying X = {}" "p \<noteq> 0 \<Longrightarrow> \<not> port_alive (ports k p)"
  shows "kinv {} X (snd (PortCreate p sp k))"
proof (cases "p = 0")
  case True
  then show ?thesis
    using assms(1) by (simp add: PortCreate_def)
next
  case False
  note u = dead_port_unused [OF assms(1,2) False assms(3) [OF False]]
  have q: "queues_ok k" and pr: "proto_ok {} X (view k)"
    using assms(1) by (simp_all add: kinv_def)
  have n: "node_q k (SendQ p) = []"
  proof -
    have "nodes_ok k"
      using q by (simp add: queues_ok_def)
    then have "t \<notin> set (node_q k (SendQ p))" for t
      using u(1) [of t] by (auto simp: nodes_ok_def v_tasks_view task_view_def)
    then show ?thesis
      by (cases "node_q k (SendQ p)") auto
  qed
  have w: "wait_q k (RecvQ p) = []"
    by (rule dead_queue_empty [OF q u(2)])
  have s: "active_servers k p = []"
  proof -
    have "t \<notin> set (v_servers (view k) p)" for t
      using pr u(3) [of t] False unfolding proto_ok_def servers_ok_def by blast
    then show ?thesis
      by (cases "active_servers k p") (auto simp: view_def)
  qed
  define k' where "k' = upd_port p (\<lambda>_. \<lparr>port_owner_spid = spid (spaces k sp), port_ref_count = 1, port_alive = True, held = None\<rparr>) k"
  have e: "k\<lparr>node_q := (node_q k)(SendQ p := []), wait_q := (wait_q k)(RecvQ p := []), active_servers := (active_servers k)(p := [])\<rparr> = k"
    using n w s by (cases k) (simp add: fun_upd_idem)
  have c: "snd (PortCreate p sp k) = ObserverInit (ObsPort p) k'"
    using False unfolding PortCreate_def Let_def e by (simp add: k'_def)
  have v: "view k' = (view k)\<lparr>v_parked := (v_parked (view k))(p := None), v_palive := (v_palive (view k))(p := True)\<rparr>"
    by (simp add: k'_def)
  have "parked_ok (view k)"
    using pr by (simp add: proto_ok_def)
  then have "parked_ok (view k')"
    using u(4) unfolding parked_ok_def by (simp add: v)
  moreover have "q_live (view k) r \<Longrightarrow> q_live (view k') r" for r
    by (cases r) (simp_all add: v)
  then have "live_ok X (view k')"
    using pr unfolding proto_ok_def live_ok_def by (simp add: v) blast
  moreover have "pins_ok X (view k')"
    using pr unfolding proto_ok_def pins_ok_def may_state_def by (simp add: v)
  ultimately have "proto_ok {} X (view k')"
    using pr unfolding proto_ok_def caps_ok_def servers_ok_def members_ok_def running_ok_def by (simp add: v)
  moreover have "queues_ok k'"
    using q by (rule queues_ok_frame) (simp_all add: v, simp_all add: k'_def)
  moreover have "ready_ok {} X k'"
    using kinvD(2) [OF assms(1)] by (rule ready_ok_frame) (simp_all add: v, simp_all add: k'_def)
  ultimately have "kinv {} X k'"
    by (simp add: kinv_def)
  then show ?thesis
    unfolding c by (simp add: kinv_links [OF links_ObserverInit])
qed

lemma EventCreate_kinv:
  assumes "kinv {} X k" "dying X = {}" "ev \<noteq> 0 \<Longrightarrow> \<not> ev_alive (events k ev)"
  shows "kinv {} X (snd (EventCreate ev sp k))"
proof (cases "ev = 0")
  case True
  then show ?thesis
    using assms(1) by (simp add: EventCreate_def)
next
  case False
  have q: "queues_ok k" and pr: "proto_ok {} X (view k)"
    using assms(1) by (simp_all add: kinv_def)
  have "\<not> q_live (view k) (EventQ ev)"
    using assms(3) [OF False] by (simp add: view_def)
  moreover have "live_ok X (view k)" "null_view (vt k 0)"
    using pr by (simp_all add: proto_ok_def)
  ultimately have "v_wait (vt k t) \<noteq> Some (EventQ ev)" for t
    using no_dependents [OF _ assms(2), of "view k" "EventQ ev" t] by (cases "t = 0") (auto simp: depends_on_def null_view_def unlinked_view_def)
  then have w: "wait_q k (EventQ ev) = []"
    by (rule dead_queue_empty [OF q])
  define k' where "k' = upd_event ev (\<lambda>_. \<lparr>word = 0, ev_owner_spid = spid (spaces k sp), ev_ref_count = 1,
                  ev_alive = True, bound_mask = 0, bound_refs = (\<lambda>_. 0), child_count = 0\<rparr>) k"
  have e: "k\<lparr>wait_q := (wait_q k)(EventQ ev := [])\<rparr> = k"
    using w by (cases k) (simp add: fun_upd_idem)
  have c: "snd (EventCreate ev sp k) = ObserverInit (ObsEvent ev) k'"
    using False unfolding EventCreate_def Let_def e by (simp add: k'_def)
  have v: "view k' = (view k)\<lparr>v_ealive := (v_ealive (view k))(ev := True)\<rparr>"
    by (simp add: k'_def)
  have "q_live (view k) r \<Longrightarrow> q_live (view k') r" for r
    by (cases r) (simp_all add: v)
  then have "live_ok X (view k')"
    using pr unfolding proto_ok_def live_ok_def by (simp add: v) blast
  moreover have "pins_ok X (view k')"
    using pr unfolding proto_ok_def pins_ok_def may_state_def by (simp add: v)
  ultimately have "proto_ok {} X (view k')"
    using pr unfolding proto_ok_def caps_ok_def servers_ok_def members_ok_def running_ok_def parked_ok_def by (simp add: v)
  moreover have "queues_ok k'"
    using q by (rule queues_ok_frame) (simp_all add: v, simp_all add: k'_def)
  moreover have "ready_ok {} X k'"
    using kinvD(2) [OF assms(1)] by (rule ready_ok_frame) (simp_all add: v, simp_all add: k'_def)
  ultimately have "kinv {} X k'"
    by (simp add: kinv_def)
  then show ?thesis
    unfolding c by (simp add: kinv_links [OF links_ObserverInit])
qed

text \<open>The cache hands out memory of no live object.\<close>

definition fresh_port :: "PortPtr \<Rightarrow> Kernel \<Rightarrow> bool" where
  "fresh_port p k \<longleftrightarrow> p = 0 \<or> \<not> port_alive (ports k p)"

definition fresh_event :: "EventPtr \<Rightarrow> Kernel \<Rightarrow> bool" where
  "fresh_event ev k \<longleftrightarrow> ev = 0 \<or> \<not> ev_alive (events k ev)"

lemma good_create: "good k \<Longrightarrow> fresh_port p k \<Longrightarrow> good (snd (PortCreate p sp k))"
  "good k \<Longrightarrow> fresh_event ev k \<Longrightarrow> good (snd (EventCreate ev sp k))"
  using PortCreate_kinv [of "XC (current_task k)" k p sp] EventCreate_kinv [of "XC (current_task k)" k ev sp]
  by (auto simp: fresh_port_def fresh_event_def good_XC [of k] dest: XC_good)

lemma good_new_handle:
  assumes "new_handle kz ty ob k = (r, k')" "good k" "ty \<noteq> HANDLE_FREE" "ob \<noteq> 0" "ty = HANDLE_TASK \<Longrightarrow> ob \<noteq> idle_task"
  shows "good k'"
  using new_handle_tables [OF _ assms(3-5,1), of "{}" X0] tables_only_good assms(2) by (auto simp: good_def)

lemma CreatePort_good:
  assumes "good k" "fresh_port p k"
  shows "opt_all good (CreatePort p kz k)"
proof -
  obtain p' k1 where c: "PortCreate p (CURRENT_SPACE k) k = (p', k1)"
    by fastforce
  have g: "good k1"
    using good_create(1) [OF assms, of "CURRENT_SPACE k"] c by simp
  show ?thesis
    unfolding CreatePort_def c Let_def
    by (auto split: option.split prod.split intro!: good_keeps_ret keeps_PortUnref good_ret elim!: good_new_handle simp: g)
qed

lemma keeps_EventDestroy [intro]: "keeps (EventDestroy ev)"
  unfolding keeps_def EventDestroy_def
  by (auto intro!: opt_all_bind [OF keepsD [OF keeps_event(3)]] keepsD [OF keeps_event(2)])

lemma CreateEvent_good:
  assumes "good k" "fresh_event ev k"
  shows "opt_all good (CreateEvent ev kz k)"
proof -
  obtain ev' k1 where c: "EventCreate ev (CURRENT_SPACE k) k = (ev', k1)"
    by fastforce
  have g: "good k1"
    using good_create(2) [OF assms, of "CURRENT_SPACE k"] c by simp
  show ?thesis
    unfolding CreateEvent_def c Let_def
    by (auto split: option.split prod.split intro!: good_keeps_ret good_ret elim!: good_new_handle simp: g)
qed

section \<open>Tasks\<close>

text \<open>Memory for a task that nothing in use points to.\<close>

definition fresh_task :: "TaskPtr \<Rightarrow> Kernel \<Rightarrow> bool" where
  "fresh_task t k \<longleftrightarrow> t \<noteq> idle_task \<and> t \<noteq> current_task k \<and> t \<notin> set (task_destroy_queue k) \<and> (\<forall>sp. t \<notin> set (space_tasks k sp))
     \<and> node (tasks k t) = None \<and> \<not> ws_linked (tasks k t) \<and> \<not> timeout_linked (tasks k t)
     \<and> reply_holder (tasks k t) = 0 \<and> held_port (tasks k t) = 0 \<and> reply_cap (tasks k t) = 0
     \<and> serving_port (tasks k t) = 0 \<and> wait_q k (JoinQ t) = []"

definition blank :: "TaskObject \<Rightarrow> bool" where
  "blank x \<longleftrightarrow> node x = None \<and> \<not> ws_linked x \<and> \<not> timeout_linked x \<and> reply_holder x = 0 \<and> held_port x = 0 \<and> reply_cap x = 0
     \<and> serving_port x = 0"

lemma fresh_blank: "fresh_task t k \<Longrightarrow> blank (tasks k t)"
  by (simp add: fresh_task_def blank_def)

lemma fresh_links:
  assumes "links k' = links k"
  shows "fresh_task t k' = fresh_task t k"
proof -
  have "set (task_destroy_queue k') = set (task_destroy_queue k)"
    using linksD(1) [OF assms] by (simp add: view_def)
  then show ?thesis
    using linksD [OF assms] viewD [OF linksD(1) [OF assms]] by (simp add: fresh_task_def)
qed

lemma fresh_upd:
  assumes "kinv {} X k" "fresh_task t k" "t \<noteq> 0" "pinned X t = None" "blank (f (tasks k t))" "ipc_state (f (tasks k t)) = IPC_NONE"
    and "state (f (tasks k t)) = TASK_STATE_READY \<or> state (f (tasks k t)) = TASK_STATE_FROZEN"
  defines "k' \<equiv> upd_task t f k"
  shows "kinv {} X k'" "fresh_task t k'"
proof -
  let ?x = "tasks k t"
  let ?y = "task_view (f ?x)"
  have tk: "tasks k' s = (if s = t then f ?x else tasks k s)" for s
    by (simp add: k'_def upd_task_def)
  have other: "node_q k' = node_q k" "ready_mask k' = ready_mask k" "wait_q k' = wait_q k" "sleep_wheel k' = sleep_wheel k" "wheel_occ k' = wheel_occ k"
    "space_tasks k' = space_tasks k" "spaces k' = spaces k" "task_destroy_queue k' = task_destroy_queue k"
    by (simp_all add: k'_def upd_task_def)
  have b: "blank ?x"
    using assms(2) by (rule fresh_blank)
  show "fresh_task t k'"
    using assms(2,5) by (simp add: fresh_task_def blank_def tk other) (simp add: k'_def)
  have v: "view k' = v_upd t (\<lambda>_. ?y) (view k)"
    by (simp add: view_def k'_def upd_task_def v_upd_def fun_eq_iff)
  have q: "queues_ok k" and r: "ready_ok {} X k" and p: "proto_ok {} X (view k)"
    using assms(1) by (simp_all add: kinv_def)
  have "nodes_ok k'" "run_ok k'" "waits_ok k'" "nstate_ok k'"
    using q b assms(5) unfolding queues_ok_def nodes_ok_def run_ok_def waits_ok_def nstate_ok_def blank_def tk other by simp_all
  moreover have "wheel_ok k'"
    using q b assms(5) unfolding queues_ok_def wheel_ok_def blank_def tk other by simp
  ultimately have q': "queues_ok k'"
    by (simp add: queues_ok_def)
  have nm: "t \<notin> set (space_tasks k sp)" for sp
    using assms(2) by (simp add: fresh_task_def)
  have "ready_ok {} X k'"
    using r b assms(5) nm unfolding ready_ok_def must_run_def must_not_run_def member_of_def is_frozen_def is_queued_def blank_def tk other
    by auto
  moreover have y: "unlinked_view ?y" "v_cap ?y = 0" "v_serving ?y = 0" "v_ipc ?y = IPC_NONE"
      "v_state ?y = TASK_STATE_READY \<or> v_state ?y = TASK_STATE_FROZEN"
    using assms(5-7) by (simp_all add: blank_def task_view_def unlinked_view_def)
  have x: "unlinked_view (vt k t)" "v_cap (vt k t) = 0" "v_serving (vt k t) = 0"
    using b by (simp_all add: blank_def v_tasks_view task_view_def unlinked_view_def)
  have sel: "v_cap (vt k' s) = v_cap (vt k s)" "v_holder (vt k' s) = v_holder (vt k s)" "v_serving (vt k' s) = v_serving (vt k s)"
      "v_held (vt k' s) = v_held (vt k s)" "v_held (vt k s) \<noteq> 0 \<Longrightarrow> v_slot (vt k' s) = v_slot (vt k s)" for s
    using x y by (auto simp: v unlinked_view_def)
  have same: "v_servers (view k') = v_servers (view k)" "v_parked (view k') = v_parked (view k)" "v_members (view k') = space_tasks k"
      "v_current (view k') = v_current (view k)" "v_frozen (view k') = v_frozen (view k)"
    by (simp_all add: v) (simp add: view_def)
  have "caps_ok (view k')" "servers_ok (view k')"
    using p unfolding proto_ok_def caps_ok_def servers_ok_def sel same by simp_all
  moreover have "parked_ok (view k)"
    using p by (simp add: proto_ok_def)
  then have "parked_ok (view k')"
    unfolding parked_ok_def sel(4) same by (simp add: sel(5) cong: conj_cong imp_cong)
  moreover have "members_ok X (view k')"
    using p nm unfolding proto_ok_def members_ok_def same by (auto simp: v) (auto simp: view_def)
  moreover have "running_ok {} (view k)"
    using p by (simp add: proto_ok_def)
  then have "running_ok {} (view k')"
    using y(5) unfolding running_ok_def by (auto simp: v split: if_splits)
  moreover have "null_view (vt k' 0)"
    using proto_null [OF p] assms(3) by (simp add: v)
  moreover have "live_ok X (view k)"
    using p by (simp add: proto_ok_def)
  then have "live_ok X (view k')"
  proof -
    have "q_live (view k) r \<Longrightarrow> q_live (view k') r" for r
      using y(5) by (cases r) (auto simp: v dead_def)
    moreover have "depends_on ?y = {}"
      using y by (simp add: depends_on_def unlinked_view_def)
    ultimately show ?thesis
      using \<open>live_ok X (view k)\<close> unfolding live_ok_def by (auto simp: v split: if_splits)
  qed
  moreover have "pins_ok X (view k)"
    using p by (simp add: proto_ok_def)
  then have "pins_ok X (view k')"
  proof -
    have "t \<notin> v_doomed (view k)" "t \<noteq> idle_task"
      using assms(2) by (simp_all add: fresh_task_def view_def)
    then have "may_state X (view k') t (v_state ?y)"
      using y(5) assms(4) by (auto simp: may_state_def v)
    then show ?thesis
      using \<open>pins_ok X (view k)\<close> unfolding pins_ok_def by (auto simp: v may_state_def)
  qed
  moreover have "state_ok t ?y"
    using y by (auto simp: state_ok_def unlinked_view_def)
  then have "state_ok s (vt k' s)" if "s \<noteq> 0" for s
    using kinv_state [OF assms(1) that] by (simp add: v)
  ultimately show "kinv {} X k'"
    using q' by (simp add: kinv_def proto_ok_def)
qed

lemma add_member:
  assumes "kinv {} X k" "fresh_task t k" "t \<noteq> 0" "state (tasks k t) = TASK_STATE_FROZEN" "owner (tasks k t) = sp" "t \<notin> outside X"
  shows "kinv {} X (k\<lparr>space_tasks := (space_tasks k)(sp := space_tasks k sp @ [t])\<rparr>)"
proof -
  define k' where "k' = k\<lparr>space_tasks := (space_tasks k)(sp := space_tasks k sp @ [t])\<rparr>"
  have q: "queues_ok k" and r: "ready_ok {} X k" and p: "proto_ok {} X (view k)"
    using assms(1) by (simp_all add: kinv_def)
  have nm: "t \<notin> set (space_tasks k sp)" for sp
    using assms(2) by (simp add: fresh_task_def)
  have v: "view k' = (view k)\<lparr>v_members := (space_tasks k)(sp := space_tasks k sp @ [t])\<rparr>"
    by (simp add: k'_def)
  have st: "space_tasks k = v_members (view k)"
    by (simp add: view_def)
  have so: "v_state (vt k t) = TASK_STATE_FROZEN" "v_owner (vt k t) = sp" "t \<noteq> idle_task" "node (tasks k t) = None"
    using assms(2,4,5) by (simp_all add: v_tasks_view task_view_def fresh_task_def)
  have mem: "members_ok X (view k)"
    using p by (simp add: proto_ok_def)
  have "members_ok X (view k')"
    using mem nm so assms(6) unfolding members_ok_def v by (auto simp: st)
  moreover have "running_ok {} (view k)"
    using p by (simp add: proto_ok_def)
  then have "running_ok {} (view k')"
    unfolding running_ok_def
  proof (intro allI impI)
    fix u
    assume a: "\<forall>t. t \<noteq> 0 \<and> v_state (vt k t) = TASK_STATE_RUNNING \<longrightarrow> t = v_current (view k) \<and> (t \<notin> {} \<longrightarrow> \<not> v_susp (vt k t)
        \<and> (v_owner (vt k t) \<noteq> 0 \<and> t \<in> set (v_members (view k) (v_owner (vt k t))) \<longrightarrow> \<not> v_frozen (view k) (v_owner (vt k t))))"
      and u: "u \<noteq> 0 \<and> v_state (vt k' u) = TASK_STATE_RUNNING"
    from u have "u \<noteq> t" "v_state (vt k u) = TASK_STATE_RUNNING"
      using so(1) by (auto simp: v)
    then have m: "u \<in> set (v_members (view k') s) \<longleftrightarrow> u \<in> set (v_members (view k) s)" for s
      by (simp add: v st)
    have sel: "v_tasks (view k') = v_tasks (view k)" "v_current (view k') = v_current (view k)" "v_frozen (view k') = v_frozen (view k)"
      by (simp_all add: v)
    show "u = v_current (view k') \<and> (u \<notin> {} \<longrightarrow> \<not> v_susp (vt k' u)
        \<and> (v_owner (vt k' u) \<noteq> 0 \<and> u \<in> set (v_members (view k') (v_owner (vt k' u))) \<longrightarrow> \<not> v_frozen (view k') (v_owner (vt k' u))))"
      using a u unfolding m sel by blast
  qed
  moreover have "q_live (view k') q = q_live (view k) q" for q
    by (cases q) (simp_all add: v)
  then have "live_ok X (view k')"
    using p unfolding proto_ok_def live_ok_def by (simp add: v)
  moreover have "pins_ok X (view k')"
    using p unfolding proto_ok_def pins_ok_def may_state_def by (simp add: v)
  ultimately have "proto_ok {} X (view k')"
    using p unfolding proto_ok_def caps_ok_def servers_ok_def parked_ok_def by (simp add: v)
  moreover have "queues_ok k'"
    using q by (rule queues_ok_frame) (simp_all add: v, simp_all add: k'_def)
  moreover have "ready_ok {} X k'"
    using r assms(3-5) so(4) unfolding ready_ok_def must_run_def must_not_run_def member_of_def is_frozen_def is_queued_def
    by (auto simp: k'_def)
  ultimately show ?thesis
    by (simp add: kinv_def k'_def)
qed

text \<open>A task under construction: its memory is blank, and the rest of the kernel is as it should be.\<close>

definition making :: "Scope \<Rightarrow> TaskPtr \<Rightarrow> Kernel \<Rightarrow> bool" where
  "making X t k \<longleftrightarrow> kinv {} X k \<and> fresh_task t k \<and> ipc_state (tasks k t) = IPC_NONE
     \<and> (state (tasks k t) = TASK_STATE_READY \<or> state (tasks k t) = TASK_STATE_FROZEN)"

lemma making_links: "links k' = links k \<Longrightarrow> making X t k' = making X t k"
  using kinv_links [of k' k "{}" X] fresh_links [of k' k t] viewD(1,2) [OF linksD(1), of k' k t] by (simp add: making_def)

lemmas making_frame [simp] = link_frame [THEN making_links]

lemma making_upd:
  assumes "making X t k" "t \<noteq> 0" "pinned X t = None" "\<And>x. blank x \<Longrightarrow> blank (f x)" "\<And>x. ipc_state (f x) = ipc_state x \<or> ipc_state (f x) = IPC_NONE"
    and "\<And>x. state (f x) = state x \<or> state (f x) = TASK_STATE_FROZEN"
  shows "making X t (upd_task t f k)"
proof -
  have m: "kinv {} X k" "fresh_task t k" "ipc_state (tasks k t) = IPC_NONE" "state (tasks k t) = TASK_STATE_READY \<or> state (tasks k t) = TASK_STATE_FROZEN"
    using assms(1) by (simp_all add: making_def)
  have f: "ipc_state (f (tasks k t)) = IPC_NONE" "state (f (tasks k t)) = TASK_STATE_READY \<or> state (f (tasks k t)) = TASK_STATE_FROZEN"
    using assms(5,6) [of "tasks k t"] m(3,4) by auto
  show ?thesis
    using fresh_upd [where f = f, OF m(1,2) assms(2,3) assms(4) [OF fresh_blank [OF m(2)]] f] f by (simp add: making_def upd_task_def)
qed

lemma making_RegisterTask:
  assumes "making X t k" "t \<noteq> 0" "pinned X t = None"
  shows "opt_all (\<lambda>(i, k'). making X t k') (RegisterTask t k)"
proof -
  have u: "making X t (upd_task t (\<lambda>x. x\<lparr>tid := i\<rparr>) (k\<lparr>next_tid := j\<rparr>))" for i j
    by (rule making_upd) (use assms in \<open>simp_all add: blank_def\<close>)
  show ?thesis
    unfolding RegisterTask_def Let_def
    using assms(2) by (auto split: Option.bind_split simp del: tid_search.simps simp: assms(1) u)
qed

lemma making_init_task:
  assumes "making X t k" "t \<noteq> 0" "pinned X t = None" "t \<notin> outside X" "state (tasks k t) = TASK_STATE_FROZEN" "owner (tasks k t) = sp"
  shows "kinv {} X (init_task t sp slot k)" "state (tasks (init_task t sp slot k) t) = TASK_STATE_FROZEN"
proof -
  define pa where "pa = TcbSlotPa sp slot k"
  define va where "va = TcbSlotUserVa sp slot k"
  define k1 where "k1 = zero_tcb pa k"
  define k2 where "k2 = k1\<lparr>tcb_mem := (tcb_mem k1)(pa := (tcb_mem k1 pa)\<lparr>tl_msg_buf := va + TCB_HDR_SIZE, tl_tid := tid (tasks k1 t), tl_spid := spid (spaces k1 sp)\<rparr>)\<rparr>"
  define k3 where "k3 = upd_task t (\<lambda>x. x\<lparr>task_info_va := va, tcb_slot := slot\<rparr>) k2"
  define k4 where "k4 = TaskSyncTcbPrio t k3"
  define k5 where "k5 = upd_task t (\<lambda>x. x\<lparr>msg_buf_phys_addr := pa + TCB_HDR_SIZE\<rparr>) k4"
  define k6 where "k6 = k5\<lparr>space_tasks := (space_tasks k5)(sp := space_tasks k5 sp @ [t])\<rparr>"
  define k7 where "k7 = upd_space sp (\<lambda>x. x\<lparr>live_tasks := live_tasks x + 1\<rparr>) k6"
  have l: "links k5 = links k"
    unfolding k5_def k4_def k3_def k2_def k1_def by (simp add: link_frame links_upd_task)
  have k5: "making X t k5"
    using assms(1) making_links [OF l] by simp
  have v: "state (tasks k5 t) = TASK_STATE_FROZEN" "owner (tasks k5 t) = sp"
    using viewD(1,5) [OF linksD(1) [OF l], of t] assms(5,6) by simp_all
  have k6: "kinv {} X k6" "state (tasks k6 t) = TASK_STATE_FROZEN"
    using add_member [of X k5 t sp] k5 assms(2,4) v by (simp_all add: making_def k6_def)
  have e: "init_task t sp slot k = (if main_task (spaces k7 sp) = 0 then upd_space sp (\<lambda>x. x\<lparr>main_task := t\<rparr>) k7 else k7)"
    unfolding init_task_def Let_def k7_def k6_def k5_def k4_def k3_def k2_def k1_def pa_def va_def by simp
  have l7: "links (init_task t sp slot k) = links k6"
    unfolding e by (simp add: link_frame k7_def)
  show "kinv {} X (init_task t sp slot k)" "state (tasks (init_task t sp slot k) t) = TASK_STATE_FROZEN"
    using k6 kinv_links [OF l7] viewD(1) [OF linksD(1) [OF l7]] by simp_all
qed

lemma TaskCreate_making:
  assumes "kinv {} X k" "t \<noteq> 0 \<Longrightarrow> fresh_task t k" "pinned X t = None" "outside X = {}"
  shows "opt_all (\<lambda>(r, k'). kinv {} X k' \<and> (r \<noteq> 0 \<longrightarrow> r = t \<and> state (tasks k' t) = TASK_STATE_FROZEN)) (TaskCreate t kst pg sp k)"
proof (cases "sp = 0 \<or> t = 0")
  case True
  then show ?thesis
    using assms(1) by (simp add: TaskCreate_def)
next
  case False
  then have t: "t \<noteq> 0" and f: "fresh_task t k"
    using assms(2) by auto
  define k1 where "k1 = ObserverInit (ObsTask t) (upd_task t (\<lambda>_. zero_task\<lparr>kernel_stack_top := kst\<rparr>) k)"
  have "kinv {} X (upd_task t (\<lambda>_. zero_task\<lparr>kernel_stack_top := kst\<rparr>) k)" "fresh_task t (upd_task t (\<lambda>_. zero_task\<lparr>kernel_stack_top := kst\<rparr>) k)"
    by (rule fresh_upd [OF assms(1) f t assms(3)]; simp add: zero_task_def blank_def)+
  then have m1: "making X t k1"
    by (simp add: k1_def making_def kinv_links [OF links_ObserverInit] fresh_links [OF links_ObserverInit])
       (simp add: ObserverInit_def upd_task_def zero_task_def)
  define frozen_task :: "TaskObject \<Rightarrow> TaskObject" where "frozen_task = (\<lambda>x. x\<lparr>owner := sp, sleep_slot := - 1, state := TASK_STATE_FROZEN,
                         ipc_state := IPC_NONE, priority := SCHED_PRIO_DEFAULT,
                         base_prio := SCHED_PRIO_DEFAULT, time_slice_us := TIMESLICE_DEFAULT_US,
                         max_prio := SCHED_PRIORITY_LEVELS - 1, tcb_slot := TCB_SLOT_NONE\<rparr>)"
  have rest: "opt_all (\<lambda>(r, k'). kinv {} X k' \<and> (r \<noteq> 0 \<longrightarrow> r = t \<and> state (tasks k' t) = TASK_STATE_FROZEN))
      (if i = 0 then Some (NULL, free_new_task t kst (upd_task t (\<lambda>x. x\<lparr>tid := i\<rparr>) k2))
       else let k = upd_task t frozen_task ((upd_task t (\<lambda>x. x\<lparr>tid := i\<rparr>) k2)\<lparr>wait_q := (wait_q (upd_task t (\<lambda>x. x\<lparr>tid := i\<rparr>) k2))(JoinQ t := [])\<rparr>);
                (idx, k) = TcbSlotAlloc sp k
            in if idx < 0 then Some (NULL, free_new_task t kst (TaskObjectUnregister t k))
               else let slot = nat idx; page = slot div SLOTS_PER_PAGE
                    in if tcb_page_pa (spaces k sp) ! page = 0 \<and> pg = 0
                       then Some (NULL, free_new_task t kst (TaskObjectUnregister t (TcbSlotFree sp slot k)))
                       else let k = (if tcb_page_pa (spaces k sp) ! page = 0
                                     then upd_space sp (\<lambda>x. x\<lparr>tcb_page_pa := (tcb_page_pa x)[page := pg]\<rparr>) k else k)
                            in Some (t, init_task t sp slot k))" if m2: "making X t k2" for i k2
  proof -
    define k3 where "k3 = upd_task t (\<lambda>x. x\<lparr>tid := i\<rparr>) k2"
    have m3: "making X t k3"
      unfolding k3_def by (rule making_upd [OF m2 t assms(3)]) (simp_all add: blank_def)
    have w: "k3\<lparr>wait_q := (wait_q k3)(JoinQ t := [])\<rparr> = k3"
      using m3 by (cases k3) (simp add: making_def fresh_task_def fun_upd_idem)
    define k4 where "k4 = upd_task t frozen_task k3"
    have m4: "making X t k4"
      unfolding k4_def by (rule making_upd [OF m3 t assms(3)]) (simp_all add: frozen_task_def blank_def)
    have s4: "state (tasks k4 t) = TASK_STATE_FROZEN" "owner (tasks k4 t) = sp"
      by (simp_all add: k4_def upd_task_def frozen_task_def)
    obtain idx k5 where a: "TcbSlotAlloc sp k4 = (idx, k5)"
      by fastforce
    have l5: "links k5 = links k4"
      using a by (auto simp: TcbSlotAlloc_def Let_def link_frame split: if_splits)
    have same: "making X t k' \<and> state (tasks k' t) = TASK_STATE_FROZEN \<and> owner (tasks k' t) = sp" if "links k' = links k5" for k'
      using that l5 m4 s4 making_links [of k' k4] viewD(1,5) [OF linksD(1), of k' k4 t] by simp
    have i: "kinv {} X (init_task t sp slot k') \<and> state (tasks (init_task t sp slot k') t) = TASK_STATE_FROZEN" if "links k' = links k5" for slot k'
      using making_init_task [of X t k' sp slot] same [OF that] t assms(3,4) by simp
    have fr: "links (free_new_task t kst k') = links k'" for k'
      by (simp add: free_new_task_def link_frame)
    have kf: "kinv {} X (free_new_task t kst k')" if "links k' = links k5" for k'
      using same [of "free_new_task t kst k'"] that by (simp add: making_def fr)
    show ?thesis
      unfolding k3_def [symmetric] w k4_def [symmetric] Let_def a
      using m3 by (auto simp: link_frame kinv_links [OF fr [of k3]] making_def i kf)
  qed
  show ?thesis
    unfolding TaskCreate_def k1_def [symmetric] Let_def [of k1]
    apply (rule opt_all_if)
     apply (use False in simp)
    apply (rule opt_all_if)
    subgoal
      using m1 by (simp add: making_def kinv_links [OF links_other(17)])
    apply (rule opt_all_bind [OF making_RegisterTask [OF m1 t assms(3)]])
    using rest unfolding frozen_task_def by (auto simp: Let_def)
qed

end
