(* ===== verification/Links_Handle.thy ===== *)
theory Links_Handle
  imports Links_Object
begin

text \<open>
  \<open>Create\<close>, \<open>ManageHandle\<close>, \<open>Bind\<close>, interrupts and faults leave the kernel good.
\<close>

section \<open>Creating a task\<close>

lemma links_prios: "links (upd_task t (\<lambda>x. x\<lparr>max_prio := a, base_prio := b, priority := c\<rparr>) k) = links k"
  by (rule links_upd_task) simp_all

lemma CreateTask_good:
  assumes "good k" "t \<noteq> 0 \<Longrightarrow> fresh_task t k"
  shows "opt_all good (CreateTask t kst pg kz k)"
proof -
  let ?X = "XC (current_task k)"
  have kx: "kinv {} ?X k"
    using assms(1) by (simp add: good_XC)
  have pin: "pinned ?X t = None"
    using assms kx kinv_pinned by (cases "t = 0") (auto simp: fresh_task_def)
  have rest: "opt_all good (case new_handle kz HANDLE_TASK t k2 of
                 (None, k) \<Rightarrow> do { k \<leftarrow> TaskDestroy t k; ret_err ERR_NOMEM k }
               | (Some h, k) \<Rightarrow> ret_handle h (TaskRef t k))"
    if k2: "kinv {} ?X k2" "state (tasks k2 t) = TASK_STATE_FROZEN" "t \<noteq> 0" "t \<noteq> idle_task" for k2
  proof -
    obtain r k3 where h: "new_handle kz HANDLE_TASK t k2 = (r, k3)"
      by fastforce
    have to: "tables_only k2 k3"
      by (rule new_handle_tables [OF k2(1) _ k2(3) _ h]) (simp_all add: k2(4))
    have k3: "kinv {} ?X k3" "v_state (vt k3 t) = TASK_STATE_FROZEN"
      using tables_onlyD(1,6) [OF to] k2(1,2) by (simp_all add: state_view)
    have "opt_all (kinv {} ?X) (TaskDestroy t k3)"
      by (rule TaskDestroy_keeps [OF k3(1)]) (simp add: k3(2))
    then have d: "opt_all good (do { k \<leftarrow> TaskDestroy t k3; ret_err ERR_NOMEM k })"
      by (rule opt_all_bind) (simp add: XC_good)
    have "good (TaskRef t k3)"
      using XC_good [OF k3(1)] good_links [OF links_TaskRef] by simp
    then show ?thesis
      unfolding h using d by (simp split: option.split)
  qed
  have prios: "opt_all good (let cur = current_task k1; mx = min (max_prio (tasks k1 cur)) (sp_max_prio (spaces k1 sp));
                bp = min (base_prio (tasks k1 cur)) mx;
                k = upd_task t (\<lambda>x. x\<lparr>max_prio := mx, base_prio := bp, priority := bp\<rparr>) k1;
                k = TaskSyncTcbPrio t k
            in case new_handle kz HANDLE_TASK t k of
                 (None, k) \<Rightarrow> do { k \<leftarrow> TaskDestroy t k; ret_err ERR_NOMEM k }
               | (Some h, k) \<Rightarrow> ret_handle h (TaskRef t k))"
    if k1: "kinv {} ?X k1" "state (tasks k1 t) = TASK_STATE_FROZEN" "t \<noteq> 0" for sp k1
  proof -
    have l: "links (TaskSyncTcbPrio t (upd_task t (\<lambda>x. x\<lparr>max_prio := a, base_prio := b, priority := b\<rparr>) k1)) = links k1" for a b
      by (simp add: links_prios links_TaskSyncTcbPrio)
    have ti: "t \<noteq> idle_task"
      using assms(2) [OF k1(3)] by (simp add: fresh_task_def)
    show ?thesis
      unfolding Let_def by (rule rest) (use k1 ti kinv_links [OF l] viewD(1) [OF linksD(1) [OF l]] in simp_all)
  qed
  show ?thesis
    unfolding CreateTask_def
    apply (cases "create_target (arg 1 k) k"; simp add: assms(1))
    apply (rule opt_all_bind [OF TaskCreate_making [OF kx assms(2) pin]])
      apply simp_all
    subgoal premises p for sp x
      using p(2) prios [of "snd x" sp] XC_good [of "current_task k" "snd x"] by (cases x) (auto simp: good_ret(1))
    done
qed

section \<open>ManageHandle\<close>

lemma good_table_entry: "good k \<Longrightarrow> HandleTableGet (handle_table (spaces k sp)) i = Some e \<Longrightarrow> names_object e"
  using kinv_tables [of "{}" X0 k sp] by (auto simp: good_def tbl_good_def)

lemma good_copy:
  assumes "HandleCopyInto kz dst src prm mk k = (err, r, k')" "good k" "names_object src"
  shows "good k'"
  using HandleCopyInto_tables [OF _ assms(3,1), of "{}" X0] tables_only_good assms(2) by (auto simp: good_def)

lemma Duplicate_Grant_good:
  assumes "good k" "names_object e"
  shows "opt_all good (MngHandleDuplicate kz e k)" "opt_all good (MngHandleGrant kz e k)"
  unfolding MngHandleDuplicate_def MngHandleGrant_def Let_def
  by (auto split: option.split prod.split intro!: good_ret elim!: good_copy simp: assms)

lemma tbl_good_entry:
  assumes "tbl_good t" "HandleTableGet t i = Some e" "he_type e \<noteq> HANDLE_FREE"
    and "he_type e' = he_type e" "he_obj e' = he_obj e" "generation e' = generation e"
  shows "tbl_good (put_entry t i e')"
proof -
  let ?u = "put_entry t i e'"
  have ok: "tbl_shape t" "\<And>j. j < HANDLE_MAX_SLOTS \<Longrightarrow> slot_ok t j" and n: "\<And>j d. HandleTableGet t j = Some d \<Longrightarrow> names_object d"
    using assms(1) by (auto simp: tbl_good_def tbl_ok_def)
  have g: "HandleTableGet ?u j = (if j = i then Some e' else HandleTableGet t j)" for j
    by (rule Get_put_entry [OF ok(1) assms(2)])
  have "slot_ok ?u j" if "j < HANDLE_MAX_SLOTS" for j
    using ok(2) [OF that] assms(2-) by (auto simp: slot_ok_def g split: option.splits)
  moreover have "names_object d" if "HandleTableGet ?u j = Some d" for j d
    using that n [of j d] n [OF assms(2)] assms(3-5) by (cases "j = i") (auto simp: g names_object_def)
  ultimately show ?thesis
    using ok(1) by (auto simp: tbl_good_def tbl_ok_def)
qed

lemma tbl_good_perms:
  assumes "tbl_good t" "HandleTableGet t i = Some e" "he_type e \<noteq> HANDLE_FREE"
  shows "tbl_good (put_entry t i (e\<lparr>perms := p\<rparr>))"
  by (rule tbl_good_entry [OF assms]) simp_all

lemma Restrict_good:
  assumes "good k" "HandleTableGet (handle_table (spaces k (CURRENT_SPACE k))) i = Some e" "he_type e \<noteq> HANDLE_FREE"
  shows "opt_all good (snd (MngHandleRestrict prot i e k))"
proof -
  let ?sp = "CURRENT_SPACE k" and ?t = "handle_table (spaces k (CURRENT_SPACE k))"
  have k: "kinv {} X0 k"
    using assms(1) by (simp add: good_def)
  have "good (upd_space ?sp (\<lambda>x. x\<lparr>handle_table := put_entry (handle_table x) i (e\<lparr>perms := p\<rparr>)\<rparr>) k)" for p
  proof -
    have "upd_space ?sp (\<lambda>x. x\<lparr>handle_table := put_entry (handle_table x) i (e\<lparr>perms := p\<rparr>)\<rparr>) k
        = set_table ?sp (put_entry ?t i (e\<lparr>perms := p\<rparr>)) k"
      by (simp add: set_table_def upd_space_def)
    moreover have "tables_only k (set_table ?sp (put_entry ?t i (e\<lparr>perms := p\<rparr>)) k)"
      by (rule tables_only_set [OF k tbl_good_perms [OF kinv_tables [OF k] assms(2,3)]])
    ultimately show ?thesis
      using tables_only_good assms(1) by simp
  qed
  then show ?thesis
    using assms(1) by (simp add: MngHandleRestrict_def Let_def split: option.split)
qed

lemma self_is_ancestor: "sp \<noteq> 0 \<Longrightarrow> SpaceIsSelfOrAncestor sp sp k"
  by (simp add: SpaceIsSelfOrAncestor_def MAX_SPACES_def ancestor_loop.simps(2) [of 511, simplified])

lemma Destroy_good:
  assumes "good k" "names_object e" "he_type e \<noteq> HANDLE_FREE"
  shows "opt_all good (MngHandleDestroy i e k)"
proof -
  let ?X = "XC (current_task k)"
  have kx: "kinv {} ?X k"
    using assms(1) by (simp add: good_XC)
  have m: "members_ok ?X (view k)"
    using kx by (simp add: kinv_def proto_ok_def)
  have sp: "opt_all (kinv {} ?X) (SpaceDestroy (he_obj e) k)"
    if "he_type e = HANDLE_SPACE" "\<not> SpaceIsSelfOrAncestor (CURRENT_SPACE k) (he_obj e) k"
  proof (rule SpaceDestroy_keeps [OF kx])
    have "he_obj e \<noteq> CURRENT_SPACE k"
      using that self_is_ancestor [of "he_obj e" k] assms(2,3) by (auto simp: names_object_def)
    moreover have "owner (tasks k t) = he_obj e" if "t \<in> set (space_tasks k (he_obj e))" for t
      using m that by (auto simp: members_ok_def view_def task_view_def)
    ultimately show "pinned ?X t = None" if "t \<in> set (space_tasks k (he_obj e))" for t
      using that by (auto simp: CURRENT_SPACE_def)
  qed
  have rel: "opt_all good (do { k' \<leftarrow> m; k'' \<leftarrow> HandleRelease sp i e k'; ret_err ZUZU_OK k'' })"
    if "opt_all (kinv {} ?X) m" for m sp
    by (rule opt_all_bind [OF that]) (intro good_keeps_ret keeps_HandleRelease XC_good [THEN conjunct1])
  show ?thesis
    unfolding MngHandleDestroy_def Let_def
    by (intro opt_all_if rel sp keepsD [OF keeps_PortKill kx] keepsD [OF keeps_event(3) kx] good_ret(1) assms(1)) (auto simp: kx)
qed

lemma SvcManageHandle_ok: "svc_ok (SvcManageHandle kz prot)"
proof (rule svc_okI)
  fix k
  assume g: "good k" "current_task k \<noteq> 0"
  have close: "opt_all good (MngHandleClose i e k)" for i e
    using g(1) good_keeps_ret [OF keeps_HandleRelease [of "CURRENT_SPACE k" i e] g(1)] by (simp add: MngHandleClose_def)
  have qr: "opt_all good (MngHandleQuery e k)" for e
    using g(1) by (auto simp: MngHandleQuery_def split: option.split sum.split)
  have rearm: "opt_all good (MngHandleIrqRearm e k)" for e
    using g(1) by (auto simp: MngHandleIrqRearm_def IrqRelayRearm_def Let_def good_links [OF links_irq_lines(2)])
  have live: "he_type e \<noteq> HANDLE_FREE" if "HandleTableLookup t h = Some i" "HandleTableGet t i = Some e" for t h i e
    using that by (auto simp: HandleTableLookup_def Let_def split: option.splits if_splits)
  show "opt_all good (SvcManageHandle kz prot k)"
    unfolding SvcManageHandle_def Let_def space_table_of_def
    by (auto split: option.split ManageHandleVerb.split intro!: close qr rearm Destroy_good Restrict_good Duplicate_Grant_good
        simp: g(1) live good_table_entry [OF g(1)])
qed

section \<open>Bind\<close>

lemmas good_frame_ops [simp] = link_frame [THEN good_links]

lemma good_keeps: "keeps f \<Longrightarrow> good k \<Longrightarrow> opt_all good (f k)"
  by (rule opt_all_mono [OF keeps_good]) auto

lemmas good_event_ops = keeps_event [THEN good_keeps]

lemma release_dead_good: "good k \<Longrightarrow> opt_all good (release_dead src is k)"
  by (induction "is" arbitrary: k) (auto simp: Let_def intro!: opt_all_bind [OF good_event_ops(4)])

lemma ObserverAdd_good: "good k \<Longrightarrow> opt_all (\<lambda>r. good (snd r)) (ObserverAdd src ev b is_event k)"
  unfolding ObserverAdd_def
  by (auto simp: Let_def split: option.split intro!: opt_all_bind [OF release_dead_good])

lemma IrqBindToEvent_good:
  assumes "good k"
  shows "opt_all (\<lambda>r. good (snd r)) (IrqBindToEvent sp i ev b k)"
  unfolding IrqBindToEvent_def Let_def
  by (intro opt_all_if opt_all_bind [where P = good] good_event_ops) (use assms in auto)

lemma SvcBind_ok: "svc_ok (SvcBind kz)"
proof (rule svc_okI)
  fix k
  assume g: "good k" "current_task k \<noteq> 0"
  have irq: "opt_all good (bind_irq ev k)" for ev
    using g(1) by (auto simp: bind_irq_def Let_def split: option.split intro!: opt_all_bind [OF IrqBindToEvent_good])
  have obj: "opt_all good (bind_object ty ev k)" for ty ev
    using g(1) by (auto simp: bind_object_def Let_def split: option.split sum.split
        intro!: opt_all_bind [where P = "\<lambda>r. good (snd r)"] opt_all_bind [where P = good] ObserverAdd_good good_event_ops)
  have ev: "opt_all good (bind_event ev k)" for ev
    using g(1) by (auto simp: bind_event_def Let_def split: option.split
        intro!: opt_all_bind [where P = "\<lambda>r. good (snd r)"] opt_all_bind [where P = good] ObserverAdd_good good_event_ops)
  have sub: "good (snd (PmmSubscribe kz ev k))" for ev
    using g(1) by (simp add: PmmSubscribe_def Let_def)
  show "opt_all good (SvcBind kz k)"
    unfolding SvcBind_def Let_def case_prod_unfold using g(1)
    by (auto split: option.split intro!: irq obj ev good_ret(1) sub)
qed

section \<open>Interrupts and faults\<close>

lemma ArchIrqDispatch_good:
  assumes "good k"
  shows "opt_all good (ArchIrqDispatch irq k)"
proof -
  have "kinv {} (XC (current_task k)) (ArmGenericTimerHandler k)"
    unfolding ArmGenericTimerHandler_def
    by (rule kinv_SchedTimerExpired) (use assms in \<open>simp add: kinv_links [OF links_WriteCntvCtl] good_XC\<close>)
  then have "good (ArmGenericTimerHandler k)"
    by (simp add: XC_good)
  moreover have "opt_all good (RelayIrqHandler irq k)"
    unfolding RelayIrqHandler_def Let_def
    by (intro opt_all_if opt_all_bind [where P = good] good_event_ops) (use assms in auto)
  ultimately show ?thesis
    using assms by (simp add: ArchIrqDispatch_def)
qed

lemma resched_exit_good: "good k \<Longrightarrow> opt_all good (resched_exit k)"
  unfolding resched_exit_def by (intro opt_all_if Schedule_good good_schedulable) simp_all

lemma user_fault_good:
  assumes "good k"
  shows "opt_all good (user_fault reason k)"
proof -
  have "opt_all (kinv {} X0) (TaskFault (current_task k) reason k)" if "current_task k \<noteq> 0" "CURRENT_SPACE k \<noteq> 0"
    by (rule TaskFault_keeps) (use assms that in \<open>simp_all add: good_def state_view CURRENT_SPACE_def\<close>)
  then show ?thesis
    unfolding user_fault_def
    by (intro opt_all_kassert) (auto intro!: opt_all_bind [where P = "kinv {} X0"] Schedule_good blocked_schedulable)
qed

end
