(* ===== verification/Links_Dispatch.thy ===== *)
theory Links_Dispatch
  imports Links_Handle Svc_Dispatch
begin

text \<open>\<open>Create\<close> of spaces and memory, \<open>ManageMemory\<close>, the dispatcher and the exception entries leave the kernel good.\<close>

section \<open>Handle entries that stay what they are\<close>

lemma good_set_table: "good k \<Longrightarrow> tbl_good t \<Longrightarrow> good (upd_space sp (\<lambda>x. x\<lparr>handle_table := t\<rparr>) k)"
  using tables_only_good [OF tables_only_set [of "{}" X0 k t sp]] by (simp add: good_def set_table_def)

lemma good_tables: "good k \<Longrightarrow> tbl_good (handle_table (spaces k sp))"
  using kinv_tables by (auto simp: good_def)

lemma good_set_mapped:
  assumes "good k" "HandleTableGet (handle_table (spaces k sp)) i = Some e" "he_type e \<noteq> HANDLE_FREE"
  shows "good (set_mapped sp i va k)"
proof -
  have "set_mapped sp i va k = upd_space sp (\<lambda>x. x\<lparr>handle_table := put_entry (handle_table (spaces k sp)) i (e\<lparr>mapped_va := va\<rparr>)\<rparr>) k"
    using assms(2) by (simp add: set_mapped_def upd_space_def)
  then show ?thesis
    using good_set_table [OF assms(1) tbl_good_entry [OF good_tables [OF assms(1)] assms(2,3)]] by simp
qed

section \<open>Address spaces\<close>

lemma good_FreedPage [simp]: "good (FreedPage pa k) = good k"
  by (simp add: FreedPage_def)

lemma good_set_page [simp]: "good (set_page m i pa k) = good k"
  by (simp add: set_page_def)

lemma good_AddRegion [simp]: "good (snd (snd (VmmAddRegion grow r as k))) = good k"
  by (simp add: VmmAddRegion_def Let_def)

lemma good_PageFault [simp]: "good (snd (snd (VmmPageFaultHandle slab fr r va as k))) = good k"
  by (simp add: VmmPageFaultHandle_def Let_def case_prod_unfold)

lemma VmmRemoveRegion_good: "good k \<Longrightarrow> opt_all (\<lambda>(ok, as, k'). good k') (VmmRemoveRegion va sz as k)"
  unfolding VmmRemoveRegion_def Let_def
  by (auto split: option.split intro!: opt_all_bind [OF good_keeps [OF keeps_MemObjUnref]])

lemma tables_VmmAddRegion [simp]: "spaces (snd (snd (VmmAddRegion grow r as k))) = spaces k"
  by (simp add: VmmAddRegion_def MemObjRef_def upd_mem_def Let_def)

lemma VmmMapMemObj_good:
  assumes "good k" "HandleTableGet (handle_table (spaces k sp)) i = Some e" "he_type e \<noteq> HANDLE_FREE"
  shows "good (snd (snd (VmmMapMemObj grow slab sp i e prot hint as k)))"
proof -
  have add: "good (set_mapped sp i va (snd (snd (VmmAddRegion grow rg as1 k))))" for rg as1 va
    by (rule good_set_mapped [of _ _ _ e]) (use assms in simp_all)
  have "good (snd (snd (map_shared grow sp i e prot hint as k)))"
    unfolding map_shared_def Let_def case_prod_unfold by (simp add: add assms(1))
  moreover have "good (snd (snd (map_device grow slab sp i e prot hint as k)))"
    unfolding map_device_def Let_def case_prod_unfold by (simp add: add assms(1))
  ultimately show ?thesis
    using assms(1) by (simp add: VmmMapMemObj_def split: MemKind.split)
qed

lemma good_free_anon [simp]: "good (free_anon va ns as k) = good k"
  by (induction ns arbitrary: k) (simp_all add: Let_def)

lemma good_clear_mapped: "good k \<Longrightarrow> good (clear_mapped sp va k)"
  by (auto simp: clear_mapped_def find_Some_iff split: option.splits intro!: good_set_mapped)

lemma VmmUnmapUserRegion_good: "good k \<Longrightarrow> opt_all (\<lambda>(e, as, k'). good k') (VmmUnmapUserRegion sp va as k)"
  unfolding VmmUnmapUserRegion_def Let_def
  by (auto split: option.split intro!: opt_all_bind [OF VmmRemoveRegion_good] simp: good_clear_mapped)

lemma InjectObj_good: "good k \<Longrightarrow> opt_all (\<lambda>(e, as, k'). good k') (InjectObjIntoSpace grow slab kitten parent a as k)"
proof -
  assume g: "good k"
  have "opt_all (\<lambda>(e, as, k'). good k') (inject_object grow slab e a as k)" for e
    unfolding inject_object_def Let_def case_prod_unfold
    by (intro opt_all_if opt_all_bind [OF VmmRemoveRegion_good]) (simp_all add: g case_prod_unfold)
  then show ?thesis
    using g by (simp add: InjectObjIntoSpace_def case_prod_unfold split: option.split)
qed

section \<open>Filling a slot found free\<close>

lemma find_free_good:
  assumes "HandleTableFindFree kz t = (slot, u)" "tbl_good t"
  shows "tbl_good u"
proof -
  have "tbl_ok t"
    using assms(2) by (simp add: tbl_good_def)
  with assms(1) show ?thesis
    by (cases rule: find_free_cases) (use assms(2) in \<open>simp_all add: tbl_good_lookup\<close>)
qed

lemma claim_good:
  assumes "HandleTableFindFree kz t = (slot, u)" "tbl_good t" "slot \<noteq> - 1" "HandleTableGet u (nat slot) = Some e"
    and "fills f" "\<And>d. names_object (f d)"
  shows "tbl_good (put_entry (HandleEntryClaim u (nat slot)) (nat slot) (f e))"
proof -
  have ok: "tbl_ok t"
    using assms(2) by (simp add: tbl_good_def)
  have "\<not> slot < 0"
    using assms(1) ok assms(3) by (cases rule: find_free_cases) auto
  then have "tbl_insert kz f t = (Some (HANDLE_PACK (word_of_int slot) (generation e)),
      put_entry (HandleEntryClaim u (nat slot)) (nat slot) (f e))"
    using assms(1,4) by (simp add: tbl_insert_def)
  then show ?thesis
    by (rule tbl_good_insert [OF _ assms(2,5,6)])
qed

section \<open>A new space\<close>

lemma tbl_good_init [simp]: "tbl_good HandleTableInit"
proof -
  have "HandleTableGet HandleTableInit i = None" for i
    by (auto simp: HandleTableGet_def HandleTableInit_def slot_defs)
  then show ?thesis
    by (simp add: tbl_good_def)
qed

definition fresh_space :: "SpacePtr \<Rightarrow> Kernel \<Rightarrow> bool" where
  "fresh_space sp k \<longleftrightarrow> sp = 0 \<or> space_tasks k sp = [] \<and> wait_q k (SpaceQ sp) = [] \<and> sp \<noteq> CURRENT_SPACE k"

lemma kinv_new_space:
  assumes "kinv {} X k" "space_tasks k sp = []" "freezing X = {}"
    and "\<not> frozen (f (spaces k sp))" "\<not> torn_down (f (spaces k sp))" "tbl_good (handle_table (f (spaces k sp)))"
  shows "kinv {} X (upd_space sp f k)"
proof -
  define k' where "k' = upd_space sp f k"
  have p: "proto_ok {} X (view k)"
    using assms(1) by (simp add: kinv_def)
  have v: "view k' = (view k)\<lparr>v_frozen := (v_frozen (view k))(sp := False), v_torn := (v_torn (view k))(sp := False),
      v_tables := (v_tables (view k))(sp := handle_table (f (spaces k sp)))\<rparr>"
    using assms(4,5) by (simp add: k'_def)
  have "q_live (view k) r \<Longrightarrow> q_live (view k') r" for r
    by (cases r) (simp_all add: v)
  then have "live_ok X (view k')"
    using p unfolding proto_ok_def live_ok_def by (simp add: v) blast
  moreover have "pins_ok X (view k)" "running_ok {} (view k)"
    using p by (simp_all add: proto_ok_def)
  then have "pins_ok X (view k')" "running_ok {} (view k')"
    using assms(3,6) unfolding pins_ok_def running_ok_def by (simp_all add: v may_state_def)
  ultimately have "proto_ok {} X (view k')"
    using p unfolding proto_ok_def caps_ok_def servers_ok_def members_ok_def parked_ok_def by (simp add: v)
  moreover have "queues_ok k'"
    by (rule queues_ok_frame [OF kinvD(1) [OF assms(1)]]) (simp_all add: k'_def)
  moreover have m: "member_of t k' \<longleftrightarrow> member_of t k" "member_of t k \<Longrightarrow> is_frozen t k' \<longleftrightarrow> is_frozen t k" for t
    using assms(2) by (auto simp: member_of_def is_frozen_def k'_def upd_space_def)
  have "ready_ok {} X k'"
    using kinvD(2) [OF assms(1)] m unfolding ready_ok_def must_run_def must_not_run_def is_queued_def
    by (simp add: k'_def upd_space_def) blast
  ultimately show ?thesis
    by (simp add: kinv_def k'_def)
qed

lemma good_space_fail: "good k \<Longrightarrow> good (space_fail sp k)"
proof -
  assume "good k"
  define k1 where "k1 = upd_space sp (\<lambda>x. x\<lparr>tcb_page_pa := replicate MAX_TCB_PAGES 0\<rparr>) k"
  have g: "good k1"
    using \<open>good k\<close> by (simp add: k1_def)
  define k2 where "k2 = upd_space sp (\<lambda>x. x\<lparr>handle_table := HandleTableDestroy (handle_table (spaces k1 sp))\<rparr>) k1"
  have "good k2"
    unfolding k2_def by (rule good_set_table [OF g]) (rule tbl_good_destroy [OF good_tables [OF g]])
  then have "good (k2\<lparr>freed := FreedSpace sp # freed k2\<rparr>)"
    by simp
  moreover have "space_fail sp k = k2\<lparr>freed := FreedSpace sp # freed k2\<rparr>"
    by (simp add: space_fail_def Let_def k2_def k1_def upd_space_def)
  ultimately show ?thesis
    by simp
qed

lemma SpidAlloc_good: "good k \<Longrightarrow> opt_all (\<lambda>(i, k'). good k' \<and> spaces k' = spaces k) (SpidAlloc sp k)"
  by (auto simp: SpidAlloc_def Let_def split: Option.bind_split)

lemma SpaceCreate_good:
  assumes "good k" "fresh_space (se_slab env) k"
  shows "opt_all (\<lambda>(r, k'). good k' \<and> (r \<noteq> 0 \<longrightarrow> r = se_slab env \<and> r \<noteq> CURRENT_SPACE k)
      \<and> (\<forall>sp. sp \<noteq> se_slab env \<longrightarrow> handle_table (spaces k' sp) = handle_table (spaces k sp))) (SpaceCreate env parent k)"
proof (cases "se_slab env = 0")
  case True
  then show ?thesis
    using assms(1) by (simp add: SpaceCreate_def)
next
  case False
  let ?sp = "se_slab env"
  let ?z = "zero_space\<lparr>parent_spid := (if parent = NULL then - 1 else spid (spaces k parent))\<rparr>"
  have f: "space_tasks k ?sp = []" "wait_q k (SpaceQ ?sp) = []" "?sp \<noteq> CURRENT_SPACE k"
    using assms(2) False by (simp_all add: fresh_space_def)
  define k1 where "k1 = ObserverInit (ObsSpace ?sp) (upd_space ?sp (\<lambda>_. ?z) k)"
  have "kinv {} (XC (current_task k)) (upd_space ?sp (\<lambda>_. ?z) k)"
    by (rule kinv_new_space) (use assms(1) f in \<open>simp_all add: good_XC [symmetric] zero_space_def\<close>)
  then have g1: "good k1"
    by (simp add: k1_def XC_good)
  have e: "k1\<lparr>space_tasks := (space_tasks k1)(?sp := []), wait_q := (wait_q k1)(SpaceQ ?sp := [])\<rparr> = k1"
    using f by (cases k) (simp add: k1_def ObserverInit_def upd_space_def fun_upd_idem)
  have t1: "handle_table (spaces k1 s) = handle_table (spaces k s)" if "s \<noteq> ?sp" for s
    using that by (simp add: k1_def ObserverInit_def upd_space_def)
  have fail: "good (space_fail ?sp k')" "handle_table (spaces (space_fail ?sp k') s) = handle_table (spaces k' s)"
    if "good k'" "s \<noteq> ?sp" for k' s
    using that good_space_fail by (simp_all add: space_fail_def upd_space_def Let_def)
  define k2 where "k2 = upd_space ?sp (\<lambda>x. x\<lparr>sp_as := se_as env\<rparr>) k1"
  have g: "good k2"
    using g1 by (simp add: k2_def)
  have t2: "handle_table (spaces k2 s) = handle_table (spaces k s)" if "s \<noteq> ?sp" for s
    using t1 [OF that] that by (simp add: k2_def upd_space_def)
  have last: "opt_all (\<lambda>(r, k'). good k' \<and> (r \<noteq> 0 \<longrightarrow> r = ?sp \<and> r \<noteq> CURRENT_SPACE k)
      \<and> (\<forall>sp. sp \<noteq> ?sp \<longrightarrow> handle_table (spaces k' sp) = handle_table (spaces k sp)))
      (do { (i, k) \<leftarrow> SpidAlloc ?sp k3;
            Some (if i = 0 then (NULL, space_fail ?sp k) else (?sp, upd_space ?sp (\<lambda>x. x\<lparr>spid := i\<rparr>) k)) })"
    if k3: "k3 = upd_space ?sp (\<lambda>x. x\<lparr>tcb_page_pa := (tcb_page_pa x)[0 := se_tcb_pa env], tcb_page_va := va\<rparr>) k2" for k3 va
  proof (rule opt_all_bind [OF SpidAlloc_good])
    show "good k3"
      using g unfolding k3 by simp
  next
    fix y :: "int \<times> Kernel"
    assume "case y of (i, k') \<Rightarrow> good k' \<and> spaces k' = spaces k3"
    then obtain i k' where y: "y = (i, k')" "good k'" "spaces k' = spaces k3"
      by (cases y) simp
    have "good (upd_space ?sp (\<lambda>x. x\<lparr>spid := i\<rparr>) k')"
      using y(2) by simp
    with y show "opt_all (\<lambda>(r, k'). good k' \<and> (r \<noteq> 0 \<longrightarrow> r = ?sp \<and> r \<noteq> CURRENT_SPACE k)
        \<and> (\<forall>sp. sp \<noteq> ?sp \<longrightarrow> handle_table (spaces k' sp) = handle_table (spaces k sp)))
        (case y of (i, k) \<Rightarrow> Some (if i = 0 then (NULL, space_fail ?sp k) else (?sp, upd_space ?sp (\<lambda>x. x\<lparr>spid := i\<rparr>) k)))"
      using fail f(3) t2 by (simp add: good_space_fail upd_space_def k3)
  qed
  show ?thesis
    unfolding SpaceCreate_def Let_def [of "se_slab env"] k1_def [symmetric] Let_def [of k1] e Let_def [of "k1"] k2_def [symmetric] Let_def [of k2]
    using False last [OF refl] g1 g fail t1 t2 by (auto simp: good_space_fail split: option.split)
qed

lemma SpaceRef_good [simp]: "good (SpaceRef sp k) = good k"
  by (simp add: SpaceRef_def)

lemma claim_slot_good:
  assumes "HandleTableFindFree kz t = (slot, u)" "tbl_good t" "slot \<noteq> - 1" "good k" "handle_table (spaces k sp) = u"
    and "HandleTableGet u (nat slot) = Some e" "fills f" "\<And>d. names_object (f d)"
  shows "good (upd_space sp (\<lambda>x. x\<lparr>handle_table := put_entry (HandleEntryClaim u (nat slot)) (nat slot) (f e)\<rparr>) k)"
  by (rule good_set_table [OF assms(4)]) (rule claim_good [OF assms(1-3,6-8)])

lemma CreateSpace_good:
  assumes "good k" "fresh_space (se_slab env) k"
  shows "opt_all good (CreateSpace name_ok kz env k)"
proof -
  let ?c = "CURRENT_SPACE k"
  obtain slot u where ff: "HandleTableFindFree kz (handle_table (spaces k ?c)) = (slot, u)"
    by fastforce
  define k1 where "k1 = upd_space ?c (\<lambda>x. x\<lparr>handle_table := u\<rparr>) k"
  have t: "tbl_good (handle_table (spaces k ?c))"
    by (rule good_tables [OF assms(1)])
  have g1: "good k1"
    unfolding k1_def by (rule good_set_table [OF assms(1)]) (rule find_free_good [OF ff t])
  have c1: "CURRENT_SPACE k1 = ?c" "handle_table (spaces k1 ?c) = u" "fresh_space (se_slab env) k1"
    using assms(2) by (simp_all add: k1_def CURRENT_SPACE_def fresh_space_def upd_space_def)
  have "opt_all good (case HandleTableGet (handle_table (spaces k2 ?c)) (nat slot) of None \<Rightarrow> None
      | Some e \<Rightarrow> let t = HandleEntryClaim (handle_table (spaces k2 ?c)) (nat slot);
           e = e\<lparr>he_type := HANDLE_SPACE, he_obj := sp, perms := PERM_ALL\<rparr>;
           k = upd_space ?c (\<lambda>x. x\<lparr>handle_table := put_entry t (nat slot) e\<rparr>) k2
         in ret_handle (HANDLE_PACK (word_of_int slot) (generation e)) (SpaceRef sp k))"
    if "good k2" "handle_table (spaces k2 ?c) = u" "sp \<noteq> 0" "slot \<noteq> - 1" for k2 sp
    using claim_slot_good [OF ff t that(4,1,2), of _ "\<lambda>e. e\<lparr>he_type := HANDLE_SPACE, he_obj := sp, perms := PERM_ALL\<rparr>"] that(2,3)
    by (auto simp: Let_def fills_def names_object_def split: option.split intro!: good_ret)
  note claim = this
  have rest: "opt_all good (do {
      (sp, k) \<leftarrow> SpaceCreate env ?c k1;
      if sp = NULL then ret_err ERR_NOMEM k
      else
        let k = upd_space sp (\<lambda>x. x\<lparr>sp_max_prio := max_prio (tasks k (current_task k))\<rparr>) k
        in case HandleTableGet (handle_table (spaces k ?c)) (nat slot) of None \<Rightarrow> None
           | Some e \<Rightarrow> let t = HandleEntryClaim (handle_table (spaces k ?c)) (nat slot);
               e = e\<lparr>he_type := HANDLE_SPACE, he_obj := sp, perms := PERM_ALL\<rparr>;
               k = upd_space ?c (\<lambda>x. x\<lparr>handle_table := put_entry t (nat slot) e\<rparr>) k
             in ret_handle (HANDLE_PACK (word_of_int slot) (generation e)) (SpaceRef sp k) })" if "slot \<noteq> - 1"
  proof (rule opt_all_bind [OF SpaceCreate_good [OF g1 c1(3)]], goal_cases)
    case (1 y)
    obtain sp k2 where y: "y = (sp, k2)"
      by fastforce
    show ?case
    proof (cases "sp = 0")
      case True
      then show ?thesis
        using 1 y by simp
    next
      case False
      define k3 where "k3 = upd_space sp (\<lambda>x. x\<lparr>sp_max_prio := max_prio (tasks k2 (current_task k2))\<rparr>) k2"
      have "good k2" "sp = se_slab env" "sp \<noteq> ?c" "handle_table (spaces k2 ?c) = u"
        using 1 y False c1(1,2) by auto
      then have "handle_table (spaces k3 ?c) = u"
        by (simp add: k3_def upd_space_def)
      moreover have "good k3"
        using \<open>good k2\<close> by (simp add: k3_def)
      ultimately have "good k3" "handle_table (spaces k3 ?c) = u"
        by simp_all
      from claim [OF this False that] show ?thesis
        unfolding y prod.case Let_def [of "upd_space sp _ k2"] k3_def [symmetric] using False by simp
    qed
  qed
  show ?thesis
    unfolding CreateSpace_def Let_def [of ?c] Let_def [of "HandleTableFindFree kz _"] ff prod.case k1_def [symmetric] Let_def [of k1]
    using rest g1 assms(1) by simp
qed

lemma good_MemObjCreateShm [simp]: "good (snd (MemObjCreateShm m as n fl k)) = good k"
  by (simp add: MemObjCreateShm_def Let_def)

lemma CreateMemory_good:
  assumes "good k"
  shows "opt_all good (CreateMemory kz env k)"
proof -
  obtain m k1 where c: "MemObjCreateShm (me_slab env) (replicate (unat (arg 1 k)) 0) (arg 1 k) (arg 2 k) k = (m, k1)"
    by fastforce
  have "good (snd (MemObjCreateShm (me_slab env) (replicate (unat (arg 1 k)) 0) (arg 1 k) (arg 2 k) k))"
    using assms by simp
  then have g: "good k1"
    unfolding c by simp
  have h: "opt_all good (case new_handle kz HANDLE_MEM m k2 of (None, k) \<Rightarrow> do { k \<leftarrow> MemObjUnref m k; ret_err ERR_NOMEM k }
      | (Some h, k) \<Rightarrow> ret_handle h k)" if "good k2" "m \<noteq> 0" for k2
    using that by (auto split: option.split prod.split intro!: good_keeps_ret good_ret elim!: good_new_handle)
  show ?thesis
    unfolding CreateMemory_def Let_def c prod.case
    by (intro opt_all_if h good_keeps_ret keeps_MemObjUnref) (simp_all add: g assms)
qed

text \<open>The allocators hand out memory that nothing in use points to.\<close>

definition env_ok :: "SvcEnv \<Rightarrow> Kernel \<Rightarrow> bool" where
  "env_ok env k \<longleftrightarrow> fresh_port (e_port env) k \<and> fresh_event (e_event env) k
     \<and> (e_task env \<noteq> 0 \<longrightarrow> fresh_task (e_task env) k) \<and> fresh_space (se_slab (e_space env)) k"

lemma SvcCreate_good: "good k \<Longrightarrow> env_ok env k \<Longrightarrow> opt_all good (SvcCreate env k)"
  by (simp add: SvcCreate_def Let_def env_ok_def CreateTask_good CreateSpace_good CreatePort_good CreateEvent_good CreateMemory_good)

section \<open>ManageMemory\<close>

lemma ret_addr_good [simp]: "good k \<Longrightarrow> opt_all good (ret_addr r k)"
  by (simp add: ret_addr_def)

lemma lookup_live: "HandleTableLookup t h = Some i \<Longrightarrow> HandleTableGet t i = Some e \<Longrightarrow> he_type e \<noteq> HANDLE_FREE"
  by (auto simp: HandleTableLookup_def Let_def split: option.splits if_splits)

lemma good_VmmMapAnon [simp]: "good (snd (snd (VmmMapAnon grow hint sz prot as k))) = good k"
  by (simp add: VmmMapAnon_def Let_def case_prod_unfold)

lemma MemMap_good: "good k \<Longrightarrow> opt_all good (MemMap env k)"
  unfolding MemMap_def Let_def case_prod_unfold
  by (auto split: option.split simp: space_table_of_def intro!: VmmMapMemObj_good ret_addr_good dest: lookup_live)

lemma MemInject_good: "good k \<Longrightarrow> opt_all good (MemInject env k)"
  unfolding MemInject_def
  by (auto split: option.split intro!: opt_all_bind [OF InjectObj_good])

lemma good_DmaMap [simp]: "good (snd (snd (snd (MemObjDmaMap slab dev m off len dir k)))) = good k"
  by (simp add: MemObjDmaMap_def Let_def)

lemma MemDmaMap_good: "good k \<Longrightarrow> opt_all good (MemDmaMap env k)"
  unfolding MemDmaMap_def Let_def case_prod_unfold
  by (auto split: option.split sum.split)

lemma good_MemObjRef [simp]: "good (MemObjRef m k) = good k"
  by (simp add: MemObjRef_def)

lemma DmaUnmap_good: "good k \<Longrightarrow> opt_all (\<lambda>(e, k'). good k') (MemObjDmaUnmap dev i k)"
  unfolding MemObjDmaUnmap_def Let_def
  by (auto split: option.split intro!: opt_all_bind [OF good_keeps [OF keeps_MemObjUnref]])

lemma MemDmaAdopt_good:
  assumes "good k"
  shows "opt_all good (MemDmaAdopt kz k)"
proof -
  let ?c = "CURRENT_SPACE k"
  obtain slot u where ff: "HandleTableFindFree kz (handle_table (spaces k ?c)) = (slot, u)"
    by fastforce
  have t: "tbl_good (handle_table (spaces k ?c))"
    by (rule good_tables [OF assms])
  define k1 where "k1 = upd_space ?c (\<lambda>x. x\<lparr>handle_table := u\<rparr>) k"
  have g1: "good k1"
    unfolding k1_def by (rule good_set_table [OF assms]) (rule find_free_good [OF ff t])
  have claim: "good (upd_space ?c (\<lambda>y. y\<lparr>handle_table := put_entry (HandleEntryClaim u (nat slot)) (nat slot)
      (e\<lparr>he_type := HANDLE_MEM, he_obj := m, perms := PERM_MAP OR PERM_WRITE, mapped_va := 0\<rparr>)\<rparr>)
      (upd_mem m (\<lambda>y. y\<lparr>mem_owner_spid := n\<rparr>) (MemObjRef m k1)))"
    if "HandleTableGet u (nat slot) = Some e" "slot \<noteq> - 1" for m e n
    by (rule claim_slot_good [OF ff t that(2) _ _ that(1),
          where f = "\<lambda>e. e\<lparr>he_type := HANDLE_MEM, he_obj := m, perms := PERM_MAP OR PERM_WRITE, mapped_va := 0\<rparr>"])
       (simp_all add: g1 fills_def names_object_def, simp add: k1_def MemObjRef_def upd_mem_def upd_space_def)
  show ?thesis
    unfolding MemDmaAdopt_def Let_def ff prod.case k1_def [symmetric]
    using assms g1 claim by (auto split: option.split intro!: good_ret)
qed

lemma SvcManageMemory_good:
  assumes "good k"
  shows "opt_all good (SvcManageMemory env k)"
proof -
  have "opt_all good (case dma_handle h k of Inl e \<Rightarrow> ret_err e k
      | Inr dev \<Rightarrow> do { (rc, k) \<leftarrow> MemObjDmaUnmap dev i k; ret_err rc k })" for h i
    using assms by (auto split: sum.split intro!: opt_all_bind [OF DmaUnmap_good])
  moreover have "opt_all good (do { (rc, as, k) \<leftarrow> VmmUnmapUserRegion sp va as k; ret_err rc k })" for sp va as
    by (rule opt_all_bind [OF VmmUnmapUserRegion_good [OF assms]]) (simp add: case_prod_unfold)
  moreover have "opt_all good (case dma_handle h k of Inl e \<Rightarrow> ret_err e k
      | Inr dev \<Rightarrow> ret_err (f dev) k)" for h f
    using assms by (auto split: sum.split)
  ultimately show ?thesis
    unfolding SvcManageMemory_def Let_def
    by (intro opt_all_if) (simp_all add: assms MemMap_good MemInject_good MemDmaMap_good MemDmaAdopt_good)
qed

section \<open>The entries\<close>

lemma svc_table_mem:
  assumes "svc_table env n = Some f"
  shows "f \<in> {SvcQuit, SvcYield, SvcSleep, SvcCreate env, SvcCall (e_kz env), SvcReply (e_kz env) (e_kzr env), SvcWaitOn (e_kzr env),
    \<lambda>k. SvcManageHandle (e_kz env) (mapped_prot env k) k, SvcSignal, SvcBind (e_kz env), SvcManageMemory env,
    SvcManageTask (e_user env), SvcHold (e_kz env)}"
proof -
  define tbl where "tbl = [Some SvcQuit, Some SvcYield, Some SvcSleep, None, Some (SvcCreate env), Some (SvcCall (e_kz env)),
    Some (SvcReply (e_kz env) (e_kzr env)), Some (SvcWaitOn (e_kzr env)), Some (\<lambda>k. SvcManageHandle (e_kz env) (mapped_prot env k) k),
    Some SvcSignal, Some (SvcBind (e_kz env)), Some (SvcManageMemory env), Some (SvcManageTask (e_user env)), Some (SvcHold (e_kz env))]"
  have "n < length tbl" "tbl ! n = Some f"
    using assms by (simp_all add: svc_table_def tbl_def [symmetric] split: if_splits)
  then have "Some f \<in> set tbl"
    by (metis nth_mem)
  then show ?thesis
    unfolding tbl_def by auto
qed

lemma SvcDispatch_good:
  assumes "good k" "env_ok env k"
  shows "opt_all good (SvcDispatch env n k)"
proof -
  note ok = SvcQuit_ok SvcYield_ok SvcSleep_ok SvcCall_ok SvcReply_ok SvcWaitOn_ok SvcManageHandle_ok SvcSignal_ok SvcBind_ok
    SvcManageTask_ok SvcHold_ok
  have "opt_all good (f k)" if "svc_table env n = Some f" "current_task k \<noteq> 0" for f
    using svc_table_mem [OF that(1)] assms ok [THEN svc_okD, OF assms(1) that(2)] by (auto simp: SvcManageMemory_good SvcCreate_good)
  then show ?thesis
    using assms(1) by (simp add: SvcDispatch_def split: option.split)
qed

lemma svc_handler_good: "good k \<Longrightarrow> env_ok env k \<Longrightarrow> opt_all good (svc_handler env k)"
  unfolding svc_handler_def SvcTrap_def Let_def
  by (rule opt_all_bind [where P = good]) (simp_all add: SvcDispatch_good resched_exit_good)

lemma ServiceDemandPage_good [simp]: "good (snd (snd (ServiceDemandPage slab fr far fsr as k))) = good k"
  by (simp add: ServiceDemandPage_def Let_def split: option.split)

lemma data_abort_good:
  assumes "good k"
  shows "opt_all good (data_abort x k)"
proof -
  obtain ok as k' where s: "(if is_translation (x_fsr x) \<and> x_far x < KERNEL_VA_BASE
      then ServiceDemandPage (x_slab x) (x_frame x) (x_far x) (x_fsr x) (x_as x) k else (False, x_as x, k)) = (ok, as, k')"
    by (metis prod_cases3)
  have "good (snd (snd (if is_translation (x_fsr x) \<and> x_far x < KERNEL_VA_BASE
      then ServiceDemandPage (x_slab x) (x_frame x) (x_far x) (x_fsr x) (x_as x) k else (False, x_as x, k))))"
    using assms by simp
  then have "good k'"
    unfolding s by simp
  then show ?thesis
    unfolding data_abort_def Let_def s by (auto simp: user_fault_good split: bool.split)
qed

lemma good_trap_frame [simp]: "good (upd_task t (\<lambda>x. x\<lparr>trap_frame := f x\<rparr>) k) = good k"
  by (rule good_links, rule links_upd_task) (simp_all add: task_view_def)

lemma undef_good: "good k \<Longrightarrow> opt_all good (undef_instruction x k)"
  unfolding undef_instruction_def Let_def by (intro opt_all_if) (simp_all add: user_fault_good)

lemma ExceptionDispatch_good: "good k \<Longrightarrow> opt_all good (ExceptionDispatch ty x k)"
  by (cases ty) (simp_all add: ExceptionDispatch_def undef_good data_abort_good user_fault_good ArchIrqDispatch_good)

lemma irq_handler_good: "good k \<Longrightarrow> opt_all good (irq_handler x k)"
  unfolding irq_handler_def by (rule opt_all_bind [OF ExceptionDispatch_good resched_exit_good])

end
