(* ===== verification/Zxf.thy ===== *)
theory Zxf
  imports Zuzu_Prelude
begin

text \<open>
  Executable images: \<open>klib/zxf.c\<close> over the file format of \<open>include/util/zxf.h\<close>, and the image that
  \<open>scripts/elf2zxf.py\<close> writes. An image is the list of its bytes. A read outside of the image has no
  meaning in C; reads return an option, and the parser as a whole is \<^const>\<open>None\<close> if one of them were
  to leave the image. The sizes compared are those of images below 4 GiB, and the products of a 16-bit
  count and a record size do not wrap, so sizes are natural numbers.
\<close>

section \<open>Reading bytes\<close>

definition slice :: "u8 list \<Rightarrow> nat \<Rightarrow> nat \<Rightarrow> u8 list option" where
  "slice bs off n = (if off + n \<le> length bs then Some (take n (drop off bs)) else None)"

fun le_val :: "u8 list \<Rightarrow> nat" where
  "le_val [] = 0"
| "le_val (b # bs) = unat b + 256 * le_val bs"

definition rd :: "nat \<Rightarrow> u8 list \<Rightarrow> nat \<Rightarrow> nat option" where
  "rd n bs off = map_option le_val (slice bs off n)"

section \<open>Records of the format\<close>

definition ZXF_R :: u8 where "ZXF_R = 1"
definition ZXF_W :: u8 where "ZXF_W = 2"
definition ZXF_X :: u8 where "ZXF_X = 4"

record ZXFHeader =
  zh_magic :: "u8 list"
  zh_version :: nat
  zh_arch :: nat
  zh_entry :: nat
  zh_seg_count :: nat
  zh_block_count :: nat
  zh_seg_table_offset :: nat
  zh_block_table_offset :: nat
  zh_checksum :: nat

record ZXFSegment =
  file_offset :: u32
  file_size :: u32
  seg_vaddr :: u64
  mem_size :: u32
  seg_flags :: u8
  seg_align :: u8

record ZXFImage =
  img_entry :: u32
  img_segs :: "ZXFSegment list"

definition SIZEOF_HEADER :: nat where "SIZEOF_HEADER = 64"
definition SIZEOF_SEGMENT :: nat where "SIZEOF_SEGMENT = 24"
definition SIZEOF_BLOCK :: nat where "SIZEOF_BLOCK = 12"
definition ARM32 :: nat where "ARM32 = 1"
definition OPTIONAL :: nat where "OPTIONAL = 0"
definition REQUIRED :: nat where "REQUIRED = 1"
definition ZXF_MAGIC :: "u8 list" where "ZXF_MAGIC = [0x7a, 0x5a, 0x58, 0x46]"

lemmas zxf_consts [const_defs] = SIZEOF_HEADER_def SIZEOF_SEGMENT_def SIZEOF_BLOCK_def ARM32_def OPTIONAL_def
  REQUIRED_def ZXF_MAGIC_def ZXF_R_def ZXF_W_def ZXF_X_def

definition read_header :: "u8 list \<Rightarrow> ZXFHeader option" where
  "read_header bs = do {
     mg \<leftarrow> slice bs 0 4; ver \<leftarrow> rd 1 bs 4; arch \<leftarrow> rd 1 bs 5; entry \<leftarrow> rd 8 bs 8;
     sc \<leftarrow> rd 2 bs 28; bc \<leftarrow> rd 2 bs 30; so \<leftarrow> rd 4 bs 32; bo \<leftarrow> rd 4 bs 36; cs \<leftarrow> rd 4 bs 40;
     Some \<lparr>zh_magic = mg, zh_version = ver, zh_arch = arch, zh_entry = entry, zh_seg_count = sc, zh_block_count = bc,
           zh_seg_table_offset = so, zh_block_table_offset = bo, zh_checksum = cs\<rparr> }"

definition read_segment :: "u8 list \<Rightarrow> nat \<Rightarrow> ZXFSegment option" where
  "read_segment bs off = do {
     fo \<leftarrow> rd 4 bs off; fs \<leftarrow> rd 4 bs (off + 4); va \<leftarrow> rd 8 bs (off + 8); ms \<leftarrow> rd 4 bs (off + 16);
     fl \<leftarrow> rd 1 bs (off + 20); al \<leftarrow> rd 1 bs (off + 21);
     Some \<lparr>file_offset = of_nat fo, file_size = of_nat fs, seg_vaddr = of_nat va, mem_size = of_nat ms,
           seg_flags = of_nat fl, seg_align = of_nat al\<rparr> }"

fun read_segments :: "u8 list \<Rightarrow> nat \<Rightarrow> nat \<Rightarrow> ZXFSegment list option" where
  "read_segments bs off 0 = Some []"
| "read_segments bs off (Suc n) = do {
     s \<leftarrow> read_segment bs off; ss \<leftarrow> read_segments bs (off + SIZEOF_SEGMENT) n; Some (s # ss) }"

section \<open>Checksum\<close>

definition crc_bit :: "u32 \<Rightarrow> u32" where
  "crc_bit crc = (if crc AND 1 \<noteq> 0 then drop_bit 1 crc XOR 0xEDB88320 else drop_bit 1 crc)"

definition crc_byte :: "u32 \<Rightarrow> u8 \<Rightarrow> u32" where
  "crc_byte crc b = (crc_bit ^^ 8) (crc XOR ucast b)"

definition ZxfCrc32Partial :: "u8 list \<Rightarrow> u32 \<Rightarrow> u32" where
  "ZxfCrc32Partial bs crc = foldl crc_byte crc bs"

definition image_crc :: "u8 list \<Rightarrow> u32 option" where
  "image_crc bs = do {
     a \<leftarrow> slice bs 0 40;
     b \<leftarrow> slice bs 44 (length bs - 44);
     Some (ZxfCrc32Partial b (ZxfCrc32Partial [0, 0, 0, 0] (ZxfCrc32Partial a 0xFFFFFFFF)) XOR 0xFFFFFFFF) }"

section \<open>Validation\<close>

text \<open>
  The loop over the blocks: every block type is unknown to this loader, so a block passes only when it
  is optional.
\<close>

fun check_blocks :: "u8 list \<Rightarrow> nat \<Rightarrow> nat \<Rightarrow> bool option" where
  "check_blocks bs off 0 = Some True"
| "check_blocks bs off (Suc n) = do {
     fl \<leftarrow> rd 2 bs (off + 2);
     if fl = OPTIONAL then check_blocks bs (off + SIZEOF_BLOCK) n else Some False }"

definition ZxfParse :: "u8 list \<Rightarrow> ZXFImage option option" where
  "ZxfParse bs =
     (if length bs < SIZEOF_HEADER then Some None
      else do {
        h \<leftarrow> read_header bs;
        if zh_magic h \<noteq> ZXF_MAGIC then Some None
        else if zh_version h \<noteq> 1 then Some None
        else if zh_arch h \<noteq> ARM32 then Some None
        else do {
          crc \<leftarrow> image_crc bs;
          if unat crc \<noteq> zh_checksum h then Some None
          else if zh_seg_table_offset h > length bs then Some None
          else if zh_seg_count h * SIZEOF_SEGMENT > length bs - zh_seg_table_offset h then Some None
          else if zh_block_table_offset h > length bs then Some None
          else if zh_block_count h * SIZEOF_BLOCK > length bs - zh_block_table_offset h then Some None
          else do {
            ok \<leftarrow> check_blocks bs (zh_block_table_offset h) (zh_block_count h);
            segs \<leftarrow> read_segments bs (zh_seg_table_offset h) (zh_seg_count h);
            Some (if ok then Some \<lparr>img_entry = of_nat (zh_entry h), img_segs = segs\<rparr> else None) } } })"

section \<open>Reads stay inside the image\<close>

lemma slice_Some [simp]: "off + n \<le> length bs \<Longrightarrow> slice bs off n = Some (take n (drop off bs))"
  by (simp add: slice_def)

lemma rd_Some [simp]: "off + n \<le> length bs \<Longrightarrow> rd n bs off = Some (le_val (take n (drop off bs)))"
  by (simp add: rd_def)

lemma read_segments_total:
  "off + n * SIZEOF_SEGMENT \<le> length bs \<Longrightarrow> \<exists>ss. read_segments bs off n = Some ss \<and> length ss = n"
proof (induction n arbitrary: off)
  case (Suc n)
  have "off + SIZEOF_SEGMENT + n * SIZEOF_SEGMENT \<le> length bs"
    using Suc.prems by simp
  from Suc.IH [OF this] obtain ss where "read_segments bs (off + SIZEOF_SEGMENT) n = Some ss" "length ss = n"
    by blast
  moreover have "\<exists>s. read_segment bs off = Some s"
    using Suc.prems by (simp add: read_segment_def SIZEOF_SEGMENT_def)
  ultimately show ?case
    by auto
qed simp

lemma check_blocks_total: "off + n * SIZEOF_BLOCK \<le> length bs \<Longrightarrow> \<exists>ok. check_blocks bs off n = Some ok"
proof (induction n arbitrary: off)
  case (Suc n)
  have "off + SIZEOF_BLOCK + n * SIZEOF_BLOCK \<le> length bs" "off + 4 \<le> length bs"
    using Suc.prems by (simp_all add: SIZEOF_BLOCK_def)
  with Suc.IH [OF this(1)] show ?case
    by auto
qed (auto intro: exI [of _ True])

lemma read_header_total: "SIZEOF_HEADER \<le> length bs \<Longrightarrow> \<exists>h. read_header bs = Some h"
  by (simp add: read_header_def SIZEOF_HEADER_def)

text \<open>C0: Validating an image never reads outside of it, whatever its bytes are.\<close>

theorem ZxfParse_in_bounds: "ZxfParse bs \<noteq> None"
proof (cases "length bs < SIZEOF_HEADER")
  case True
  then show ?thesis
    by (simp add: ZxfParse_def)
next
  case False
  then obtain h where h: "read_header bs = Some h"
    using read_header_total by fastforce
  have crc: "\<exists>c. image_crc bs = Some c"
    using False by (simp add: image_crc_def SIZEOF_HEADER_def)
  have "\<exists>ok ss. check_blocks bs (zh_block_table_offset h) (zh_block_count h) = Some ok
      \<and> read_segments bs (zh_seg_table_offset h) (zh_seg_count h) = Some ss"
    if "\<not> zh_seg_table_offset h > length bs" "\<not> zh_seg_count h * SIZEOF_SEGMENT > length bs - zh_seg_table_offset h"
      "\<not> zh_block_table_offset h > length bs" "\<not> zh_block_count h * SIZEOF_BLOCK > length bs - zh_block_table_offset h"
    using that read_segments_total [of "zh_seg_table_offset h" "zh_seg_count h" bs]
      check_blocks_total [of "zh_block_table_offset h" "zh_block_count h" bs] by fastforce
  then show ?thesis
    using False h crc by (auto simp: ZxfParse_def)
qed

end
