(* ===== verification/Boot.thy ===== *)
theory Boot
  imports Svc_Dispatch Zxf
begin

text \<open>
  From the end of early boot to the first user task: \<open>SchedInit\<close> of \<open>sched.c\<close>, the loader of
  \<open>kernel/task/kernel_load.c\<close> and the root service of \<open>kernel/loader/boot_programs.c\<close>. Frames, slab objects
  and whether vectors and tables can grow are arguments; the bytes the loader writes go to the physical
  memory of the kernel state. The device tree is its list of devices.
\<close>

section \<open>Scheduler\<close>

definition clzll :: "u64 \<Rightarrow> nat" where
  "clzll w = length (takeWhile (\<lambda>i. \<not> bit w (63 - i)) [0..<64])"

definition SchedInit :: "Kernel \<Rightarrow> Kernel option" where
  "SchedInit k = do {
     let k = k\<lparr>node_q := (\<lambda>q. case q of RunQ l \<Rightarrow> if l < SCHED_PRIORITY_LEVELS then [] else node_q k q | SendQ p \<Rightarrow> node_q k q),
               sleep_wheel := (\<lambda>s. if s < SLEEP_QUEUE_SIZE then [] else sleep_wheel k s)\<rparr>;
     kassert (freq k \<ge> 250);
     let sh = 63 - clzll (ucast (freq k div 250));
     let (now, k) = ArchTimerNow (k\<lparr>slot_shift := sh\<rparr>);
     Some (k\<lparr>wheel_now_slot := drop_bit sh now, current_task := NULL, on_idle_stack := False\<rparr>) }"

section \<open>Loading an image\<close>

definition ZxfSegChkOverlap :: "ZXFSegment \<Rightarrow> ZXFSegment \<Rightarrow> bool" where
  "ZxfSegChkOverlap a b =
     (let a_start = ucast (seg_vaddr a) :: u32; b_start = ucast (seg_vaddr b) :: u32;
          a_end = a_start + mem_size a; b_end = b_start + mem_size b
      in if a_end < a_start \<or> b_end < b_start then True else a_start < b_end \<and> b_start < a_end)"

fun any_overlap :: "ZXFSegment list \<Rightarrow> bool" where
  "any_overlap [] = False"
| "any_overlap (s # ss) \<longleftrightarrow> list_ex (ZxfSegChkOverlap s) ss \<or> any_overlap ss"

definition phys_write :: "PhysAddr \<Rightarrow> u8 list \<Rightarrow> Kernel \<Rightarrow> Kernel" where
  "phys_write pa bs k =
     k\<lparr>msg_mem := (\<lambda>a. let i = unat (a - pa) in if i < length bs then bs ! i else msg_mem k a)\<rparr>"

text \<open>
  The allocators as seen by the loader: the frames for the pages of each segment, in order, whether the
  list of a segment's pages can be allocated, and the frames that faulting in the argument pages takes.
\<close>

record LoadEnv =
  ld_space :: SpaceEnv
  ld_task :: TaskPtr
  ld_kstack :: VirtAddr
  ld_page :: PhysAddr
  ld_frames :: "nat \<Rightarrow> nat \<Rightarrow> PhysAddr"
  ld_list :: "nat \<Rightarrow> bool"
  ld_argv :: "nat \<Rightarrow> PhysAddr"

text \<open>The pages loaded so far are unmapped and returned, when a later page cannot be had.\<close>

fun drop_pages :: "VirtAddr \<Rightarrow> PhysAddr list \<Rightarrow> AddressSpace \<Rightarrow> Kernel \<Rightarrow> AddressSpace \<times> Kernel" where
  "drop_pages va [] as k = (as, k)"
| "drop_pages va (pa # pas) as k = drop_pages (va + PAGE_SIZE) pas (snd (VmmUnmapRange va PAGE_SIZE as)) (FreedPage pa k)"

text \<open>
  The bytes of page \<open>n\<close> of a segment, filled up with zeros. \<^const>\<open>None\<close> is a copy that would read outside of
  the image.
\<close>

definition page_bytes :: "u8 list \<Rightarrow> ZXFSegment \<Rightarrow> nat \<Rightarrow> u8 list option" where
  "page_bytes data s n =
     map_option (\<lambda>b. b @ replicate (4096 - length b) 0)
       (slice data (unat (file_offset s) + n * 4096) (min 4096 (unat (file_size s) - n * 4096)))"

fun load_pages ::
    "bool \<Rightarrow> (nat \<Rightarrow> PhysAddr) \<Rightarrow> u8 list \<Rightarrow> ZXFSegment \<Rightarrow> u32 \<Rightarrow> nat list \<Rightarrow> PhysAddr list \<Rightarrow> AddressSpace \<Rightarrow> Kernel
     \<Rightarrow> (bool \<times> PhysAddr list \<times> AddressSpace \<times> Kernel) option" where
  "load_pages slab fr data s prot [] got as k = Some (True, got, as, k)"
| "load_pages slab fr data s prot (n # ns) got as k =
     (let pa = fr n; va = ucast (seg_vaddr s) :: u32
      in if pa = 0 then Some (False, [], drop_pages va got as k)
         else do {
           bs \<leftarrow> page_bytes data s n;
           let k = phys_write pa bs k;
           case VmmMapUserPage slab pa (va + of_nat n * PAGE_SIZE) prot as of
             (ok, as) \<Rightarrow>
               if ok then load_pages slab fr data s prot ns (got @ [pa]) as k
               else Some (False, [], drop_pages va got as (FreedPage pa k)) })"

definition seg_prot :: "ZXFSegment \<Rightarrow> u32" where
  "seg_prot s = (if seg_flags s AND ZXF_R \<noteq> 0 then PROT_READ else 0) OR (if seg_flags s AND ZXF_W \<noteq> 0 then PROT_WRITE else 0)
     OR (if seg_flags s AND ZXF_X \<noteq> 0 then PROT_EXEC else 0)"

text \<open>
  One segment: \<^const>\<open>False\<close> where the source gives up on the load. The check of the file range is in
  32-bit arithmetic.
\<close>

definition load_segment ::
    "LoadEnv \<Rightarrow> u8 list \<Rightarrow> nat \<Rightarrow> ZXFSegment \<Rightarrow> AddressSpace \<Rightarrow> Kernel \<Rightarrow> (bool \<times> AddressSpace \<times> Kernel) option" where
  "load_segment env data i s as k =
     (let grow = se_grow (ld_space env); slab = se_l2slab (ld_space env);
          va = ucast (seg_vaddr s) :: u32;
          file_pages = unat ((file_size s + PAGE_SIZE - 1) div PAGE_SIZE);
          mem_pages = unat ((mem_size s + PAGE_SIZE - 1) div PAGE_SIZE);
          prot = seg_prot s
      in if file_offset s + file_size s > of_nat (length data) then Some (False, as, k)
         else if file_pages > 0 \<and> \<not> ld_list env i then Some (False, as, k)
         else do {
           (ok, got, as, k) \<leftarrow> load_pages slab (ld_frames env i) data s prot [0..<file_pages] [] as k;
           if \<not> ok then Some (False, as, k)
           else
             let (ok, as, k) = (if file_pages > 0
                   then VmmAddRegion grow (region_at va (of_nat file_pages * PAGE_SIZE) (prot OR VM_PROT_USER) VM_BACKING_ANON 0) as k
                   else (True, as, k))
             in if \<not> ok then Some (False, drop_pages va got as k)
                else if mem_pages > file_pages
                then Some (VmmAddRegion grow (region_at (va + of_nat file_pages * PAGE_SIZE)
                             (of_nat (mem_pages - file_pages) * PAGE_SIZE) (prot OR VM_PROT_USER) VM_BACKING_ANON 0) as k)
                else Some (True, as, k) })"

fun load_segments ::
    "LoadEnv \<Rightarrow> u8 list \<Rightarrow> nat \<Rightarrow> ZXFSegment list \<Rightarrow> AddressSpace \<Rightarrow> Kernel \<Rightarrow> (bool \<times> AddressSpace \<times> Kernel) option" where
  "load_segments env data i [] as k = Some (True, as, k)"
| "load_segments env data i (s # ss) as k = do {
     (ok, as, k) \<leftarrow> load_segment env data i s as k;
     if ok then load_segments env data (Suc i) ss as k else Some (False, as, k) }"

section \<open>Arguments\<close>

definition USR_SP :: u32 where "USR_SP = 0x7FFFE000"

text \<open>\<open>AddrSpaceCopyOut\<close>: copy bytes to an address of the space, page by page, through the page tables.\<close>

function AddrSpaceCopyOut :: "AddressSpace \<Rightarrow> VirtAddr \<Rightarrow> u8 list \<Rightarrow> Kernel \<Rightarrow> bool \<times> Kernel" where
  "AddrSpaceCopyOut as va bs k =
     (if bs = [] then (True, k)
      else
        let page_va = va AND NOT (PAGE_SIZE - 1);
            pa = ArchMmuTranslate (tables as) page_va;
            off = va - page_va;
            n = min (4096 - unat off) (length bs)
        in if pa = 0 \<or> n = 0 then (False, k)
           else AddrSpaceCopyOut as (va + of_nat n) (drop n bs) (phys_write (pa + off) (take n bs) k))"
  by pat_completeness auto
termination
  by (relation "measure (\<lambda>(as, va, bs, k). length bs)") auto

declare AddrSpaceCopyOut.simps [simp del]

definition le32 :: "u32 \<Rightarrow> u8 list" where
  "le32 w = [ucast w, ucast (drop_bit 8 w), ucast (drop_bit 16 w), ucast (drop_bit 24 w)]"

text \<open>The pointers of the argument vector: \<open>n\<close> strings are left, the first at \<open>str_va\<close> and the head of \<open>bs\<close>.\<close>

fun put_argv :: "nat \<Rightarrow> AddressSpace \<Rightarrow> VirtAddr \<Rightarrow> VirtAddr \<Rightarrow> u8 list \<Rightarrow> Kernel \<Rightarrow> bool \<times> Kernel" where
  "put_argv 0 as slot_va str_va bs k = AddrSpaceCopyOut as slot_va (le32 0) k"
| "put_argv (Suc n) as slot_va str_va bs k =
     (case AddrSpaceCopyOut as slot_va (le32 str_va) k of
        (ok, k) \<Rightarrow>
          if \<not> ok then (False, k)
          else let l = length (takeWhile (\<lambda>b. b \<noteq> 0) bs) + 1
               in put_argv n as (slot_va + 4) (str_va + of_nat l) (drop l bs) k)"

text \<open>
  The checks and the layout of the arguments at the top of the user stack. The result is the stack pointer
  and the address of the vector, \<^const>\<open>None\<close> where the load is given up.
\<close>

definition put_args ::
    "LoadEnv \<Rightarrow> u8 list \<Rightarrow> u32 \<Rightarrow> AddressSpace \<Rightarrow> Kernel \<Rightarrow> (VirtAddr \<times> VirtAddr) option \<times> AddressSpace \<times> Kernel" where
  "put_args env argbuf argc as k =
     (let len = of_nat (length argbuf) :: u32;
          argv_slots = argc + 1;
          argv_bytes = argv_slots * 4;
          sp1 = (USR_SP - len) AND NOT 3;
          sp2 = (sp1 - argv_bytes) AND NOT 7
      in if (argc > 0) \<noteq> (argbuf \<noteq> []) then (None, as, k)
         else if argbuf = [] then (Some (USR_SP, 0), as, k)
         else if last argbuf \<noteq> 0 then (None, as, k)
         else if length (filter (\<lambda>b. b = 0) argbuf) < unat argc then (None, as, k)
         else if argv_slots \<le> argc then (None, as, k)
         else if argv_bytes div 4 \<noteq> argv_slots then (None, as, k)
         else if len > USR_SP - USER_STACK_BASE then (None, as, k)
         else if argv_bytes > sp1 - USER_STACK_BASE then (None, as, k)
         else if sp2 < USER_STACK_BASE then (None, as, k)
         else case VmmCheckUserFault (se_l2slab (ld_space env)) (ld_argv env) sp2 (USR_SP - sp2) True as k of
                (ok, as, k) \<Rightarrow>
                  if \<not> ok then (None, as, k)
                  else case AddrSpaceCopyOut as sp1 argbuf k of
                         (ok, k) \<Rightarrow>
                           if \<not> ok then (None, as, k)
                           else case put_argv (unat argc) as sp2 sp1 argbuf k of
                                  (ok, k) \<Rightarrow> (if ok then Some (sp2, sp2) else None, as, k))"

section \<open>A space from an image\<close>

text \<open>The new space and its address space, \<^const>\<open>NULL\<close> when the image is refused or memory runs out.\<close>

definition KernelSpaceLoad ::
    "LoadEnv \<Rightarrow> u8 list \<Rightarrow> u8 list \<Rightarrow> u32 \<Rightarrow> bool \<Rightarrow> Kernel \<Rightarrow> (SpacePtr \<times> AddressSpace \<times> Kernel) option" where
  "KernelSpaceLoad env data argbuf argc leave_frozen k = do {
     r \<leftarrow> ZxfParse data;
     case r of
       None \<Rightarrow> Some (NULL, se_as0 (ld_space env), k)
     | Some img \<Rightarrow> do {
         (p, k) \<leftarrow> SpaceCreate (ld_space env) NULL k;
         let as = (case space_layout (ld_space env) k of None \<Rightarrow> se_as0 (ld_space env) | Some (va, as) \<Rightarrow> as);
         if p = NULL then Some (NULL, as, k)
         else do {
           let k = upd_space p (\<lambda>x. x\<lparr>sp_max_prio := SCHED_PRIORITY_LEVELS - 1\<rparr>) k;
           (t, k) \<leftarrow> TaskCreate (ld_task env) (ld_kstack env) (ld_page env) p k;
           if t = NULL then do { k \<leftarrow> SpaceDestroy p k; Some (NULL, as, k) }
           else if any_overlap (img_segs img) then do { k \<leftarrow> SpaceDestroy p k; Some (NULL, as, k) }
           else do {
             (ok, as, k) \<leftarrow> load_segments env data 0 (img_segs img) as k;
             if \<not> ok then do { k \<leftarrow> SpaceDestroy p k; Some (NULL, as, k) }
             else case put_args env argbuf argc as k of
                    (None, as, k) \<Rightarrow> do { k \<leftarrow> SpaceDestroy p k; Some (NULL, as, k) }
                  | (Some (sp, argv_va), as, k) \<Rightarrow>
                      Some (p, as, if leave_frozen then k
                                   else upd_task t (\<lambda>x. x\<lparr>trap_frame := ArchTaskUserInit (img_entry img) sp USER_ELF_BASE argc argv_va,
                                          state := TASK_STATE_READY\<rparr>) k) } } } }"

section \<open>The root service\<close>

record BootDev =
  bd_phys :: u64
  bd_size :: u64
  bd_irq :: u32

definition DEVICE_HANDLE_BASE :: nat where "DEVICE_HANDLE_BASE = 16"
definition USER_BOOTINFO_VA :: u32 where "USER_BOOTINFO_VA = 0x2000"
definition BOOTINFO_PAGES :: nat where "BOOTINFO_PAGES = 4"

text \<open>\<open>mem\<close> is the slab object for the device, \<open>kz\<close> whether its block of the handle table can be allocated.\<close>

definition InjectDeviceObject :: "SpacePtr \<Rightarrow> bool \<Rightarrow> MemPtr \<Rightarrow> nat \<Rightarrow> BootDev \<Rightarrow> Kernel \<Rightarrow> Kernel" where
  "InjectDeviceObject sp kz mem ix d k =
     (case HandleTableGetOrAlloc kz (handle_table (spaces k sp)) (DEVICE_HANDLE_BASE + ix) of
        (r, t) \<Rightarrow>
          let k = upd_space sp (\<lambda>x. x\<lparr>handle_table := t\<rparr>) k
          in case r of
               None \<Rightarrow> k
             | Some i \<Rightarrow>
                 (case MemObjCreateDevice mem (ucast (bd_phys d)) (ucast (bd_size d)) (bd_irq d) k of
                    (m, k) \<Rightarrow>
                      if m = NULL then k
                      else case HandleTableGet t i of
                             None \<Rightarrow> k
                           | Some e \<Rightarrow>
                               let k = upd_mem m (\<lambda>x. x\<lparr>mem_owner_spid := spid (spaces k sp)\<rparr>) k;
                                   e = e\<lparr>he_type := HANDLE_MEM, he_obj := m, perms := PERM_ALL, mapped_va := 0\<rparr>
                               in upd_space sp (\<lambda>x. x\<lparr>handle_table := HandleEntryClaim (put_entry t i e) i\<rparr>) k))"

fun inject_devices :: "SpacePtr \<Rightarrow> (nat \<Rightarrow> bool) \<Rightarrow> (nat \<Rightarrow> MemPtr) \<Rightarrow> nat \<Rightarrow> BootDev list \<Rightarrow> Kernel \<Rightarrow> Kernel" where
  "inject_devices sp kz mem ix [] k = k"
| "inject_devices sp kz mem ix (d # ds) k = inject_devices sp kz mem (Suc ix) ds (InjectDeviceObject sp (kz ix) (mem ix) ix d k)"

fun map_run :: "bool \<Rightarrow> PhysAddr \<Rightarrow> VirtAddr \<Rightarrow> nat \<Rightarrow> AddressSpace \<Rightarrow> bool \<times> AddressSpace" where
  "map_run slab pa va 0 as = (True, as)"
| "map_run slab pa va (Suc n) as =
     (case VmmMapUserPage slab pa va PROT_READ as of
        (ok, as) \<Rightarrow> if ok then map_run slab (pa + PAGE_SIZE) (va + PAGE_SIZE) n as else (False, as))"

text \<open>
  \<open>prog\<close> is the program found in the initrd. The result says whether the root service was scheduled; the
  source logs an error and returns early otherwise, and the machine then stays in the idle loop.
\<close>

definition CreateRootSpace ::
    "LoadEnv \<Rightarrow> u8 list option \<Rightarrow> BootDev list \<Rightarrow> (nat \<Rightarrow> bool) \<Rightarrow> (nat \<Rightarrow> MemPtr) \<Rightarrow> PhysAddr \<Rightarrow> u32 \<Rightarrow> PhysAddr \<Rightarrow> Kernel \<Rightarrow> (bool \<times> Kernel) option" where
  "CreateRootSpace env prog devs kz mem initrd_pa initrd_size bootinfo_pa k =
     (case prog of
        None \<Rightarrow> Some (False, k)
      | Some data \<Rightarrow> do {
          (space, as, k) \<leftarrow> KernelSpaceLoad env data [] 0 False k;
          if space = NULL then Some (False, k)
          else
            let grow = se_grow (ld_space env); slab = se_l2slab (ld_space env);
                k = inject_devices space kz mem 0 devs k;
                page_offset = initrd_pa AND (PAGE_SIZE - 1);
                pages = unat ((page_offset + initrd_size + PAGE_SIZE - 1) div PAGE_SIZE);
                base_va = USER_MMAP_BASE + of_nat MAX_TCB_PAGES * PAGE_SIZE
            in case map_run slab (initrd_pa - page_offset) base_va pages as of
                 (ok, as) \<Rightarrow>
                   if \<not> ok then Some (False, k)
                   else case VmmAddRegion grow (region_at base_va (of_nat pages * PAGE_SIZE) (PROT_READ OR VM_PROT_USER) VM_BACKING_SHARED 0) as k of
                          (_, as, k) \<Rightarrow>
                            (case map_run slab bootinfo_pa USER_BOOTINFO_VA BOOTINFO_PAGES as of
                               (ok, as) \<Rightarrow>
                                 if \<not> ok then Some (False, k)
                                 else
                                   let (_, as, k) = VmmAddRegion grow (region_at USER_BOOTINFO_VA (of_nat BOOTINFO_PAGES * PAGE_SIZE)
                                                      (PROT_READ OR VM_PROT_USER) VM_BACKING_SHARED 0) as k
                                   in Some (True, SchedAdd (main_task (spaces k space)) k)) })"

section \<open>Cold start\<close>

text \<open>
  The kernel data before \<open>kmain\<close>: static variables have their initial values and no slab object has been
  handed out. \<open>hw\<close> is the hardware counter and \<open>f\<close> its frequency.
\<close>

definition cold_kernel :: "(nat \<Rightarrow> u64) \<Rightarrow> u32 \<Rightarrow> Kernel" where
  "cold_kernel hw f = \<lparr>tasks = (\<lambda>_. zero_task), 
     ports = (\<lambda>_. \<lparr>port_owner_spid = 0, port_ref_count = 0, port_alive = False, held = None\<rparr>),
     events = (\<lambda>_. \<lparr>word = 0, ev_owner_spid = 0, ev_ref_count = 0, ev_alive = False, bound_mask = 0,
       bound_refs = (\<lambda>_. 0), child_count = 0\<rparr>),
     spaces = (\<lambda>_. zero_space),
     mems = (\<lambda>_. \<lparr>mem_kind = MEMKIND_NONE, mem_ref_count = 0, exec_synced = False, dev_phys_base = 0, dev_size = 0,
       dev_irq = 0, dev_dma_limit = 0, dev_bus_offset = 0, dev_dma_maps = [], dev_dma_next_id = 0, dev_dma_map_count = 0,
       shm_page_addrs = [], shm_page_count = 0, shm_flags = 0, mem_owner_spid = 0\<rparr>),
     observers = (\<lambda>_. replicate MAX_OBSERVERS NO_OBSERVER), node_q = (\<lambda>_. []), wait_q = (\<lambda>_. []),
     active_servers = (\<lambda>_. []), space_tasks = (\<lambda>_. []), sleep_wheel = (\<lambda>_. []), task_destroy_queue = [],
     current_task = NULL, fpu_owner = NULL, fpu_access_enabled = False, do_resched = False,
     on_idle_stack = False, slice_armed = False, in_tick = False, ready_mask = 0,
     wheel_occ = replicate 16 0, wheel_min = (\<lambda>_. 0), wheel_now_slot = 0, slot_shift = 0, active_as = 0,
     tls_task = NULL, cnt_hw = hw, cnt_ix = 0, cnt_last = 0, freq = f, cntv_ctl = 0,
     cntv_cval = 0, cntv_ctl_shadow = - 1, cntv_cval_shadow = - 1, next_tid = 1, task_table = (\<lambda>_. NULL),
     next_spid = 1, space_table = (\<lambda>_. NULL), msg_mem = (\<lambda>_. 0), tcb_mem = (\<lambda>_. ZERO_TLS),
     irq_owners = (\<lambda>_. \<lparr>irq_owner = NULL, irq_pending = False, bound_ev = NULL, irq_bit = 0\<rparr>),
     irq_registered = (\<lambda>_. False), irq_unmasked = (\<lambda>_. False), mem_subscribers = [], freed = []\<rparr>"

text \<open>
  \<open>kmain\<close>: what the loader is given comes from the device tree and the initrd. The last step is the first
  \<open>Schedule\<close>, which leaves the boot stack for good.
\<close>

record BootEnv =
  be_load :: LoadEnv
  be_prog :: "u8 list option"
  be_devs :: "BootDev list"
  be_kz :: "nat \<Rightarrow> bool"
  be_mem :: "nat \<Rightarrow> MemPtr"
  be_initrd :: PhysAddr
  be_initrd_size :: u32
  be_bootinfo :: PhysAddr

definition kmain :: "BootEnv \<Rightarrow> Kernel \<Rightarrow> (bool \<times> Kernel) option" where
  "kmain env k = do {
     k \<leftarrow> SchedInit k;
     (ok, k) \<leftarrow> CreateRootSpace (be_load env) (be_prog env) (be_devs env) (be_kz env) (be_mem env)
                  (be_initrd env) (be_initrd_size env) (be_bootinfo env) k;
     k \<leftarrow> Schedule k;
     Some (ok, k) }"

end
