(* ===== verification/Links_Boot.thy ===== *)
theory Links_Boot
  imports Links_Dispatch Boot
begin

text \<open>Booting establishes the invariants: the cold kernel is good, and so is every kernel the root service starts in.\<close>

section \<open>Cold start\<close>

lemma fresh_cold: "fresh_task t (cold_kernel hw f) \<longleftrightarrow> t \<noteq> idle_task \<and> t \<noteq> 0"
  by (auto simp: fresh_task_def cold_kernel_def zero_task_def)

lemma SchedInit_shape:
  assumes "SchedInit (cold_kernel hw f) = Some k"
  shows "\<exists>s n. k = (cold_kernel hw f)\<lparr>slot_shift := s, cnt_ix := Suc 0, cnt_last := hw 0, wheel_now_slot := n, current_task := 0, on_idle_stack := False\<rparr>"
proof -
  define k0 where "k0 = cold_kernel hw f"
  have "k0\<lparr>node_q := (\<lambda>q. case q of RunQ l \<Rightarrow> if l < SCHED_PRIORITY_LEVELS then [] else node_q k0 q | SendQ p \<Rightarrow> node_q k0 q),
      sleep_wheel := (\<lambda>s. if s < SLEEP_QUEUE_SIZE then [] else sleep_wheel k0 s)\<rparr> = k0"
    by (simp add: k0_def cold_kernel_def fun_eq_iff split: NodeQ.split)
  moreover have "cnt_ix k0 = 0" "cnt_last k0 = 0" "cnt_hw k0 = hw" "current_task k0 = 0" "\<not> on_idle_stack k0"
    by (simp_all add: k0_def cold_kernel_def)
  ultimately show ?thesis
    using assms unfolding k0_def [symmetric] SchedInit_def Let_def
    by (auto simp: kassert_def ArchTimerNow_def ReadCntvct_def Let_def split: if_splits)
qed

lemma SchedInit_good:
  assumes "SchedInit (cold_kernel hw f) = Some k"
  shows "good k" "current_task k = 0"
proof -
  obtain s n where k: "k = (cold_kernel hw f)\<lparr>slot_shift := s, cnt_ix := Suc 0, cnt_last := hw 0, wheel_now_slot := n, current_task := 0, on_idle_stack := False\<rparr>"
    using SchedInit_shape [OF assms] by blast
  have q: "queues_ok k"
    unfolding k by (simp add: queues_ok_def queue_defs cold_kernel_def zero_task_def)
  have r: "ready_ok {} X0 k"
    unfolding k by (simp add: ready_ok_def must_run_def must_not_run_def member_of_def cold_kernel_def)
  have p: "proto_ok {} X0 (view k)"
    unfolding k proto_ok_def
    by (simp add: state_ok_def caps_ok_def servers_ok_def parked_ok_def members_ok_def running_ok_def live_ok_def pins_ok_def
        may_state_def X0_def view_def task_view_def cold_kernel_def zero_task_def null_view_def unlinked_view_def depends_on_def zero_space_def)
  show "good k" "current_task k = 0"
    using q r p by (simp_all add: good_def kinv_def) (simp_all add: k cold_kernel_def)
qed

section \<open>Loading touches memory only\<close>

definition mem_only :: "Kernel \<Rightarrow> Kernel \<Rightarrow> bool" where
  "mem_only k k' \<longleftrightarrow> links k' = links k \<and> spaces k' = spaces k"

lemma mem_only_refl [simp]: "mem_only k k"
  by (simp add: mem_only_def)

lemma mem_only_trans: "mem_only k k' \<Longrightarrow> mem_only k' k'' \<Longrightarrow> mem_only k k''"
  by (simp add: mem_only_def)

lemma mem_only_step [simp]: "mem_only k (phys_write pa bs k') = mem_only k k'" "mem_only k (FreedPage pa k') = mem_only k k'"
  "mem_only k (upd_mem m f k') = mem_only k k'" "mem_only k (MemObjRef m k') = mem_only k k'"
  by (simp_all add: mem_only_def phys_write_def FreedPage_def MemObjRef_def link_frame upd_mem_def links_upd_mem [unfolded upd_mem_def])

lemma mem_only_drop [simp]: "mem_only k (snd (drop_pages va pas as k')) = mem_only k k'"
  by (induction pas arbitrary: va as k') simp_all

lemma mem_only_add [simp]: "mem_only k (snd (snd (VmmAddRegion grow r as k'))) = mem_only k k'"
  by (simp add: VmmAddRegion_def Let_def)

lemma load_pages_mem: "mem_only k k' \<Longrightarrow> opt_all (\<lambda>(ok, got, as, k''). mem_only k k'') (load_pages slab fr data s prot ns got as k')"
proof (induction ns arbitrary: got as k')
  case (Cons n ns)
  then show ?case
    by (auto simp: Let_def case_prod_unfold split: Option.bind_split)
qed simp

lemma load_segment_mem: "mem_only k k' \<Longrightarrow> opt_all (\<lambda>(ok, as, k''). mem_only k k'') (load_segment env data i s as k')"
  unfolding load_segment_def Let_def
  by (intro opt_all_if opt_all_bind [OF load_pages_mem]) (auto simp: case_prod_unfold)

lemma load_segments_mem: "mem_only k k' \<Longrightarrow> opt_all (\<lambda>(ok, as, k''). mem_only k k'') (load_segments env data i ss as k')"
proof (induction ss arbitrary: i as k')
  case (Cons s ss)
  then show ?case
    by (auto intro!: opt_all_bind [OF load_segment_mem [OF Cons.prems]])
qed simp

lemma CopyOut_mem [simp]: "mem_only k (snd (AddrSpaceCopyOut as va bs k')) = mem_only k k'"
proof (induction as va bs k' rule: AddrSpaceCopyOut.induct)
  case (1 as va bs k')
  then show ?case
    by (subst AddrSpaceCopyOut.simps) (simp add: Let_def)
qed

lemma put_argv_mem [simp]: "mem_only k (snd (put_argv n as slot str bs k')) = mem_only k k'"
  by (induction n arbitrary: slot str bs k') (simp_all add: Let_def case_prod_unfold)

lemma mem_only_fault [simp]: "mem_only k (snd (snd (VmmPageFaultHandle slab fr r va as k'))) = mem_only k k'"
  by (simp add: VmmPageFaultHandle_def set_page_def Let_def case_prod_unfold)

lemma check_pages_mem [simp]: "mem_only k (snd (snd (check_pages slab fr w va ns as k'))) = mem_only k k'"
  by (induction ns arbitrary: as k') (simp_all add: Let_def case_prod_unfold split: option.split)

lemma put_args_mem [simp]: "mem_only k (snd (snd (put_args env argbuf argc as k'))) = mem_only k k'"
  by (simp add: put_args_def VmmCheckUserFault_def Let_def case_prod_unfold)

lemma opt_all_conj: "opt_all P x \<Longrightarrow> opt_all Q x \<Longrightarrow> opt_all (\<lambda>y. P y \<and> Q y) x"
  by (cases x) simp_all

section \<open>The new space and its task\<close>

definition same_tasks :: "SpacePtr \<Rightarrow> Kernel \<Rightarrow> Kernel \<Rightarrow> bool" where
  "same_tasks sp k k' \<longleftrightarrow> tasks k' = tasks k \<and> current_task k' = current_task k \<and> task_destroy_queue k' = task_destroy_queue k
     \<and> (\<forall>s t. t \<in> set (space_tasks k' s) \<longrightarrow> t \<in> set (space_tasks k s)) \<and> (\<forall>t. wait_q k' (JoinQ t) = wait_q k (JoinQ t))"

lemma same_tasks_fresh: "same_tasks sp k k' \<Longrightarrow> fresh_task t k \<Longrightarrow> fresh_task t k'"
  unfolding same_tasks_def fresh_task_def by auto

lemma SpidAlloc_same: "opt_all (\<lambda>(i, k'). spaces k' = spaces k \<and> same_tasks sp k k') (SpidAlloc s k)"
  by (auto simp: SpidAlloc_def Let_def same_tasks_def split: Option.bind_split)

lemma SpaceCreate_same:
  "opt_all (\<lambda>(r, k'). r \<noteq> 0 \<longrightarrow> r = se_slab env \<and> same_tasks r k k' \<and> main_task (spaces k' r) = 0) (SpaceCreate env parent k)"
proof -
  have s: "opt_all (\<lambda>(r, k'). r \<noteq> 0 \<longrightarrow> r = sp \<and> same_tasks r k k' \<and> main_task (spaces k' r) = 0)
      (do { (i, k) \<leftarrow> SpidAlloc sp k3;
            Some (if i = 0 then (NULL, space_fail sp k) else (sp, upd_space sp (\<lambda>x. x\<lparr>spid := i\<rparr>) k)) })"
    if "same_tasks sp k k3" "main_task (spaces k3 sp) = 0" for k3 sp
    by (rule opt_all_bind [OF SpidAlloc_same [of k3 sp sp]]) (use that in \<open>auto simp: same_tasks_def upd_space_def split: prod.split\<close>)
  define k1 where "k1 = ObserverInit (ObsSpace (se_slab env))
    (upd_space (se_slab env) (\<lambda>_. zero_space\<lparr>parent_spid := (if parent = NULL then - 1 else spid (spaces k parent))\<rparr>) k)"
  define k2 where "k2 = upd_space (se_slab env) (\<lambda>x. x\<lparr>sp_as := se_as env\<rparr>)
    (k1\<lparr>space_tasks := (space_tasks k1)(se_slab env := []), wait_q := (wait_q k1)(SpaceQ (se_slab env) := [])\<rparr>)"
  have k2: "same_tasks (se_slab env) k k2" "main_task (spaces k2 (se_slab env)) = 0"
    by (auto simp: k2_def k1_def same_tasks_def upd_space_def ObserverInit_def zero_space_def)
  have k3: "same_tasks (se_slab env) k (upd_space (se_slab env) f k2)" for f
    using k2(1) by (simp add: same_tasks_def upd_space_def)
  show ?thesis
    unfolding SpaceCreate_def Let_def k1_def [symmetric] k2_def [symmetric]
    by (intro opt_all_if) (use k2(2) in \<open>auto split: option.split intro!: s k3 [unfolded upd_space_def] simp: upd_space_def\<close>)
qed

lemma RegisterTask_spaces: "opt_all (\<lambda>(i, k'). spaces k' = spaces k) (RegisterTask t k)"
  by (auto simp: RegisterTask_def Let_def upd_task_def simp del: tid_search.simps split: Option.bind_split)

lemma init_task_main: "main_task (spaces k sp) = 0 \<Longrightarrow> main_task (spaces (init_task t sp slot k) sp) = t"
  by (simp add: init_task_def Let_def zero_tcb_def TaskSyncTcbPrio_def upd_space_def upd_task_def)

lemma TaskCreate_main:
  assumes "main_task (spaces k sp) = 0"
  shows "opt_all (\<lambda>(r, k'). r \<noteq> 0 \<longrightarrow> main_task (spaces k' sp) = r) (TaskCreate t kst pg sp k)"
  unfolding TaskCreate_def Let_def
  apply (intro opt_all_if)
    apply simp
   apply simp
  apply (rule opt_all_bind [OF RegisterTask_spaces])
  apply (auto simp: TcbSlotAlloc_def Let_def upd_space_def ObserverInit_def upd_task_def assms intro!: init_task_main split: prod.splits)
  done

text \<open>A space ready to go: all is well except that its first task, still frozen, is about to become ready.\<close>

definition loaded :: "TaskPtr \<Rightarrow> SpacePtr \<Rightarrow> Kernel \<Rightarrow> bool" where
  "loaded t p k \<longleftrightarrow> (\<exists>k1 f. good k1 \<and> t \<noteq> 0 \<and> state (tasks k1 t) = TASK_STATE_FROZEN \<and> main_task (spaces k1 p) = t
     \<and> k = upd_task t (\<lambda>x. x\<lparr>trap_frame := f, state := TASK_STATE_READY\<rparr>) k1)"

lemma KernelSpaceLoad_loaded:
  assumes "good k" "current_task k = 0" "fresh_space (se_slab (ld_space env)) k" "ld_task env \<noteq> 0 \<Longrightarrow> fresh_task (ld_task env) k"
  shows "opt_all (\<lambda>(p, as, k'). if p = 0 then good k' else loaded (ld_task env) p k') (KernelSpaceLoad env data argbuf argc False k)"
proof -
  let ?t = "ld_task env"
  define P :: "SpacePtr \<times> AddressSpace \<times> Kernel \<Rightarrow> bool" where "P = (\<lambda>(p, as, k'). if p = 0 then good k' else loaded ?t p k')"
  have P [simp]: "P (p, as, k') \<longleftrightarrow> (if p = 0 then good k' else loaded ?t p k')" for p as k'
    by (simp add: P_def)
  have fail: "opt_all P (do { k \<leftarrow> SpaceDestroy p k'; Some (NULL, as, k) })" if "kinv {} (XC 0) k'" for p k' as
    by (rule opt_all_bind [OF SpaceDestroy_keeps [OF that]]) (simp add: XC_def X0_def, simp add: XC_good)
  have rest: "opt_all P (if t = NULL then do { k \<leftarrow> SpaceDestroy p k1; Some (NULL, as, k) }
      else if any_overlap (img_segs img) then do { k \<leftarrow> SpaceDestroy p k1; Some (NULL, as, k) }
      else do {
        (ok, as, k) \<leftarrow> load_segments env data 0 (img_segs img) as k1;
        if \<not> ok then do { k \<leftarrow> SpaceDestroy p k; Some (NULL, as, k) }
        else case put_args env argbuf argc as k of
               (None, as, k) \<Rightarrow> do { k \<leftarrow> SpaceDestroy p k; Some (NULL, as, k) }
             | (Some (sp, argv_va), as, k) \<Rightarrow>
                 Some (p, as, if False then k
                              else upd_task t (\<lambda>x. x\<lparr>trap_frame := ArchTaskUserInit (img_entry img) sp USER_ELF_BASE argc argv_va,
                                     state := TASK_STATE_READY\<rparr>) k) })"
    if k1: "kinv {} (XC 0) k1" "t \<noteq> 0 \<longrightarrow> t = ?t \<and> state (tasks k1 t) = TASK_STATE_FROZEN \<and> main_task (spaces k1 p) = t" "p \<noteq> 0"
    for t p k1 as img
  proof -
    have mo: "kinv {} (XC 0) k'" "t \<noteq> 0 \<Longrightarrow> state (tasks k' t) = TASK_STATE_FROZEN" "t \<noteq> 0 \<Longrightarrow> main_task (spaces k' p) = t"
      if "mem_only k1 k'" for k'
    proof -
      have l: "links k' = links k1" "spaces k' = spaces k1"
        using that by (simp_all add: mem_only_def)
      show "kinv {} (XC 0) k'"
        using kinv_links [OF l(1)] k1(1) by simp
      show "state (tasks k' t) = TASK_STATE_FROZEN" if "t \<noteq> 0"
        using viewD(1) [OF linksD(1) [OF l(1)], of t] k1(2) that by metis
      show "main_task (spaces k' p) = t" if "t \<noteq> 0"
        using l(2) k1(2) that by metis
    qed
    have fin: "opt_all P (case put_args env argbuf argc as k' of
               (None, as, k) \<Rightarrow> do { k \<leftarrow> SpaceDestroy p k; Some (NULL, as, k) }
             | (Some (sp, argv_va), as, k) \<Rightarrow>
                 Some (p, as, if False then k
                              else upd_task t (\<lambda>x. x\<lparr>trap_frame := ArchTaskUserInit (img_entry img) sp USER_ELF_BASE argc argv_va,
                                     state := TASK_STATE_READY\<rparr>) k))" if m: "mem_only k1 k'" and t: "t \<noteq> 0" for as k'
    proof -
      obtain r as2 k2 where a: "put_args env argbuf argc as k' = (r, as2, k2)"
        by (metis prod_cases3)
      have m2: "mem_only k1 k2"
        using put_args_mem [of k1 env argbuf argc as k'] m unfolding a by simp
      have "loaded ?t p (upd_task t (\<lambda>x. x\<lparr>trap_frame := f, state := TASK_STATE_READY\<rparr>) k2)" for f
      proof -
        have "t = ?t" "good k2" "state (tasks k2 ?t) = TASK_STATE_FROZEN" "main_task (spaces k2 p) = ?t"
          using mo [OF m2] t k1(2) XC_good [of 0 k2] by simp_all
        then show ?thesis
          using t unfolding loaded_def by blast
      qed
      then show ?thesis
        unfolding a using fail [OF mo(1) [OF m2]] k1(3) by (auto split: option.split)
    qed
    show ?thesis
      by (intro opt_all_if fail k1(1) opt_all_bind [OF load_segments_mem [OF mem_only_refl]])
         (auto intro!: fail [OF mo(1)] fin)
  qed
  have kx: "kinv {} (XC 0) k"
    using assms(1,2) by (simp add: good_XC)
  have pin: "pinned (XC 0) ?t = None" "outside (XC 0) = {}"
    by (simp_all add: XC_def X0_def)
  have space: "opt_all P (do {
         (t, k) \<leftarrow> TaskCreate ?t (ld_kstack env) (ld_page env) p (upd_space p (\<lambda>x. x\<lparr>sp_max_prio := SCHED_PRIORITY_LEVELS - 1\<rparr>) k1);
         if t = NULL then do { k \<leftarrow> SpaceDestroy p k; Some (NULL, as, k) }
         else if any_overlap (img_segs img) then do { k \<leftarrow> SpaceDestroy p k; Some (NULL, as, k) }
         else do {
           (ok, as, k) \<leftarrow> load_segments env data 0 (img_segs img) as k;
           if \<not> ok then do { k \<leftarrow> SpaceDestroy p k; Some (NULL, as, k) }
           else case put_args env argbuf argc as k of
                  (None, as, k) \<Rightarrow> do { k \<leftarrow> SpaceDestroy p k; Some (NULL, as, k) }
                | (Some (sp, argv_va), as, k) \<Rightarrow>
                    Some (p, as, if False then k
                                 else upd_task t (\<lambda>x. x\<lparr>trap_frame := ArchTaskUserInit (img_entry img) sp USER_ELF_BASE argc argv_va,
                                        state := TASK_STATE_READY\<rparr>) k) } })"
    if k1: "good k1" "p \<noteq> 0" "same_tasks p k k1" "main_task (spaces k1 p) = 0" for p k1 as img
  proof -
    define k2 where "k2 = upd_space p (\<lambda>x. x\<lparr>sp_max_prio := SCHED_PRIORITY_LEVELS - 1\<rparr>) k1"
    have "good k2" "current_task k2 = 0"
      using k1(1,3) assms(2) by (simp add: k2_def) (use k1(3) assms(2) in \<open>simp add: k2_def same_tasks_def upd_space_def\<close>)
    then have k2: "kinv {} (XC 0) k2"
      by (simp add: good_XC)
    have "same_tasks p k k2" "main_task (spaces k2 p) = 0"
      using k1(3,4) by (simp_all add: k2_def same_tasks_def upd_space_def)
    then have f2: "?t \<noteq> 0 \<Longrightarrow> fresh_task ?t k2" and m2: "main_task (spaces k2 p) = 0"
      using same_tasks_fresh assms(4) by blast+
    show ?thesis
      unfolding k2_def [symmetric]
      by (rule opt_all_bind [OF opt_all_conj [OF TaskCreate_making [OF k2 f2 pin] TaskCreate_main [OF m2]]])
         (auto intro!: rest [simplified] simp: k1(2))
  qed
  show ?thesis
    unfolding KernelSpaceLoad_def P_def [symmetric]
    apply (cases "ZxfParse data")
     apply simp
    subgoal for r
      apply (cases r)
       apply (simp add: assms(1))
      apply simp
      apply (rule opt_all_bind [OF opt_all_conj [OF SpaceCreate_good [OF assms(1,3)] SpaceCreate_same]])
      apply (auto simp: Let_def intro!: space [simplified])
      done
    done
qed

section \<open>The root service\<close>

lemma place_slot_good:
  assumes "tbl_good t" "HandleTableGet t i = Some e" "i < 1024"
    and "generation e' = generation e" "he_type e' \<noteq> HANDLE_FREE" "names_object e'"
  shows "tbl_good (HandleEntryClaim (put_entry t i e') i)"
proof -
  have ok: "tbl_shape t" "\<And>j. j < 1024 \<Longrightarrow> slot_ok t j" and n: "\<And>j d. HandleTableGet t j = Some d \<Longrightarrow> names_object d"
    using assms(1) by (auto simp: tbl_good_def tbl_ok_def slot_defs)
  have bm: "length (slot_bitmap t) = 32"
    using ok(1) by (simp add: tbl_shape_def)
  have g0: "HandleTableGet (put_entry t i e') j = (if j = i then Some e' else HandleTableGet t j)" for j
    by (rule Get_put_entry [OF ok(1) assms(2)])
  define u where "u = HandleEntryClaim (put_entry t i e') i"
  have u: "u = (put_entry t i e')\<lparr>slot_bitmap := BitmapSet (slot_bitmap t) i\<rparr>"
    unfolding u_def by (subst claim_eq [of _ _ e']) (simp_all add: g0 assms(3))
  have get: "HandleTableGet u j = (if j = i then Some e' else HandleTableGet t j)" for j
    by (simp add: u g0)
  have test: "BitmapTest (slot_bitmap u) j \<longleftrightarrow> j = i \<or> BitmapTest (slot_bitmap t) j" if "j < 1024" for j
    using assms(3) that bm by (simp add: u wbits.test_set1)
  have gen: "generation e \<le> HANDLE_GEN_MASK"
    using ok(2) [OF assms(3)] assms(2) by (auto simp: slot_ok_def)
  have "slot_ok u j" if "j < 1024" for j
    using ok(2) [OF that] test [OF that] get [of j] assms(4,5) gen by (cases "j = i") (auto simp: slot_ok_def split: option.splits)
  moreover have "tbl_shape u"
    using shape_put_entry [OF ok(1)] bm by (simp add: u tbl_shape_def)
  moreover have "names_object d" if "HandleTableGet u j = Some d" for j d
    using that n [of j d] assms(6) by (auto simp: get split: if_splits)
  ultimately show ?thesis
    by (auto simp: tbl_good_def tbl_ok_def slot_defs u_def [symmetric])
qed

lemma GetOrAlloc_good:
  assumes "HandleTableGetOrAlloc kz t i = (r, t')" "tbl_good t"
  shows "tbl_good t'" "r = Some j \<Longrightarrow> j = i \<and> i < 1024"
proof -
  have ok: "tbl_ok t"
    using assms(2) by (simp add: tbl_good_def)
  show "r = Some j \<Longrightarrow> j = i \<and> i < 1024"
    using assms(1) by (auto simp: HandleTableGetOrAlloc_def slot_defs split: if_splits prod.splits)
  show "tbl_good t'"
  proof (cases "i < 1024")
    case True
    obtain b u where e: "HandleBlockEnsure kz t i = (b, u)"
      by fastforce
    have "tbl_good u"
      using ensure_ok(1,3) [OF e ok True] assms(2) by (simp add: tbl_good_lookup)
    then show ?thesis
      using assms(1) True by (simp add: HandleTableGetOrAlloc_def slot_defs e)
  next
    case False
    then show ?thesis
      using assms by (simp add: HandleTableGetOrAlloc_def slot_defs)
  qed
qed

lemma good_MemObjCreateDevice [simp]: "good (snd (MemObjCreateDevice m b s i k)) = good k"
  by (simp add: MemObjCreateDevice_def)

lemma InjectDevice_good: "good k \<Longrightarrow> good (InjectDeviceObject sp kz mem ix d k)"
proof -
  assume g: "good k"
  obtain r t where a: "HandleTableGetOrAlloc kz (handle_table (spaces k sp)) (DEVICE_HANDLE_BASE + ix) = (r, t)"
    by fastforce
  note ga = GetOrAlloc_good [OF a good_tables [OF g]]
  define k1 where "k1 = upd_space sp (\<lambda>x. x\<lparr>handle_table := t\<rparr>) k"
  have g1: "good k1"
    unfolding k1_def by (rule good_set_table [OF g ga(1)])
  show ?thesis
  proof (cases r)
    case None
    then show ?thesis
      using g1 by (simp add: InjectDeviceObject_def a k1_def)
  next
    case (Some i)
    obtain m k2 where c: "MemObjCreateDevice mem (ucast (bd_phys d)) (ucast (bd_size d)) (bd_irq d) k1 = (m, k2)"
      by fastforce
    have "good (snd (MemObjCreateDevice mem (ucast (bd_phys d)) (ucast (bd_size d)) (bd_irq d) k1))"
      using g1 by simp
    then have g2: "good k2"
      unfolding c by simp
    have "good (upd_space sp (\<lambda>x. x\<lparr>handle_table := HandleEntryClaim (put_entry t i
        (e\<lparr>he_type := HANDLE_MEM, he_obj := m, perms := PERM_ALL, mapped_va := 0\<rparr>)) i\<rparr>)
        (upd_mem m (\<lambda>x. x\<lparr>mem_owner_spid := n\<rparr>) k2))" if "HandleTableGet t i = Some e" for e n
      by (rule good_set_table [OF _ place_slot_good [OF ga(1) that]]) (use g2 ga(2) Some in \<open>auto simp: names_object_def\<close>)
    then show ?thesis
      using g1 g2 Some by (simp add: InjectDeviceObject_def a k1_def [symmetric] Let_def c split: option.split)
  qed
qed

lemma Inject_other:
  "InjectDeviceObject sp kz mem ix d (upd_task t f k) = upd_task t f (InjectDeviceObject sp kz mem ix d k)"
  "main_task (spaces (InjectDeviceObject sp kz mem ix d k) s) = main_task (spaces k s)"
  "tasks (InjectDeviceObject sp kz mem ix d k) = tasks k"
  by (auto simp: InjectDeviceObject_def MemObjCreateDevice_def upd_space_def upd_mem_def upd_task_def Let_def
      split: option.split prod.split)

lemma inject_devices_other:
  "inject_devices sp kz mem ix ds (upd_task t f k) = upd_task t f (inject_devices sp kz mem ix ds k)"
  "main_task (spaces (inject_devices sp kz mem ix ds k) s) = main_task (spaces k s)"
  "tasks (inject_devices sp kz mem ix ds k) = tasks k"
  "good k \<Longrightarrow> good (inject_devices sp kz mem ix ds k)"
  by (induction ds arbitrary: ix k) (simp_all add: Inject_other InjectDevice_good)

lemma loaded_inject: "loaded t p k \<Longrightarrow> loaded t p (inject_devices p kz mem ix ds k)"
  unfolding loaded_def using inject_devices_other by metis

lemma loaded_start:
  assumes "loaded t p k"
  shows "good (SchedAdd (main_task (spaces k p)) k)"
proof -
  obtain k1 f where k1: "good k1" "t \<noteq> 0" "state (tasks k1 t) = TASK_STATE_FROZEN" "main_task (spaces k1 p) = t"
    and k: "k = upd_task t (\<lambda>x. x\<lparr>trap_frame := f, state := TASK_STATE_READY\<rparr>) k1"
    using assms by (auto simp: loaded_def)
  have "good (SchedAdd t k)"
    unfolding k by (rule good_make_ready [OF k1(1,2)]) (use k1(3) in \<open>simp_all add: state_view, intro view_upd_task, simp\<close>)
  then show ?thesis
    using k1(4) by (simp add: k upd_task_def)
qed

lemma loaded_inject_start: "loaded t p k \<Longrightarrow> good (SchedAdd (main_task (spaces k p)) (inject_devices p kz mem ix ds k))"
  using loaded_start [OF loaded_inject] by (simp add: inject_devices_other(2))

lemma add_plain: "backing r = 0 \<Longrightarrow> snd (snd (VmmAddRegion grow r as k)) = k"
  by (simp add: VmmAddRegion_def MemObjRef_def Let_def)

lemma CreateRootSpace_good:
  assumes "good k" "current_task k = 0" "fresh_space (se_slab (ld_space env)) k" "ld_task env \<noteq> 0 \<Longrightarrow> fresh_task (ld_task env) k"
  shows "opt_all (\<lambda>(ok, k'). ok \<longrightarrow> good k') (CreateRootSpace env prog devs kz mem pa sz bpa k)"
proof (cases prog)
  case (Some data)
  show ?thesis
    unfolding CreateRootSpace_def Some option.case
    apply (rule opt_all_bind [OF KernelSpaceLoad_loaded [OF assms]])
    apply (auto simp: Let_def case_prod_unfold add_plain region_at_def inject_devices_other(2) split: if_splits
        intro!: loaded_inject_start)
    done
qed (simp add: CreateRootSpace_def)

text \<open>The slab objects the loader is given are not the statically allocated idle task.\<close>

definition boot_ok :: "BootEnv \<Rightarrow> bool" where
  "boot_ok env \<longleftrightarrow> ld_task (be_load env) \<noteq> idle_task"

lemma kmain_good:
  assumes "kmain env (cold_kernel hw f) = Some (True, k)" "boot_ok env"
  shows "good k"
proof -
  obtain k1 where k1: "SchedInit (cold_kernel hw f) = Some k1"
    using assms(1) by (auto simp: kmain_def split: Option.bind_splits)
  obtain k2 where k2: "CreateRootSpace (be_load env) (be_prog env) (be_devs env) (be_kz env) (be_mem env)
      (be_initrd env) (be_initrd_size env) (be_bootinfo env) k1 = Some (True, k2)" "Schedule k2 = Some k"
    using assms(1) k1 by (auto simp: kmain_def split: Option.bind_splits prod.splits)
  obtain s n where e: "k1 = (cold_kernel hw f)\<lparr>slot_shift := s, cnt_ix := Suc 0, cnt_last := hw 0, wheel_now_slot := n,
      current_task := 0, on_idle_stack := False\<rparr>"
    using SchedInit_shape [OF k1] by blast
  have "fresh_space sp k1" "t \<noteq> 0 \<Longrightarrow> t \<noteq> idle_task \<Longrightarrow> fresh_task t k1" for sp t
    unfolding e by (simp_all add: fresh_space_def fresh_task_def cold_kernel_def zero_task_def CURRENT_SPACE_def)
  then have "opt_all (\<lambda>(ok, k'). ok \<longrightarrow> good k') (CreateRootSpace (be_load env) (be_prog env) (be_devs env) (be_kz env) (be_mem env)
      (be_initrd env) (be_initrd_size env) (be_bootinfo env) k1)"
    using CreateRootSpace_good [OF SchedInit_good [OF k1]] assms(2) by (simp add: boot_ok_def)
  then have "good k2"
    unfolding k2(1) by simp
  then show ?thesis
    using Schedule_good [OF good_schedulable] k2(2) by fastforce
qed

end
