(* ===== verification/Queue_Correct.thy ===== *)
theory Queue_Correct
  imports Links_Sched Kexample
begin

text \<open>
  The order of the queues: the scheduler takes the oldest task of the highest level in use, and a wait
  queue is served by priority and, among equals, in the order of arrival.
\<close>

section \<open>Picking\<close>

lemma SchedPickNext_levels:
  assumes "queues_ok k"
  shows "SchedPickNext k = (case filter (\<lambda>l. node_q k (RunQ l) \<noteq> []) (rev [0..<8]) of [] \<Rightarrow> (idle_task, k)
    | l # _ \<Rightarrow> (hd (node_q k (RunQ l)), SchedRemoveRunQueue (hd (node_q k (RunQ l))) k))"
  unfolding SchedPickNext_def using pick_level_props [OF assms, of "rev [0..<8]"] by (simp add: const_defs)

lemma filter_rev_upt_highest:
  assumes "filter P (rev [0..<n]) = l # ls"
  shows "l < n" "P l" "\<And>h. l < h \<Longrightarrow> h < n \<Longrightarrow> \<not> P h"
proof -
  obtain us vs where s: "rev [0..<n] = us @ l # vs" "\<forall>u \<in> set us. \<not> P u" "P l"
    using assms by (auto simp: filter_eq_Cons_iff)
  have so: "sorted_wrt (>) (us @ l # vs)"
    using s(1) sorted_wrt_rev [of "(>)" "[0..<n]"] by simp
  have st: "set us \<union> {l} \<union> set vs = {0..<n}"
    using arg_cong [OF s(1), of set] by auto
  then show "l < n" "P l"
    using s(3) by auto
  fix h assume h: "l < h" "h < n"
  have "v < l" if "v \<in> set vs" for v
    using so that by (simp add: sorted_wrt_append)
  moreover have "h \<in> set us \<union> {l} \<union> set vs"
    using h(2) st by simp
  ultimately have "h \<in> set us"
    using h(1) by fastforce
  then show "\<not> P h"
    using s(2) by blast
qed

lemma run_level_bound: "queues_ok k \<Longrightarrow> node_q k (RunQ l) \<noteq> [] \<Longrightarrow> l < 8"
  unfolding queues_ok_def nodes_ok_def run_ok_def by (metis list.set_intros(1) neq_Nil_conv)

text \<open>
  C13: \<open>SchedPickNext\<close> is a highest-priority-first, first-come-first-served choice. On consistent queues it
  returns the idle task, changing nothing, exactly when every run queue is empty; otherwise the head of
  the highest level that has a task, which is taken off its queue while every other queue is left alone,
  and the bits of \<open>ready_mask\<close> again say exactly which levels have tasks.
\<close>

theorem SchedPickNext_highest_first:
  assumes "queues_ok k" "SchedPickNext k = (t, k')"
  shows "(t = idle_task \<and> k' = k \<and> (\<forall>l. node_q k (RunQ l) = []))
    \<or> (\<exists>l < 8. \<exists>rest. node_q k (RunQ l) = t # rest \<and> (\<forall>h > l. node_q k (RunQ h) = [])
         \<and> node_q k' = (node_q k)(RunQ l := rest) \<and> node (tasks k' t) = None
         \<and> (\<forall>i. bit (ready_mask k') i \<longleftrightarrow> node_q k' (RunQ i) \<noteq> []))"
proof (cases "filter (\<lambda>l. node_q k (RunQ l) \<noteq> []) (rev [0..<8])")
  case Nil
  then have e: "node_q k (RunQ l) = []" if "l < 8" for l
    using that by (auto simp: filter_empty_conv)
  have "node_q k (RunQ l) = []" for l
    using run_level_bound [OF assms(1)] e by blast
  then show ?thesis
    using Nil SchedPickNext_levels [OF assms(1)] assms(2) by simp
next
  case (Cons l ls)
  note f = filter_rev_upt_highest [OF Cons]
  have ok: "nodes_ok k" "run_ok k"
    using assms(1) by (simp_all add: queues_ok_def)
  obtain u rest where q: "node_q k (RunQ l) = u # rest"
    using f(2) by (cases "node_q k (RunQ l)") auto
  have t: "t = u" "k' = SchedRemoveRunQueue u k"
    using SchedPickNext_levels [OF assms(1)] assms(2) Cons q by simp_all
  have n: "node (tasks k u) = Some (RunQ l)"
    using ok(1) q unfolding nodes_ok_def by (metis list.set_intros(1))
  have p: "queued_prio (tasks k u) = l"
    using ok(2) n by (simp add: run_ok_def)
  have e: "node_q k (RunQ h) = []" if "l < h" for h
    using f(3) [OF that] run_level_bound [OF assms(1), of h] by blast
  have b: "bit (ready_mask k) i \<longleftrightarrow> node_q k (RunQ i) \<noteq> []" for i
    using ok(2) by (simp add: run_ok_def)
  have i: "i < 32 \<or> node_q k (RunQ i) = []" for i
    using run_level_bound [OF assms(1), of i] by fastforce
  have nq: "node_q k' = (node_q k)(RunQ l := rest)" "node (tasks k' u) = None"
    "ready_mask k' = (if rest = [] then ready_mask k AND NOT (push_bit l 1) else ready_mask k)"
    using n p q t(2) by (simp_all add: SchedRemoveRunQueue_def node_remove_def upd_task_def Let_def)
  have "bit (ready_mask k') i \<longleftrightarrow> node_q k' (RunQ i) \<noteq> []" for i
    using b [of i] i [of i] q by (auto simp: nq bit_simps)
  then show ?thesis
    using f(1) q e nq t(1) by blast
qed

definition ex_ready :: Kernel where
  "ex_ready = SchedAdd 0x300 (SchedAdd 0x200 (SchedAdd 0x100
     (upd_task 0x200 (\<lambda>x. x\<lparr>priority := 5\<rparr>) (upd_task 0x300 (\<lambda>x. x\<lparr>priority := 5\<rparr>)
        (upd_task 0x100 (\<lambda>x. x\<lparr>priority := 2\<rparr>) ex_kernel)))))"

lemma ex_ready_fields:
  "node_q ex_ready = (\<lambda>_. [])(RunQ 2 := [0x100], RunQ 5 := [0x200, 0x300])"
  "ready_mask ex_ready = 0x24" "wait_q ex_ready = (\<lambda>_. [])" "sleep_wheel ex_ready = (\<lambda>_. [])"
  "wheel_occ ex_ready = replicate 16 0"
  "tasks ex_ready = (\<lambda>_. zero_task\<lparr>sleep_slot := - 1\<rparr>)
     (0x100 := zero_task\<lparr>sleep_slot := - 1, priority := 2, queued_prio := 2, node := Some (RunQ 2)\<rparr>,
      0x200 := zero_task\<lparr>sleep_slot := - 1, priority := 5, queued_prio := 5, node := Some (RunQ 5)\<rparr>,
      0x300 := zero_task\<lparr>sleep_slot := - 1, priority := 5, queued_prio := 5, node := Some (RunQ 5)\<rparr>)"
  by (simp_all add: ex_ready_def ex_kernel_def SchedAdd_def SchedEnqueue_def upd_task_def Let_def zero_task_def
        node_append_def const_defs fun_eq_iff)

lemma ex_ready_queues: "queues_ok ex_ready"
  proof -
  have "bit (0x24 :: u32) l \<longleftrightarrow> l = 2 \<or> l = 5" for l
  proof -
    have "(0x24 :: u32) = push_bit 2 1 OR push_bit 5 1"
      by simp
    then show ?thesis
      by (simp only: bit_simps) auto
  qed
  then show ?thesis
    by (auto simp: queues_ok_def queue_defs ex_ready_fields zero_task_def idle_task_def)
qed

theorem SchedPickNext_highest_first_witness:
  "queues_ok ex_ready \<and> fst (SchedPickNext ex_ready) = 0x200 \<and> node_q (snd (SchedPickNext ex_ready)) (RunQ 5) = [0x300]"
proof -
  obtain t k' where p: "SchedPickNext ex_ready = (t, k')"
    by fastforce
  from SchedPickNext_highest_first [OF ex_ready_queues p] obtain l rest where
    "node_q ex_ready (RunQ l) = t # rest" "\<forall>h > l. node_q ex_ready (RunQ h) = []" "node_q k' = (node_q ex_ready)(RunQ l := rest)"
    by (auto simp: ex_ready_fields split: if_splits)
  then show ?thesis
    using ex_ready_queues p by (auto simp: ex_ready_fields split: if_splits)
qed

section \<open>Wait queues\<close>

lemma takeWhile_sorted_filter:
  assumes "sorted_wrt (\<lambda>a b. pr a \<le> pr b) xs"
  shows "takeWhile (\<lambda>x. pr x < (p :: nat)) xs = filter (\<lambda>x. pr x < p) xs
    \<and> dropWhile (\<lambda>x. pr x < p) xs = filter (\<lambda>x. pr x \<ge> p) xs"
  using assms
proof (induction xs)
  case (Cons x xs)
  have "filter (\<lambda>x. pr x < p) xs = []" "filter (\<lambda>x. pr x \<ge> p) xs = xs" if "\<not> pr x < p"
    using that Cons.prems by (auto simp: filter_empty_conv filter_id_conv)
  then show ?case
    using Cons by (cases "pr x < p") simp_all
qed simp_all

lemma prio_insert_sorted:
  assumes "sorted_wrt (\<lambda>a b. pr a \<ge> pr b) xs"
  shows "prio_insert pr t xs = filter (\<lambda>x. pr x \<ge> pr t) xs @ t # filter (\<lambda>x. pr x < pr t) xs"
proof -
  have "sorted_wrt (\<lambda>a b. pr a \<le> pr b) (rev xs)"
    using assms by (simp add: sorted_wrt_rev)
  from takeWhile_sorted_filter [OF this] show ?thesis
    by (simp add: prio_insert_def rev_filter)
qed

text \<open>
  C14: Joining a wait queue is a stable insertion by priority. When the queue is ordered by descending
  priority, the backward walk of \<open>SchedWaitQueueAdd\<close> puts the task behind every waiter of its own or a
  higher priority and before every waiter of a lower one, keeps the order of the others, keeps the queue
  ordered, and touches no other queue.
\<close>

theorem SchedWaitQueueAdd_stable:
  assumes "sorted_wrt (\<lambda>a b. priority (tasks k a) \<ge> priority (tasks k b)) (wait_q k q)"
  shows "wait_q (SchedWaitQueueAdd q t k) = (wait_q k)(q :=
      filter (\<lambda>x. priority (tasks k x) \<ge> priority (tasks k t)) (wait_q k q)
        @ t # filter (\<lambda>x. priority (tasks k x) < priority (tasks k t)) (wait_q k q))
    \<and> sorted_wrt (\<lambda>a b. priority (tasks (SchedWaitQueueAdd q t k) a) \<ge> priority (tasks (SchedWaitQueueAdd q t k) b))
        (wait_q (SchedWaitQueueAdd q t k) q)"
proof -
  have p: "priority (tasks (SchedWaitQueueAdd q t k) x) = priority (tasks k x)" for x
    by (simp add: SchedWaitQueueAdd_def upd_task_def)
  have w: "wait_q (SchedWaitQueueAdd q t k) = (wait_q k)(q := prio_insert (\<lambda>x. priority (tasks k x)) t (wait_q k q))"
    by (simp add: SchedWaitQueueAdd_def upd_task_def)
  show ?thesis
    using assms unfolding w p
    by (auto simp: prio_insert_sorted sorted_wrt_append sorted_wrt_filter)
qed

definition ex_waiting :: Kernel where
  "ex_waiting = SchedWaitQueueAdd (EventQ 0x40) 0x300 (SchedWaitQueueAdd (EventQ 0x40) 0x200 (SchedWaitQueueAdd (EventQ 0x40) 0x100
     (upd_task 0x200 (\<lambda>x. x\<lparr>priority := 5\<rparr>) (upd_task 0x300 (\<lambda>x. x\<lparr>priority := 2\<rparr>)
        (upd_task 0x400 (\<lambda>x. x\<lparr>priority := 2\<rparr>) ex_kernel)))))"

theorem SchedWaitQueueAdd_stable_witness:
  "wait_q ex_waiting (EventQ 0x40) = [0x200, 0x300, 0x100]
   \<and> wait_q (SchedWaitQueueAdd (EventQ 0x40) 0x400 ex_waiting) (EventQ 0x40) = [0x200, 0x300, 0x400, 0x100]"
proof -
  have w: "wait_q ex_waiting (EventQ 0x40) = [0x200, 0x300, 0x100]"
    and p: "map (\<lambda>t. priority (tasks ex_waiting t)) [0x100, 0x200, 0x300, 0x400] = [0, 5, 2, 2]"
    by (simp_all add: ex_waiting_def SchedWaitQueueAdd_def prio_insert_def upd_task_def ex_kernel_def zero_task_def)
  show ?thesis
    using SchedWaitQueueAdd_stable [of ex_waiting "EventQ 0x40" "0x400"] w p by simp
qed

end
