(* ===== verification/Svc_Correct.thy ===== *)
theory Svc_Correct
  imports Handle_Kernel Kexample
begin

text \<open>
  Properties of single system calls: registers of other tasks, priorities, bound event bits.
\<close>

section \<open>Registers\<close>

lemma frame_set [simp]:
  "trap_frame (tasks (ArchSetInFrame t r v k) u) i
   = (if u = t \<and> i = r then v else trap_frame (tasks k u) i)"
  by (simp add: ArchSetInFrame_def upd_task_def)

lemma tasks_upd_task: "tasks (upd_task t f k) u = (if u = t then f (tasks k t) else tasks k u)"
  by (simp add: upd_task_def)

lemma current_task_upd_task [simp]: "current_task (upd_task t f k) = current_task k"
  by (simp add: upd_task_def)

text \<open>A CPSR of user mode with interrupts and aborts unmasked.\<close>

definition user_cpsr :: "u32 \<Rightarrow> bool" where
  "user_cpsr c \<longleftrightarrow> c AND 0x1F = ARM_CPSR_MODE_USR \<and> c AND 0x1C0 = 0"

lemma user_cpsr_masked: "user_cpsr ((x AND ARM_CPSR_USER_BITS) OR ARM_CPSR_MODE_USR)"
  using mode_field [of x] interrupt_masks [of x] by (simp add: user_cpsr_def ARM_CPSR_MODE_USR_def)

lemma ArchRegsToFrame_some:
  assumes "ArchRegsToFrame f r = Some f'"
  shows "user_cpsr (f' FRAME_CPSR)" "f' FRAME_PC = rg_pc r" "f' FRAME_SP = rg_sp r" "f' FRAME_LR = rg_lr r"
    "i < 13 \<Longrightarrow> f' i = gp r i"
  using assms user_cpsr_masked
  by (auto simp: ArchRegsToFrame_def Let_def frame_index_defs ARCH_NUM_GP_REGS_def split: if_splits)

text \<open>
  C18: The registers written to a frame are the ones read back. When \<open>ArchRegsToFrame\<close> accepts a register
  set, \<open>ArchFrameToRegs\<close> of the new frame returns the same general registers, stack pointer, link register
  and program counter; the flags come back restricted to the bits a task may set, in user mode. It
  accepts exactly the program counters aligned for the instruction set that the flags select.
\<close>

theorem regs_round_trip:
  assumes "\<And>i. i \<ge> 13 \<Longrightarrow> gp r i = 0"
  shows "map_option ArchFrameToRegs (ArchRegsToFrame f r)
    = (if rg_pc r AND (if rg_flags r AND ARM_CPSR_T \<noteq> 0 then 1 else 3) \<noteq> 0 then None
       else Some (r\<lparr>rg_flags := (rg_flags r AND ARM_CPSR_USER_BITS) OR ARM_CPSR_MODE_USR\<rparr>))"
proof -
  have t: "((rg_flags r AND ARM_CPSR_USER_BITS) OR ARM_CPSR_MODE_USR) AND ARM_CPSR_T = rg_flags r AND ARM_CPSR_T"
    by (simp add: bit.conj_disj_distrib2 and.assoc) (simp add: ARM_CPSR_USER_BITS_def ARM_CPSR_MODE_USR_def ARM_CPSR_T_def)
  have g: "gp r i = 0" if "\<not> i < 13" for i
    using assms that by simp
  have "ArchFrameToRegs ((\<lambda>i. if i < 13 then gp r i else f i)(13 := rg_sp r, 14 := rg_lr r, 15 := rg_pc r, 16 := c))
    = r\<lparr>rg_flags := c\<rparr>" for c
    by (rule TaskRegs.equality)
      (simp_all add: ArchFrameToRegs_def frame_index_defs ARCH_NUM_GP_REGS_def fun_eq_iff g)
  then show ?thesis
    by (simp add: ArchRegsToFrame_def Let_def t frame_index_defs ARCH_NUM_GP_REGS_def)
qed

theorem regs_round_trip_witness:
  "map_option ArchFrameToRegs (ArchRegsToFrame (\<lambda>_. 7)
      \<lparr>gp = (\<lambda>i. if i = 4 then 9 else 0), rg_sp = 0x20000, rg_lr = 0x10004, rg_pc = 0x10002, rg_flags = 0x800000FF\<rparr>)
    = Some \<lparr>gp = (\<lambda>i. if i = 4 then 9 else 0), rg_sp = 0x20000, rg_lr = 0x10004, rg_pc = 0x10002, rg_flags = 0x80000030\<rparr>"
  using regs_round_trip [of "\<lparr>gp = (\<lambda>i. if i = 4 then 9 else 0), rg_sp = 0x20000, rg_lr = 0x10004, rg_pc = 0x10002,
    rg_flags = 0x800000FF\<rparr>" "\<lambda>_. 7"]
  by (simp add: ARM_CPSR_USER_BITS_def ARM_CPSR_MODE_USR_def ARM_CPSR_T_def)

text \<open>
  C17: Writing the registers of a task cannot take it out of user mode. When \<open>MNGTASK_SET_REGS\<close> on a
  task other than the caller succeeds, the frame of the target has exactly the requested \<open>r0\<close> to \<open>r12\<close>,
  stack pointer, link register and program counter, and a CPSR whose mode field is user mode and whose
  interrupt and abort masks are clear, whatever flags were asked for; no register of any other task but
  the result register of the caller changes. A task that is running, exited or blocked in a call, or a
  misaligned program counter, is refused and no frame but the caller's result changes.
\<close>

theorem MngTaskSetRegs_user_mode:
  assumes "MngTaskSetRegs ua t k = Some k'" "t \<noteq> current_task k"
  shows "(\<forall>u i. u \<noteq> t \<and> (u, i) \<noteq> (current_task k, 0)
                \<longrightarrow> trap_frame (tasks k' u) i = trap_frame (tasks k u) i)
    \<and> (if trap_frame (tasks k' (current_task k)) 0 = err_reg ZUZU_OK
       then \<exists>r. ua_regs ua = Some r
         \<and> (state (tasks k t) = TASK_STATE_FAULTED
            \<or> suspended (tasks k t) \<and> state (tasks k t) \<notin> {TASK_STATE_BLOCKED, TASK_STATE_ZOMBIE})
         \<and> user_cpsr (trap_frame (tasks k' t) FRAME_CPSR)
         \<and> trap_frame (tasks k' t) FRAME_PC = rg_pc r \<and> trap_frame (tasks k' t) FRAME_SP = rg_sp r
         \<and> trap_frame (tasks k' t) FRAME_LR = rg_lr r \<and> (\<forall>i < 13. trap_frame (tasks k' t) i = gp r i)
       else trap_frame (tasks k' t) = trap_frame (tasks k t))"
proof -
  have err: "err_reg e = err_reg ZUZU_OK \<longleftrightarrow> e = ZUZU_OK" for e
    by (cases e) (simp_all add: err_reg_def)
  have keep: "trap_frame (tasks (ArchSetInFrame c 0 v k) t) = trap_frame (tasks k t)" if "t \<noteq> c" for c v
    using that by (simp add: fun_eq_iff)
  show ?thesis
    using assms ArchRegsToFrame_some
    by (auto simp: MngTaskSetRegs_def ret_err_def tasks_upd_task err keep
             split: if_splits option.splits)
qed

definition ex_regs :: TaskRegs where
  "ex_regs = \<lparr>gp = (\<lambda>i. of_nat i), rg_sp = 0x20000, rg_lr = 0x10004, rg_pc = 0x10000, rg_flags = 0x6000001F\<rparr>"

definition ex_stopped :: Kernel where
  "ex_stopped = (upd_task 0x200 (\<lambda>x. x\<lparr>suspended := True\<rparr>) ex_kernel)\<lparr>current_task := 0x100\<rparr>"

theorem MngTaskSetRegs_user_mode_witness:
  "\<exists>k'. MngTaskSetRegs \<lparr>ua_kick = None, ua_regs = Some ex_regs, ua_writable = True\<rparr> 0x200 ex_stopped = Some k'
    \<and> user_cpsr (trap_frame (tasks k' 0x200) FRAME_CPSR) \<and> trap_frame (tasks k' 0x200) 5 = 5"
proof -
  let ?ua = "\<lparr>ua_kick = None, ua_regs = Some ex_regs, ua_writable = True\<rparr>"
  obtain k' where k': "MngTaskSetRegs ?ua 0x200 ex_stopped = Some k'" "trap_frame (tasks k' 0x100) 0 = err_reg ZUZU_OK"
    by (simp add: MngTaskSetRegs_def ex_stopped_def ex_kernel_def zero_task_def upd_task_def ret_err_def ex_regs_def
        ArchRegsToFrame_def ARM_CPSR_USER_BITS_def ARM_CPSR_MODE_USR_def ARM_CPSR_T_def ArchSetInFrame_def)
  have "current_task ex_stopped = 0x100"
    by (simp add: ex_stopped_def)
  then have "user_cpsr (trap_frame (tasks k' 0x200) FRAME_CPSR) \<and> (\<forall>i < 13. trap_frame (tasks k' 0x200) i = gp ex_regs i)"
    using MngTaskSetRegs_user_mode [OF k'(1)] k'(2) by auto
  then show ?thesis
    using k'(1) by (simp add: ex_regs_def)
qed

end
