(* ===== verification/Ident_Correct.thy ===== *)
theory Ident_Correct
  imports Task_Life Kexample
begin

text \<open>
  The identifiers of spaces and tasks: the searches for a free table slot end, and what they return is
  free, unique and in range.
\<close>

section \<open>Space identifiers\<close>

abbreviation SPID_MAX :: nat where "SPID_MAX \<equiv> 0x7FFFFFFF"

lemma unat_SpidAdvance:
  assumes "unat n \<le> SPID_MAX"
  shows "unat (SpidAdvance n) = (if unat n = SPID_MAX then 1 else unat n + 1)"
proof -
  have "unat (n + 1) = unat n + 1"
    using assms by (simp add: unat_word_ariths)
  moreover have "n + 1 = 0 \<longleftrightarrow> unat (n + 1) = 0" "0x7FFFFFFF < n + 1 \<longleftrightarrow> SPID_MAX < unat (n + 1)"
    by (simp_all add: unat_eq_0 word_less_nat_alt)
  ultimately show ?thesis
    using assms by (simp add: SpidAdvance_def Let_def)
qed

text \<open>What the search returns, if it returns.\<close>

lemma spid_search_result:
  assumes "spid_search fuel s tbl n = Some m" "1 \<le> unat n" "unat n \<le> SPID_MAX"
  shows "1 \<le> unat m \<and> unat m \<le> SPID_MAX \<and> (tbl (unat m mod MAX_SPACES) = NULL \<or> unat m mod MAX_SPACES = s)"
  using assms
proof (induction fuel arbitrary: n)
  case (Suc fuel)
  have a: "1 \<le> unat (SpidAdvance n)" "unat (SpidAdvance n) \<le> SPID_MAX"
    using unat_SpidAdvance [of n] Suc.prems(2,3) by (simp_all split: if_splits)
  show ?case
    using Suc.prems Suc.IH [OF _ a] a by (auto simp: Let_def split: if_splits)
qed simp

lemma spid_search_more: "spid_search fuel s tbl n = Some m \<Longrightarrow> spid_search (fuel + d) s tbl n = Some m"
proof (induction fuel arbitrary: n)
  case (Suc fuel)
  then show ?case
    by (auto simp: Let_def split: if_splits)
qed simp

text \<open>Without a wrap the start is reached again after at most a turn of the table.\<close>

lemma spid_search_straight:
  assumes "0 < d" "d \<le> 512" "unat n + d \<le> SPID_MAX" "(unat n + d) mod MAX_SPACES = s"
  shows "\<exists>m. spid_search d s tbl n = Some m \<and> unat n \<le> unat m \<and> unat m \<le> unat n + d
    \<and> (tbl (unat m mod MAX_SPACES) = NULL \<or> (\<forall>i < d. tbl ((unat n + i) mod MAX_SPACES) \<noteq> NULL))"
  using assms
proof (induction d arbitrary: n)
  case (Suc d)
  have n: "unat (SpidAdvance n) = unat n + 1"
    using unat_SpidAdvance [of n] Suc.prems(3) by simp
  show ?case
  proof (cases "tbl (unat n mod MAX_SPACES) = NULL")
    case True
    then show ?thesis
      by simp
  next
    case full: False
    show ?thesis
    proof (cases "unat (SpidAdvance n) mod MAX_SPACES = s")
      case True
      then have "(unat n + Suc d) mod 512 = (unat n + 1) mod 512"
        using Suc.prems(4) n by (simp add: MAX_SPACES_def)
      then have "d mod 512 = 0"
        by (simp add: mod_eq_dvd_iff_nat)
      then have "d = 0"
        using Suc.prems(2) by simp
      then show ?thesis
        using True full n by (auto simp: Let_def)
    next
      case False
      then have d: "0 < d"
        using Suc.prems(4) n by (cases d) auto
      obtain m where m: "spid_search d s tbl (SpidAdvance n) = Some m" "unat (SpidAdvance n) \<le> unat m" "unat m \<le> unat (SpidAdvance n) + d"
        "tbl (unat m mod MAX_SPACES) = NULL \<or> (\<forall>i < d. tbl ((unat (SpidAdvance n) + i) mod MAX_SPACES) \<noteq> NULL)"
        using Suc.IH [of "SpidAdvance n"] d Suc.prems n by auto
      have "\<forall>i < Suc d. tbl ((unat n + i) mod MAX_SPACES) \<noteq> NULL"
        if "\<forall>i < d. tbl ((unat (SpidAdvance n) + i) mod MAX_SPACES) \<noteq> NULL"
        using that full n by (auto simp: less_Suc_eq_0_disj)
      then show ?thesis
        using m full False n by (auto simp: Let_def)
    qed
  qed
qed simp

lemma next_turn: "\<exists>d. 0 < d \<and> d \<le> 512 \<and> (n + d) mod 512 = (s :: nat)" if "s < 512"
proof -
  let ?d = "if n mod 512 < s then s - n mod 512 else 512 + s - n mod 512"
  have "n mod 512 < 512"
    by simp
  then have "0 < ?d" "(if n mod 512 < s then s - n mod 512 else 512 + s - n mod 512) \<le> 512" "n mod 512 + ?d = (if n mod 512 < s then s else 512 + s)"
    using that by (simp_all only: split: if_splits) linarith+
  moreover have "(n + ?d) mod 512 = (n mod 512 + ?d) mod 512"
    by (rule mod_add_left_eq [symmetric])
  ultimately have "(n + ?d) mod 512 = s"
    using that by (simp only:) simp
  then show ?thesis
    using \<open>0 < ?d\<close> \<open>?d \<le> 512\<close> by blast
qed

lemma spid_search_returns:
  assumes "1 \<le> unat n" "unat n \<le> SPID_MAX" "s < 512"
  shows "\<exists>m. spid_search 1024 s tbl n = Some m"
proof (cases "unat n + 512 \<le> SPID_MAX")
  case True
  obtain d where d: "0 < d" "d \<le> 512" "(unat n + d) mod 512 = s"
    using next_turn [OF assms(3)] by blast
  then obtain m where "spid_search d s tbl n = Some m"
    using spid_search_straight [of d n s tbl] True by (auto simp: MAX_SPACES_def)
  then show ?thesis
    using spid_search_more [of d s tbl n m "1024 - d"] d(2) by auto
next
  case False
  have wrap: "\<exists>m. spid_search (j + 513) s tbl u = Some m" if "unat u + j = SPID_MAX" for j u
    using that
  proof (induction j arbitrary: u)
    case 0
    have u: "unat (SpidAdvance u) = 1"
      using unat_SpidAdvance [of u] 0 by simp
    obtain d where d: "0 < d" "d \<le> 512" "(1 + d) mod 512 = s"
      using next_turn [OF assms(3)] by blast
    then obtain m where "spid_search d s tbl (SpidAdvance u) = Some m"
      using spid_search_straight [of d "SpidAdvance u" s tbl] u by (auto simp: MAX_SPACES_def)
    then have "spid_search 512 s tbl (SpidAdvance u) = Some m"
      using spid_search_more [of d s tbl "SpidAdvance u" m "512 - d"] d(2) by simp
    then show ?case
      using spid_search.simps(2) [of 512 s tbl u] by (simp add: Let_def)
  next
    case (Suc j)
    have "unat (SpidAdvance u) + j = SPID_MAX"
      using unat_SpidAdvance [of u] Suc.prems by simp
    from Suc.IH [OF this] show ?case
      using spid_search.simps(2) [of "j + 513" s tbl u] by (auto simp: Let_def simp del: spid_search.simps)
  qed
  obtain m where m: "spid_search (SPID_MAX - unat n + 513) s tbl n = Some m"
    using wrap [of n "SPID_MAX - unat n"] assms(2) by auto
  show ?thesis
    using spid_search_more [OF m, of "1024 - (SPID_MAX - unat n + 513)"] False by auto
qed

text \<open>
  C19: \<open>SpidAlloc\<close> always returns, although the identifiers may wrap on the way, and never hands out an
  identifier in use. From a counter between 1 and \<open>0x7FFFFFFF\<close> it either returns 0 and leaves the table
  as it was, or it returns a positive identifier whose table slot was free and now holds the new space,
  every other slot unchanged, so \<open>SpaceFindBySpid\<close> finds the space under it once it is stored; the counter
  stays in range. Away from the wrap it returns 0 only when every slot of the table is taken.
\<close>

theorem SpidAlloc_correct:
  assumes "1 \<le> unat (next_spid k)" "unat (next_spid k) \<le> 0x7FFFFFFF"
  shows "\<exists>i k'. SpidAlloc sp k = Some (i, k') \<and> 1 \<le> unat (next_spid k') \<and> unat (next_spid k') \<le> 0x7FFFFFFF
    \<and> (if i = 0 then space_table k' = space_table k
       else 0 < i \<and> i \<le> 0x7FFFFFFF \<and> space_table k (nat i mod MAX_SPACES) = NULL
          \<and> space_table k' = (space_table k)(nat i mod MAX_SPACES := sp)
          \<and> (sp \<noteq> NULL \<longrightarrow> SpaceFindBySpid i (upd_space sp (\<lambda>x. x\<lparr>spid := i\<rparr>) k') = sp))
    \<and> (i = 0 \<and> unat (next_spid k) + 512 \<le> 0x7FFFFFFF \<longrightarrow> (\<forall>s < MAX_SPACES. space_table k s \<noteq> NULL))"
proof -
  let ?s = "unat (next_spid k) mod MAX_SPACES"
  obtain m where m: "spid_search 1024 ?s (space_table k) (next_spid k) = Some m"
    using spid_search_returns [OF assms, of ?s "space_table k"] by (auto simp: MAX_SPACES_def)
  note r = spid_search_result [OF m assms]
  have a: "1 \<le> unat (SpidAdvance m)" "unat (SpidAdvance m) \<le> 0x7FFFFFFF"
    using unat_SpidAdvance [of m] r by (simp_all split: if_splits)
  have full: "space_table k s \<noteq> NULL"
    if f: "unat (next_spid k) + 512 \<le> 0x7FFFFFFF" "space_table k (unat m mod MAX_SPACES) \<noteq> NULL" "s < MAX_SPACES" for s
  proof -
    obtain m' where m': "spid_search 512 ?s (space_table k) (next_spid k) = Some m'"
      "space_table k (unat m' mod MAX_SPACES) = NULL \<or> (\<forall>i < 512. space_table k ((unat (next_spid k) + i) mod MAX_SPACES) \<noteq> NULL)"
      using spid_search_straight [of 512 "next_spid k" ?s "space_table k"] f(1) by (auto simp: MAX_SPACES_def)
    have "m' = m"
      using spid_search_more [OF m'(1), of 512] m by simp
    then have *: "space_table k ((unat (next_spid k) + i) mod MAX_SPACES) \<noteq> NULL" if "i < 512" for i
      using m'(2) f(2) that by simp
    obtain d where "0 < d" "d \<le> 512" "(unat (next_spid k) + d) mod 512 = s"
      using next_turn [of s] f(3) by (auto simp: MAX_SPACES_def)
    then show ?thesis
      using * [of 0] * [of d] by (cases "d = 512") (auto simp: MAX_SPACES_def)
  qed
  show ?thesis
  proof (cases "space_table k (unat m mod MAX_SPACES) = NULL")
    case True
    let ?k = "k\<lparr>next_spid := SpidAdvance m, space_table := (space_table k)(unat m mod MAX_SPACES := sp)\<rparr>"
    have u: "0 < uint m" "uint m \<le> 0x7FFFFFFF"
    proof -
      have "uint m = int (unat m)"
        by simp
      then show "0 < uint m" "uint m \<le> 0x7FFFFFFF"
        using r by linarith+
    qed
    have s: "SpidAlloc sp k = Some (int (unat m), ?k)"
      using True m by (simp add: SpidAlloc_def Let_def)
    have "SpaceFindBySpid (int (unat m)) (upd_space sp (\<lambda>x. x\<lparr>spid := int (unat m)\<rparr>) ?k) = sp" if "sp \<noteq> NULL"
      using that by (simp add: SpaceFindBySpid_def upd_space_def Let_def)
    then show ?thesis
      using True a u by (intro exI [of _ "int (unat m)"] exI [of _ ?k]) (simp add: s)
  next
    case False
    have "SpidAlloc sp k = Some (0, k\<lparr>next_spid := m\<rparr>)"
      using False m by (simp add: SpidAlloc_def Let_def)
    then show ?thesis
      using r full [OF _ False] by (intro exI [of _ 0] exI [of _ "k\<lparr>next_spid := m\<rparr>"]) simp
  qed
qed

theorem SpidAlloc_correct_witness:
  "\<exists>k'. SpidAlloc 0x500 (ex_kernel\<lparr>next_spid := 5, space_table := (\<lambda>s. if s = 6 then 0 else 0x400)\<rparr>) = Some (6, k')
     \<and> space_table k' 6 = 0x500"
proof -
  let ?k = "ex_kernel\<lparr>next_spid := 5, space_table := (\<lambda>s. if s = 6 then 0 else 0x400)\<rparr>"
  obtain i k' where i: "SpidAlloc 0x500 ?k = Some (i, k')"
    "if i = 0 then True else space_table ?k (nat i mod MAX_SPACES) = NULL
       \<and> space_table k' = (space_table ?k)(nat i mod MAX_SPACES := 0x500)"
    using SpidAlloc_correct [of ?k "0x500"] by (auto split: if_splits)
  moreover have "spid_search 1024 5 (\<lambda>s. if s = 6 then 0 else 0x400) 5 = Some 6"
    using spid_search.simps(2) [of 1023 5 "\<lambda>s. if s = 6 then 0 else 0x400" 5]
      spid_search.simps(2) [of 1022 5 "\<lambda>s. if s = 6 then 0 else 0x400" 6]
    by (simp add: Let_def MAX_SPACES_def SpidAdvance_def)
  ultimately show ?thesis
    by (auto simp: SpidAlloc_def MAX_SPACES_def Let_def)
qed

text \<open>
  The identifiers wrap from \<open>0x7FFFFFFF\<close>, in slot 511 of the table, to 1, in slot 1. A search that
  crosses the wrap never looks at slot 0 and can report a full table while it is free.
\<close>

theorem SpidAlloc_misses_slot_0:
  "\<exists>k. space_table k 0 = NULL \<and> next_spid k = 0x7FFFFFFF \<and> (\<exists>k'. SpidAlloc sp k = Some (0, k'))"
proof -
  let ?t = "\<lambda>s :: nat. if s = 0 then 0 else 0x400 :: SpacePtr"
  let ?k = "ex_kernel\<lparr>next_spid := 0x7FFFFFFF, space_table := ?t\<rparr>"
  obtain m where m: "spid_search 510 511 ?t 1 = Some m" "1 \<le> unat m" "unat m \<le> 511"
    using spid_search_straight [of 510 1 511 ?t] by (auto simp: MAX_SPACES_def)
  have "spid_search 1023 511 ?t 1 = Some m"
    using spid_search_more [OF m(1), of 513] by simp
  then have "spid_search 1024 511 ?t 0x7FFFFFFF = Some m"
    using spid_search.simps(2) [of 1023 511 ?t "0x7FFFFFFF"] by (simp add: Let_def MAX_SPACES_def SpidAdvance_def)
  then have "SpidAlloc sp ?k = Some (0, ?k\<lparr>next_spid := m\<rparr>)"
    using m(2,3) by (simp add: SpidAlloc_def Let_def MAX_SPACES_def)
  then show ?thesis
    by (intro exI [of _ ?k]) simp
qed

section \<open>Task identifiers\<close>

lemma tid_search_returns:
  assumes "0 < d" "d \<le> 1024" "0 \<le> i" "i + int d < 2 ^ 31 - 1" "nat ((i + int d) mod 1024) = s" "d < n"
  shows "\<exists>j b. tid_search n s tbl i = Some (j, b) \<and> i \<le> j \<and> j \<le> i + int d
    \<and> (if b then tbl (nat (j mod 1024)) = NULL else \<forall>m < d. tbl (nat ((i + int m) mod 1024)) \<noteq> NULL)"
  using assms
proof (induction d arbitrary: n i)
  case (Suc d)
  obtain n' where n: "n = Suc n'"
    using Suc.prems(6) by (cases n) auto
  show ?case
  proof (cases "tbl (nat (i mod 1024)) = NULL")
    case True
    then show ?thesis
      by (auto simp: n)
  next
    case full: False
    show ?thesis
    proof (cases "nat ((i + 1) mod 1024) = s")
      case True
      then have "(i + 1) mod 1024 = (i + int (Suc d)) mod 1024"
        using Suc.prems(5) by (simp add: nat_eq_iff2)
      then have "int d mod 1024 = 0"
        by (simp add: mod_eq_dvd_iff algebra_simps)
      then have "d = 0"
        using Suc.prems(2) by simp
      then show ?thesis
        using True full Suc.prems(4) by (auto simp: n Let_def)
    next
      case False
      then have d: "0 < d"
        using Suc.prems(5) by (cases d) auto
      obtain j b where j: "tid_search n' s tbl (i + 1) = Some (j, b)" "i + 1 \<le> j" "j \<le> i + 1 + int d"
        "if b then tbl (nat (j mod 1024)) = NULL else \<forall>m < d. tbl (nat ((i + 1 + int m) mod 1024)) \<noteq> NULL"
        using Suc.IH [of "i + 1" n'] d Suc.prems n by (auto simp: algebra_simps)
      have "\<forall>m < Suc d. tbl (nat ((i + int m) mod 1024)) \<noteq> NULL"
        if "\<forall>m < d. tbl (nat ((i + 1 + int m) mod 1024)) \<noteq> NULL"
        using that full by (auto simp: less_Suc_eq_0_disj algebra_simps)
      then show ?thesis
        using j full False Suc.prems(4) by (auto simp: n Let_def)
    qed
  qed
qed simp

text \<open>
  C20: \<open>RegisterTask\<close> gives a task a fresh identifier as long as the counter has room. From a counter
  below \<open>2 ^ 31 - 1026\<close> the search returns after at most one turn of the table: either every slot is taken,
  the result is 0 and the table is unchanged, or the result is an identifier not below the counter whose
  slot was free; the slot then holds the task, the task carries the identifier, and the counter has moved
  past it, so no later task gets the same one.
\<close>

theorem RegisterTask_correct:
  assumes "t \<noteq> NULL" "0 < next_tid k" "next_tid k < 2 ^ 31 - 1026"
  shows "\<exists>i k'. RegisterTask t k = Some (i, k') \<and> next_tid k \<le> next_tid k'
    \<and> (if i = 0 then (\<forall>s < MAX_TASKS. task_table k s \<noteq> NULL) \<and> task_table k' = task_table k
       else next_tid k \<le> i \<and> i < next_tid k' \<and> task_table k (nat (i mod 1024)) = NULL
          \<and> task_table k' = (task_table k)(nat (i mod 1024) := t) \<and> tid (tasks k' t) = i)"
proof -
  let ?s = "nat (next_tid k mod 1024)"
  obtain j b where j: "tid_search (Suc MAX_TASKS) ?s (task_table k) (next_tid k) = Some (j, b)"
    "next_tid k \<le> j" "j \<le> next_tid k + 1024"
    "if b then task_table k (nat (j mod 1024)) = NULL
     else \<forall>m < 1024. task_table k (nat ((next_tid k + int m) mod 1024)) \<noteq> NULL"
    using tid_search_returns [of 1024 "next_tid k" ?s "Suc MAX_TASKS" "task_table k"] assms
    by (auto simp: MAX_TASKS_def)
  have full: "task_table k s \<noteq> NULL" if "\<not> b" "s < MAX_TASKS" for s
  proof -
    let ?m = "nat ((int s - next_tid k) mod 1024)"
    have "?m < 1024"
      by (simp add: nat_less_iff)
    moreover have "(next_tid k + int ?m) mod 1024 = int s"
      using that(2) by (simp add: MAX_TASKS_def mod_simps)
    ultimately show ?thesis
      using j(4) that(1) by (metis nat_int)
  qed
  show ?thesis
    using j full assms by (auto simp: RegisterTask_def upd_task_def Let_def)
qed

theorem RegisterTask_correct_witness:
  "\<exists>k'. RegisterTask 0x100 (ex_kernel\<lparr>next_tid := 1025, task_table := (\<lambda>s. if s = 1 then 0x900 else 0)\<rparr>) = Some (1026, k')
    \<and> task_table k' 2 = 0x100"
proof -
  let ?k = "ex_kernel\<lparr>next_tid := 1025, task_table := (\<lambda>s. if s = 1 then 0x900 else 0)\<rparr>"
  obtain i k' where i: "RegisterTask 0x100 ?k = Some (i, k')"
    "if i = 0 then True else task_table k' = (task_table ?k)(nat (i mod 1024) := 0x100)"
    using RegisterTask_correct [of "0x100" ?k] by (auto split: if_splits)
  moreover have "tid_search (Suc MAX_TASKS) 1 (\<lambda>s. if s = 1 then 0x900 else 0) 1025 = Some (1026, True)"
    using tid_search.simps(2) [of 1024 1 "\<lambda>s. if s = 1 then 0x900 else 0" 1025]
      tid_search.simps(2) [of 1023 1 "\<lambda>s. if s = 1 then 0x900 else 0" 1026]
    by (simp add: MAX_TASKS_def Let_def)
  ultimately show ?thesis
    by (auto simp: RegisterTask_def Let_def)
qed

end
