(* ===== verification/Spec2Isabelle.thy ===== *)
theory Spec2Isabelle
  imports Pmm_Correct Handle_Kernel Vmm_Correct Links_Boot Queue_Correct Msg_Correct Svc_Correct Ident_Correct
begin

text \<open>
  Verification of the zuzu microkernel.
\<close>

text \<open>
  C8: The word-at-a-time bitmap search returns what a search bit by bit returns: the lowest clear bit among
  the first \<open>nbits\<close>, and -1 when all of them are set. The search for a run of clear bits returns the
  lowest position from which \<open>run\<close> bits below \<open>nbits\<close> are clear, and -1 when there is none or the run is
  empty. The bound keeps an index within the range of \<open>int\<close>.
\<close>

theorem BitmapFindFirstZero_correct:
  assumes "nbits \<le> length ws * 32" "nbits \<le> 2 ^ 31"
  shows "BitmapFindFirstZero ws nbits =
           (case find (\<lambda>i. \<not> BitmapTest ws i) [0..<nbits] of None \<Rightarrow> - 1 | Some i \<Rightarrow> int i)
    \<and> BitmapFindClearRun ws nbits run =
           (if run = 0 then - 1
            else case find (\<lambda>s. list_all (\<lambda>i. \<not> BitmapTest ws i) [s..<s + run]) [0..<nbits + 1 - run] of
                   None \<Rightarrow> - 1 | Some s \<Rightarrow> int s)"
proof
  show "BitmapFindFirstZero ws nbits =
      (case find (\<lambda>i. \<not> BitmapTest ws i) [0..<nbits] of None \<Rightarrow> - 1 | Some i \<Rightarrow> int i)"
    by (rule first_clear_find [OF BitmapFindFirstZero_first_clear [OF assms]])
  have "clear_run t run = (\<lambda>s. list_all (\<lambda>i. \<not> t i) [s..<s + run])" for t :: "nat \<Rightarrow> bool"
    by (auto simp: clear_run_def list_all_iff fun_eq_iff)
  then show "BitmapFindClearRun ws nbits run =
      (if run = 0 then - 1
       else case find (\<lambda>s. list_all (\<lambda>i. \<not> BitmapTest ws i) [s..<s + run]) [0..<nbits + 1 - run] of
              None \<Rightarrow> - 1 | Some s \<Rightarrow> int s)"
    using first_run_find [OF BitmapFindClearRun_first_run [OF _ assms(2)], of run ws]
    by (cases "run = 0 \<or> nbits < run") (auto simp: BitmapFindClearRun_def)
qed

theorem BitmapFindFirstZero_correct_witness:
  "BitmapFindFirstZero [0xFFFFFFFF, 7] 40 = 35 \<and> BitmapFindFirstZero [0xFFFFFFFB, 7] 40 = 2
   \<and> BitmapFindFirstZero [0xFFFFFFFF, 0xFF] 40 = - 1 \<and> BitmapFindClearRun [0xFFFFFFFB, 7] 40 3 = 35"
proof -
  have "find (\<lambda>i. \<not> BitmapTest [0xFFFFFFFF, 7] i) [0..<40] = Some 35"
    "find (\<lambda>i. \<not> BitmapTest [0xFFFFFFFB, 7] i) [0..<40] = Some 2"
    "find (\<lambda>i. \<not> BitmapTest [0xFFFFFFFF, 0xFF] i) [0..<40] = None"
    "find (\<lambda>s. list_all (\<lambda>i. \<not> BitmapTest [0xFFFFFFFB, 7] i) [s..<s + 3]) [0..<40 + 1 - 3] = Some 35"
    by code_simp+
  then show ?thesis
    using BitmapFindFirstZero_correct [of 40 "[0xFFFFFFFF, 7]"] BitmapFindFirstZero_correct [of 40 "[0xFFFFFFFB, 7]" 3]
      BitmapFindFirstZero_correct [of 40 "[0xFFFFFFFF, 0xFF]"]
    by simp
qed

end
